(* ===== verification/CA_Prelude.thy ===== *)
theory CA_Prelude
  imports Main "HOL-Library.AList"
begin

text \<open>
  Shared vocabulary of the development.

  \<^item> Go maps. A Go \<open>map[K]V\<close> is a finite map whose \<open>range\<close> loop visits the entries in an order the
    language leaves open. It is modelled as an association list with distinct keys
    (\<open>gmap\<close>, invariant \<open>gm_wf\<close>): \<open>map_of\<close> is the index expression, \<open>gput\<close> the assignment
    \<open>m[k] = v\<close>, \<open>gdel\<close> the built-in \<open>delete(m, k)\<close>, \<open>length\<close> is \<open>len(m)\<close>, and a \<open>range\<close> loop visits
    the entries in list order. Properties are stated through \<open>map_of\<close>, so they hold for every
    order of the entries.
  \<^item> Machines with outputs. \<open>run\<close> executes a list of operations and collects their results; it is
    used to compare an implementation with its specification on whole histories.
  \<^item> The \<open>Forkable\<close> contract (src/pkg/simulator/clustersnapshot/clustersnapshot.go): a
    component that can be forked, reverted and committed refines a stack of values. The locale
    \<open>forkable\<close> states the contract once, with the lemmas its clients use.
\<close>

named_theorems gmap_simps "rewrite rules that read a Go map after a write"

section \<open>Go maps\<close>

type_synonym ('k, 'v) gmap = "('k \<times> 'v) list"

definition gm_wf :: "('k, 'v) gmap \<Rightarrow> bool" where
  "gm_wf m \<longleftrightarrow> distinct (map fst m)"

definition gput :: "'k \<Rightarrow> 'v \<Rightarrow> ('k, 'v) gmap \<Rightarrow> ('k, 'v) gmap" where
  "gput k v m = AList.update k v m"

definition gdel :: "'k \<Rightarrow> ('k, 'v) gmap \<Rightarrow> ('k, 'v) gmap" where
  "gdel k m = AList.delete k m"

text \<open>\<open>m[k]\<close> with the zero value \<open>z\<close> of the element type for a missing key.\<close>

definition gget :: "'v \<Rightarrow> ('k, 'v) gmap \<Rightarrow> 'k \<Rightarrow> 'v" where
  "gget z m k = (case map_of m k of None \<Rightarrow> z | Some v \<Rightarrow> v)"

definition ghas :: "('k, 'v) gmap \<Rightarrow> 'k \<Rightarrow> bool" where
  "ghas m k \<longleftrightarrow> map_of m k \<noteq> None"

lemma gput_simps [simp]:
  "gput k v [] = [(k, v)]"
  "gput k v ((k', v') # m) = (if k = k' then (k, v) # m else (k', v') # gput k v m)"
  by (auto simp: gput_def)

lemma gdel_simps [simp]:
  "gdel k [] = []"
  "gdel k ((k', v') # m) = (if k = k' then gdel k m else (k', v') # gdel k m)"
  by (auto simp: gdel_def)

lemma map_of_gput [simp, gmap_simps]: "map_of (gput k v m) = (map_of m)(k \<mapsto> v)"
  by (simp add: gput_def update_conv')

lemma map_of_gdel [simp, gmap_simps]: "map_of (gdel k m) = (map_of m)(k := None)"
  by (simp add: gdel_def delete_conv')

lemma gm_wf_Nil [simp, intro!]: "gm_wf []"
  by (simp add: gm_wf_def)

lemma gm_wf_Cons [simp]: "gm_wf ((k, v) # m) \<longleftrightarrow> k \<notin> fst ` set m \<and> gm_wf m"
  by (simp add: gm_wf_def)

lemma gm_wf_gput [simp, intro]: "gm_wf m \<Longrightarrow> gm_wf (gput k v m)"
  by (simp add: gm_wf_def gput_def distinct_update)

lemma gm_wf_gdel [simp, intro]: "gm_wf m \<Longrightarrow> gm_wf (gdel k m)"
  by (simp add: gm_wf_def gdel_def distinct_delete)

lemma keys_gput [simp]: "fst ` set (gput k v m) = insert k (fst ` set m)"
  by (simp add: gput_def dom_update flip: image_set)

lemma keys_gdel [simp]: "fst ` set (gdel k m) = fst ` set m - {k}"
  by (metis dom_map_of_conv_image_fst dom_fun_upd map_of_gdel)

lemma set_gput_subset: "set (gput k v m) \<subseteq> insert (k, v) (set m)"
  by (induction m) (auto split: if_splits)

lemma set_gdel_subset: "set (gdel k m) \<subseteq> set m"
  by (induction m) (auto split: if_splits)

lemma ghas_iff: "ghas m k \<longleftrightarrow> k \<in> fst ` set m"
  by (simp add: ghas_def map_of_eq_None_iff)

lemma gget_gput [simp, gmap_simps]:
  "gget z (gput k v m) k' = (if k' = k then v else gget z m k')"
  by (simp add: gget_def)

lemma gget_gdel [simp, gmap_simps]:
  "gget z (gdel k m) k' = (if k' = k then z else gget z m k')"
  by (simp add: gget_def)

lemma ghas_gput [simp, gmap_simps]: "ghas (gput k v m) k' \<longleftrightarrow> k' = k \<or> ghas m k'"
  by (simp add: ghas_def)

lemma ghas_gdel [simp, gmap_simps]: "ghas (gdel k m) k' \<longleftrightarrow> k' \<noteq> k \<and> ghas m k'"
  by (simp add: ghas_def)

lemma gget_Nil [simp]: "gget z [] k = z"
  by (simp add: gget_def)

lemma ghas_Nil [simp]: "\<not> ghas [] k"
  by (simp add: ghas_def)

lemma gm_wf_map_of_in: "gm_wf m \<Longrightarrow> (k, v) \<in> set m \<longleftrightarrow> map_of m k = Some v"
  by (simp add: gm_wf_def)

lemma map_add_insert:
  "map_of es k = None \<Longrightarrow> m(k \<mapsto> v) ++ map_of es = m ++ map_of ((k, v) # es)"
  by (auto simp: map_add_def fun_eq_iff split: option.splits)

text \<open>A \<open>range\<close> loop that stores every visited entry, or deletes every visited key.\<close>

lemma map_of_foldl_gput:
  assumes "gm_wf es"
  shows "map_of (foldl (\<lambda>m (k, v). gput k v m) m es) = map_of m ++ map_of es"
  using assms
proof (induction es arbitrary: m)
  case Nil
  then show ?case by simp
next
  case (Cons e es)
  obtain k v where e: "e = (k, v)" by force
  from Cons.prems e have k: "map_of es k = None" and wf: "gm_wf es"
    by (auto simp: map_of_eq_None_iff)
  have "map_of (foldl (\<lambda>m (k, v). gput k v m) (gput k v m) es) = (map_of m)(k \<mapsto> v) ++ map_of es"
    using Cons.IH [OF wf, of "gput k v m"] by (simp only: map_of_gput)
  also have "\<dots> = map_of m ++ map_of (e # es)"
    unfolding e by (rule map_add_insert [OF k])
  finally show ?case by (simp only: e foldl_Cons prod.case)
qed

lemma map_of_foldl_gdel:
  "map_of (foldl (\<lambda>m k. gdel k m) m ks) = (\<lambda>k. if k \<in> set ks then None else map_of m k)"
  by (induction ks arbitrary: m) auto

lemma gm_wf_foldl_gput: "gm_wf m \<Longrightarrow> gm_wf (foldl (\<lambda>m (k, v). gput k v m) m es)"
  by (induction es arbitrary: m) auto

lemma gm_wf_foldl_gdel: "gm_wf m \<Longrightarrow> gm_wf (foldl (\<lambda>m k. gdel k m) m ks)"
  by (induction ks arbitrary: m) auto

lemma set_map_disjointI:
  "(\<And>x y. x \<in> set xs \<Longrightarrow> y \<in> set ys \<Longrightarrow> f x \<noteq> f y) \<Longrightarrow> set (map f xs) \<inter> set (map f ys) = {}"
  by auto

section \<open>Machines with outputs\<close>

fun run :: "('op \<Rightarrow> 's \<Rightarrow> 'r \<times> 's) \<Rightarrow> 'op list \<Rightarrow> 's \<Rightarrow> 'r list \<times> 's" where
  "run step [] s = ([], s)"
| "run step (op # ops) s =
     (let (r, s') = step op s; (rs, s'') = run step ops s' in (r # rs, s''))"

lemma run_append:
  "run step (xs @ ys) s =
     (let (rs, s') = run step xs s; (rs', s'') = run step ys s' in (rs @ rs', s''))"
  by (induction xs arbitrary: s) (auto simp: Let_def split: prod.splits)

section \<open>The Forkable contract: a stack of values\<close>

datatype 'u snap_op = Fork | Revert | Commit | Upd 'u

datatype 'r snap_out = Done | Out 'r

text \<open>
  The reference machine: the top of the stack is the current value. \<open>Fork\<close> duplicates it,
  \<open>Revert\<close> drops it, \<open>Commit\<close> lets it replace the value below; on an unforked component
  \<open>Revert\<close> and \<open>Commit\<close> do nothing.
\<close>

fun stack_step :: "('u \<Rightarrow> 'm \<Rightarrow> 'r \<times> 'm) \<Rightarrow> 'u snap_op \<Rightarrow> 'm list \<Rightarrow> 'r snap_out \<times> 'm list" where
  "stack_step au Fork (m # ms) = (Done, m # m # ms)"
| "stack_step au Revert (m # m' # ms) = (Done, m' # ms)"
| "stack_step au Commit (m # m' # ms) = (Done, m # ms)"
| "stack_step au (Upd u) (m # ms) = (let (r, m') = au u m in (Out r, m' # ms))"
| "stack_step au _ ms = (Done, ms)"

abbreviation stack_run ::
    "('u \<Rightarrow> 'm \<Rightarrow> 'r \<times> 'm) \<Rightarrow> 'u snap_op list \<Rightarrow> 'm list \<Rightarrow> 'r snap_out list \<times> 'm list" where
  "stack_run au \<equiv> run (stack_step au)"

lemma stack_run_Upds:
  "stack_run au (map Upd us) (m # ms) =
     (map Out (fst (run au us m)), snd (run au us m) # ms)"
  by (induction us arbitrary: m) (auto simp: Let_def split: prod.splits)

text \<open>What a client of a forked stack relies on: reverting restores, committing keeps.\<close>

lemma stack_run_fork_revert:
  "snd (stack_run au (Fork # map Upd us @ [Revert]) (m # ms)) = m # ms"
  by (simp add: run_append stack_run_Upds split: prod.splits)

lemma stack_run_fork_commit:
  "snd (stack_run au (Fork # map Upd us @ [Commit]) (m # ms)) =
     snd (stack_run au (map Upd us) (m # ms))"
  by (simp add: run_append stack_run_Upds split: prod.splits)

text \<open>The machine of a component given by its own operations.\<close>

fun snap_step :: "('s \<Rightarrow> 's) \<Rightarrow> ('s \<Rightarrow> 's) \<Rightarrow> ('s \<Rightarrow> 's) \<Rightarrow> ('u \<Rightarrow> 's \<Rightarrow> 'r \<times> 's) \<Rightarrow>
    'u snap_op \<Rightarrow> 's \<Rightarrow> 'r snap_out \<times> 's" where
  "snap_step fork revert commit upd Fork s = (Done, fork s)"
| "snap_step fork revert commit upd Revert s = (Done, revert s)"
| "snap_step fork revert commit upd Commit s = (Done, commit s)"
| "snap_step fork revert commit upd (Upd u) s = (let (r, s') = upd u s in (Out r, s'))"

locale forkable =
  fixes invar :: "'s \<Rightarrow> bool"
    and stk :: "'s \<Rightarrow> 'm list"
    and fork :: "'s \<Rightarrow> 's"
    and revert :: "'s \<Rightarrow> 's"
    and commit :: "'s \<Rightarrow> 's"
    and upd :: "'u \<Rightarrow> 's \<Rightarrow> 'r \<times> 's"
    and aupd :: "'u \<Rightarrow> 'm \<Rightarrow> 'r \<times> 'm"
  assumes stk_nonempty: "invar s \<Longrightarrow> stk s \<noteq> []"
    and invar_fork: "invar s \<Longrightarrow> invar (fork s)"
    and invar_revert: "invar s \<Longrightarrow> invar (revert s)"
    and invar_commit: "invar s \<Longrightarrow> invar (commit s)"
    and invar_upd: "invar s \<Longrightarrow> invar (snd (upd u s))"
    and stk_fork: "invar s \<Longrightarrow> stk (fork s) = hd (stk s) # stk s"
    and stk_revert: "invar s \<Longrightarrow> stk (revert s) = (if length (stk s) \<le> 1 then stk s else tl (stk s))"
    and stk_commit: "invar s \<Longrightarrow> stk (commit s) =
          (if length (stk s) \<le> 1 then stk s else hd (stk s) # tl (tl (stk s)))"
    and upd_out: "invar s \<Longrightarrow> fst (upd u s) = fst (aupd u (hd (stk s)))"
    and upd_stk: "invar s \<Longrightarrow> stk (snd (upd u s)) = snd (aupd u (hd (stk s))) # tl (stk s)"
begin

abbreviation step :: "'u snap_op \<Rightarrow> 's \<Rightarrow> 'r snap_out \<times> 's" where
  "step \<equiv> snap_step fork revert commit upd"

lemma invar_step: "invar s \<Longrightarrow> invar (snd (step op s))"
  by (cases op) (simp_all add: invar_fork invar_revert invar_commit invar_upd split_beta)

lemma step_refines:
  assumes "invar s"
  shows "fst (step op s) = fst (stack_step aupd op (stk s))"
    and "stk (snd (step op s)) = snd (stack_step aupd op (stk s))"
proof -
  from stk_nonempty [OF assms] obtain m ms where ms: "stk s = m # ms"
    by (cases "stk s") auto
  show "fst (step op s) = fst (stack_step aupd op (stk s))"
    using upd_out [OF assms] by (cases op; cases ms) (simp_all add: ms Let_def split_beta)
  show "stk (snd (step op s)) = snd (stack_step aupd op (stk s))"
    using assms upd_stk [OF assms]
    by (cases op; cases ms) (simp_all add: assms ms stk_fork stk_revert stk_commit Let_def split_beta)
qed

lemma invar_run: "invar s \<Longrightarrow> invar (snd (run step ops s))"
proof (induction ops arbitrary: s)
  case (Cons op ops)
  then show ?case using invar_step [of s op] by (simp add: Let_def split_beta)
qed simp

text \<open>Every history has the results and the stack of the reference machine.\<close>

lemma run_refines:
  "invar s \<Longrightarrow> fst (run step ops s) = fst (stack_run aupd ops (stk s)) \<and>
     stk (snd (run step ops s)) = snd (stack_run aupd ops (stk s))"
proof (induction ops arbitrary: s)
  case (Cons op ops)
  obtain r s' where s': "step op s = (r, s')" by force
  have "invar s'" using invar_step [OF Cons.prems, of op] s' by simp
  from Cons.IH [OF this] step_refines [OF Cons.prems, of op] show ?case
    by (simp add: s' Let_def split_beta)
qed simp

lemma fork_revert:
  assumes "invar s"
  shows "stk (snd (run step (Fork # map Upd us @ [Revert]) s)) = stk s"
proof -
  from stk_nonempty [OF assms] obtain m ms where "stk s = m # ms"
    by (cases "stk s") auto
  with run_refines [OF assms] stack_run_fork_revert [of aupd us m ms] show ?thesis
    by metis
qed

lemma fork_commit:
  assumes "invar s"
  shows "stk (snd (run step (Fork # map Upd us @ [Commit]) s)) =
           stk (snd (run step (map Upd us) s))"
proof -
  from stk_nonempty [OF assms] obtain m ms where "stk s = m # ms"
    by (cases "stk s") auto
  with run_refines [OF assms] stack_run_fork_commit [of aupd us m ms] show ?thesis
    by metis
qed

end

end
