(* ===== verification/Patch_Sets.thy ===== *)
theory Patch_Sets
  imports CA_Prelude
begin

text \<open>
  src/pkg/simulator/common/patch.go and patchset.go: a stack of patches with a lazily filled
  cache, used by the DRA and CSI snapshots. Every operation of the two files is a definition
  here, the cache included. \<open>effective\<close> is the map the layers denote; the invariant \<open>ps_inv\<close>
  says that every cached entry agrees with it, and that a cache marked in sync misses no key.
  The component refines a plain stack of maps (\<open>forkable\<close>): no history of operations can tell
  the cached, layered structure from the stack.

  Patches are values here. In the code they are pointers owned by the patch set; the base
  patches handed to \<open>NewPatchSet\<close> must not be changed by the caller afterwards.
\<close>

section \<open>patch.go\<close>

record ('k, 'v) Patch =
  modified :: "('k, 'v) gmap"
  deleted :: "('k, bool) gmap"

definition Patch_Set :: "'k \<Rightarrow> 'v \<Rightarrow> ('k, 'v) Patch \<Rightarrow> ('k, 'v) Patch" where
  "Patch_Set key val p =
     p\<lparr>modified := gput key val (modified p), deleted := gdel key (deleted p)\<rparr>"

definition Patch_Delete :: "'k \<Rightarrow> ('k, 'v) Patch \<Rightarrow> ('k, 'v) Patch" where
  "Patch_Delete key p =
     p\<lparr>modified := gdel key (modified p), deleted := gput key True (deleted p)\<rparr>"

definition Patch_Get :: "'k \<Rightarrow> ('k, 'v) Patch \<Rightarrow> 'v option" where
  "Patch_Get key p = map_of (modified p) key"

definition Patch_IsDeleted :: "'k \<Rightarrow> ('k, 'v) Patch \<Rightarrow> bool" where
  "Patch_IsDeleted key p = gget False (deleted p) key"

definition NewPatch :: "('k, 'v) Patch" where
  "NewPatch = \<lparr>modified = [], deleted = []\<rparr>"

text \<open>\<open>None\<close> is the nil map.\<close>

definition NewPatchFromMap :: "('k, 'v) gmap option \<Rightarrow> ('k, 'v) Patch" where
  "NewPatchFromMap source =
     \<lparr>modified = (case source of None \<Rightarrow> [] | Some m \<Rightarrow> m), deleted = []\<rparr>"

definition mergePatchesInPlace ::
    "('k, 'v) Patch \<Rightarrow> ('k, 'v) Patch \<Rightarrow> ('k, 'v) Patch" where
  "mergePatchesInPlace a b =
     (let a' = foldl (\<lambda>a (key, val). Patch_Set key val a) a (modified b)
      in foldl (\<lambda>a key. Patch_Delete key a) a' (map fst (deleted b)))"

section \<open>patchset.go\<close>

record ('k, 'v) PatchSet =
  patches :: "('k, 'v) Patch list"
  cache :: "('k, 'v option) gmap"
  cacheInSync :: bool

definition NewPatchSet :: "('k, 'v) Patch list \<Rightarrow> ('k, 'v) PatchSet" where
  "NewPatchSet ps = \<lparr>patches = ps, cache = [], cacheInSync = False\<rparr>"

definition PatchSet_Fork :: "('k, 'v) PatchSet \<Rightarrow> ('k, 'v) PatchSet" where
  "PatchSet_Fork p = p\<lparr>patches := patches p @ [NewPatch]\<rparr>"

definition PatchSet_Commit :: "('k, 'v) PatchSet \<Rightarrow> ('k, 'v) PatchSet" where
  "PatchSet_Commit p =
     (let n = length (patches p) in
      if n < 2 then p
      else
        let currentPatch = patches p ! (n - 1);
            previousPatch = patches p ! (n - 2)
        in p\<lparr>patches :=
               take (n - 1) ((patches p)[n - 2 := mergePatchesInPlace previousPatch currentPatch])\<rparr>)"

definition PatchSet_Revert :: "('k, 'v) PatchSet \<Rightarrow> ('k, 'v) PatchSet" where
  "PatchSet_Revert p =
     (let n = length (patches p) in
      if n \<le> 1 then p
      else
        let currentPatch = patches p ! (n - 1);
            c1 = foldl (\<lambda>c key. gdel key c) (cache p) (map fst (modified currentPatch));
            c2 = foldl (\<lambda>c key. gdel key c) c1 (map fst (deleted currentPatch))
        in p\<lparr>patches := take (n - 1) (patches p), cache := c2, cacheInSync := False\<rparr>)"

text \<open>The loop of \<open>FindValue\<close>, over the layers from the topmost down.\<close>

fun find_in_layers :: "'k \<Rightarrow> ('k, 'v) Patch list \<Rightarrow> 'v option" where
  "find_in_layers key [] = None"
| "find_in_layers key (patch # below) =
     (if Patch_IsDeleted key patch then None
      else case Patch_Get key patch of
             Some foundValue \<Rightarrow> Some foundValue
           | None \<Rightarrow> find_in_layers key below)"

definition PatchSet_FindValue ::
    "'k \<Rightarrow> ('k, 'v) PatchSet \<Rightarrow> 'v option \<times> ('k, 'v) PatchSet" where
  "PatchSet_FindValue key p =
     (case map_of (cache p) key of
        Some cachedValue \<Rightarrow> (cachedValue, p)
      | None \<Rightarrow>
          let found = find_in_layers key (rev (patches p))
          in (found, p\<lparr>cache := gput key found (cache p)\<rparr>))"

text \<open>One round of the flattening loop of \<open>AsMap\<close>: a patch applied to the map built so far.\<close>

definition apply_layer :: "('k, 'v) gmap \<Rightarrow> ('k, 'v) Patch \<Rightarrow> ('k, 'v) gmap" where
  "apply_layer m patch =
     foldl (\<lambda>m key. gdel key m)
       (foldl (\<lambda>m (key, val). gput key val m) m (modified patch))
       (map fst (deleted patch))"

definition PatchSet_AsMap ::
    "('k, 'v) PatchSet \<Rightarrow> ('k, 'v) gmap \<times> ('k, 'v) PatchSet" where
  "PatchSet_AsMap p =
     (if cacheInSync p then
        (foldl (\<lambda>m (key, val). case val of None \<Rightarrow> m | Some v \<Rightarrow> gput key v m) [] (cache p), p)
      else
        let patchSetMap = foldl apply_layer [] (patches p);
            c = foldl (\<lambda>c (key, val). gput key (Some val) c) (cache p) patchSetMap
        in (patchSetMap, p\<lparr>cache := c, cacheInSync := True\<rparr>))"

definition PatchSet_SetCurrent ::
    "'k \<Rightarrow> 'v \<Rightarrow> ('k, 'v) PatchSet \<Rightarrow> ('k, 'v) PatchSet" where
  "PatchSet_SetCurrent key val p0 =
     (let p = (if patches p0 = [] then PatchSet_Fork p0 else p0);
          n = length (patches p);
          currentPatch = patches p ! (n - 1)
      in p\<lparr>patches := (patches p)[n - 1 := Patch_Set key val currentPatch],
           cache := gput key (Some val) (cache p)\<rparr>)"

definition PatchSet_DeleteCurrent ::
    "'k \<Rightarrow> ('k, 'v) PatchSet \<Rightarrow> ('k, 'v) PatchSet" where
  "PatchSet_DeleteCurrent key p0 =
     (let p = (if patches p0 = [] then PatchSet_Fork p0 else p0);
          n = length (patches p);
          currentPatch = patches p ! (n - 1)
      in p\<lparr>patches := (patches p)[n - 1 := Patch_Delete key currentPatch],
           cache := gput key None (cache p)\<rparr>)"

definition PatchSet_InCurrentPatch :: "'k \<Rightarrow> ('k, 'v) PatchSet \<Rightarrow> bool" where
  "PatchSet_InCurrentPatch key p =
     (let n = length (patches p) in
      if n = 0 then False else Patch_Get key (patches p ! (n - 1)) \<noteq> None)"

definition PatchSet_totalKeyCount :: "('k, 'v) PatchSet \<Rightarrow> nat" where
  "PatchSet_totalKeyCount p = foldl (\<lambda>count patch. count + length (modified patch)) 0 (patches p)"

definition clonePatch ::
    "('k \<Rightarrow> 'k) \<Rightarrow> ('v \<Rightarrow> 'v) \<Rightarrow> ('k, 'v) Patch \<Rightarrow> ('k, 'v) Patch" where
  "clonePatch cloneKey cloneValue patch =
     (let c = foldl (\<lambda>c (key, val). Patch_Set (cloneKey key) (cloneValue val) c)
                NewPatch (modified patch)
      in foldl (\<lambda>c key. Patch_Delete (cloneKey key) c) c (map fst (deleted patch)))"

definition ClonePatchSet ::
    "('k \<Rightarrow> 'k) \<Rightarrow> ('v \<Rightarrow> 'v) \<Rightarrow> ('k, 'v) PatchSet option \<Rightarrow> ('k, 'v) PatchSet option" where
  "ClonePatchSet cloneKey cloneValue ps =
     (case ps of
        None \<Rightarrow> None
      | Some ps \<Rightarrow>
          Some ((NewPatchSet [])\<lparr>patches := map (clonePatch cloneKey cloneValue) (patches ps)\<rparr>))"

section \<open>What the layers denote\<close>

definition patch_wf :: "('k, 'v) Patch \<Rightarrow> bool" where
  "patch_wf p \<longleftrightarrow> gm_wf (modified p) \<and> gm_wf (deleted p) \<and> (\<forall>e\<in>set (deleted p). snd e)"

text \<open>A patch as a function on maps: what it deletes is gone, what it modifies is overwritten.\<close>

definition patch_fun :: "('k, 'v) Patch \<Rightarrow> ('k \<rightharpoonup> 'v) \<Rightarrow> ('k \<rightharpoonup> 'v)" where
  "patch_fun p m = (\<lambda>k. if Patch_IsDeleted k p then None
                         else case Patch_Get k p of Some v \<Rightarrow> Some v | None \<Rightarrow> m k)"

text \<open>The effective map of a stack of layers, the base layer first.\<close>

definition effective :: "('k, 'v) Patch list \<Rightarrow> ('k \<rightharpoonup> 'v)" where
  "effective ps = foldl (\<lambda>m p. patch_fun p m) Map.empty ps"

text \<open>One map per layer, the current one first.\<close>

fun ps_levels :: "('k, 'v) Patch list \<Rightarrow> ('k \<rightharpoonup> 'v) list" where
  "ps_levels ps = rev (map (\<lambda>i. effective (take (Suc i) ps)) [0..<length ps])"

definition ps_stk :: "('k, 'v) PatchSet \<Rightarrow> ('k \<rightharpoonup> 'v) list" where
  "ps_stk p = ps_levels (patches p)"

definition ps_inv :: "('k, 'v) PatchSet \<Rightarrow> bool" where
  "ps_inv p \<longleftrightarrow>
     patches p \<noteq> [] \<and> (\<forall>q\<in>set (patches p). patch_wf q) \<and> gm_wf (cache p) \<and>
     (\<forall>k c. map_of (cache p) k = Some c \<longrightarrow> c = effective (patches p) k) \<and>
     (cacheInSync p \<longrightarrow> (\<forall>k. effective (patches p) k \<noteq> None \<longrightarrow> ghas (cache p) k))"

lemma effective_Nil [simp]: "effective [] = Map.empty"
  by (simp add: effective_def)

lemma effective_snoc [simp]: "effective (ps @ [p]) = patch_fun p (effective ps)"
  by (simp add: effective_def)

lemma effective_snoc2 [simp]: "effective (ps @ [b, a]) = patch_fun a (patch_fun b (effective ps))"
  by (simp add: effective_def)

lemma ps_levels_Nil [simp]: "ps_levels [] = []"
  by simp

lemma ps_levels_snoc [simp]:
  "ps_levels (ps @ [p]) = patch_fun p (effective ps) # ps_levels ps"
  by simp

declare ps_levels.simps [simp del]

lemma length_ps_levels [simp]: "length (ps_levels ps) = length ps"
  by (simp add: ps_levels.simps)

lemma Patch_IsDeleted_wf:
  assumes "patch_wf p"
  shows "Patch_IsDeleted k p \<longleftrightarrow> k \<in> fst ` set (deleted p)"
proof
  assume "k \<in> fst ` set (deleted p)"
  then obtain b where b: "map_of (deleted p) k = Some b"
    by (metis ghas_def ghas_iff not_None_eq)
  then have "(k, b) \<in> set (deleted p)" by (rule map_of_SomeD)
  with assms have b by (auto simp: patch_wf_def)
  with b show "Patch_IsDeleted k p" by (simp add: Patch_IsDeleted_def gget_def)
qed (auto simp: Patch_IsDeleted_def gget_def dest: map_of_SomeD split: option.splits
      intro: rev_image_eqI)

lemma patch_fun_untouched:
  "patch_wf p \<Longrightarrow> k \<notin> fst ` set (modified p) \<Longrightarrow> k \<notin> fst ` set (deleted p) \<Longrightarrow>
     patch_fun p m k = m k"
  using map_of_eq_None_iff [of "modified p" k]
  by (simp add: patch_fun_def Patch_IsDeleted_wf Patch_Get_def)

lemma patch_wf_NewPatch [simp]: "patch_wf NewPatch"
  by (simp add: patch_wf_def NewPatch_def)

lemma patch_fun_NewPatch [simp]: "patch_fun NewPatch m = m"
  by (simp add: patch_fun_def NewPatch_def Patch_IsDeleted_def Patch_Get_def)

lemma patch_wf_Set [simp]: "patch_wf p \<Longrightarrow> patch_wf (Patch_Set k v p)"
  using set_gdel_subset [of k "deleted p"] by (auto simp: patch_wf_def Patch_Set_def)

lemma patch_wf_Delete [simp]: "patch_wf p \<Longrightarrow> patch_wf (Patch_Delete k p)"
  using set_gput_subset [of k True "deleted p"] by (fastforce simp: patch_wf_def Patch_Delete_def)

lemma patch_fun_Set: "patch_fun (Patch_Set k v p) m = (patch_fun p m)(k \<mapsto> v)"
  by (auto simp: patch_fun_def Patch_Set_def Patch_IsDeleted_def Patch_Get_def fun_eq_iff)

lemma patch_fun_Delete: "patch_fun (Patch_Delete k p) m = (patch_fun p m)(k := None)"
  by (auto simp: patch_fun_def Patch_Delete_def Patch_IsDeleted_def Patch_Get_def fun_eq_iff)

lemma patch_wf_foldl_Set:
  "patch_wf a \<Longrightarrow> patch_wf (foldl (\<lambda>a (k, v). Patch_Set k v a) a es)"
  by (induction es arbitrary: a) auto

lemma patch_wf_foldl_Delete:
  "patch_wf a \<Longrightarrow> patch_wf (foldl (\<lambda>a k. Patch_Delete k a) a ks)"
  by (induction ks arbitrary: a) auto

lemma patch_fun_foldl_Set:
  assumes "gm_wf es"
  shows "patch_fun (foldl (\<lambda>a (k, v). Patch_Set k v a) a es) m = patch_fun a m ++ map_of es"
  using assms
proof (induction es arbitrary: a)
  case Nil
  then show ?case by simp
next
  case (Cons e es)
  obtain k v where e: "e = (k, v)" by force
  from Cons.prems e have k: "map_of es k = None" and wf: "gm_wf es"
    by (auto simp: map_of_eq_None_iff)
  show ?case
    using Cons.IH [OF wf, of "Patch_Set k v a"] k
    by (auto simp: e patch_fun_Set map_add_def fun_eq_iff split: option.splits)
qed

lemma patch_fun_foldl_Delete:
  "patch_fun (foldl (\<lambda>a k. Patch_Delete k a) a ks) m =
     (\<lambda>k. if k \<in> set ks then None else patch_fun a m k)"
  by (induction ks arbitrary: a) (auto simp: patch_fun_Delete fun_eq_iff)

text \<open>Merging two layers denotes the composition of the two.\<close>

lemma patch_fun_merge:
  assumes "patch_wf b"
  shows "patch_fun (mergePatchesInPlace a b) m = patch_fun b (patch_fun a m)"
proof
  fix k
  have "gm_wf (modified b)" using assms by (simp add: patch_wf_def)
  note Set = patch_fun_foldl_Set [OF this, of a m]
  show "patch_fun (mergePatchesInPlace a b) m k = patch_fun b (patch_fun a m) k"
    using Patch_IsDeleted_wf [OF assms, of k]
    by (auto simp: mergePatchesInPlace_def patch_fun_foldl_Delete Set patch_fun_def [of b]
        Patch_Get_def map_add_def split: option.splits)
qed

lemma patch_wf_merge: "patch_wf a \<Longrightarrow> patch_wf (mergePatchesInPlace a b)"
  by (simp add: mergePatchesInPlace_def patch_wf_foldl_Set patch_wf_foldl_Delete)

lemma find_in_layers_eq: "find_in_layers k (rev ps) = effective ps k"
  by (induction ps rule: rev_induct) (auto simp: patch_fun_def split: option.splits)

lemma map_of_apply_layer:
  assumes "patch_wf p"
  shows "map_of (apply_layer m p) = patch_fun p (map_of m)"
proof
  fix k
  have "gm_wf (modified p)" using assms by (simp add: patch_wf_def)
  note put = map_of_foldl_gput [OF this, of m]
  show "map_of (apply_layer m p) k = patch_fun p (map_of m) k"
    using Patch_IsDeleted_wf [OF assms, of k]
    by (auto simp: apply_layer_def map_of_foldl_gdel put patch_fun_def Patch_Get_def map_add_def
        split: option.splits)
qed

lemma gm_wf_apply_layer: "gm_wf m \<Longrightarrow> gm_wf (apply_layer m p)"
  by (simp add: apply_layer_def gm_wf_foldl_gput gm_wf_foldl_gdel)

lemma foldl_apply_layer:
  assumes "\<forall>q\<in>set ps. patch_wf q"
  shows "map_of (foldl apply_layer [] ps) = effective ps" and "gm_wf (foldl apply_layer [] ps)"
  using assms by (induction ps rule: rev_induct) (auto simp: map_of_apply_layer gm_wf_apply_layer)

lemma foldl_cached_values:
  assumes "gm_wf c"
  shows "map_of (foldl (\<lambda>m (key, val). case val of None \<Rightarrow> m | Some v \<Rightarrow> gput key v m) m c) =
         (\<lambda>k. case map_of c k of Some (Some v) \<Rightarrow> Some v | _ \<Rightarrow> map_of m k)"
  using assms
proof (induction c arbitrary: m)
  case Nil
  then show ?case by simp
next
  case (Cons e c)
  obtain k v where e: "e = (k, v)" by force
  from Cons.prems e have k: "map_of c k = None" and wf: "gm_wf c"
    by (auto simp: map_of_eq_None_iff)
  show ?case
    by (cases v) (auto simp: e Cons.IH [OF wf] k fun_eq_iff split: option.splits)
qed

lemma foldl_fill_cache:
  assumes "gm_wf es"
  shows "map_of (foldl (\<lambda>c (key, val). gput key (Some val) c) c es) =
         (\<lambda>k. case map_of es k of Some v \<Rightarrow> Some (Some v) | None \<Rightarrow> map_of c k)"
  using assms
proof (induction es arbitrary: c)
  case Nil
  then show ?case by simp
next
  case (Cons e es)
  obtain k v where e: "e = (k, v)" by force
  from Cons.prems e have k: "map_of es k = None" and wf: "gm_wf es"
    by (auto simp: map_of_eq_None_iff)
  show ?case
    by (auto simp: e Cons.IH [OF wf] k fun_eq_iff split: option.splits)
qed

lemma gm_wf_fill_cache: "gm_wf c \<Longrightarrow> gm_wf (foldl (\<lambda>c (key, val). gput key (Some val) c) c es)"
  by (induction es arbitrary: c) auto

section \<open>The operations keep the invariant and act on the stack of maps\<close>

lemma ps_invI:
  assumes "patches p \<noteq> []" and "\<And>q. q \<in> set (patches p) \<Longrightarrow> patch_wf q" and "gm_wf (cache p)"
    and "\<And>k c. map_of (cache p) k = Some c \<Longrightarrow> c = effective (patches p) k"
    and "\<And>k v. cacheInSync p \<Longrightarrow> effective (patches p) k = Some v \<Longrightarrow> ghas (cache p) k"
  shows "ps_inv p"
  using assms by (auto simp: ps_inv_def)

lemma ps_invD:
  assumes "ps_inv p"
  shows "patches p \<noteq> []" and "\<And>q. q \<in> set (patches p) \<Longrightarrow> patch_wf q" and "gm_wf (cache p)"
    and "\<And>k c. map_of (cache p) k = Some c \<Longrightarrow> c = effective (patches p) k"
    and "\<And>k v. cacheInSync p \<Longrightarrow> effective (patches p) k = Some v \<Longrightarrow> ghas (cache p) k"
  using assms by (auto simp: ps_inv_def)

text \<open>A non-empty patch set has a topmost patch; the operations are read in terms of it.\<close>

lemma patches_snocE:
  assumes "ps_inv p"
  obtains below top where "patches p = below @ [top]"
  using ps_invD(1) [OF assms] by (metis append_butlast_last_id)

lemma hd_ps_stk: "ps_inv p \<Longrightarrow> hd (ps_stk p) = effective (patches p)"
  by (erule patches_snocE) (simp add: ps_stk_def)

lemma ps_inv_Fork: "ps_inv p \<Longrightarrow> ps_inv (PatchSet_Fork p)"
  by (auto simp: PatchSet_Fork_def intro!: ps_invI dest: ps_invD)

lemma ps_stk_Fork: "ps_inv p \<Longrightarrow> ps_stk (PatchSet_Fork p) = hd (ps_stk p) # ps_stk p"
  using hd_ps_stk [of p] by (simp add: PatchSet_Fork_def ps_stk_def)

lemma Commit_snoc2:
  assumes "patches p = ps @ [b, a]"
  shows "PatchSet_Commit p = p\<lparr>patches := ps @ [mergePatchesInPlace b a]\<rparr>"
  using assms by (simp add: PatchSet_Commit_def Let_def nth_append list_update_append)

lemma Commit_single: "patches p = [a] \<Longrightarrow> PatchSet_Commit p = p"
  by (simp add: PatchSet_Commit_def)

lemma Revert_snoc2:
  assumes "patches p = ps @ [b, a]"
  shows "PatchSet_Revert p =
    p\<lparr>patches := ps @ [b],
      cache := foldl (\<lambda>c k. gdel k c) (cache p) (map fst (modified a) @ map fst (deleted a)),
      cacheInSync := False\<rparr>"
  using assms by (simp add: PatchSet_Revert_def Let_def nth_append)

lemma Revert_single: "patches p = [a] \<Longrightarrow> PatchSet_Revert p = p"
  by (simp add: PatchSet_Revert_def)

text \<open>A patch set in the invariant is unforked or has two topmost layers.\<close>

lemma patches_cases:
  assumes "ps_inv p"
  obtains (single) a where "patches p = [a]"
  | (forked) ps b a where "patches p = ps @ [b, a]"
proof -
  obtain below a where a: "patches p = below @ [a]" using patches_snocE [OF assms] .
  show ?thesis
  proof (cases below rule: rev_cases)
    case Nil
    with a single show ?thesis by simp
  next
    case (snoc ps b)
    with a forked show ?thesis by simp
  qed
qed

lemma ps_inv_Commit:
  assumes "ps_inv p"
  shows "ps_inv (PatchSet_Commit p)"
  using assms
proof (cases rule: patches_cases)
  case (forked ps b a)
  note inv = ps_invD [OF assms, unfolded forked]
  have wf: "patch_wf a" "patch_wf b" using inv(2) by auto
  have "effective (ps @ [b, a]) = effective (ps @ [mergePatchesInPlace b a])"
    using wf by (simp add: patch_fun_merge)
  with inv wf show ?thesis
    by (auto simp: Commit_snoc2 [OF forked] patch_wf_merge intro!: ps_invI)
qed (simp add: assms Commit_single)

lemma ps_stk_Commit:
  assumes "ps_inv p"
  shows "ps_stk (PatchSet_Commit p) =
    (if length (ps_stk p) \<le> 1 then ps_stk p else hd (ps_stk p) # tl (tl (ps_stk p)))"
  using assms
proof (cases rule: patches_cases)
  case (forked ps b a)
  have "ps_levels (ps @ [b, a]) =
      patch_fun a (patch_fun b (effective ps)) # patch_fun b (effective ps) # ps_levels ps"
    using ps_levels_snoc [of "ps @ [b]" a] by simp
  moreover have "patch_wf a" using ps_invD(2) [OF assms] forked by simp
  ultimately show ?thesis
    by (simp add: ps_stk_def Commit_snoc2 [OF forked] forked patch_fun_merge)
qed (simp add: Commit_single ps_stk_def)

lemma ps_inv_Revert:
  assumes "ps_inv p"
  shows "ps_inv (PatchSet_Revert p)"
  using assms
proof (cases rule: patches_cases)
  case (forked ps b a)
  note inv = ps_invD [OF assms, unfolded forked]
  let ?ks = "map fst (modified a) @ map fst (deleted a)"
  have wf: "patch_wf a" using inv(2) by simp
  have eq: "effective (ps @ [b, a]) k = effective (ps @ [b]) k" if "k \<notin> set ?ks" for k
    using that wf by (simp add: patch_fun_untouched)
  show ?thesis
  proof (rule ps_invI)
    fix k c
    assume "map_of (cache (PatchSet_Revert p)) k = Some c"
    then have "k \<notin> set ?ks" and "map_of (cache p) k = Some c"
      by (simp_all add: Revert_snoc2 [OF forked] map_of_foldl_gdel del: foldl_append split: if_splits)
    with inv(4) [of k c] eq [of k] show "c = effective (patches (PatchSet_Revert p)) k"
      by (simp add: Revert_snoc2 [OF forked])
  qed (use inv in \<open>auto simp: Revert_snoc2 [OF forked] gm_wf_foldl_gdel\<close>)
qed (simp add: assms Revert_single)

lemma ps_stk_Revert:
  assumes "ps_inv p"
  shows "ps_stk (PatchSet_Revert p) =
    (if length (ps_stk p) \<le> 1 then ps_stk p else tl (ps_stk p))"
  using assms
proof (cases rule: patches_cases)
  case (forked ps b a)
  then show ?thesis
    using ps_levels_snoc [of "ps @ [b]" a] by (simp add: ps_stk_def Revert_snoc2)
qed (simp add: Revert_single ps_stk_def)

lemma SetCurrent_snoc:
  "patches p = ps @ [a] \<Longrightarrow> PatchSet_SetCurrent k v p =
     p\<lparr>patches := ps @ [Patch_Set k v a], cache := gput k (Some v) (cache p)\<rparr>"
  by (simp add: PatchSet_SetCurrent_def Let_def list_update_append)

lemma DeleteCurrent_snoc:
  "patches p = ps @ [a] \<Longrightarrow> PatchSet_DeleteCurrent k p =
     p\<lparr>patches := ps @ [Patch_Delete k a], cache := gput k None (cache p)\<rparr>"
  by (simp add: PatchSet_DeleteCurrent_def Let_def list_update_append)

lemma ps_SetCurrent:
  assumes "ps_inv p"
  shows "ps_inv (PatchSet_SetCurrent k v p)"
    and "ps_stk (PatchSet_SetCurrent k v p) = (hd (ps_stk p))(k \<mapsto> v) # tl (ps_stk p)"
proof -
  obtain ps a where a: "patches p = ps @ [a]" using patches_snocE [OF assms] .
  note inv = ps_invD [OF assms, unfolded a]
  show "ps_inv (PatchSet_SetCurrent k v p)"
    using inv by (auto simp: SetCurrent_snoc [OF a] patch_fun_Set intro!: ps_invI split: if_splits)
  show "ps_stk (PatchSet_SetCurrent k v p) = (hd (ps_stk p))(k \<mapsto> v) # tl (ps_stk p)"
    by (simp add: ps_stk_def SetCurrent_snoc [OF a] a patch_fun_Set)
qed

lemma ps_DeleteCurrent:
  assumes "ps_inv p"
  shows "ps_inv (PatchSet_DeleteCurrent k p)"
    and "ps_stk (PatchSet_DeleteCurrent k p) = (hd (ps_stk p))(k := None) # tl (ps_stk p)"
proof -
  obtain ps a where a: "patches p = ps @ [a]" using patches_snocE [OF assms] .
  note inv = ps_invD [OF assms, unfolded a]
  show "ps_inv (PatchSet_DeleteCurrent k p)"
    using inv
    by (auto simp: DeleteCurrent_snoc [OF a] patch_fun_Delete intro!: ps_invI split: if_splits)
  show "ps_stk (PatchSet_DeleteCurrent k p) = (hd (ps_stk p))(k := None) # tl (ps_stk p)"
    by (simp add: ps_stk_def DeleteCurrent_snoc [OF a] a patch_fun_Delete)
qed

lemma ps_FindValue:
  assumes "ps_inv p"
  shows "fst (PatchSet_FindValue k p) = effective (patches p) k"
    and "ps_inv (snd (PatchSet_FindValue k p))"
    and "ps_stk (snd (PatchSet_FindValue k p)) = ps_stk p"
proof -
  note inv = ps_invD [OF assms]
  show "fst (PatchSet_FindValue k p) = effective (patches p) k"
    using inv(4) by (auto simp: PatchSet_FindValue_def find_in_layers_eq Let_def split: option.splits)
  show "ps_inv (snd (PatchSet_FindValue k p))"
    using assms inv by (auto simp: PatchSet_FindValue_def find_in_layers_eq Let_def
        intro!: ps_invI split: option.splits if_splits)
  show "ps_stk (snd (PatchSet_FindValue k p)) = ps_stk p"
    by (simp add: PatchSet_FindValue_def ps_stk_def Let_def split: option.splits)
qed

lemma ps_AsMap:
  assumes "ps_inv p"
  shows "map_of (fst (PatchSet_AsMap p)) = effective (patches p)"
    and "ps_inv (snd (PatchSet_AsMap p))"
    and "ps_stk (snd (PatchSet_AsMap p)) = ps_stk p"
proof -
  note inv = ps_invD [OF assms]
  have flat: "map_of (foldl apply_layer [] (patches p)) = effective (patches p)"
    "gm_wf (foldl apply_layer [] (patches p))"
    using foldl_apply_layer inv(2) by blast+
  have "map_of (fst (PatchSet_AsMap p)) k = effective (patches p) k" if "cacheInSync p" for k
    using inv(4) [of k] inv(5) [OF that, of k]
    by (cases "effective (patches p) k")
      (auto simp: PatchSet_AsMap_def that foldl_cached_values [OF inv(3)] ghas_def
        split: option.splits)
  with flat(1) show "map_of (fst (PatchSet_AsMap p)) = effective (patches p)"
    by (cases "cacheInSync p") (auto simp: PatchSet_AsMap_def Let_def)
  show "ps_inv (snd (PatchSet_AsMap p))"
    using assms inv flat
    by (auto simp: PatchSet_AsMap_def Let_def foldl_fill_cache [OF flat(2)] gm_wf_fill_cache ghas_def
        intro!: ps_invI split: option.splits)
  show "ps_stk (snd (PatchSet_AsMap p)) = ps_stk p"
    by (simp add: PatchSet_AsMap_def ps_stk_def Let_def)
qed

section \<open>Histories of operations\<close>

text \<open>
  The operations that do not change the stack structure, with their results; the two reads
  change the state too, because they fill the cache.
\<close>

datatype ('k, 'v) ps_op = FindValue 'k | AsMap | SetCurrent 'k 'v | DeleteCurrent 'k

datatype ('k, 'v) ps_out = Found "'v option" | Map "'k \<rightharpoonup> 'v" | Unit

fun ps_upd :: "('k, 'v) ps_op \<Rightarrow> ('k, 'v) PatchSet \<Rightarrow> ('k, 'v) ps_out \<times> ('k, 'v) PatchSet" where
  "ps_upd (FindValue k) p = (let (r, p') = PatchSet_FindValue k p in (Found r, p'))"
| "ps_upd AsMap p = (let (r, p') = PatchSet_AsMap p in (Map (map_of r), p'))"
| "ps_upd (SetCurrent k v) p = (Unit, PatchSet_SetCurrent k v p)"
| "ps_upd (DeleteCurrent k) p = (Unit, PatchSet_DeleteCurrent k p)"

text \<open>The same operations on a plain map.\<close>

fun map_upd :: "('k, 'v) ps_op \<Rightarrow> ('k \<rightharpoonup> 'v) \<Rightarrow> ('k, 'v) ps_out \<times> ('k \<rightharpoonup> 'v)" where
  "map_upd (FindValue k) m = (Found (m k), m)"
| "map_upd AsMap m = (Map m, m)"
| "map_upd (SetCurrent k v) m = (Unit, m(k \<mapsto> v))"
| "map_upd (DeleteCurrent k) m = (Unit, m(k := None))"

interpretation patch_set: forkable ps_inv ps_stk PatchSet_Fork PatchSet_Revert PatchSet_Commit
  ps_upd map_upd
proof unfold_locales
  fix p :: "('k, 'v) PatchSet" and u :: "('k, 'v) ps_op"
  assume inv: "ps_inv p"
  show "ps_stk p \<noteq> []" using inv by (rule patches_snocE) (simp add: ps_stk_def)
  show "ps_inv (PatchSet_Fork p)" using inv by (rule ps_inv_Fork)
  show "ps_inv (PatchSet_Revert p)" using inv by (rule ps_inv_Revert)
  show "ps_inv (PatchSet_Commit p)" using inv by (rule ps_inv_Commit)
  show "ps_stk (PatchSet_Fork p) = hd (ps_stk p) # ps_stk p" using inv by (rule ps_stk_Fork)
  show "ps_stk (PatchSet_Revert p) = (if length (ps_stk p) \<le> 1 then ps_stk p else tl (ps_stk p))"
    using inv by (rule ps_stk_Revert)
  show "ps_stk (PatchSet_Commit p) =
      (if length (ps_stk p) \<le> 1 then ps_stk p else hd (ps_stk p) # tl (tl (ps_stk p)))"
    using inv by (rule ps_stk_Commit)
  have "ps_stk p \<noteq> []" using inv by (rule patches_snocE) (simp add: ps_stk_def)
  then have stk: "hd (ps_stk p) # tl (ps_stk p) = ps_stk p" by simp
  note ops = ps_FindValue [OF inv] ps_AsMap [OF inv] ps_SetCurrent [OF inv] ps_DeleteCurrent [OF inv]
  show "ps_inv (snd (ps_upd u p))"
    using ops by (cases u) (simp_all add: split_beta)
  show "fst (ps_upd u p) = fst (map_upd u (hd (ps_stk p)))"
    using ops hd_ps_stk [OF inv] by (cases u) (simp_all add: split_beta)
  show "ps_stk (snd (ps_upd u p)) = snd (map_upd u (hd (ps_stk p))) # tl (ps_stk p)"
    using ops stk by (cases u) (simp_all add: split_beta)
qed

text \<open>A patch set over a base map starts in the invariant, with that map as its only level.\<close>

lemma ps_inv_NewPatchSet:
  assumes "gm_wf m"
  shows "ps_inv (NewPatchSet [NewPatchFromMap (Some m)])"
    and "ps_stk (NewPatchSet [NewPatchFromMap (Some m)]) = [map_of m]"
proof -
  have "patch_fun \<lparr>modified = m, deleted = []\<rparr> Map.empty = map_of m"
    by (auto simp: patch_fun_def Patch_IsDeleted_def Patch_Get_def fun_eq_iff split: option.splits)
  then show "ps_stk (NewPatchSet [NewPatchFromMap (Some m)]) = [map_of m]"
    using ps_levels_snoc [of "[]" "NewPatchFromMap (Some m)"] by (simp add: ps_stk_def NewPatchSet_def NewPatchFromMap_def)
  show "ps_inv (NewPatchSet [NewPatchFromMap (Some m)])"
    using assms by (auto simp: NewPatchSet_def NewPatchFromMap_def patch_wf_def intro!: ps_invI)
qed

abbreviation ps_step ::
    "('k, 'v) ps_op snap_op \<Rightarrow> ('k, 'v) PatchSet \<Rightarrow> ('k, 'v) ps_out snap_out \<times> ('k, 'v) PatchSet" where
  "ps_step \<equiv> snap_step PatchSet_Fork PatchSet_Revert PatchSet_Commit ps_upd"

section \<open>Properties\<close>

text \<open>
  C6. Whatever sequence of \<open>Fork\<close>, \<open>Revert\<close>, \<open>Commit\<close>, \<open>FindValue\<close>, \<open>AsMap\<close>, \<open>SetCurrent\<close> and
  \<open>DeleteCurrent\<close> is run on a patch set over a base map, every result is the one a plain stack
  of maps gives: neither the layering nor the lazily filled cache is ever visible.
\<close>

theorem patch_set_refines_stack_of_maps:
  assumes "gm_wf m"
  shows "fst (run ps_step ops (NewPatchSet [NewPatchFromMap (Some m)])) =
         fst (stack_run map_upd ops [map_of m])"
  using patch_set.run_refines [OF ps_inv_NewPatchSet(1) [OF assms]] ps_inv_NewPatchSet(2) [OF assms]
  by metis

theorem patch_set_refines_stack_of_maps_witness:
  "fst (run ps_step
      [Upd (FindValue ''a''), Fork, Upd (SetCurrent ''a'' 5), Upd (DeleteCurrent ''b''), Upd AsMap,
       Revert, Upd (FindValue ''b''), Upd (FindValue ''a'')]
      (NewPatchSet [NewPatchFromMap (Some [(''a'', 1), (''b'', 2 :: nat)])])) =
   [Out (Found (Some 1)), Done, Out Unit, Out Unit, Out (Map [''a'' \<mapsto> 5]), Done,
    Out (Found (Some 2)), Out (Found (Some 1))]"
proof -
  have "gm_wf [(''a'', 1), (''b'', 2 :: nat)]" by simp
  then show ?thesis
    by (subst patch_set_refines_stack_of_maps) (simp_all add: fun_eq_iff)
qed

text \<open>
  C17. \<open>Revert\<close> discards and \<open>Commit\<close> keeps: after a fork and any reads and writes, \<open>AsMap\<close> returns
  the contents before the fork when the fork is reverted, and the contents the same operations
  produce without forking when it is committed.
\<close>

theorem patch_set_fork_then_revert_or_commit:
  assumes "ps_inv p"
  shows "map_of (fst (PatchSet_AsMap (snd (run ps_step (Fork # map Upd us @ [Revert]) p)))) =
           map_of (fst (PatchSet_AsMap p)) \<and>
         map_of (fst (PatchSet_AsMap (snd (run ps_step (Fork # map Upd us @ [Commit]) p)))) =
           map_of (fst (PatchSet_AsMap (snd (run ps_step (map Upd us) p))))"
proof -
  have obs: "map_of (fst (PatchSet_AsMap q)) = hd (ps_stk q)" if "ps_inv q"
    for q :: "('a, 'b) PatchSet"
    using ps_AsMap(1) [OF that] hd_ps_stk [OF that] by simp
  note inv = patch_set.invar_run [OF assms]
  show ?thesis
    by (simp only: obs assms inv patch_set.fork_revert patch_set.fork_commit)
qed

theorem patch_set_fork_then_revert_or_commit_witness:
  "map_of (fst (PatchSet_AsMap (snd (run ps_step [Fork, Upd (SetCurrent ''a'' (7 :: nat)), Revert]
       (NewPatchSet [NewPatchFromMap (Some [(''a'', 1)])]))))) = [''a'' \<mapsto> 1]"
  using patch_set_fork_then_revert_or_commit
    [OF ps_inv_NewPatchSet(1) [of "[(''a'', 1 :: nat)]"], of "[SetCurrent ''a'' 7]", THEN conjunct1]
  by (simp add: Let_def PatchSet_AsMap_def NewPatchSet_def NewPatchFromMap_def apply_layer_def)

end
