(* ===== verification/Snapshot_Api.thy ===== *)
theory Snapshot_Api
  imports CA_Prelude "HOL-Library.Multiset"
begin

text \<open>
  What the snapshot stores of src/pkg/simulator/clustersnapshot/store use of other code, and the
  specification both stores are measured against.

  The stores hold scheduler objects (\<open>NodeInfo\<close>, \<open>PodInfo\<close>) of the Kubernetes scheduler framework,
  which is not part of the repository: its operations are the record \<open>node_info_api\<close>, an
  argument of every definition that uses them. What the stores rely on is \<open>node_info_ok\<close>:
  \<open>Snapshot\<close> copies, adding or removing a pod does not rename the node, and the pod-derived
  fields of a node info without pods are empty.

  \<open>model_upd\<close> is the specification of the mutating operations of \<open>ClusterSnapshotStore\<close>
  (src/pkg/simulator/clustersnapshot/clustersnapshot.go) on a plain map from node names to node
  infos; \<open>Basic_Snapshot\<close> and \<open>Delta_Snapshot\<close> refine it.
\<close>

record ('ni, 'pi, 'pod) node_info_api =
  Node_Name :: "'ni \<Rightarrow> string"
  GetPods :: "'ni \<Rightarrow> 'pi list"
  AddPodInfo :: "'pi \<Rightarrow> 'ni \<Rightarrow> 'ni"
  RemovePod :: "'pod \<Rightarrow> 'ni \<Rightarrow> string + 'ni"
  Snapshot :: "'ni \<Rightarrow> 'ni"
  GetPodsWithAffinity :: "'ni \<Rightarrow> 'pi list"
  GetPodsWithRequiredAntiAffinity :: "'ni \<Rightarrow> 'pi list"
  GetPVCRefCounts :: "'ni \<Rightarrow> (string, int) gmap"
  GetPod :: "'pi \<Rightarrow> 'pod option"
  Namespace :: "'pod \<Rightarrow> string"
  Pod_Name :: "'pod \<Rightarrow> string"
  Volumes :: "'pod \<Rightarrow> string option list"
  GetNamespacedName :: "string \<Rightarrow> string \<Rightarrow> string"

text \<open>
  \<open>Volumes\<close> lists the volumes of the pod, \<open>Some claim\<close> for a persistent volume claim. \<open>GetPod\<close>
  is \<open>None\<close> for a nil pod.
\<close>

definition node_info_ok :: "('ni, 'pi, 'pod) node_info_api \<Rightarrow> bool" where
  "node_info_ok N \<longleftrightarrow>
     (\<forall>ni. Snapshot N ni = ni) \<and>
     (\<forall>pi ni. Node_Name N (AddPodInfo N pi ni) = Node_Name N ni) \<and>
     (\<forall>pod ni ni'. RemovePod N pod ni = Inr ni' \<longrightarrow> Node_Name N ni' = Node_Name N ni) \<and>
     (\<forall>ni. gm_wf (GetPVCRefCounts N ni)) \<and>
     (\<forall>ni. GetPods N ni = [] \<longrightarrow> GetPodsWithAffinity N ni = [] \<and>
        GetPodsWithRequiredAntiAffinity N ni = [] \<and> GetPVCRefCounts N ni = [])"

lemma node_info_okD:
  assumes "node_info_ok N"
  shows "Snapshot N ni = ni" and "Node_Name N (AddPodInfo N pi ni) = Node_Name N ni"
    and "RemovePod N pod ni = Inr ni' \<Longrightarrow> Node_Name N ni' = Node_Name N ni"
    and "gm_wf (GetPVCRefCounts N ni)"
    and "GetPods N ni = [] \<Longrightarrow> GetPodsWithAffinity N ni = []"
    and "GetPods N ni = [] \<Longrightarrow> GetPodsWithRequiredAntiAffinity N ni = []"
    and "GetPods N ni = [] \<Longrightarrow> GetPVCRefCounts N ni = []"
  using assms by (auto simp: node_info_ok_def)

text \<open>The errors of the stores; \<open>NilPod\<close> is the nil dereference of a pod info without a pod.\<close>

datatype snap_error =
    ErrNodeNotFound
  | NodeAlreadyInSnapshot string
  | CannotRemovePod string
  | PodNotInSnapshot string string
  | NilPod

text \<open>
  The search loop of \<open>removePod\<close> (both stores): the first pod of the node with the given namespace
  and name.
\<close>

fun find_pod ::
    "('ni, 'pi, 'pod) node_info_api \<Rightarrow> string \<Rightarrow> string \<Rightarrow> 'pi list \<Rightarrow> snap_error + 'pod" where
  "find_pod N ns name [] = Inl (PodNotInSnapshot ns name)"
| "find_pod N ns name (podInfo # rest) =
     (case GetPod N podInfo of
        None \<Rightarrow> Inl NilPod
      | Some pod \<Rightarrow>
          if Namespace N pod = ns \<and> Pod_Name N pod = name then Inr pod
          else find_pod N ns name rest)"

section \<open>The specification: a map from node names to node infos\<close>

datatype ('ni, 'pi) store_op =
    StoreNodeInfo 'ni
  | RemoveNodeInfo string
  | StorePodInfo 'pi string
  | RemovePodInfo string string string
  | GetNodeInfo string
  | ListNodeInfos
  | ListAffinity
  | ListAntiAffinity

text \<open>The listings of a store have no specified order: their result is a multiset.\<close>

datatype 'ni store_out =
  Result "snap_error option" | Node "snap_error + 'ni" | Nodes "'ni multiset"

definition model_list ::
    "('ni, 'pi, 'pod) node_info_api \<Rightarrow> ('ni \<Rightarrow> bool) \<Rightarrow> (string \<rightharpoonup> 'ni) \<Rightarrow> 'ni multiset" where
  "model_list N P m = mset_set {ni. m (Node_Name N ni) = Some ni \<and> P ni}"

fun model_upd :: "('ni, 'pi, 'pod) node_info_api \<Rightarrow> ('ni, 'pi) store_op \<Rightarrow>
    (string \<rightharpoonup> 'ni) \<Rightarrow> 'ni store_out \<times> (string \<rightharpoonup> 'ni)" where
  "model_upd N (StoreNodeInfo ni) m =
     (if m (Node_Name N ni) \<noteq> None then (Result (Some (NodeAlreadyInSnapshot (Node_Name N ni))), m)
      else (Result None, m(Node_Name N ni \<mapsto> ni)))"
| "model_upd N (RemoveNodeInfo n) m =
     (if m n = None then (Result (Some ErrNodeNotFound), m) else (Result None, m(n := None)))"
| "model_upd N (StorePodInfo pi n) m =
     (case m n of
        None \<Rightarrow> (Result (Some ErrNodeNotFound), m)
      | Some ni \<Rightarrow> (Result None, m(n \<mapsto> AddPodInfo N pi ni)))"
| "model_upd N (RemovePodInfo ns p n) m =
     (case m n of
        None \<Rightarrow> (Result (Some ErrNodeNotFound), m)
      | Some ni \<Rightarrow>
          (case find_pod N ns p (GetPods N ni) of
             Inl e \<Rightarrow> (Result (Some e), m)
           | Inr pod \<Rightarrow>
               (case RemovePod N pod ni of
                  Inl e \<Rightarrow> (Result (Some (CannotRemovePod e)), m)
                | Inr ni' \<Rightarrow> (Result None, m(n \<mapsto> ni')))))"
| "model_upd N (GetNodeInfo n) m =
     (Node (case m n of None \<Rightarrow> Inl ErrNodeNotFound | Some ni \<Rightarrow> Inr ni), m)"
| "model_upd N ListNodeInfos m = (Nodes (model_list N (\<lambda>_. True) m), m)"
| "model_upd N ListAffinity m =
     (Nodes (model_list N (\<lambda>ni. GetPodsWithAffinity N ni \<noteq> []) m), m)"
| "model_upd N ListAntiAffinity m =
     (Nodes (model_list N (\<lambda>ni. GetPodsWithRequiredAntiAffinity N ni \<noteq> []) m), m)"

text \<open>Every entry of a store is filed under the name of its node.\<close>

definition named :: "('ni, 'pi, 'pod) node_info_api \<Rightarrow> (string \<rightharpoonup> 'ni) \<Rightarrow> bool" where
  "named N m \<longleftrightarrow> (\<forall>n ni. m n = Some ni \<longrightarrow> Node_Name N ni = n)"

lemma named_empty [simp]: "named N Map.empty"
  by (simp add: named_def)

lemma named_model_upd:
  assumes "node_info_ok N" and "named N m"
  shows "named N (snd (model_upd N op m))"
  using assms
  by (cases op) (auto simp: named_def node_info_okD split: option.splits sum.splits)

text \<open>\<open>lists_view N m l\<close>: the list \<open>l\<close> has exactly the entries of \<open>m\<close>, each once.\<close>

definition lists_view ::
    "('ni, 'pi, 'pod) node_info_api \<Rightarrow> (string \<rightharpoonup> 'ni) \<Rightarrow> 'ni list \<Rightarrow> bool" where
  "lists_view N m l \<longleftrightarrow>
     distinct (map (Node_Name N) l) \<and> (\<forall>ni. ni \<in> set l \<longleftrightarrow> m (Node_Name N ni) = Some ni)"

lemma lists_view_append:
  "lists_view N m l \<Longrightarrow> m (Node_Name N ni) = None \<Longrightarrow>
     lists_view N (m(Node_Name N ni \<mapsto> ni)) (l @ [ni])"
  by (auto simp: lists_view_def)

lemma lists_view_values:
  assumes "gm_wf g" and "named N (map_of g)"
  shows "lists_view N (map_of g) (map snd g)"
proof -
  have key: "Node_Name N ni = n" if "(n, ni) \<in> set g" for n ni
    using assms that by (simp add: named_def gm_wf_map_of_in)
  then have eq: "map (Node_Name N \<circ> snd) g = map fst g"
    by auto
  have "distinct (map (Node_Name N \<circ> snd) g)"
    using assms(1) by (simp only: eq gm_wf_def)
  moreover have "ni \<in> set (map snd g) \<longleftrightarrow> map_of g (Node_Name N ni) = Some ni" for ni
    using key assms(1) by (force simp: gm_wf_map_of_in [symmetric])
  ultimately show ?thesis
    by (simp add: lists_view_def)
qed

lemma mset_lists_view:
  assumes "lists_view N m l"
  shows "mset (filter P l) = model_list N P m"
proof -
  have "distinct (filter P l)" and "set (filter P l) = {ni. m (Node_Name N ni) = Some ni \<and> P ni}"
    using assms by (auto simp: lists_view_def distinct_map)
  then show ?thesis by (metis model_list_def mset_set_set)
qed

lemma mset_lists_view_all:
  assumes "lists_view N m l"
  shows "mset l = model_list N (\<lambda>_. True) m"
  using mset_lists_view [OF assms, of "\<lambda>_. True"] by simp

end
