(* ===== verification/Basic_Snapshot.thy ===== *)
theory Basic_Snapshot
  imports Snapshot_Api
begin

text \<open>
  src/pkg/simulator/clustersnapshot/store/basic.go: the reference implementation of
  \<open>ClusterSnapshotStore\<close>. A fork clones the whole state; the stack \<open>data\<close> has the current state
  last. Node infos are values: the code mutates the node info a map entry points to, the model
  writes the changed value back under the same key.
\<close>

section \<open>internalBasicSnapshotData\<close>

record 'ni internalBasicSnapshotData =
  nodeInfoMap :: "(string, 'ni) gmap"
  pvcNamespacePodMap :: "(string, (string, bool) gmap) gmap"

definition basic_listNodeInfos :: "'ni internalBasicSnapshotData \<Rightarrow> 'ni list" where
  "basic_listNodeInfos d = map snd (nodeInfoMap d)"

definition basic_listNodeInfosThatHavePodsWithAffinityList ::
    "('ni, 'pi, 'pod) node_info_api \<Rightarrow> 'ni internalBasicSnapshotData \<Rightarrow> 'ni list" where
  "basic_listNodeInfosThatHavePodsWithAffinityList N d =
     filter (\<lambda>v. length (GetPodsWithAffinity N v) > 0) (map snd (nodeInfoMap d))"

definition basic_listNodeInfosThatHavePodsWithRequiredAntiAffinityList ::
    "('ni, 'pi, 'pod) node_info_api \<Rightarrow> 'ni internalBasicSnapshotData \<Rightarrow> 'ni list" where
  "basic_listNodeInfosThatHavePodsWithRequiredAntiAffinityList N d =
     filter (\<lambda>v. length (GetPodsWithRequiredAntiAffinity N v) > 0) (map snd (nodeInfoMap d))"

definition basic_getNodeInfo :: "string \<Rightarrow> 'ni internalBasicSnapshotData \<Rightarrow> snap_error + 'ni" where
  "basic_getNodeInfo nodeName d =
     (case map_of (nodeInfoMap d) nodeName of Some v \<Rightarrow> Inr v | None \<Rightarrow> Inl ErrNodeNotFound)"

definition basic_isPVCUsedByPods :: "string \<Rightarrow> 'ni internalBasicSnapshotData \<Rightarrow> bool" where
  "basic_isPVCUsedByPods key d =
     (case map_of (pvcNamespacePodMap d) key of Some v \<Rightarrow> length v > 0 | None \<Rightarrow> False)"

fun add_pvc_volumes :: "('ni, 'pi, 'pod) node_info_api \<Rightarrow> 'pod \<Rightarrow> string option list \<Rightarrow>
    (string, (string, bool) gmap) gmap \<Rightarrow> (string, (string, bool) gmap) gmap" where
  "add_pvc_volumes N pod [] m = m"
| "add_pvc_volumes N pod (None # vs) m = add_pvc_volumes N pod vs m"
| "add_pvc_volumes N pod (Some claim # vs) m =
     (let k = GetNamespacedName N (Namespace N pod) claim;
          m1 = (if ghas m k then m else gput k [] m)
      in add_pvc_volumes N pod vs (gput k (gput (Pod_Name N pod) True (gget [] m1 k)) m1))"

definition basic_addPvcUsedByPod :: "('ni, 'pi, 'pod) node_info_api \<Rightarrow> 'pod option \<Rightarrow>
    'ni internalBasicSnapshotData \<Rightarrow> 'ni internalBasicSnapshotData" where
  "basic_addPvcUsedByPod N pod d =
     (case pod of
        None \<Rightarrow> d
      | Some pod \<Rightarrow>
          d\<lparr>pvcNamespacePodMap := add_pvc_volumes N pod (Volumes N pod) (pvcNamespacePodMap d)\<rparr>)"

fun remove_pvc_volumes :: "('ni, 'pi, 'pod) node_info_api \<Rightarrow> 'pod \<Rightarrow> string option list \<Rightarrow>
    (string, (string, bool) gmap) gmap \<Rightarrow> (string, (string, bool) gmap) gmap" where
  "remove_pvc_volumes N pod [] m = m"
| "remove_pvc_volumes N pod (None # vs) m = remove_pvc_volumes N pod vs m"
| "remove_pvc_volumes N pod (Some claim # vs) m =
     (let k = GetNamespacedName N (Namespace N pod) claim in
      remove_pvc_volumes N pod vs
        (case map_of m k of
           None \<Rightarrow> m
         | Some v \<Rightarrow>
             let v' = gdel (Pod_Name N pod) v
             in if length v' = 0 then gdel k m else gput k v' m))"

definition basic_removePvcUsedByPod :: "('ni, 'pi, 'pod) node_info_api \<Rightarrow> 'pod option \<Rightarrow>
    'ni internalBasicSnapshotData \<Rightarrow> 'ni internalBasicSnapshotData" where
  "basic_removePvcUsedByPod N pod d =
     (case pod of
        None \<Rightarrow> d
      | Some pod \<Rightarrow>
          d\<lparr>pvcNamespacePodMap := remove_pvc_volumes N pod (Volumes N pod) (pvcNamespacePodMap d)\<rparr>)"

definition newInternalBasicSnapshotData :: "'ni internalBasicSnapshotData" where
  "newInternalBasicSnapshotData = \<lparr>nodeInfoMap = [], pvcNamespacePodMap = []\<rparr>"

definition basic_clone :: "('ni, 'pi, 'pod) node_info_api \<Rightarrow>
    'ni internalBasicSnapshotData \<Rightarrow> 'ni internalBasicSnapshotData" where
  "basic_clone N d =
     \<lparr>nodeInfoMap = foldl (\<lambda>m (k, v). gput k (Snapshot N v) m) [] (nodeInfoMap d),
      pvcNamespacePodMap =
        foldl (\<lambda>m (k, v). gput k (foldl (\<lambda>m1 (k1, v1). gput k1 v1 m1) [] v) m) []
          (pvcNamespacePodMap d)\<rparr>"

definition basic_addNodeInfo :: "('ni, 'pi, 'pod) node_info_api \<Rightarrow> 'ni \<Rightarrow>
    'ni internalBasicSnapshotData \<Rightarrow> snap_error option \<times> 'ni internalBasicSnapshotData" where
  "basic_addNodeInfo N nodeInfo d =
     (let name = Node_Name N nodeInfo in
      if ghas (nodeInfoMap d) name then (Some (NodeAlreadyInSnapshot name), d)
      else
        let d1 = d\<lparr>nodeInfoMap := gput name nodeInfo (nodeInfoMap d)\<rparr>
        in (None, foldl (\<lambda>d podInfo. basic_addPvcUsedByPod N (GetPod N podInfo) d) d1
                    (GetPods N nodeInfo)))"

definition basic_removeNodeInfo :: "('ni, 'pi, 'pod) node_info_api \<Rightarrow> string \<Rightarrow>
    'ni internalBasicSnapshotData \<Rightarrow> snap_error option \<times> 'ni internalBasicSnapshotData" where
  "basic_removeNodeInfo N nodeName d =
     (case map_of (nodeInfoMap d) nodeName of
        None \<Rightarrow> (Some ErrNodeNotFound, d)
      | Some ni \<Rightarrow>
          let d1 = foldl (\<lambda>d podInfo. basic_removePvcUsedByPod N (GetPod N podInfo) d) d (GetPods N ni)
          in (None, d1\<lparr>nodeInfoMap := gdel nodeName (nodeInfoMap d1)\<rparr>))"

definition basic_addPodInfo :: "('ni, 'pi, 'pod) node_info_api \<Rightarrow> 'pi \<Rightarrow> string \<Rightarrow>
    'ni internalBasicSnapshotData \<Rightarrow> snap_error option \<times> 'ni internalBasicSnapshotData" where
  "basic_addPodInfo N podInfo nodeName d =
     (case map_of (nodeInfoMap d) nodeName of
        None \<Rightarrow> (Some ErrNodeNotFound, d)
      | Some ni \<Rightarrow>
          (None, basic_addPvcUsedByPod N (GetPod N podInfo)
                   (d\<lparr>nodeInfoMap := gput nodeName (AddPodInfo N podInfo ni) (nodeInfoMap d)\<rparr>)))"

definition basic_removePod :: "('ni, 'pi, 'pod) node_info_api \<Rightarrow> string \<Rightarrow> string \<Rightarrow> string \<Rightarrow>
    'ni internalBasicSnapshotData \<Rightarrow> snap_error option \<times> 'ni internalBasicSnapshotData" where
  "basic_removePod N namespace podName nodeName d =
     (case map_of (nodeInfoMap d) nodeName of
        None \<Rightarrow> (Some ErrNodeNotFound, d)
      | Some nodeInfo \<Rightarrow>
          (case find_pod N namespace podName (GetPods N nodeInfo) of
             Inl e \<Rightarrow> (Some e, d)
           | Inr pod \<Rightarrow>
               let d1 = basic_removePvcUsedByPod N (Some pod) d in
               (case RemovePod N pod nodeInfo of
                  Inl err \<Rightarrow> (Some (CannotRemovePod err), basic_addPvcUsedByPod N (Some pod) d1)
                | Inr ni' \<Rightarrow> (None, d1\<lparr>nodeInfoMap := gput nodeName ni' (nodeInfoMap d1)\<rparr>))))"

section \<open>BasicSnapshotStore\<close>

record 'ni BasicSnapshotStore =
  basic_data :: "'ni internalBasicSnapshotData list"

definition basic_Clear :: "'ni BasicSnapshotStore \<Rightarrow> 'ni BasicSnapshotStore" where
  "basic_Clear snapshot = snapshot\<lparr>basic_data := [newInternalBasicSnapshotData]\<rparr>"

definition NewBasicSnapshotStore :: "'ni BasicSnapshotStore" where
  "NewBasicSnapshotStore = basic_Clear \<lparr>basic_data = []\<rparr>"

definition basic_getInternalData :: "'ni BasicSnapshotStore \<Rightarrow> 'ni internalBasicSnapshotData" where
  "basic_getInternalData snapshot = basic_data snapshot ! (length (basic_data snapshot) - 1)"

text \<open>The current state is shared by pointer: an operation on it changes the last entry.\<close>

definition basic_on_current ::
    "('ni internalBasicSnapshotData \<Rightarrow> 'r \<times> 'ni internalBasicSnapshotData) \<Rightarrow>
     'ni BasicSnapshotStore \<Rightarrow> 'r \<times> 'ni BasicSnapshotStore" where
  "basic_on_current f snapshot =
     (let (r, d) = f (basic_getInternalData snapshot)
      in (r, snapshot\<lparr>basic_data :=
               (basic_data snapshot)[length (basic_data snapshot) - 1 := d]\<rparr>))"

definition basic_RemoveNodeInfo where
  "basic_RemoveNodeInfo N nodeName = basic_on_current (basic_removeNodeInfo N nodeName)"

definition basic_StoreNodeInfo where
  "basic_StoreNodeInfo N nodeInfo = basic_on_current (basic_addNodeInfo N nodeInfo)"

definition basic_StorePodInfo where
  "basic_StorePodInfo N podInfo nodeName = basic_on_current (basic_addPodInfo N podInfo nodeName)"

definition basic_RemovePodInfo where
  "basic_RemovePodInfo N namespace podName nodeName =
     basic_on_current (basic_removePod N namespace podName nodeName)"

definition basic_IsPVCUsedByPods :: "string \<Rightarrow> 'ni BasicSnapshotStore \<Rightarrow> bool" where
  "basic_IsPVCUsedByPods key snapshot = basic_isPVCUsedByPods key (basic_getInternalData snapshot)"

definition basic_Fork ::
    "('ni, 'pi, 'pod) node_info_api \<Rightarrow> 'ni BasicSnapshotStore \<Rightarrow> 'ni BasicSnapshotStore" where
  "basic_Fork N snapshot =
     snapshot\<lparr>basic_data := basic_data snapshot @ [basic_clone N (basic_getInternalData snapshot)]\<rparr>"

definition basic_Revert :: "'ni BasicSnapshotStore \<Rightarrow> 'ni BasicSnapshotStore" where
  "basic_Revert snapshot =
     (if length (basic_data snapshot) = 1 then snapshot
      else snapshot\<lparr>basic_data := take (length (basic_data snapshot) - 1) (basic_data snapshot)\<rparr>)"

definition basic_Commit :: "'ni BasicSnapshotStore \<Rightarrow> snap_error option \<times> 'ni BasicSnapshotStore" where
  "basic_Commit snapshot =
     (let n = length (basic_data snapshot) in
      if n \<le> 1 then (None, snapshot)
      else (None, snapshot\<lparr>basic_data :=
              take (n - 2) (basic_data snapshot) @ [basic_data snapshot ! (n - 1)]\<rparr>))"

definition basic_List :: "'ni BasicSnapshotStore \<Rightarrow> 'ni list" where
  "basic_List snapshot = basic_listNodeInfos (basic_getInternalData snapshot)"

definition basic_HavePodsWithAffinityList where
  "basic_HavePodsWithAffinityList N snapshot =
     basic_listNodeInfosThatHavePodsWithAffinityList N (basic_getInternalData snapshot)"

definition basic_HavePodsWithRequiredAntiAffinityList where
  "basic_HavePodsWithRequiredAntiAffinityList N snapshot =
     basic_listNodeInfosThatHavePodsWithRequiredAntiAffinityList N (basic_getInternalData snapshot)"

definition basic_Get :: "string \<Rightarrow> 'ni BasicSnapshotStore \<Rightarrow> snap_error + 'ni" where
  "basic_Get nodeName snapshot = basic_getNodeInfo nodeName (basic_getInternalData snapshot)"

section \<open>Refinement of the map specification\<close>

fun basic_upd :: "('ni, 'pi, 'pod) node_info_api \<Rightarrow> ('ni, 'pi) store_op \<Rightarrow>
    'ni BasicSnapshotStore \<Rightarrow> 'ni store_out \<times> 'ni BasicSnapshotStore" where
  "basic_upd N (StoreNodeInfo ni) s = (let (r, s') = basic_StoreNodeInfo N ni s in (Result r, s'))"
| "basic_upd N (RemoveNodeInfo n) s = (let (r, s') = basic_RemoveNodeInfo N n s in (Result r, s'))"
| "basic_upd N (StorePodInfo pi n) s = (let (r, s') = basic_StorePodInfo N pi n s in (Result r, s'))"
| "basic_upd N (RemovePodInfo ns p n) s =
     (let (r, s') = basic_RemovePodInfo N ns p n s in (Result r, s'))"
| "basic_upd N (GetNodeInfo n) s = (Node (basic_Get n s), s)"
| "basic_upd N ListNodeInfos s = (Nodes (mset (basic_List s)), s)"
| "basic_upd N ListAffinity s = (Nodes (mset (basic_HavePodsWithAffinityList N s)), s)"
| "basic_upd N ListAntiAffinity s =
     (Nodes (mset (basic_HavePodsWithRequiredAntiAffinityList N s)), s)"

definition basic_view :: "'ni internalBasicSnapshotData \<Rightarrow> (string \<rightharpoonup> 'ni)" where
  "basic_view d = map_of (nodeInfoMap d)"

definition basic_stk :: "'ni BasicSnapshotStore \<Rightarrow> (string \<rightharpoonup> 'ni) list" where
  "basic_stk s = rev (map basic_view (basic_data s))"

definition basic_inv :: "('ni, 'pi, 'pod) node_info_api \<Rightarrow> 'ni BasicSnapshotStore \<Rightarrow> bool" where
  "basic_inv N s \<longleftrightarrow> basic_data s \<noteq> [] \<and>
     (\<forall>d\<in>set (basic_data s). gm_wf (nodeInfoMap d) \<and> named N (basic_view d))"

lemma nodeInfoMap_pvc [simp]:
  "nodeInfoMap (basic_addPvcUsedByPod N pod d) = nodeInfoMap d"
  "nodeInfoMap (basic_removePvcUsedByPod N pod d) = nodeInfoMap d"
  by (simp_all add: basic_addPvcUsedByPod_def basic_removePvcUsedByPod_def split: option.splits)

lemma nodeInfoMap_foldl_pvc [simp]:
  "nodeInfoMap (foldl (\<lambda>d pi. basic_addPvcUsedByPod N (GetPod N pi) d) d pis) = nodeInfoMap d"
  "nodeInfoMap (foldl (\<lambda>d pi. basic_removePvcUsedByPod N (GetPod N pi) d) d pis) = nodeInfoMap d"
  by (induction pis arbitrary: d) simp_all

lemma nodeInfoMap_clone:
  assumes "node_info_ok N" and "gm_wf (nodeInfoMap d)"
  shows "gm_wf (nodeInfoMap (basic_clone N d))" and "basic_view (basic_clone N d) = basic_view d"
proof -
  have eq: "nodeInfoMap (basic_clone N d) = foldl (\<lambda>m (k, v). gput k v m) [] (nodeInfoMap d)"
    by (simp add: basic_clone_def node_info_okD(1) [OF assms(1)])
  show "gm_wf (nodeInfoMap (basic_clone N d))" by (simp add: eq gm_wf_foldl_gput)
  show "basic_view (basic_clone N d) = basic_view d"
    by (simp add: basic_view_def eq map_of_foldl_gput [OF assms(2)])
qed

text \<open>The operations on the current data are the specification on its view.\<close>

lemmas basic_data_ops = basic_addNodeInfo_def basic_removeNodeInfo_def basic_addPodInfo_def
  basic_removePod_def basic_getNodeInfo_def

fun basic_data_upd :: "('ni, 'pi, 'pod) node_info_api \<Rightarrow> ('ni, 'pi) store_op \<Rightarrow>
    'ni internalBasicSnapshotData \<Rightarrow> 'ni store_out \<times> 'ni internalBasicSnapshotData" where
  "basic_data_upd N (StoreNodeInfo ni) d = (let (r, d') = basic_addNodeInfo N ni d in (Result r, d'))"
| "basic_data_upd N (RemoveNodeInfo n) d = (let (r, d') = basic_removeNodeInfo N n d in (Result r, d'))"
| "basic_data_upd N (StorePodInfo pi n) d = (let (r, d') = basic_addPodInfo N pi n d in (Result r, d'))"
| "basic_data_upd N (RemovePodInfo ns p n) d =
     (let (r, d') = basic_removePod N ns p n d in (Result r, d'))"
| "basic_data_upd N (GetNodeInfo n) d = (Node (basic_getNodeInfo n d), d)"
| "basic_data_upd N ListNodeInfos d = (Nodes (mset (basic_listNodeInfos d)), d)"
| "basic_data_upd N ListAffinity d =
     (Nodes (mset (basic_listNodeInfosThatHavePodsWithAffinityList N d)), d)"
| "basic_data_upd N ListAntiAffinity d =
     (Nodes (mset (basic_listNodeInfosThatHavePodsWithRequiredAntiAffinityList N d)), d)"

lemma basic_lists_view:
  "gm_wf (nodeInfoMap d) \<Longrightarrow> named N (basic_view d) \<Longrightarrow>
     lists_view N (basic_view d) (map snd (nodeInfoMap d))"
  by (simp add: basic_view_def lists_view_values)

lemma basic_data_upd_refines:
  assumes "gm_wf (nodeInfoMap d)" and "named N (basic_view d)"
  shows "fst (basic_data_upd N op d) = fst (model_upd N op (basic_view d))"
    and "basic_view (snd (basic_data_upd N op d)) = snd (model_upd N op (basic_view d))"
proof -
  note lists = basic_lists_view [OF assms]
  note listings = mset_lists_view [OF lists] mset_lists_view_all [OF lists]
    basic_listNodeInfos_def basic_listNodeInfosThatHavePodsWithAffinityList_def
    basic_listNodeInfosThatHavePodsWithRequiredAntiAffinityList_def
  show "fst (basic_data_upd N op d) = fst (model_upd N op (basic_view d))"
  proof (cases op)
    case ListNodeInfos
    then show ?thesis by (simp add: listings del: mset_map mset_filter)
  next
    case ListAffinity
    then show ?thesis by (simp add: listings del: mset_map mset_filter)
  next
    case ListAntiAffinity
    then show ?thesis by (simp add: listings del: mset_map mset_filter)
  qed (force simp: basic_data_ops basic_view_def ghas_def Let_def split: option.splits sum.splits)+
  show "basic_view (snd (basic_data_upd N op d)) = snd (model_upd N op (basic_view d))"
    by (cases op; force simp: basic_data_ops basic_view_def ghas_def Let_def
        split: option.splits sum.splits)
qed

lemma gm_wf_basic_data_upd:
  "gm_wf (nodeInfoMap d) \<Longrightarrow> gm_wf (nodeInfoMap (snd (basic_data_upd N op d)))"
  by (cases op) (auto simp: basic_data_ops Let_def split: option.splits sum.splits)

lemma basic_upd_on_current:
  assumes "basic_data s \<noteq> []"
  shows "basic_upd N op s = basic_on_current (basic_data_upd N op) s"
proof -
  have same: "(basic_data s)[length (basic_data s) - Suc 0 := basic_getInternalData s] = basic_data s"
    by (simp add: basic_getInternalData_def)
  show ?thesis
    by (cases op) (simp_all add: basic_StoreNodeInfo_def basic_RemoveNodeInfo_def
        basic_StorePodInfo_def basic_RemovePodInfo_def basic_Get_def basic_List_def
        basic_HavePodsWithAffinityList_def basic_HavePodsWithRequiredAntiAffinityList_def
        basic_on_current_def same split_beta)
qed

lemma basic_invE:
  assumes "basic_inv N s"
  obtains ds d where "basic_data s = ds @ [d]" and "gm_wf (nodeInfoMap d)" and "named N (basic_view d)"
    and "\<And>d'. d' \<in> set ds \<Longrightarrow> gm_wf (nodeInfoMap d') \<and> named N (basic_view d')"
  using assms by (cases "basic_data s" rule: rev_cases) (auto simp: basic_inv_def)

lemma basic_getInternalData_snoc: "basic_data s = ds @ [d] \<Longrightarrow> basic_getInternalData s = d"
  by (simp add: basic_getInternalData_def)

lemma basic_forkable:
  assumes ok: "node_info_ok N"
  shows "forkable (basic_inv N) basic_stk (basic_Fork N) basic_Revert (snd \<circ> basic_Commit)
           (basic_upd N) (model_upd N)"
proof
  fix s :: "'a BasicSnapshotStore" and u :: "('a, 'b) store_op"
  assume inv: "basic_inv N s"
  then obtain ds d where s: "basic_data s = ds @ [d]" and d: "gm_wf (nodeInfoMap d)" "named N (basic_view d)"
    and ds: "\<And>d'. d' \<in> set ds \<Longrightarrow> gm_wf (nodeInfoMap d') \<and> named N (basic_view d')"
    by (rule basic_invE) blast
  note cur = basic_getInternalData_snoc [OF s]
  note clone = nodeInfoMap_clone [OF ok d(1)]
  have upd: "basic_upd N u s = (let (r, d') = basic_data_upd N u d in (r, s\<lparr>basic_data := ds @ [d']\<rparr>))"
    by (simp add: s basic_upd_on_current basic_on_current_def cur list_update_append)
  show "basic_stk s \<noteq> []" by (simp add: basic_stk_def s)
  show "basic_inv N (basic_Fork N s)"
    using d ds clone by (auto simp: basic_inv_def basic_Fork_def s cur)
  show "basic_inv N (basic_Revert s)"
    using inv ds by (auto simp: basic_inv_def basic_Revert_def s dest: in_set_takeD)
  show "basic_inv N ((snd \<circ> basic_Commit) s)"
    using d ds by (auto simp: basic_inv_def basic_Commit_def s Let_def nth_append dest: in_set_takeD)
  show "basic_inv N (snd (basic_upd N u s))"
    using ds gm_wf_basic_data_upd [OF d(1)] named_model_upd [OF ok d(2)]
    by (auto simp: upd basic_inv_def basic_data_upd_refines [OF d] split_beta)
  show "basic_stk (basic_Fork N s) = hd (basic_stk s) # basic_stk s"
    using clone by (simp add: basic_stk_def basic_Fork_def s cur)
  show "basic_stk (basic_Revert s) = (if length (basic_stk s) \<le> 1 then basic_stk s else tl (basic_stk s))"
    by (simp add: basic_stk_def basic_Revert_def s)
  show "basic_stk ((snd \<circ> basic_Commit) s) =
      (if length (basic_stk s) \<le> 1 then basic_stk s else hd (basic_stk s) # tl (tl (basic_stk s)))"
    by (cases ds rule: rev_cases) (simp_all add: basic_stk_def basic_Commit_def s nth_append)
  show "fst (basic_upd N u s) = fst (model_upd N u (hd (basic_stk s)))"
    by (simp add: upd basic_stk_def s basic_data_upd_refines [OF d] split_beta)
  show "basic_stk (snd (basic_upd N u s)) = snd (model_upd N u (hd (basic_stk s))) # tl (basic_stk s)"
    by (simp add: upd basic_stk_def s basic_data_upd_refines [OF d] split_beta)
qed

lemma basic_inv_New: "basic_inv N NewBasicSnapshotStore" "basic_stk NewBasicSnapshotStore = [Map.empty]"
  by (simp_all add: basic_inv_def basic_stk_def NewBasicSnapshotStore_def basic_Clear_def
      newInternalBasicSnapshotData_def basic_view_def)

end
