(* ===== verification/Delta_Snapshot.thy ===== *)
theory Delta_Snapshot
  imports Basic_Snapshot
begin

text \<open>
  src/pkg/simulator/clustersnapshot/store/delta.go: the optimised implementation of
  \<open>ClusterSnapshotStore\<close>. The chain of \<open>internalDeltaSnapshotData\<close> linked by \<open>baseData\<close> is a list of
  layers, the current one first, so the nil pointer is the empty list. A mutating operation
  changes the current layer and reads the chain below it; \<open>getNodeInfoList\<close> fills the list caches
  along the chain; \<open>commit\<close> replays the current layer on the one below. All four caches are
  modelled (\<open>None\<close> is a nil slice or map).

  As in \<open>Basic_Snapshot\<close>, node infos are values. The code relies on \<open>Snapshot()\<close> before the first
  change of a node that belongs to a lower layer, which is what makes this exact.
\<close>

section \<open>internalDeltaSnapshotData\<close>

record 'ni internalDeltaSnapshotData =
  addedNodeInfoMap :: "(string, 'ni) gmap"
  modifiedNodeInfoMap :: "(string, 'ni) gmap"
  deletedNodeInfos :: "(string, bool) gmap"
  nodeInfoList :: "'ni list option"
  havePodsWithAffinity :: "'ni list option"
  havePodsWithRequiredAntiAffinity :: "'ni list option"
  pvcNamespaceMap :: "(string, int) gmap option"

type_synonym 'ni layers = "'ni internalDeltaSnapshotData list"

definition newInternalDeltaSnapshotData :: "'ni internalDeltaSnapshotData" where
  "newInternalDeltaSnapshotData =
     \<lparr>addedNodeInfoMap = [], modifiedNodeInfoMap = [], deletedNodeInfos = [], nodeInfoList = None,
      havePodsWithAffinity = None, havePodsWithRequiredAntiAffinity = None, pvcNamespaceMap = None\<rparr>"

definition delta_getNodeInfoLocal :: "string \<Rightarrow> 'ni internalDeltaSnapshotData \<Rightarrow> 'ni option" where
  "delta_getNodeInfoLocal name d =
     (case map_of (addedNodeInfoMap d) name of
        Some ni \<Rightarrow> Some ni
      | None \<Rightarrow>
          (case map_of (modifiedNodeInfoMap d) name of Some ni \<Rightarrow> Some ni | None \<Rightarrow> None))"

fun delta_getNodeInfo :: "string \<Rightarrow> 'ni layers \<Rightarrow> 'ni option" where
  "delta_getNodeInfo name [] = None"
| "delta_getNodeInfo name (d # base) =
     (case delta_getNodeInfoLocal name d of
        Some ni \<Rightarrow> Some ni
      | None \<Rightarrow>
          if gget False (deletedNodeInfos d) name then None else delta_getNodeInfo name base)"

text \<open>The loop over the list of the lower layer in \<open>buildNodeInfoList\<close>.\<close>

fun delta_overlay :: "('ni, 'pi, 'pod) node_info_api \<Rightarrow> 'ni internalDeltaSnapshotData \<Rightarrow>
    'ni list \<Rightarrow> 'ni list" where
  "delta_overlay N d [] = []"
| "delta_overlay N d (bni # rest) =
     (if gget False (deletedNodeInfos d) (Node_Name N bni) then delta_overlay N d rest
      else case map_of (modifiedNodeInfoMap d) (Node_Name N bni) of
             Some mni \<Rightarrow> mni # delta_overlay N d rest
           | None \<Rightarrow> bni # delta_overlay N d rest)"

definition delta_buildNodeInfoList :: "('ni, 'pi, 'pod) node_info_api \<Rightarrow>
    'ni internalDeltaSnapshotData \<Rightarrow> 'ni list \<Rightarrow> 'ni list" where
  "delta_buildNodeInfoList N d baseList =
     (if length (deletedNodeInfos d) > 0 \<or> length (modifiedNodeInfoMap d) > 0
      then delta_overlay N d baseList else baseList) @ map snd (addedNodeInfoMap d)"

fun delta_getNodeInfoList ::
    "('ni, 'pi, 'pod) node_info_api \<Rightarrow> 'ni layers \<Rightarrow> 'ni list \<times> 'ni layers" where
  "delta_getNodeInfoList N [] = ([], [])"
| "delta_getNodeInfoList N (d # base) =
     (case nodeInfoList d of
        Some l \<Rightarrow> (l, d # base)
      | None \<Rightarrow>
          let (baseList, base') = delta_getNodeInfoList N base;
              l = delta_buildNodeInfoList N d baseList
          in (l, d\<lparr>nodeInfoList := Some l\<rparr> # base'))"

definition delta_clearPodCaches ::
    "'ni internalDeltaSnapshotData \<Rightarrow> 'ni internalDeltaSnapshotData" where
  "delta_clearPodCaches d =
     d\<lparr>havePodsWithAffinity := None, havePodsWithRequiredAntiAffinity := None,
       pvcNamespaceMap := None\<rparr>"

definition delta_clearCaches ::
    "'ni internalDeltaSnapshotData \<Rightarrow> 'ni internalDeltaSnapshotData" where
  "delta_clearCaches d = delta_clearPodCaches (d\<lparr>nodeInfoList := None\<rparr>)"

definition delta_addNodeInfo :: "('ni, 'pi, 'pod) node_info_api \<Rightarrow> 'ni \<Rightarrow>
    'ni internalDeltaSnapshotData \<Rightarrow> 'ni layers \<Rightarrow>
    snap_error option \<times> 'ni internalDeltaSnapshotData" where
  "delta_addNodeInfo N nodeInfo d base =
     (let name = Node_Name N nodeInfo in
      if delta_getNodeInfo name (d # base) \<noteq> None then (Some (NodeAlreadyInSnapshot name), d)
      else
        let d1 = (if ghas (deletedNodeInfos d) name
                  then d\<lparr>deletedNodeInfos := gdel name (deletedNodeInfos d),
                         modifiedNodeInfoMap := gput name nodeInfo (modifiedNodeInfoMap d)\<rparr>
                  else d\<lparr>addedNodeInfoMap := gput name nodeInfo (addedNodeInfoMap d)\<rparr>);
            d2 = (case nodeInfoList d1 of
                    Some l \<Rightarrow> d1\<lparr>nodeInfoList := Some (l @ [nodeInfo])\<rparr> | None \<Rightarrow> d1)
        in (None, if length (GetPods N nodeInfo) > 0 then delta_clearPodCaches d2 else d2))"

definition delta_removeNodeInfo :: "string \<Rightarrow> 'ni internalDeltaSnapshotData \<Rightarrow> 'ni layers \<Rightarrow>
    snap_error option \<times> 'ni internalDeltaSnapshotData" where
  "delta_removeNodeInfo nodeName d base =
     (let foundInDelta = ghas (addedNodeInfoMap d) nodeName;
          d1 = (if foundInDelta
                then d\<lparr>addedNodeInfoMap := gdel nodeName (addedNodeInfoMap d)\<rparr> else d);
          d2 = (if ghas (modifiedNodeInfoMap d1) nodeName
                then d1\<lparr>modifiedNodeInfoMap := gdel nodeName (modifiedNodeInfoMap d1)\<rparr> else d1)
      in if ghas (deletedNodeInfos d2) nodeName then (Some ErrNodeNotFound, d2)
         else
           let foundInBase = (delta_getNodeInfo nodeName base \<noteq> None);
               d3 = (if foundInBase
                     then d2\<lparr>deletedNodeInfos := gput nodeName True (deletedNodeInfos d2)\<rparr> else d2)
           in if \<not> foundInBase \<and> \<not> foundInDelta then (Some ErrNodeNotFound, d3)
              else (None, delta_clearCaches d3))"

definition delta_nodeInfoToModify :: "('ni, 'pi, 'pod) node_info_api \<Rightarrow> string \<Rightarrow>
    'ni internalDeltaSnapshotData \<Rightarrow> 'ni layers \<Rightarrow> 'ni option \<times> 'ni internalDeltaSnapshotData" where
  "delta_nodeInfoToModify N nodeName d base =
     (case delta_getNodeInfoLocal nodeName d of
        Some dni \<Rightarrow> (Some dni, d)
      | None \<Rightarrow>
          if ghas (deletedNodeInfos d) nodeName then (None, d)
          else
            (case delta_getNodeInfo nodeName base of
               None \<Rightarrow> (None, d)
             | Some bni \<Rightarrow>
                 let dni = Snapshot N bni in
                 (Some dni,
                  delta_clearCaches
                    (d\<lparr>modifiedNodeInfoMap := gput nodeName dni (modifiedNodeInfoMap d)\<rparr>))))"

text \<open>
  A change of the node info object \<open>nodeInfoToModify\<close> returned: the map entry that holds the
  object sees it.
\<close>

definition delta_writeBack :: "string \<Rightarrow> 'ni \<Rightarrow> 'ni internalDeltaSnapshotData \<Rightarrow>
    'ni internalDeltaSnapshotData" where
  "delta_writeBack nodeName ni d =
     (if ghas (addedNodeInfoMap d) nodeName
      then d\<lparr>addedNodeInfoMap := gput nodeName ni (addedNodeInfoMap d)\<rparr>
      else d\<lparr>modifiedNodeInfoMap := gput nodeName ni (modifiedNodeInfoMap d)\<rparr>)"

definition delta_addPodInfo :: "('ni, 'pi, 'pod) node_info_api \<Rightarrow> 'pi \<Rightarrow> string \<Rightarrow>
    'ni internalDeltaSnapshotData \<Rightarrow> 'ni layers \<Rightarrow>
    snap_error option \<times> 'ni internalDeltaSnapshotData" where
  "delta_addPodInfo N podInfo nodeName d base =
     (case delta_nodeInfoToModify N nodeName d base of
        (None, d1) \<Rightarrow> (Some ErrNodeNotFound, d1)
      | (Some ni, d1) \<Rightarrow>
          (None, delta_clearCaches (delta_writeBack nodeName (AddPodInfo N podInfo ni) d1)))"

definition delta_removePod :: "('ni, 'pi, 'pod) node_info_api \<Rightarrow> string \<Rightarrow> string \<Rightarrow> string \<Rightarrow>
    'ni internalDeltaSnapshotData \<Rightarrow> 'ni layers \<Rightarrow>
    snap_error option \<times> 'ni internalDeltaSnapshotData" where
  "delta_removePod N namespace name nodeName d base =
     (case delta_nodeInfoToModify N nodeName d base of
        (None, d1) \<Rightarrow> (Some ErrNodeNotFound, d1)
      | (Some ni, d1) \<Rightarrow>
          (case find_pod N namespace name (GetPods N ni) of
             Inl e \<Rightarrow> (Some e, d1)
           | Inr pod \<Rightarrow>
               (case RemovePod N pod ni of
                  Inl err \<Rightarrow> (Some (CannotRemovePod err), d1)
                | Inr ni' \<Rightarrow> (None, delta_clearCaches (delta_writeBack nodeName ni' d1)))))"

text \<open>The two nested loops of \<open>isPVCUsedByPods\<close>: reference counts summed over the node infos.\<close>

definition delta_pvcCounts ::
    "('ni, 'pi, 'pod) node_info_api \<Rightarrow> 'ni list \<Rightarrow> (string, int) gmap" where
  "delta_pvcCounts N nodeInfos =
     foldl (\<lambda>m v. foldl (\<lambda>m (k, i). gput k (gget 0 m k + i) m) m (GetPVCRefCounts N v)) [] nodeInfos"

definition delta_isPVCUsedByPods :: "('ni, 'pi, 'pod) node_info_api \<Rightarrow> string \<Rightarrow>
    'ni internalDeltaSnapshotData \<Rightarrow> 'ni layers \<Rightarrow> bool \<times> 'ni layers" where
  "delta_isPVCUsedByPods N key d base =
     (case pvcNamespaceMap d of
        Some m \<Rightarrow> (gget 0 m key > 0, d # base)
      | None \<Rightarrow>
          let (nodeInfos, ls) = delta_getNodeInfoList N (d # base);
              m = delta_pvcCounts N nodeInfos
          in (gget 0 m key > 0, (hd ls)\<lparr>pvcNamespaceMap := Some m\<rparr> # tl ls))"

definition delta_fork :: "'ni layers \<Rightarrow> 'ni layers" where
  "delta_fork ls = newInternalDeltaSnapshotData # ls"

text \<open>The three loops of \<open>commit\<close>, each stopping at the first error, on the layer below.\<close>

fun delta_commit_deleted :: "string list \<Rightarrow> 'ni internalDeltaSnapshotData \<Rightarrow> 'ni layers \<Rightarrow>
    snap_error option \<times> 'ni internalDeltaSnapshotData" where
  "delta_commit_deleted [] b base = (None, b)"
| "delta_commit_deleted (node # rest) b base =
     (case delta_removeNodeInfo node b base of
        (Some err, b') \<Rightarrow> (Some err, b')
      | (None, b') \<Rightarrow> delta_commit_deleted rest b' base)"

fun delta_commit_modified :: "('ni, 'pi, 'pod) node_info_api \<Rightarrow> 'ni list \<Rightarrow>
    'ni internalDeltaSnapshotData \<Rightarrow> 'ni layers \<Rightarrow>
    snap_error option \<times> 'ni internalDeltaSnapshotData" where
  "delta_commit_modified N [] b base = (None, b)"
| "delta_commit_modified N (node # rest) b base =
     (case delta_removeNodeInfo (Node_Name N node) b base of
        (Some err, b') \<Rightarrow> (Some err, b')
      | (None, b') \<Rightarrow>
          (case delta_addNodeInfo N node b' base of
             (Some err, b'') \<Rightarrow> (Some err, b'')
           | (None, b'') \<Rightarrow> delta_commit_modified N rest b'' base))"

fun delta_commit_added :: "('ni, 'pi, 'pod) node_info_api \<Rightarrow> 'ni list \<Rightarrow>
    'ni internalDeltaSnapshotData \<Rightarrow> 'ni layers \<Rightarrow>
    snap_error option \<times> 'ni internalDeltaSnapshotData" where
  "delta_commit_added N [] b base = (None, b)"
| "delta_commit_added N (node # rest) b base =
     (case delta_addNodeInfo N node b base of
        (Some err, b') \<Rightarrow> (Some err, b')
      | (None, b') \<Rightarrow> delta_commit_added N rest b' base)"

text \<open>On an error the chain keeps the current layer, over a base changed up to the error.\<close>

fun delta_commit ::
    "('ni, 'pi, 'pod) node_info_api \<Rightarrow> 'ni layers \<Rightarrow> snap_error option \<times> 'ni layers" where
  "delta_commit N (d # b # base) =
     (case delta_commit_deleted (map fst (deletedNodeInfos d)) b base of
        (Some err, b1) \<Rightarrow> (Some err, d # b1 # base)
      | (None, b1) \<Rightarrow>
          (case delta_commit_modified N (map snd (modifiedNodeInfoMap d)) b1 base of
             (Some err, b2) \<Rightarrow> (Some err, d # b2 # base)
           | (None, b2) \<Rightarrow>
               (case delta_commit_added N (map snd (addedNodeInfoMap d)) b2 base of
                  (Some err, b3) \<Rightarrow> (Some err, d # b3 # base)
                | (None, b3) \<Rightarrow> (None, b3 # base))))"
| "delta_commit N ls = (None, ls)"

section \<open>DeltaSnapshotStore\<close>

record 'ni DeltaSnapshotStore =
  delta_data :: "'ni layers"

definition delta_Clear :: "'ni DeltaSnapshotStore \<Rightarrow> 'ni DeltaSnapshotStore" where
  "delta_Clear snapshot = snapshot\<lparr>delta_data := [newInternalDeltaSnapshotData]\<rparr>"

definition NewDeltaSnapshotStore :: "'ni DeltaSnapshotStore" where
  "NewDeltaSnapshotStore = delta_Clear \<lparr>delta_data = []\<rparr>"

text \<open>An operation of the store on its current layer.\<close>

definition delta_on_current ::
    "('ni internalDeltaSnapshotData \<Rightarrow> 'ni layers \<Rightarrow> 'r \<times> 'ni internalDeltaSnapshotData) \<Rightarrow>
     'ni DeltaSnapshotStore \<Rightarrow> 'r \<times> 'ni DeltaSnapshotStore" where
  "delta_on_current f snapshot =
     (let (r, d) = f (hd (delta_data snapshot)) (tl (delta_data snapshot))
      in (r, snapshot\<lparr>delta_data := d # tl (delta_data snapshot)\<rparr>))"

definition delta_RemoveNodeInfo where
  "delta_RemoveNodeInfo nodeName = delta_on_current (delta_removeNodeInfo nodeName)"

definition delta_StoreNodeInfo where
  "delta_StoreNodeInfo N nodeInfo = delta_on_current (delta_addNodeInfo N nodeInfo)"

definition delta_StorePodInfo where
  "delta_StorePodInfo N podInfo nodeName = delta_on_current (delta_addPodInfo N podInfo nodeName)"

definition delta_RemovePodInfo where
  "delta_RemovePodInfo N namespace podName nodeName =
     delta_on_current (delta_removePod N namespace podName nodeName)"

definition delta_IsPVCUsedByPods :: "('ni, 'pi, 'pod) node_info_api \<Rightarrow> string \<Rightarrow>
    'ni DeltaSnapshotStore \<Rightarrow> bool \<times> 'ni DeltaSnapshotStore" where
  "delta_IsPVCUsedByPods N key snapshot =
     (let (r, ls) = delta_isPVCUsedByPods N key (hd (delta_data snapshot)) (tl (delta_data snapshot))
      in (r, snapshot\<lparr>delta_data := ls\<rparr>))"

definition delta_Fork :: "'ni DeltaSnapshotStore \<Rightarrow> 'ni DeltaSnapshotStore" where
  "delta_Fork snapshot = snapshot\<lparr>delta_data := delta_fork (delta_data snapshot)\<rparr>"

definition delta_Revert :: "'ni DeltaSnapshotStore \<Rightarrow> 'ni DeltaSnapshotStore" where
  "delta_Revert snapshot =
     (if tl (delta_data snapshot) \<noteq> [] then snapshot\<lparr>delta_data := tl (delta_data snapshot)\<rparr>
      else snapshot)"

definition delta_Commit :: "('ni, 'pi, 'pod) node_info_api \<Rightarrow> 'ni DeltaSnapshotStore \<Rightarrow>
    snap_error option \<times> 'ni DeltaSnapshotStore" where
  "delta_Commit N snapshot =
     (let (err, ls) = delta_commit N (delta_data snapshot) in (err, snapshot\<lparr>delta_data := ls\<rparr>))"

definition delta_Get :: "string \<Rightarrow> 'ni DeltaSnapshotStore \<Rightarrow> snap_error + 'ni" where
  "delta_Get nodeName snapshot =
     (case delta_getNodeInfo nodeName (delta_data snapshot) of
        None \<Rightarrow> Inl ErrNodeNotFound | Some ni \<Rightarrow> Inr ni)"

definition delta_List :: "('ni, 'pi, 'pod) node_info_api \<Rightarrow> 'ni DeltaSnapshotStore \<Rightarrow>
    'ni list \<times> 'ni DeltaSnapshotStore" where
  "delta_List N snapshot =
     (let (l, ls) = delta_getNodeInfoList N (delta_data snapshot) in (l, snapshot\<lparr>delta_data := ls\<rparr>))"

definition delta_HavePodsWithAffinityList :: "('ni, 'pi, 'pod) node_info_api \<Rightarrow>
    'ni DeltaSnapshotStore \<Rightarrow> 'ni list \<times> 'ni DeltaSnapshotStore" where
  "delta_HavePodsWithAffinityList N snapshot =
     (case havePodsWithAffinity (hd (delta_data snapshot)) of
        Some l \<Rightarrow> (l, snapshot)
      | None \<Rightarrow>
          let (all, ls) = delta_getNodeInfoList N (delta_data snapshot);
              l = filter (\<lambda>node. length (GetPodsWithAffinity N node) > 0) all
          in (l, snapshot\<lparr>delta_data := (hd ls)\<lparr>havePodsWithAffinity := Some l\<rparr> # tl ls\<rparr>))"

definition delta_HavePodsWithRequiredAntiAffinityList :: "('ni, 'pi, 'pod) node_info_api \<Rightarrow>
    'ni DeltaSnapshotStore \<Rightarrow> 'ni list \<times> 'ni DeltaSnapshotStore" where
  "delta_HavePodsWithRequiredAntiAffinityList N snapshot =
     (case havePodsWithRequiredAntiAffinity (hd (delta_data snapshot)) of
        Some l \<Rightarrow> (l, snapshot)
      | None \<Rightarrow>
          let (all, ls) = delta_getNodeInfoList N (delta_data snapshot);
              l = filter (\<lambda>node. length (GetPodsWithRequiredAntiAffinity N node) > 0) all
          in (l, snapshot\<lparr>delta_data := (hd ls)\<lparr>havePodsWithRequiredAntiAffinity := Some l\<rparr> # tl ls\<rparr>))"

section \<open>What a chain of layers denotes, and the invariant\<close>

definition delta_view :: "'ni layers \<Rightarrow> (string \<rightharpoonup> 'ni)" where
  "delta_view ls = (\<lambda>n. delta_getNodeInfo n ls)"

text \<open>A layer over a base map.\<close>

definition layer_view :: "(string \<rightharpoonup> 'ni) \<Rightarrow> 'ni internalDeltaSnapshotData \<Rightarrow> (string \<rightharpoonup> 'ni)" where
  "layer_view m d = (\<lambda>n. case delta_getNodeInfoLocal n d of
     Some ni \<Rightarrow> Some ni | None \<Rightarrow> if gget False (deletedNodeInfos d) n then None else m n)"

text \<open>
  Added nodes are new to the base, modified and deleted ones come from it, and no node is
  recorded in two of the three maps.
\<close>

definition layer_inv :: "('ni, 'pi, 'pod) node_info_api \<Rightarrow> (string \<rightharpoonup> 'ni) \<Rightarrow>
    'ni internalDeltaSnapshotData \<Rightarrow> bool" where
  "layer_inv N m d \<longleftrightarrow>
     gm_wf (addedNodeInfoMap d) \<and> gm_wf (modifiedNodeInfoMap d) \<and> gm_wf (deletedNodeInfos d) \<and>
     named N (map_of (addedNodeInfoMap d)) \<and> named N (map_of (modifiedNodeInfoMap d)) \<and>
     (\<forall>n. gget False (deletedNodeInfos d) n = ghas (deletedNodeInfos d) n) \<and>
     (\<forall>n. ghas (addedNodeInfoMap d) n \<longrightarrow> m n = None) \<and>
     (\<forall>n. ghas (modifiedNodeInfoMap d) n \<longrightarrow> m n \<noteq> None \<and> \<not> ghas (deletedNodeInfos d) n) \<and>
     (\<forall>n. ghas (deletedNodeInfos d) n \<longrightarrow> m n \<noteq> None)"

text \<open>The total of the reference counts of a claim over all nodes.\<close>

definition pvc_total :: "('ni, 'pi, 'pod) node_info_api \<Rightarrow> (string \<rightharpoonup> 'ni) \<Rightarrow> string \<Rightarrow> int" where
  "pvc_total N m key =
     (\<Sum>ni | m (Node_Name N ni) = Some ni. gget 0 (GetPVCRefCounts N ni) key)"

definition cache_inv :: "('ni, 'pi, 'pod) node_info_api \<Rightarrow> (string \<rightharpoonup> 'ni) \<Rightarrow>
    'ni internalDeltaSnapshotData \<Rightarrow> bool" where
  "cache_inv N m d \<longleftrightarrow>
     (\<forall>l. nodeInfoList d = Some l \<longrightarrow> lists_view N m l) \<and>
     (\<forall>l. havePodsWithAffinity d = Some l \<longrightarrow>
        mset l = model_list N (\<lambda>ni. GetPodsWithAffinity N ni \<noteq> []) m) \<and>
     (\<forall>l. havePodsWithRequiredAntiAffinity d = Some l \<longrightarrow>
        mset l = model_list N (\<lambda>ni. GetPodsWithRequiredAntiAffinity N ni \<noteq> []) m) \<and>
     (\<forall>g. pvcNamespaceMap d = Some g \<longrightarrow> (\<forall>key. gget 0 g key = pvc_total N m key))"

fun layers_inv :: "('ni, 'pi, 'pod) node_info_api \<Rightarrow> 'ni layers \<Rightarrow> bool" where
  "layers_inv N [] = True"
| "layers_inv N (d # base) \<longleftrightarrow>
     layer_inv N (delta_view base) d \<and> cache_inv N (delta_view (d # base)) d \<and> layers_inv N base"

fun layers_stk :: "'ni layers \<Rightarrow> (string \<rightharpoonup> 'ni) list" where
  "layers_stk [] = []"
| "layers_stk (d # base) = delta_view (d # base) # layers_stk base"

lemma delta_view_Nil [simp]: "delta_view [] = Map.empty"
  by (simp add: delta_view_def)

lemma delta_view_Cons: "delta_view (d # base) = layer_view (delta_view base) d"
  by (simp add: delta_view_def layer_view_def fun_eq_iff)

lemma layer_invD:
  assumes "layer_inv N m d"
  shows "gm_wf (addedNodeInfoMap d)" "gm_wf (modifiedNodeInfoMap d)" "gm_wf (deletedNodeInfos d)"
    "named N (map_of (addedNodeInfoMap d))" "named N (map_of (modifiedNodeInfoMap d))"
    "gget False (deletedNodeInfos d) n = ghas (deletedNodeInfos d) n"
    "ghas (addedNodeInfoMap d) n \<Longrightarrow> m n = None"
    "ghas (modifiedNodeInfoMap d) n \<Longrightarrow> m n \<noteq> None"
    "ghas (modifiedNodeInfoMap d) n \<Longrightarrow> \<not> ghas (deletedNodeInfos d) n"
    "ghas (deletedNodeInfos d) n \<Longrightarrow> m n \<noteq> None"
  using assms by (auto simp: layer_inv_def)

lemma layer_view_unfold:
  assumes "layer_inv N m d"
  shows "layer_view m d n =
    (case map_of (addedNodeInfoMap d) n of Some ni \<Rightarrow> Some ni | None \<Rightarrow>
      (case map_of (modifiedNodeInfoMap d) n of Some ni \<Rightarrow> Some ni | None \<Rightarrow>
        (if ghas (deletedNodeInfos d) n then None else m n)))"
  using layer_invD(6) [OF assms]
  by (simp add: layer_view_def delta_getNodeInfoLocal_def split: option.splits)

lemma named_layer_view:
  "layer_inv N m d \<Longrightarrow> named N m \<Longrightarrow> named N (layer_view m d)"
  unfolding named_def
  by (auto simp: layer_view_unfold layer_inv_def named_def split: option.splits if_splits)

lemma named_delta_view: "layers_inv N ls \<Longrightarrow> named N (delta_view ls)"
  by (induction ls) (auto simp: delta_view_Cons named_layer_view)

lemma layer_new [simp]:
  "layer_inv N m newInternalDeltaSnapshotData"
  "layer_view m newInternalDeltaSnapshotData = m"
  "cache_inv N m' newInternalDeltaSnapshotData"
  by (auto simp: layer_inv_def layer_view_def cache_inv_def newInternalDeltaSnapshotData_def
      delta_getNodeInfoLocal_def)

text \<open>Clearing caches touches nothing else and makes any cache invariant hold.\<close>

lemma clearCaches_simps [simp]:
  "addedNodeInfoMap (delta_clearCaches d) = addedNodeInfoMap d"
  "modifiedNodeInfoMap (delta_clearCaches d) = modifiedNodeInfoMap d"
  "deletedNodeInfos (delta_clearCaches d) = deletedNodeInfos d"
  "addedNodeInfoMap (delta_clearPodCaches d) = addedNodeInfoMap d"
  "modifiedNodeInfoMap (delta_clearPodCaches d) = modifiedNodeInfoMap d"
  "deletedNodeInfos (delta_clearPodCaches d) = deletedNodeInfos d"
  "nodeInfoList (delta_clearPodCaches d) = nodeInfoList d"
  by (simp_all add: delta_clearCaches_def delta_clearPodCaches_def)

lemma layer_inv_cong:
  assumes "addedNodeInfoMap d' = addedNodeInfoMap d" "modifiedNodeInfoMap d' = modifiedNodeInfoMap d"
    "deletedNodeInfos d' = deletedNodeInfos d"
  shows "layer_inv N m d' = layer_inv N m d" and "layer_view m d' = layer_view m d"
  unfolding layer_inv_def layer_view_def delta_getNodeInfoLocal_def assms by (rule refl)+

lemma cache_inv_clearCaches [simp]: "cache_inv N m (delta_clearCaches d)"
  by (simp add: cache_inv_def delta_clearCaches_def delta_clearPodCaches_def)

lemma layer_inv_clearCaches [simp]:
  "layer_inv N m (delta_clearCaches d) = layer_inv N m d"
  "layer_view m (delta_clearCaches d) = layer_view m d"
  by (rule layer_inv_cong; simp)+

text \<open>How the derived quantities change when a node is added.\<close>

lemma model_list_upd:
  "m (Node_Name N ni) = None \<Longrightarrow> \<not> P ni \<Longrightarrow>
     model_list N P (m(Node_Name N ni \<mapsto> ni)) = model_list N P m"
  unfolding model_list_def by (rule arg_cong [where f = mset_set]) (auto split: if_splits)

lemma pvc_total_upd:
  assumes "m (Node_Name N ni) = None" and "GetPVCRefCounts N ni = []"
  shows "pvc_total N (m(Node_Name N ni \<mapsto> ni)) key = pvc_total N m key"
proof -
  let ?S = "{x. m (Node_Name N x) = Some x}"
  have S': "{x. (m(Node_Name N ni \<mapsto> ni)) (Node_Name N x) = Some x} = insert ni ?S"
    using assms(1) by (auto split: if_splits)
  show ?thesis
    unfolding pvc_total_def S' using assms by (cases "finite ?S") simp_all
qed

section \<open>The operations of a layer refine the specification\<close>

lemma delta_getNodeInfo_view: "delta_getNodeInfo n ls = delta_view ls n"
  by (simp add: delta_view_def)

definition delta_record_added :: "('ni, 'pi, 'pod) node_info_api \<Rightarrow> 'ni \<Rightarrow>
    'ni internalDeltaSnapshotData \<Rightarrow> 'ni internalDeltaSnapshotData" where
  "delta_record_added N ni d =
     (if ghas (deletedNodeInfos d) (Node_Name N ni)
      then d\<lparr>deletedNodeInfos := gdel (Node_Name N ni) (deletedNodeInfos d),
             modifiedNodeInfoMap := gput (Node_Name N ni) ni (modifiedNodeInfoMap d)\<rparr>
      else d\<lparr>addedNodeInfoMap := gput (Node_Name N ni) ni (addedNodeInfoMap d)\<rparr>)"

lemma delta_record_added_simps [simp]:
  "addedNodeInfoMap (delta_record_added N ni d) =
     (if ghas (deletedNodeInfos d) (Node_Name N ni) then addedNodeInfoMap d
      else gput (Node_Name N ni) ni (addedNodeInfoMap d))"
  "modifiedNodeInfoMap (delta_record_added N ni d) =
     (if ghas (deletedNodeInfos d) (Node_Name N ni)
      then gput (Node_Name N ni) ni (modifiedNodeInfoMap d) else modifiedNodeInfoMap d)"
  "deletedNodeInfos (delta_record_added N ni d) =
     (if ghas (deletedNodeInfos d) (Node_Name N ni)
      then gdel (Node_Name N ni) (deletedNodeInfos d) else deletedNodeInfos d)"
  "nodeInfoList (delta_record_added N ni d) = nodeInfoList d"
  "havePodsWithAffinity (delta_record_added N ni d) = havePodsWithAffinity d"
  "havePodsWithRequiredAntiAffinity (delta_record_added N ni d) = havePodsWithRequiredAntiAffinity d"
  "pvcNamespaceMap (delta_record_added N ni d) = pvcNamespaceMap d"
  by (simp_all add: delta_record_added_def)

lemma delta_addNodeInfo_eq:
  "delta_addNodeInfo N ni d base =
     (if delta_getNodeInfo (Node_Name N ni) (d # base) \<noteq> None
      then (Some (NodeAlreadyInSnapshot (Node_Name N ni)), d)
      else
        let d2 = (case nodeInfoList (delta_record_added N ni d) of
                    Some l \<Rightarrow> (delta_record_added N ni d)\<lparr>nodeInfoList := Some (l @ [ni])\<rparr>
                  | None \<Rightarrow> delta_record_added N ni d)
        in (None, if length (GetPods N ni) > 0 then delta_clearPodCaches d2 else d2))"
  unfolding delta_addNodeInfo_def delta_record_added_def Let_def by (rule refl)

lemma delta_record_added:
  assumes inv: "layer_inv N m d" and new: "layer_view m d (Node_Name N ni) = None"
  shows "layer_inv N m (delta_record_added N ni d)"
    and "layer_view m (delta_record_added N ni d) = (layer_view m d)(Node_Name N ni \<mapsto> ni)"
proof -
  note I = layer_invD [OF inv]
  show inv': "layer_inv N m (delta_record_added N ni d)"
  proof (cases "ghas (deletedNodeInfos d) (Node_Name N ni)")
    case True
    with I show ?thesis
      by (auto simp: layer_inv_def named_def)
  next
    case False
    then have "m (Node_Name N ni) = None"
      using new by (simp add: layer_view_unfold [OF inv] split: option.splits)
    with False I show ?thesis
      by (auto simp: layer_inv_def named_def)
  qed
  show "layer_view m (delta_record_added N ni d) = (layer_view m d)(Node_Name N ni \<mapsto> ni)"
    using new by (auto simp: fun_eq_iff layer_view_unfold [OF inv] layer_view_unfold [OF inv']
        ghas_def split: option.splits if_splits)
qed

lemma cache_inv_record:
  assumes ok: "node_info_ok N" and cache: "cache_inv N m d" and new: "m (Node_Name N ni) = None"
    and d1: "nodeInfoList d1 = nodeInfoList d" "havePodsWithAffinity d1 = havePodsWithAffinity d"
      "havePodsWithRequiredAntiAffinity d1 = havePodsWithRequiredAntiAffinity d"
      "pvcNamespaceMap d1 = pvcNamespaceMap d"
    and d2: "d2 = (case nodeInfoList d1 of
               Some l \<Rightarrow> d1\<lparr>nodeInfoList := Some (l @ [ni])\<rparr> | None \<Rightarrow> d1)"
  shows "cache_inv N (m(Node_Name N ni \<mapsto> ni))
           (if length (GetPods N ni) > 0 then delta_clearPodCaches d2 else d2)"
proof (cases "GetPods N ni = []")
  case True
  note empty = node_info_okD(5-7) [OF ok True]
  show ?thesis
    using cache new lists_view_append [of N m _ ni] empty
    by (auto simp: cache_inv_def d2 d1 True model_list_upd pvc_total_upd split: option.splits)
next
  case False
  then show ?thesis
    using cache new lists_view_append [of N m _ ni]
    by (auto simp: cache_inv_def d2 d1 delta_clearPodCaches_def split: option.splits)
qed

lemma delta_addNodeInfo_spec:
  assumes ok: "node_info_ok N" and inv: "layer_inv N (delta_view base) d"
    and cache: "cache_inv N (delta_view (d # base)) d"
    and res: "delta_addNodeInfo N ni d base = (r, d')"
  shows "(Result r, delta_view (d' # base)) = model_upd N (StoreNodeInfo ni) (delta_view (d # base))"
    and "layer_inv N (delta_view base) d'" and "cache_inv N (delta_view (d' # base)) d'"
proof -
  let ?m = "delta_view base" and ?n = "Node_Name N ni"
  let ?d1 = "delta_record_added N ni d"
  let ?d2 = "case nodeInfoList ?d1 of Some l \<Rightarrow> ?d1\<lparr>nodeInfoList := Some (l @ [ni])\<rparr> | None \<Rightarrow> ?d1"
  have "(Result r, delta_view (d' # base)) = model_upd N (StoreNodeInfo ni) (delta_view (d # base)) \<and>
      layer_inv N ?m d' \<and> cache_inv N (delta_view (d' # base)) d'"
  proof (cases "delta_view (d # base) ?n = None")
    case False
    with res inv cache show ?thesis
      by (auto simp: delta_addNodeInfo_def delta_getNodeInfo_view Let_def)
  next
    case True
    then have r: "r = None" and d': "d' = (if length (GetPods N ni) > 0 then delta_clearPodCaches ?d2 else ?d2)"
      using res by (simp_all add: delta_addNodeInfo_eq delta_getNodeInfo_view Let_def split: if_splits)
    have new: "layer_view ?m d ?n = None" using True by (simp add: delta_view_Cons)
    have maps: "addedNodeInfoMap d' = addedNodeInfoMap ?d1"
      "modifiedNodeInfoMap d' = modifiedNodeInfoMap ?d1" "deletedNodeInfos d' = deletedNodeInfos ?d1"
      by (simp_all add: d' split: option.splits)
    note same = layer_inv_cong [OF maps]
    have view: "delta_view (d' # base) = (delta_view (d # base))(?n \<mapsto> ni)"
      using delta_record_added(2) [OF inv new] by (simp add: delta_view_Cons same)
    moreover have "cache_inv N ((delta_view (d # base))(?n \<mapsto> ni)) d'"
      unfolding d' by (rule cache_inv_record [OF ok cache True, where ?d1.0 = ?d1]) simp_all
    ultimately show ?thesis
      using True delta_record_added(1) [OF inv new] by (simp add: r same)
  qed
  then show "(Result r, delta_view (d' # base)) = model_upd N (StoreNodeInfo ni) (delta_view (d # base))"
    and "layer_inv N ?m d'" and "cache_inv N (delta_view (d' # base)) d'" by blast+
qed

text \<open>What removing a node records in the layer.\<close>

definition delta_record_removed :: "bool \<Rightarrow> string \<Rightarrow>
    'ni internalDeltaSnapshotData \<Rightarrow> 'ni internalDeltaSnapshotData" where
  "delta_record_removed inBase n d =
     d\<lparr>addedNodeInfoMap := gdel n (addedNodeInfoMap d),
       modifiedNodeInfoMap := gdel n (modifiedNodeInfoMap d),
       deletedNodeInfos := (if inBase then gput n True (deletedNodeInfos d) else deletedNodeInfos d)\<rparr>"

lemma delta_record_removed_simps [simp]:
  "addedNodeInfoMap (delta_record_removed b n d) = gdel n (addedNodeInfoMap d)"
  "modifiedNodeInfoMap (delta_record_removed b n d) = gdel n (modifiedNodeInfoMap d)"
  "deletedNodeInfos (delta_record_removed b n d) =
     (if b then gput n True (deletedNodeInfos d) else deletedNodeInfos d)"
  by (simp_all add: delta_record_removed_def)

lemma delta_record_removed:
  assumes inv: "layer_inv N m d" and b: "b \<longleftrightarrow> m n \<noteq> None"
  shows "layer_inv N m (delta_record_removed b n d)"
    and "layer_view m (delta_record_removed b n d) = (layer_view m d)(n := None)"
proof -
  note I = layer_invD [OF inv]
  show inv': "layer_inv N m (delta_record_removed b n d)"
    using I b by (auto simp: layer_inv_def named_def)
  show "layer_view m (delta_record_removed b n d) = (layer_view m d)(n := None)"
    unfolding fun_eq_iff layer_view_unfold [OF inv'] fun_upd_apply layer_view_unfold [OF inv]
    using b layer_invD(8,10) [OF inv, of n] by (auto simp: ghas_def split: option.splits if_splits)
qed

lemma gdel_absent: "\<not> ghas m k \<Longrightarrow> gdel k m = m"
  by (induction m) (auto simp: ghas_def split: if_splits)

lemma delta_removeNodeInfo_present:
  assumes inv: "layer_inv N (delta_view base) d" and here: "delta_view (d # base) n \<noteq> None"
  shows "delta_removeNodeInfo n d base =
    (None, delta_clearCaches (delta_record_removed (delta_view base n \<noteq> None) n d))"
proof -
  have "\<not> ghas (deletedNodeInfos d) n"
    using here layer_invD(7,9,10) [OF inv, of n]
    by (cases "map_of (deletedNodeInfos d) n")
      (auto simp: delta_view_Cons layer_view_unfold [OF inv] ghas_def split: option.splits)
  moreover have "delta_view base n \<noteq> None \<or> ghas (addedNodeInfoMap d) n"
    using here layer_invD(8) [OF inv, of n]
    by (auto simp: delta_view_Cons layer_view_unfold [OF inv] ghas_def split: option.splits if_splits)
  ultimately show ?thesis
    by (auto simp: delta_removeNodeInfo_def delta_record_removed_def delta_getNodeInfo_view Let_def
        gdel_absent)
qed

lemma delta_removeNodeInfo_absent:
  assumes inv: "layer_inv N (delta_view base) d" and gone: "delta_view (d # base) n = None"
  shows "delta_removeNodeInfo n d base = (Some ErrNodeNotFound, d)"
proof -
  have "\<not> ghas (addedNodeInfoMap d) n" "\<not> ghas (modifiedNodeInfoMap d) n"
    "ghas (deletedNodeInfos d) n \<or> delta_view base n = None"
    using gone by (auto simp: delta_view_Cons layer_view_unfold [OF inv] ghas_def
        split: option.splits if_splits)
  then show ?thesis
    by (auto simp: delta_removeNodeInfo_def delta_getNodeInfo_view Let_def)
qed

lemma delta_removeNodeInfo_spec:
  assumes inv: "layer_inv N (delta_view base) d" and cache: "cache_inv N (delta_view (d # base)) d"
    and res: "delta_removeNodeInfo n d base = (r, d')"
  shows "(Result r, delta_view (d' # base)) = model_upd N (RemoveNodeInfo n) (delta_view (d # base))"
    and "layer_inv N (delta_view base) d'" and "cache_inv N (delta_view (d' # base)) d'"
proof -
  have "(Result r, delta_view (d' # base)) = model_upd N (RemoveNodeInfo n) (delta_view (d # base)) \<and>
      layer_inv N (delta_view base) d' \<and> cache_inv N (delta_view (d' # base)) d'"
  proof (cases "delta_view (d # base) n = None")
    case True
    with res inv cache show ?thesis
      by (auto simp: delta_removeNodeInfo_absent [OF inv True])
  next
    case False
    with res delta_record_removed [OF inv refl, of n] show ?thesis
      by (auto simp: delta_removeNodeInfo_present [OF inv False] delta_view_Cons)
  qed
  then show "(Result r, delta_view (d' # base)) = model_upd N (RemoveNodeInfo n) (delta_view (d # base))"
    and "layer_inv N (delta_view base) d'" and "cache_inv N (delta_view (d' # base)) d'" by blast+
qed

text \<open>
  \<open>nodeInfoToModify\<close> finds the node that is visible and makes the layer own it, without a
  visible change; writing to the owned node then changes that entry of the view.
\<close>

lemma delta_nodeInfoToModify_spec:
  assumes ok: "node_info_ok N" and inv: "layer_inv N (delta_view base) d"
    and named: "named N (delta_view base)" and cache: "cache_inv N (delta_view (d # base)) d"
    and res: "delta_nodeInfoToModify N n d base = (o_ni, d1)"
  shows "o_ni = delta_view (d # base) n" and "delta_view (d1 # base) = delta_view (d # base)"
    and "layer_inv N (delta_view base) d1" and "cache_inv N (delta_view (d1 # base)) d1"
    and "o_ni = Some ni \<Longrightarrow> ghas (addedNodeInfoMap d1) n \<or> ghas (modifiedNodeInfoMap d1) n"
proof -
  let ?m = "delta_view base"
  let ?d' = "d\<lparr>modifiedNodeInfoMap := gput n (the (?m n)) (modifiedNodeInfoMap d)\<rparr>"
  have "o_ni = delta_view (d # base) n \<and> delta_view (d1 # base) = delta_view (d # base) \<and>
      layer_inv N ?m d1 \<and> cache_inv N (delta_view (d1 # base)) d1 \<and>
      (o_ni = Some ni \<longrightarrow> ghas (addedNodeInfoMap d1) n \<or> ghas (modifiedNodeInfoMap d1) n)"
  proof (cases "delta_getNodeInfoLocal n d = None \<and> \<not> ghas (deletedNodeInfos d) n \<and> ?m n \<noteq> None")
    case False
    then have "d1 = d" and "o_ni = delta_view (d # base) n"
      and "o_ni = Some ni \<Longrightarrow> delta_getNodeInfoLocal n d \<noteq> None"
      using res layer_invD(6) [OF inv, of n]
      by (auto simp: delta_nodeInfoToModify_def delta_getNodeInfo_view delta_view_Cons layer_view_def
          split: option.splits if_splits)
    with inv cache show ?thesis
      by (auto simp: delta_getNodeInfoLocal_def ghas_def split: option.splits)
  next
    case True
    then obtain y where y: "?m n = Some y" by auto
    with True have o_ni: "o_ni = ?m n" and d1: "d1 = delta_clearCaches ?d'"
      using res by (auto simp: y delta_nodeInfoToModify_def delta_getNodeInfo_view
          node_info_okD(1) [OF ok] Let_def)
    have loc: "\<not> ghas (addedNodeInfoMap d) n" "\<not> ghas (modifiedNodeInfoMap d) n"
      using True by (auto simp: delta_getNodeInfoLocal_def ghas_def split: option.splits)
    have inv': "layer_inv N ?m ?d'"
      using layer_invD [OF inv] True named loc by (auto simp: layer_inv_def named_def)
    have "layer_view ?m ?d' = layer_view ?m d"
      using True loc by (auto simp: fun_eq_iff layer_view_unfold [OF inv] layer_view_unfold [OF inv']
          ghas_def split: option.splits)
    moreover have "layer_view ?m d n = ?m n"
      using True loc by (auto simp: layer_view_unfold [OF inv] ghas_def split: option.splits)
    ultimately show ?thesis
      using inv' by (simp add: o_ni d1 delta_view_Cons)
  qed
  then show "o_ni = delta_view (d # base) n" and "delta_view (d1 # base) = delta_view (d # base)"
    and "layer_inv N (delta_view base) d1" and "cache_inv N (delta_view (d1 # base)) d1"
    and "o_ni = Some ni \<Longrightarrow> ghas (addedNodeInfoMap d1) n \<or> ghas (modifiedNodeInfoMap d1) n"
    by blast+
qed

lemma delta_writeBack_spec:
  assumes inv: "layer_inv N m d" and loc: "ghas (addedNodeInfoMap d) n \<or> ghas (modifiedNodeInfoMap d) n"
    and name: "Node_Name N ni = n"
  shows "layer_inv N m (delta_writeBack n ni d)"
    and "layer_view m (delta_writeBack n ni d) = (layer_view m d)(n \<mapsto> ni)"
proof -
  note I = layer_invD [OF inv]
  show inv': "layer_inv N m (delta_writeBack n ni d)"
    using I name loc by (auto simp: layer_inv_def delta_writeBack_def named_def)
  have maps: "addedNodeInfoMap (delta_writeBack n ni d) =
      (if ghas (addedNodeInfoMap d) n then gput n ni (addedNodeInfoMap d) else addedNodeInfoMap d)"
    "modifiedNodeInfoMap (delta_writeBack n ni d) =
      (if ghas (addedNodeInfoMap d) n then modifiedNodeInfoMap d else gput n ni (modifiedNodeInfoMap d))"
    "deletedNodeInfos (delta_writeBack n ni d) = deletedNodeInfos d"
    by (simp_all add: delta_writeBack_def)
  show "layer_view m (delta_writeBack n ni d) = (layer_view m d)(n \<mapsto> ni)"
    using loc by (auto simp: fun_eq_iff layer_view_unfold [OF inv] layer_view_unfold [OF inv'] maps
        ghas_def split: option.splits if_splits)
qed

section \<open>Listing and counting\<close>

lemma named_entries:
  assumes "gm_wf g" and "named N (map_of g)"
  shows "map (\<lambda>ni. (Node_Name N ni, ni)) (map snd g) = g"
proof -
  have "(Node_Name N (snd e), snd e) = e" if "e \<in> set g" for e
    using assms that by (cases e) (simp add: named_def gm_wf_map_of_in)
  then have "map (\<lambda>e. (Node_Name N (snd e), snd e)) g = g" by (simp add: map_idI)
  then show ?thesis by (simp add: comp_def)
qed

text \<open>The node info a layer shows in place of one of the base.\<close>

definition overlaid :: "('ni, 'pi, 'pod) node_info_api \<Rightarrow> 'ni internalDeltaSnapshotData \<Rightarrow> 'ni \<Rightarrow> 'ni" where
  "overlaid N d b =
     (case map_of (modifiedNodeInfoMap d) (Node_Name N b) of Some mni \<Rightarrow> mni | None \<Rightarrow> b)"

lemma delta_overlay_eq:
  assumes "layer_inv N m d"
  shows "delta_overlay N d l =
    map (overlaid N d) (filter (\<lambda>b. \<not> ghas (deletedNodeInfos d) (Node_Name N b)) l)"
  using layer_invD(6) [OF assms] by (induction l) (simp_all add: overlaid_def split: option.splits)

lemma Node_Name_overlaid: "layer_inv N m d \<Longrightarrow> Node_Name N (overlaid N d b) = Node_Name N b"
  using layer_invD(5) [of N m d] by (auto simp: overlaid_def named_def split: option.splits)

text \<open>With nothing deleted or modified the overlay is the base list: the fast path is exact.\<close>

lemma delta_buildNodeInfoList_overlay:
  assumes "layer_inv N m d"
  shows "delta_buildNodeInfoList N d l =
    map (overlaid N d) (filter (\<lambda>b. \<not> ghas (deletedNodeInfos d) (Node_Name N b)) l) @
    map snd (addedNodeInfoMap d)"
proof -
  have "delta_overlay N d l = l" if "deletedNodeInfos d = []" "modifiedNodeInfoMap d = []"
    using that by (induction l) auto
  then show ?thesis by (simp add: delta_buildNodeInfoList_def delta_overlay_eq [OF assms, symmetric])
qed

lemma overlaid_in_view:
  assumes inv: "layer_inv N m d" and m: "named N m"
  shows "(\<exists>b. m (Node_Name N b) = Some b \<and> \<not> ghas (deletedNodeInfos d) (Node_Name N b) \<and>
            x = overlaid N d b) \<longleftrightarrow>
         \<not> ghas (addedNodeInfoMap d) (Node_Name N x) \<and> layer_view m d (Node_Name N x) = Some x"
    (is "?lhs \<longleftrightarrow> ?rhs")
proof
  assume ?lhs
  then obtain b where b: "m (Node_Name N b) = Some b" "\<not> ghas (deletedNodeInfos d) (Node_Name N b)"
    "x = overlaid N d b" by blast
  have "Node_Name N x = Node_Name N b" using b(3) Node_Name_overlaid [OF inv] by simp
  moreover have "\<not> ghas (addedNodeInfoMap d) (Node_Name N b)"
    using b(1) layer_invD(7) [OF inv, of "Node_Name N b"] by auto
  ultimately show ?rhs
    using b by (auto simp: layer_view_unfold [OF inv] overlaid_def ghas_def split: option.splits)
next
  assume rhs: ?rhs
  show ?lhs
  proof (cases "map_of (modifiedNodeInfoMap d) (Node_Name N x)")
    case None
    with rhs show ?thesis
      by (intro exI [of _ x])
        (auto simp: layer_view_unfold [OF inv] overlaid_def ghas_def split: option.splits if_splits)
  next
    case (Some y)
    then have "y = x" using rhs by (simp add: layer_view_unfold [OF inv] ghas_def split: option.splits)
    have has: "ghas (modifiedNodeInfoMap d) (Node_Name N x)" using Some by (simp add: ghas_def)
    then obtain b where b: "m (Node_Name N x) = Some b" using layer_invD(8) [OF inv] by blast
    then have "Node_Name N b = Node_Name N x" using m by (simp add: named_def)
    with b Some \<open>y = x\<close> layer_invD(9) [OF inv has] show ?thesis
      by (intro exI [of _ b]) (simp add: overlaid_def)
  qed
qed

lemma delta_buildNodeInfoList_spec:
  assumes inv: "layer_inv N m d" and m: "named N m" and l: "lists_view N m l"
  shows "lists_view N (layer_view m d) (delta_buildNodeInfoList N d l)"
proof -
  note I = layer_invD [OF inv]
  let ?f = "filter (\<lambda>b. \<not> ghas (deletedNodeInfos d) (Node_Name N b)) l"
  let ?o = "map (overlaid N d) ?f" and ?a = "map snd (addedNodeInfoMap d)"
  have a: "distinct (map (Node_Name N) ?a)"
    "x \<in> set ?a \<longleftrightarrow> map_of (addedNodeInfoMap d) (Node_Name N x) = Some x" for x
    using lists_view_values [OF I(1,4)] by (simp_all add: lists_view_def)
  have in_l: "b \<in> set l \<longleftrightarrow> m (Node_Name N b) = Some b" for b
    using l by (simp add: lists_view_def)
  have in_o: "x \<in> set ?o \<longleftrightarrow>
      \<not> ghas (addedNodeInfoMap d) (Node_Name N x) \<and> layer_view m d (Node_Name N x) = Some x" for x
    using overlaid_in_view [OF inv m, of x] in_l by auto
  have "map (Node_Name N) ?o = map (Node_Name N) ?f"
    using Node_Name_overlaid [OF inv] by simp
  moreover have "distinct (map (Node_Name N) ?f)"
    using l by (simp add: lists_view_def distinct_map_filter)
  ultimately have "distinct (map (Node_Name N) ?o)" by argo
  moreover have "set (map (Node_Name N) ?o) \<inter> set (map (Node_Name N) ?a) = {}"
    using in_o a(2) by (intro set_map_disjointI) (metis ghas_def option.distinct(1))
  ultimately have "distinct (map (Node_Name N) (?o @ ?a))" using a(1) by simp
  moreover have "x \<in> set (?o @ ?a) \<longleftrightarrow> layer_view m d (Node_Name N x) = Some x" for x
    using in_o [of x] a(2) [of x]
    by (cases "map_of (addedNodeInfoMap d) (Node_Name N x)") (auto simp: layer_view_unfold [OF inv] ghas_def simp del: set_map)
  ultimately show ?thesis
    unfolding lists_view_def delta_buildNodeInfoList_overlay [OF inv] by blast
qed

lemma delta_getNodeInfoList_spec:
  assumes "layers_inv N ls" and "delta_getNodeInfoList N ls = (l, ls')"
  shows "lists_view N (delta_view ls) l \<and> layers_inv N ls' \<and> layers_stk ls' = layers_stk ls \<and>
           delta_view ls' = delta_view ls \<and> length ls' = length ls"
  using assms
proof (induction ls arbitrary: l ls')
  case Nil
  then show ?case by (simp add: lists_view_def)
next
  case (Cons d base)
  note inv = Cons.prems(1)
  show ?case
  proof (cases "nodeInfoList d")
    case (Some l')
    with Cons.prems show ?thesis by (auto simp: cache_inv_def)
  next
    case None
    obtain bl base' where base': "delta_getNodeInfoList N base = (bl, base')" by force
    with Cons.IH inv have IH: "lists_view N (delta_view base) bl" "layers_inv N base'"
      "layers_stk base' = layers_stk base" "delta_view base' = delta_view base"
      "length base' = length base"
      by auto
    let ?l = "delta_buildNodeInfoList N d bl"
    let ?d = "d\<lparr>nodeInfoList := Some ?l\<rparr>"
    have l: "l = ?l" and ls': "ls' = ?d # base'"
      using Cons.prems(2) None base' by (auto simp: Let_def)
    have same: "layer_inv N m ?d = layer_inv N m d" "layer_view m ?d = layer_view m d" for m
      by (rule layer_inv_cong; simp)+
    have list: "lists_view N (delta_view (d # base)) ?l"
      using delta_buildNodeInfoList_spec [OF _ _ IH(1)] named_delta_view [of N base] inv
      by (simp add: delta_view_Cons)
    moreover have "cache_inv N (delta_view (d # base)) ?d"
      using inv list by (simp add: cache_inv_def)
    ultimately show ?thesis
      using inv IH by (simp add: l ls' delta_view_Cons same)
  qed
qed

section \<open>Commit replays a layer on the one below\<close>

definition top_inv :: "('ni, 'pi, 'pod) node_info_api \<Rightarrow> 'ni internalDeltaSnapshotData \<Rightarrow>
    'ni layers \<Rightarrow> bool" where
  "top_inv N b base \<longleftrightarrow>
     layer_inv N (delta_view base) b \<and> cache_inv N (delta_view (b # base)) b"

lemma delta_commit_deleted_spec:
  assumes "top_inv N b base" and "distinct ks" and "\<And>k. k \<in> set ks \<Longrightarrow> delta_view (b # base) k \<noteq> None"
  shows "\<exists>b'. delta_commit_deleted ks b base = (None, b') \<and> top_inv N b' base \<and>
    delta_view (b' # base) = (\<lambda>n. if n \<in> set ks then None else delta_view (b # base) n)"
  using assms
proof (induction ks arbitrary: b)
  case Nil
  then show ?case by simp
next
  case (Cons k ks)
  obtain r b1 where b1: "delta_removeNodeInfo k b base = (r, b1)" by force
  note inv = Cons.prems(1) [unfolded top_inv_def]
  note spec = delta_removeNodeInfo_spec [OF inv [THEN conjunct1] inv [THEN conjunct2] b1]
  have r: "r = None" and v: "delta_view (b1 # base) = (delta_view (b # base))(k := None)"
    using spec(1) Cons.prems(3) [of k] by auto
  have "\<exists>b'. delta_commit_deleted ks b1 base = (None, b') \<and> top_inv N b' base \<and>
    delta_view (b' # base) = (\<lambda>n. if n \<in> set ks then None else delta_view (b1 # base) n)"
    using Cons.prems(2,3) spec(2,3) by (intro Cons.IH) (auto simp: top_inv_def v)
  then show ?case by (auto simp: b1 r v fun_eq_iff)
qed

lemma delta_commit_added_spec:
  assumes "node_info_ok N" and "top_inv N b base" and "distinct (map (Node_Name N) nis)"
    and "\<And>ni. ni \<in> set nis \<Longrightarrow> delta_view (b # base) (Node_Name N ni) = None"
  shows "\<exists>b'. delta_commit_added N nis b base = (None, b') \<and> top_inv N b' base \<and>
    delta_view (b' # base) = delta_view (b # base) ++ map_of (map (\<lambda>ni. (Node_Name N ni, ni)) nis)"
  using assms(2-)
proof (induction nis arbitrary: b)
  case Nil
  then show ?case by simp
next
  case (Cons ni nis)
  obtain r b1 where b1: "delta_addNodeInfo N ni b base = (r, b1)" by force
  note inv = Cons.prems(1) [unfolded top_inv_def]
  note spec = delta_addNodeInfo_spec [OF assms(1) inv [THEN conjunct1] inv [THEN conjunct2] b1]
  have r: "r = None" and v: "delta_view (b1 # base) = (delta_view (b # base))(Node_Name N ni \<mapsto> ni)"
    using spec(1) Cons.prems(3) [of ni] by auto
  have "Node_Name N x \<noteq> Node_Name N ni" if "x \<in> set nis" for x
    using Cons.prems(2) that by (simp, metis imageI)
  then have "\<exists>b'. delta_commit_added N nis b1 base = (None, b') \<and> top_inv N b' base \<and>
    delta_view (b' # base) = delta_view (b1 # base) ++ map_of (map (\<lambda>ni. (Node_Name N ni, ni)) nis)"
    using Cons.prems(2,3) spec(2,3) by (intro Cons.IH) (auto simp: top_inv_def v)
  moreover have "map_of (map (\<lambda>ni. (Node_Name N ni, ni)) nis) (Node_Name N ni) = None"
    using Cons.prems(2) by (auto simp: map_of_eq_None_iff)
  ultimately show ?case
    by (auto simp: b1 r v map_add_insert simp del: map_of.simps)
qed

lemma delta_commit_modified_spec:
  assumes "node_info_ok N" and "top_inv N b base" and "distinct (map (Node_Name N) nis)"
    and "\<And>ni. ni \<in> set nis \<Longrightarrow> delta_view (b # base) (Node_Name N ni) \<noteq> None"
  shows "\<exists>b'. delta_commit_modified N nis b base = (None, b') \<and> top_inv N b' base \<and>
    delta_view (b' # base) = delta_view (b # base) ++ map_of (map (\<lambda>ni. (Node_Name N ni, ni)) nis)"
  using assms(2-)
proof (induction nis arbitrary: b)
  case Nil
  then show ?case by simp
next
  case (Cons ni nis)
  let ?n = "Node_Name N ni"
  obtain r b1 where b1: "delta_removeNodeInfo ?n b base = (r, b1)" by force
  obtain r2 b2 where b2: "delta_addNodeInfo N ni b1 base = (r2, b2)" by force
  note inv = Cons.prems(1) [unfolded top_inv_def]
  note rem = delta_removeNodeInfo_spec [OF inv [THEN conjunct1] inv [THEN conjunct2] b1]
  note add = delta_addNodeInfo_spec [OF assms(1) rem(2,3) b2]
  have r: "r = None" and v1: "delta_view (b1 # base) = (delta_view (b # base))(?n := None)"
    using rem(1) Cons.prems(3) [of ni] by auto
  have r2: "r2 = None" and v2: "delta_view (b2 # base) = (delta_view (b # base))(?n \<mapsto> ni)"
    using add(1) v1 by auto
  have "\<exists>b'. delta_commit_modified N nis b2 base = (None, b') \<and> top_inv N b' base \<and>
    delta_view (b' # base) = delta_view (b2 # base) ++ map_of (map (\<lambda>ni. (Node_Name N ni, ni)) nis)"
    using Cons.prems(2,3) add(2,3) by (intro Cons.IH) (auto simp: top_inv_def v2)
  moreover have "map_of (map (\<lambda>ni. (Node_Name N ni, ni)) nis) ?n = None"
    using Cons.prems(2) by (auto simp: map_of_eq_None_iff)
  ultimately show ?case
    by (auto simp: b1 b2 r r2 v2 map_add_insert simp del: map_of.simps)
qed

lemma layer_view_as_updates:
  assumes "layer_inv N m d"
  shows "layer_view m d =
    (\<lambda>n. if n \<in> set (map fst (deletedNodeInfos d)) then None else m n) ++
      map_of (modifiedNodeInfoMap d) ++ map_of (addedNodeInfoMap d)"
  using layer_invD(9) [OF assms]
  by (auto simp: fun_eq_iff layer_view_unfold [OF assms] map_add_def ghas_iff split: option.splits)

lemma delta_commit_spec:
  assumes ok: "node_info_ok N" and inv: "layers_inv N (d # b # base)"
  shows "\<exists>b'. delta_commit N (d # b # base) = (None, b' # base) \<and> layers_inv N (b' # base) \<and>
    delta_view (b' # base) = delta_view (d # b # base)"
proof -
  let ?m = "delta_view (b # base)"
  have d: "layer_inv N ?m d" and b: "top_inv N b base" and base: "layers_inv N base"
    using inv by (auto simp: top_inv_def)
  note I = layer_invD [OF d]
  have mod: "lists_view N (map_of (modifiedNodeInfoMap d)) (map snd (modifiedNodeInfoMap d))"
    and add: "lists_view N (map_of (addedNodeInfoMap d)) (map snd (addedNodeInfoMap d))"
    using I(1,2,4,5) by (simp_all add: lists_view_values)
  obtain b1 where b1: "delta_commit_deleted (map fst (deletedNodeInfos d)) b base = (None, b1)"
    "top_inv N b1 base"
    "delta_view (b1 # base) = (\<lambda>n. if n \<in> set (map fst (deletedNodeInfos d)) then None else ?m n)"
    using delta_commit_deleted_spec [OF b, of "map fst (deletedNodeInfos d)"] I(3,10)
    by (auto simp: gm_wf_def ghas_iff)
  have "delta_view (b1 # base) (Node_Name N ni) \<noteq> None" if "ni \<in> set (map snd (modifiedNodeInfoMap d))" for ni
    using mod that I(8,9) [of "Node_Name N ni"] by (simp add: b1(3) lists_view_def flip: ghas_iff)
      (metis ghas_def option.distinct(1))
  then obtain b2 where b2: "delta_commit_modified N (map snd (modifiedNodeInfoMap d)) b1 base = (None, b2)"
    "top_inv N b2 base"
    "delta_view (b2 # base) = delta_view (b1 # base) ++ map_of (modifiedNodeInfoMap d)"
    using delta_commit_modified_spec [OF ok b1(2), of "map snd (modifiedNodeInfoMap d)"] mod
    by (simp only: named_entries [OF I(2,5)] lists_view_def) blast
  have "delta_view (b2 # base) (Node_Name N ni) = None" if "ni \<in> set (map snd (addedNodeInfoMap d))" for ni
    using add that I(7,8) [of "Node_Name N ni"]
    by (simp add: b2(3) b1(3) lists_view_def map_add_None) (metis ghas_def option.distinct(1))
  then obtain b3 where b3: "delta_commit_added N (map snd (addedNodeInfoMap d)) b2 base = (None, b3)"
    "top_inv N b3 base"
    "delta_view (b3 # base) = delta_view (b2 # base) ++ map_of (addedNodeInfoMap d)"
    using delta_commit_added_spec [OF ok b2(2), of "map snd (addedNodeInfoMap d)"] add
    by (simp only: named_entries [OF I(1,4)] lists_view_def) blast
  have "delta_view (b3 # base) = delta_view (d # b # base)"
    using layer_view_as_updates [OF d] by (simp add: delta_view_Cons [of d] b3(3) b2(3) b1(3))
  then show ?thesis
    using b1(1) b2(1) b3(1,2) base by (simp add: top_inv_def)
qed

section \<open>The delta store refines the map specification\<close>

fun delta_upd :: "('ni, 'pi, 'pod) node_info_api \<Rightarrow> ('ni, 'pi) store_op \<Rightarrow>
    'ni DeltaSnapshotStore \<Rightarrow> 'ni store_out \<times> 'ni DeltaSnapshotStore" where
  "delta_upd N (StoreNodeInfo ni) s = (let (r, s') = delta_StoreNodeInfo N ni s in (Result r, s'))"
| "delta_upd N (RemoveNodeInfo n) s = (let (r, s') = delta_RemoveNodeInfo n s in (Result r, s'))"
| "delta_upd N (StorePodInfo pi n) s = (let (r, s') = delta_StorePodInfo N pi n s in (Result r, s'))"
| "delta_upd N (RemovePodInfo ns p n) s =
     (let (r, s') = delta_RemovePodInfo N ns p n s in (Result r, s'))"
| "delta_upd N (GetNodeInfo n) s = (Node (delta_Get n s), s)"
| "delta_upd N ListNodeInfos s = (let (l, s') = delta_List N s in (Nodes (mset l), s'))"
| "delta_upd N ListAffinity s =
     (let (l, s') = delta_HavePodsWithAffinityList N s in (Nodes (mset l), s'))"
| "delta_upd N ListAntiAffinity s =
     (let (l, s') = delta_HavePodsWithRequiredAntiAffinityList N s in (Nodes (mset l), s'))"

definition delta_inv :: "('ni, 'pi, 'pod) node_info_api \<Rightarrow> 'ni DeltaSnapshotStore \<Rightarrow> bool" where
  "delta_inv N s \<longleftrightarrow> delta_data s \<noteq> [] \<and> layers_inv N (delta_data s)"

definition delta_stk :: "'ni DeltaSnapshotStore \<Rightarrow> (string \<rightharpoonup> 'ni) list" where
  "delta_stk s = layers_stk (delta_data s)"

lemma delta_addPodInfo_spec:
  assumes ok: "node_info_ok N" and inv: "layers_inv N (d # base)"
    and res: "delta_addPodInfo N pi n d base = (r, d')"
  shows "(Result r, delta_view (d' # base)) = model_upd N (StorePodInfo pi n) (delta_view (d # base)) \<and>
    layers_inv N (d' # base)"
proof -
  obtain o_ni d1 where d1: "delta_nodeInfoToModify N n d base = (o_ni, d1)" by force
  have top: "layer_inv N (delta_view base) d" "cache_inv N (delta_view (d # base)) d"
    and base: "layers_inv N base" using inv by simp_all
  note spec = delta_nodeInfoToModify_spec [OF ok top(1) named_delta_view [OF base] top(2) d1]
  show ?thesis
  proof (cases o_ni)
    case None
    with res d1 spec(1-4) base show ?thesis by (auto simp: delta_addPodInfo_def)
  next
    case (Some ni)
    have "Node_Name N ni = n"
      using named_delta_view [OF inv] spec(1) Some by (simp add: named_def)
    then have name: "Node_Name N (AddPodInfo N pi ni) = n" by (simp add: node_info_okD(2) [OF ok])
    note wb = delta_writeBack_spec [OF spec(3) spec(5) [OF Some] name]
    from res d1 Some have "r = None" and "d' = delta_clearCaches (delta_writeBack n (AddPodInfo N pi ni) d1)"
      by (simp_all add: delta_addPodInfo_def)
    with wb spec(1) [symmetric] spec(2) Some base show ?thesis by (simp add: delta_view_Cons)
  qed
qed

lemma delta_removePod_spec:
  assumes ok: "node_info_ok N" and inv: "layers_inv N (d # base)"
    and res: "delta_removePod N ns p n d base = (r, d')"
  shows "(Result r, delta_view (d' # base)) = model_upd N (RemovePodInfo ns p n) (delta_view (d # base)) \<and>
    layers_inv N (d' # base)"
proof -
  obtain o_ni d1 where d1: "delta_nodeInfoToModify N n d base = (o_ni, d1)" by force
  have top: "layer_inv N (delta_view base) d" "cache_inv N (delta_view (d # base)) d"
    and base: "layers_inv N base" using inv by simp_all
  note spec = delta_nodeInfoToModify_spec [OF ok top(1) named_delta_view [OF base] top(2) d1]
  show ?thesis
  proof (cases "\<exists>ni pod ni'. o_ni = Some ni \<and> find_pod N ns p (GetPods N ni) = Inr pod \<and>
      RemovePod N pod ni = Inr ni'")
    case False
    with res d1 spec(1-4) base show ?thesis
      by (auto simp: delta_removePod_def split: option.splits sum.splits)
  next
    case True
    then obtain ni pod ni' where ni: "o_ni = Some ni" "find_pod N ns p (GetPods N ni) = Inr pod"
      "RemovePod N pod ni = Inr ni'" by blast
    have "Node_Name N ni = n"
      using named_delta_view [OF inv] spec(1) ni(1) by (simp add: named_def)
    then have name: "Node_Name N ni' = n" using node_info_okD(3) [OF ok ni(3)] by simp
    note wb = delta_writeBack_spec [OF spec(3) spec(5) [OF ni(1)] name]
    from res d1 ni have "r = None" and "d' = delta_clearCaches (delta_writeBack n ni' d1)"
      by (simp_all add: delta_removePod_def)
    with wb spec(1) [symmetric] spec(2) ni base show ?thesis by (simp add: delta_view_Cons)
  qed
qed

text \<open>The three cached listings and the reference counts of a claim.\<close>

lemma delta_getNodeInfoList_top:
  assumes inv: "delta_inv N s" and ls: "delta_getNodeInfoList N (delta_data s) = (all, ls)"
  obtains d base where "ls = d # base" and "lists_view N (hd (delta_stk s)) all"
    and "layers_inv N (d # base)" and "layers_stk (d # base) = delta_stk s"
    and "delta_view (d # base) = hd (delta_stk s)"
proof -
  from inv have "layers_inv N (delta_data s)" and ne: "delta_data s \<noteq> []"
    by (simp_all add: delta_inv_def)
  note spec = delta_getNodeInfoList_spec [OF this(1) ls]
  obtain d base where d: "ls = d # base" using spec ne by (cases ls) auto
  have "hd (delta_stk s) = delta_view (delta_data s)"
    using ne by (cases "delta_data s") (simp_all add: delta_stk_def)
  with spec show ?thesis
    unfolding d by (intro that [OF d]) (simp_all only: delta_stk_def)
qed

text \<open>A change of the caches of the current layer that keeps the cache invariant.\<close>

lemma delta_recache:
  assumes "layers_inv N (d # base)" and "layers_stk (d # base) = delta_stk s"
    and "addedNodeInfoMap d' = addedNodeInfoMap d" "modifiedNodeInfoMap d' = modifiedNodeInfoMap d"
    "deletedNodeInfos d' = deletedNodeInfos d" and "cache_inv N (delta_view (d # base)) d'"
  shows "delta_inv N (s\<lparr>delta_data := d' # base\<rparr>) \<and> delta_stk (s\<lparr>delta_data := d' # base\<rparr>) = delta_stk s"
proof -
  note cong = layer_inv_cong [OF assms(3-5)]
  show ?thesis
    using assms(1,2,6) by (simp add: delta_inv_def delta_stk_def delta_view_Cons cong)
qed

lemma delta_List_spec:
  assumes "delta_inv N s" and "delta_List N s = (l, s')"
  shows "lists_view N (hd (delta_stk s)) l \<and> delta_inv N s' \<and> delta_stk s' = delta_stk s"
proof -
  obtain ls' where ls': "delta_getNodeInfoList N (delta_data s) = (l, ls')" "s' = s\<lparr>delta_data := ls'\<rparr>"
    using assms(2) by (auto simp: delta_List_def split: prod.splits)
  show ?thesis
    by (rule delta_getNodeInfoList_top [OF assms(1) ls'(1)]) (simp add: ls'(2) delta_inv_def delta_stk_def)
qed

lemma delta_HavePodsWithAffinityList_spec:
  assumes inv: "delta_inv N s" and res: "delta_HavePodsWithAffinityList N s = (l, s')"
  shows "mset l = model_list N (\<lambda>ni. GetPodsWithAffinity N ni \<noteq> []) (hd (delta_stk s)) \<and>
    delta_inv N s' \<and> delta_stk s' = delta_stk s"
proof (cases "havePodsWithAffinity (hd (delta_data s))")
  case (Some c)
  with inv res show ?thesis
    by (cases "delta_data s")
      (auto simp: delta_inv_def delta_stk_def delta_HavePodsWithAffinityList_def cache_inv_def)
next
  case None
  obtain all ls where ls: "delta_getNodeInfoList N (delta_data s) = (all, ls)" by force
  obtain d base where d: "ls = d # base" and all: "lists_view N (hd (delta_stk s)) all"
    and inv': "layers_inv N (d # base)" "layers_stk (d # base) = delta_stk s"
    and view: "delta_view (d # base) = hd (delta_stk s)"
    using delta_getNodeInfoList_top [OF inv ls] .
  have l: "l = filter (\<lambda>node. GetPodsWithAffinity N node \<noteq> []) all"
    and s': "s' = s\<lparr>delta_data := d\<lparr>havePodsWithAffinity := Some l\<rparr> # base\<rparr>"
    using res None ls by (auto simp: delta_HavePodsWithAffinityList_def d Let_def)
  have "mset l = model_list N (\<lambda>ni. GetPodsWithAffinity N ni \<noteq> []) (hd (delta_stk s))"
    unfolding l by (rule mset_lists_view [OF all])
  with inv' show ?thesis
    unfolding s' by (intro conjI delta_recache) (auto simp: view cache_inv_def)
qed

lemma delta_HavePodsWithRequiredAntiAffinityList_spec:
  assumes inv: "delta_inv N s" and res: "delta_HavePodsWithRequiredAntiAffinityList N s = (l, s')"
  shows "mset l = model_list N (\<lambda>ni. GetPodsWithRequiredAntiAffinity N ni \<noteq> []) (hd (delta_stk s)) \<and>
    delta_inv N s' \<and> delta_stk s' = delta_stk s"
proof (cases "havePodsWithRequiredAntiAffinity (hd (delta_data s))")
  case (Some c)
  with inv res show ?thesis
    by (cases "delta_data s") (auto simp: delta_inv_def delta_stk_def
        delta_HavePodsWithRequiredAntiAffinityList_def cache_inv_def)
next
  case None
  obtain all ls where ls: "delta_getNodeInfoList N (delta_data s) = (all, ls)" by force
  obtain d base where d: "ls = d # base" and all: "lists_view N (hd (delta_stk s)) all"
    and inv': "layers_inv N (d # base)" "layers_stk (d # base) = delta_stk s"
    and view: "delta_view (d # base) = hd (delta_stk s)"
    using delta_getNodeInfoList_top [OF inv ls] .
  have l: "l = filter (\<lambda>node. GetPodsWithRequiredAntiAffinity N node \<noteq> []) all"
    and s': "s' = s\<lparr>delta_data := d\<lparr>havePodsWithRequiredAntiAffinity := Some l\<rparr> # base\<rparr>"
    using res None ls by (auto simp: delta_HavePodsWithRequiredAntiAffinityList_def d Let_def)
  have "mset l = model_list N (\<lambda>ni. GetPodsWithRequiredAntiAffinity N ni \<noteq> []) (hd (delta_stk s))"
    unfolding l by (rule mset_lists_view [OF all])
  with inv' show ?thesis
    unfolding s' by (intro conjI delta_recache) (auto simp: view cache_inv_def)
qed

lemma gget_add_counts:
  assumes "gm_wf c"
  shows "gget 0 (foldl (\<lambda>m (k, i). gput k (gget 0 m k + i) m) m c) key = gget 0 m key + (gget 0 c key :: int)"
  using assms
proof (induction c arbitrary: m)
  case Nil
  then show ?case by simp
next
  case (Cons e c)
  obtain k i where e: "e = (k, i)" by force
  from Cons.prems e have "gget 0 c k = 0" and wf: "gm_wf c"
    by (auto simp: gget_def dest: map_of_SomeD split: option.splits intro: rev_image_eqI)
  with Cons.IH [OF wf] show ?case
    by (auto simp: e gget_def split: option.splits)
qed

lemma gget_pvcCounts:
  assumes "node_info_ok N"
  shows "gget 0 (delta_pvcCounts N l) key = (\<Sum>ni\<leftarrow>l. gget 0 (GetPVCRefCounts N ni) key)"
proof -
  have "gget 0 (foldl (\<lambda>m v. foldl (\<lambda>m (k, i). gput k (gget 0 m k + i) m) m (GetPVCRefCounts N v)) m l) key
      = gget 0 m key + (\<Sum>ni\<leftarrow>l. gget 0 (GetPVCRefCounts N ni) key)" for m
    by (induction l arbitrary: m) (simp_all add: gget_add_counts [OF node_info_okD(4) [OF assms]])
  then show ?thesis by (simp add: delta_pvcCounts_def)
qed

lemma pvc_total_list:
  assumes "lists_view N m l"
  shows "(\<Sum>ni\<leftarrow>l. gget 0 (GetPVCRefCounts N ni) key) = pvc_total N m key"
proof -
  have "distinct l" and "set l = {ni. m (Node_Name N ni) = Some ni}"
    using assms by (auto simp: lists_view_def distinct_map)
  then show ?thesis by (simp add: pvc_total_def sum_list_distinct_conv_sum_set)
qed

lemma delta_IsPVCUsedByPods_spec:
  assumes ok: "node_info_ok N" and inv: "delta_inv N s" and res: "delta_IsPVCUsedByPods N key s = (r, s')"
  shows "r = (pvc_total N (hd (delta_stk s)) key > 0) \<and> delta_inv N s' \<and> delta_stk s' = delta_stk s"
proof -
  obtain d0 base0 where s: "delta_data s = d0 # base0"
    using inv by (cases "delta_data s") (auto simp: delta_inv_def)
  show ?thesis
  proof (cases "pvcNamespaceMap d0")
    case (Some m)
    with inv res show ?thesis
      by (auto simp: s delta_inv_def delta_stk_def delta_IsPVCUsedByPods_def delta_isPVCUsedByPods_def
          cache_inv_def)
  next
    case None
    obtain all ls where ls: "delta_getNodeInfoList N (delta_data s) = (all, ls)" by force
    obtain d base where d: "ls = d # base" and all: "lists_view N (hd (delta_stk s)) all"
      and inv': "layers_inv N (d # base)" "layers_stk (d # base) = delta_stk s"
      and view: "delta_view (d # base) = hd (delta_stk s)"
      using delta_getNodeInfoList_top [OF inv ls] .
    have counts: "gget 0 (delta_pvcCounts N all) k = pvc_total N (hd (delta_stk s)) k" for k
      by (simp add: gget_pvcCounts [OF ok] pvc_total_list [OF all])
    have r: "r = (gget 0 (delta_pvcCounts N all) key > 0)"
      and s': "s' = s\<lparr>delta_data := d\<lparr>pvcNamespaceMap := Some (delta_pvcCounts N all)\<rparr> # base\<rparr>"
      using res None ls by (auto simp: delta_IsPVCUsedByPods_def delta_isPVCUsedByPods_def s d Let_def
          simp del: delta_getNodeInfoList.simps)
    show ?thesis
      unfolding s' r using inv' counts
      by (intro conjI delta_recache) (auto simp: view cache_inv_def)
  qed
qed

lemma delta_upd_spec:
  assumes ok: "node_info_ok N" and inv: "delta_inv N s"
  shows "fst (delta_upd N u s) = fst (model_upd N u (hd (delta_stk s)))"
    and "delta_inv N (snd (delta_upd N u s))"
    and "delta_stk (snd (delta_upd N u s)) = snd (model_upd N u (hd (delta_stk s))) # tl (delta_stk s)"
proof -
  obtain d base where s: "delta_data s = d # base"
    using inv by (cases "delta_data s") (auto simp: delta_inv_def)
  have I: "layers_inv N (d # base)" using inv by (simp add: delta_inv_def s)
  have L: "layer_inv N (delta_view base) d" "cache_inv N (delta_view (d # base)) d" "layers_inv N base"
    using I by simp_all
  have stk: "delta_stk s = delta_view (d # base) # layers_stk base" by (simp add: delta_stk_def s)
  have step: "fst (delta_upd N u s) = fst (model_upd N u (hd (delta_stk s))) \<and>
      delta_inv N (snd (delta_upd N u s)) \<and>
      delta_stk (snd (delta_upd N u s)) = snd (model_upd N u (hd (delta_stk s))) # tl (delta_stk s)"
    if "delta_upd N u s = (Result r, s\<lparr>delta_data := d' # base\<rparr>)"
      and "(Result r, delta_view (d' # base)) = model_upd N u (delta_view (d # base))"
      and "layers_inv N (d' # base)" for r d'
    using that by (simp add: delta_inv_def delta_stk_def s flip: that(2))
  have read: "fst (delta_upd N u s) = fst (model_upd N u (hd (delta_stk s))) \<and>
      delta_inv N (snd (delta_upd N u s)) \<and>
      delta_stk (snd (delta_upd N u s)) = snd (model_upd N u (hd (delta_stk s))) # tl (delta_stk s)"
    if "delta_upd N u s = (Nodes M, s')" and "delta_inv N s'" and "delta_stk s' = delta_stk s"
      and "model_upd N u (hd (delta_stk s)) = (Nodes M, hd (delta_stk s))" for M s'
    using that by (simp add: stk)
  have "fst (delta_upd N u s) = fst (model_upd N u (hd (delta_stk s))) \<and>
      delta_inv N (snd (delta_upd N u s)) \<and>
      delta_stk (snd (delta_upd N u s)) = snd (model_upd N u (hd (delta_stk s))) # tl (delta_stk s)"
  proof (cases u)
    case (StoreNodeInfo ni)
    obtain r d' where r: "delta_addNodeInfo N ni d base = (r, d')" by force
    from delta_addNodeInfo_spec [OF ok L(1,2) r] L(3) show ?thesis
      by (intro step [of r d'])
        (simp_all add: StoreNodeInfo delta_StoreNodeInfo_def delta_on_current_def s r)
  next
    case (RemoveNodeInfo n)
    obtain r d' where r: "delta_removeNodeInfo n d base = (r, d')" by force
    from delta_removeNodeInfo_spec [OF L(1,2) r] L(3) show ?thesis
      by (intro step [of r d'])
        (simp_all add: RemoveNodeInfo delta_RemoveNodeInfo_def delta_on_current_def s r)
  next
    case (StorePodInfo pi n)
    obtain r d' where r: "delta_addPodInfo N pi n d base = (r, d')" by force
    from delta_addPodInfo_spec [OF ok I r] show ?thesis
      by (intro step [of r d'])
        (simp_all add: StorePodInfo delta_StorePodInfo_def delta_on_current_def s r)
  next
    case (RemovePodInfo ns p n)
    obtain r d' where r: "delta_removePod N ns p n d base = (r, d')" by force
    from delta_removePod_spec [OF ok I r] show ?thesis
      by (intro step [of r d'])
        (simp_all add: RemovePodInfo delta_RemovePodInfo_def delta_on_current_def s r)
  next
    case (GetNodeInfo n)
    then show ?thesis
      using inv by (simp add: delta_Get_def delta_getNodeInfo_view s stk split: option.splits)
  next
    case ListNodeInfos
    obtain l s' where l: "delta_List N s = (l, s')" by force
    from delta_List_spec [OF inv l] mset_lists_view_all [of N "hd (delta_stk s)" l] show ?thesis
      by (intro read [of "mset l" s']) (simp_all add: ListNodeInfos l)
  next
    case ListAffinity
    obtain l s' where l: "delta_HavePodsWithAffinityList N s = (l, s')" by force
    from delta_HavePodsWithAffinityList_spec [OF inv l] show ?thesis
      by (intro read [of "mset l" s']) (simp_all add: ListAffinity l)
  next
    case ListAntiAffinity
    obtain l s' where l: "delta_HavePodsWithRequiredAntiAffinityList N s = (l, s')" by force
    from delta_HavePodsWithRequiredAntiAffinityList_spec [OF inv l] show ?thesis
      by (intro read [of "mset l" s']) (simp_all add: ListAntiAffinity l)
  qed
  then show "fst (delta_upd N u s) = fst (model_upd N u (hd (delta_stk s)))"
    and "delta_inv N (snd (delta_upd N u s))"
    and "delta_stk (snd (delta_upd N u s)) = snd (model_upd N u (hd (delta_stk s))) # tl (delta_stk s)"
    by blast+
qed

lemma delta_Commit_cases:
  assumes ok: "node_info_ok N" and inv: "delta_inv N s"
  shows "fst (delta_Commit N s) = None" and "delta_inv N (snd (delta_Commit N s))"
    and "delta_stk (snd (delta_Commit N s)) =
      (if length (delta_stk s) \<le> 1 then delta_stk s else hd (delta_stk s) # tl (tl (delta_stk s)))"
proof -
  have *: "fst (delta_Commit N s) = None \<and> delta_inv N (snd (delta_Commit N s)) \<and>
      delta_stk (snd (delta_Commit N s)) =
      (if length (delta_stk s) \<le> 1 then delta_stk s else hd (delta_stk s) # tl (tl (delta_stk s)))"
  proof (cases "length (delta_data s) \<le> 1")
    case True
    with inv show ?thesis
      by (cases "delta_data s") (auto simp: delta_Commit_def delta_inv_def delta_stk_def)
  next
    case False
    then obtain d b base where s: "delta_data s = d # b # base"
      by (cases "delta_data s"; cases "tl (delta_data s)") auto
    have "layers_inv N (d # b # base)" using inv by (simp add: delta_inv_def s)
    from delta_commit_spec [OF ok this] obtain b' where b': "delta_commit N (d # b # base) = (None, b' # base)"
      "layers_inv N (b' # base)" "delta_view (b' # base) = delta_view (d # b # base)" by blast
    then show ?thesis
      by (simp add: delta_Commit_def s delta_inv_def delta_stk_def del: delta_commit.simps)
  qed
  then show "fst (delta_Commit N s) = None" and "delta_inv N (snd (delta_Commit N s))"
    and "delta_stk (snd (delta_Commit N s)) =
      (if length (delta_stk s) \<le> 1 then delta_stk s else hd (delta_stk s) # tl (tl (delta_stk s)))"
    by blast+
qed

lemma delta_forkable:
  assumes ok: "node_info_ok N"
  shows "forkable (delta_inv N) delta_stk delta_Fork delta_Revert (snd \<circ> delta_Commit N)
           (delta_upd N) (model_upd N)"
proof
  fix s :: "'a DeltaSnapshotStore" and u :: "('a, 'b) store_op"
  assume inv: "delta_inv N s"
  then obtain d base where s: "delta_data s = d # base" and I: "layers_inv N (d # base)"
    by (cases "delta_data s") (auto simp: delta_inv_def)
  show "delta_stk s \<noteq> []" by (simp add: delta_stk_def s)
  show "delta_inv N (delta_Fork s)"
    using I by (simp add: delta_inv_def delta_Fork_def delta_fork_def s)
  show "delta_inv N (delta_Revert s)"
    using I by (auto simp: delta_inv_def delta_Revert_def s)
  show "delta_inv N ((snd \<circ> delta_Commit N) s)"
    using delta_Commit_cases [OF ok inv] by simp
  show "delta_inv N (snd (delta_upd N u s))" using delta_upd_spec [OF ok inv] by simp
  show "delta_stk (delta_Fork s) = hd (delta_stk s) # delta_stk s"
    by (simp add: delta_stk_def delta_Fork_def delta_fork_def s delta_view_Cons)
  show "delta_stk (delta_Revert s) = (if length (delta_stk s) \<le> 1 then delta_stk s else tl (delta_stk s))"
    by (cases base) (simp_all add: delta_stk_def delta_Revert_def s)
  show "delta_stk ((snd \<circ> delta_Commit N) s) =
      (if length (delta_stk s) \<le> 1 then delta_stk s else hd (delta_stk s) # tl (tl (delta_stk s)))"
    using delta_Commit_cases [OF ok inv] by simp
  show "fst (delta_upd N u s) = fst (model_upd N u (hd (delta_stk s)))"
    using delta_upd_spec [OF ok inv] by simp
  show "delta_stk (snd (delta_upd N u s)) = snd (model_upd N u (hd (delta_stk s))) # tl (delta_stk s)"
    using delta_upd_spec [OF ok inv] by simp
qed

lemma delta_inv_New: "delta_inv N NewDeltaSnapshotStore" "delta_stk NewDeltaSnapshotStore = [Map.empty]"
  by (simp_all add: delta_inv_def delta_stk_def NewDeltaSnapshotStore_def delta_Clear_def delta_view_Cons)

end
