(* ===== verification/Snapshot_Equivalence.thy ===== *)
theory Snapshot_Equivalence
  imports Delta_Snapshot
begin

text \<open>
  What the two snapshot stores promise their clients: the optimised store is observationally
  equal to the reference one, its \<open>Commit\<close> cannot fail, its claim counts are exact, and the helper
  \<open>WithForkedSnapshot\<close> (src/pkg/simulator/clustersnapshot/clustersnapshot.go) restores or keeps the
  state as it says.
\<close>

abbreviation basic_step :: "('ni, 'pi, 'pod) node_info_api \<Rightarrow> ('ni, 'pi) store_op snap_op \<Rightarrow>
    'ni BasicSnapshotStore \<Rightarrow> 'ni store_out snap_out \<times> 'ni BasicSnapshotStore" where
  "basic_step N \<equiv> snap_step (basic_Fork N) basic_Revert (snd \<circ> basic_Commit) (basic_upd N)"

abbreviation delta_step :: "('ni, 'pi, 'pod) node_info_api \<Rightarrow> ('ni, 'pi) store_op snap_op \<Rightarrow>
    'ni DeltaSnapshotStore \<Rightarrow> 'ni store_out snap_out \<times> 'ni DeltaSnapshotStore" where
  "delta_step N \<equiv> snap_step delta_Fork delta_Revert (snd \<circ> delta_Commit N) (delta_upd N)"

text \<open>The state of the delta store after a history of operations.\<close>

definition delta_after :: "('ni, 'pi, 'pod) node_info_api \<Rightarrow> ('ni, 'pi) store_op snap_op list \<Rightarrow>
    'ni DeltaSnapshotStore" where
  "delta_after N ops = snd (run (delta_step N) ops NewDeltaSnapshotStore)"

definition basic_after :: "('ni, 'pi, 'pod) node_info_api \<Rightarrow> ('ni, 'pi) store_op snap_op list \<Rightarrow>
    'ni BasicSnapshotStore" where
  "basic_after N ops = snd (run (basic_step N) ops NewBasicSnapshotStore)"

text \<open>
  \<open>WithForkedSnapshot\<close>: the two results of the \<open>return\<close> statement are fixed before the deferred
  function runs, and the result list of the function is unnamed, so what the deferred function
  assigns to \<open>cleanupErr\<close> is lost. \<open>f\<close> returns whether to commit, its error and the new state.
\<close>

definition WithForkedSnapshot ::
    "('s \<Rightarrow> 's) \<Rightarrow> ('s \<Rightarrow> 'e option \<times> 's) \<Rightarrow> ('s \<Rightarrow> 's) \<Rightarrow> ('s \<Rightarrow> (bool \<times> 'e option) \<times> 's) \<Rightarrow>
     's \<Rightarrow> ('e option \<times> 'e option) \<times> 's" where
  "WithForkedSnapshot fork commit revert f s =
     (let s1 = fork s;
          ((do_commit, err), s2) = f s1;
          cleanupErr = None;
          results = (err, cleanupErr);
          (cleanupErr', s3) = (if do_commit then commit s2 else (cleanupErr, s2));
          s4 = (if \<not> do_commit \<or> cleanupErr' \<noteq> None then revert s3 else s3)
      in (results, s4))"

section \<open>A concrete scheduler interface for the witnesses\<close>

text \<open>Node infos are pairs of a node name and the names of the pods on it.\<close>

definition demo_api :: "(string \<times> string list, string, string) node_info_api" where
  "demo_api = \<lparr>Node_Name = fst, GetPods = snd, AddPodInfo = (\<lambda>p (n, ps). (n, ps @ [p])),
     RemovePod = (\<lambda>p (n, ps). if p \<in> set ps then Inr (n, remove1 p ps) else Inl ''no corresponding pod''),
     Snapshot = (\<lambda>ni. ni), GetPodsWithAffinity = (\<lambda>ni. filter (\<lambda>p. p = ''aff'') (snd ni)),
     GetPodsWithRequiredAntiAffinity = (\<lambda>_. []),
     GetPVCRefCounts = (\<lambda>ni. if ''db'' \<in> set (snd ni) then [(''default/data'', 1)] else []),
     GetPod = Some, Namespace = (\<lambda>_. ''default''), Pod_Name = (\<lambda>p. p), Volumes = (\<lambda>_. []),
     GetNamespacedName = (\<lambda>ns n. ns @ ''/'' @ n)\<rparr>"

lemma demo_api_ok: "node_info_ok demo_api"
  by (auto simp: node_info_ok_def demo_api_def split: if_splits)

section \<open>Properties\<close>



text \<open>
  C18. \<open>Commit\<close> of the delta store never fails: in every state a history of operations can reach,
  it returns no error, so a fork can always be merged into its base.
\<close>

theorem delta_commit_never_fails:
  assumes "node_info_ok N"
  shows "fst (delta_Commit N (delta_after N ops)) = None"
  unfolding delta_after_def
  by (rule delta_Commit_cases(1) [OF assms forkable.invar_run [OF delta_forkable [OF assms] delta_inv_New(1)]])

theorem delta_commit_never_fails_witness:
  "fst (delta_Commit demo_api (delta_after demo_api
     [Upd (StoreNodeInfo (''n1'', [])), Fork, Upd (RemoveNodeInfo ''n1''),
      Upd (StoreNodeInfo (''n1'', [''db''])), Upd (StoreNodeInfo (''n2'', []))])) = None"
  by (rule delta_commit_never_fails [OF demo_api_ok])

text \<open>
  In every reachable state of the delta store, whatever caches are filled, \<open>IsPVCUsedByPods\<close>
  answers whether the reference counts of the claim over all nodes of the snapshot add up to more
  than zero, and the question changes no contents.
\<close>

theorem delta_pvc_answer_exact:
  assumes "node_info_ok N"
  shows "fst (delta_IsPVCUsedByPods N key (delta_after N ops)) =
           (pvc_total N (hd (snd (stack_run (model_upd N) ops [Map.empty]))) key > 0) \<and>
         delta_stk (snd (delta_IsPVCUsedByPods N key (delta_after N ops))) = delta_stk (delta_after N ops)"
proof -
  let ?s = "delta_after N ops"
  note F = delta_forkable [OF assms]
  have inv: "delta_inv N ?s"
    unfolding delta_after_def by (rule forkable.invar_run [OF F delta_inv_New(1)])
  have "delta_stk ?s = snd (stack_run (model_upd N) ops [Map.empty])"
    unfolding delta_after_def using forkable.run_refines [OF F delta_inv_New(1)]
    by (simp add: delta_inv_New(2))
  moreover obtain r s' where "delta_IsPVCUsedByPods N key ?s = (r, s')" by force
  ultimately show ?thesis
    using delta_IsPVCUsedByPods_spec [OF assms inv] by simp
qed

theorem delta_pvc_answer_exact_witness:
  "fst (delta_IsPVCUsedByPods demo_api ''default/data'' (delta_after demo_api
      [Upd (StoreNodeInfo (''n1'', [''web''])), Fork, Upd (StorePodInfo ''db'' ''n1''), Revert])) = False"
proof -
  have "pvc_total demo_api [''n1'' \<mapsto> (''n1'', [''web''])] ''default/data'' = 0"
    unfolding pvc_total_def by (rule sum.neutral) (auto simp: demo_api_def split: if_splits)
  then show ?thesis
    by (subst delta_pvc_answer_exact [OF demo_api_ok, THEN conjunct1]) (simp add: demo_api_def)
qed

text \<open>
  C19. \<open>WithForkedSnapshot\<close> on the delta store: whatever updates the callback performs, the stack of
  snapshots afterwards is the one before the call when the callback does not ask to commit, and
  the one the same updates produce without a fork when it does.
\<close>

theorem with_forked_snapshot_restores_or_keeps:
  assumes "node_info_ok N" and "delta_inv N s"
  shows "delta_stk (snd (WithForkedSnapshot delta_Fork (delta_Commit N) delta_Revert
           (\<lambda>t. ((do_commit, err), snd (run (delta_step N) (map Upd us) t))) s)) =
         (if do_commit then delta_stk (snd (run (delta_step N) (map Upd us) s)) else delta_stk s)"
proof -
  note F = delta_forkable [OF assms(1)]
  let ?t = "snd (run (delta_step N) (map Upd us) (delta_Fork s))"
  have inv: "delta_inv N ?t"
    by (rule forkable.invar_run [OF F forkable.invar_fork [OF F assms(2)]])
  have rev: "delta_stk (delta_Revert ?t) = delta_stk s"
    using forkable.fork_revert [OF F assms(2), of us] by (simp add: run_append split_beta)
  have com: "delta_stk (snd (delta_Commit N ?t)) = delta_stk (snd (run (delta_step N) (map Upd us) s))"
    using forkable.fork_commit [OF F assms(2), of us] by (simp add: run_append split_beta)
  show ?thesis
    using rev com delta_Commit_cases(1) [OF assms(1) inv]
    by (simp add: WithForkedSnapshot_def Let_def split_beta)
qed

theorem with_forked_snapshot_restores_or_keeps_witness:
  "delta_stk (snd (WithForkedSnapshot delta_Fork (delta_Commit demo_api) delta_Revert
     (\<lambda>t. ((False, None :: snap_error option),
           snd (run (delta_step demo_api) (map Upd [StoreNodeInfo (''n1'', [])]) t)))
     NewDeltaSnapshotStore)) = [Map.empty]"
  using with_forked_snapshot_restores_or_keeps
    [OF demo_api_ok delta_inv_New(1), of False None "[StoreNodeInfo (''n1'', [])]"]
  by (simp add: delta_inv_New(2))

text \<open>
  A failing \<open>Commit\<close> is reverted but not reported: \<open>WithForkedSnapshot\<close> returns a nil second error
  although its documentation says that this error indicates the success of the function itself.
\<close>

theorem with_forked_snapshot_drops_commit_error:
  assumes "f (fork s) = ((True, err), s2)" and "commit s2 = (Some e, s3)"
  shows "WithForkedSnapshot fork commit revert f s = ((err, None), revert s3)"
  using assms by (simp add: WithForkedSnapshot_def)

theorem with_forked_snapshot_drops_commit_error_witness:
  "WithForkedSnapshot (\<lambda>s. s + 10) (\<lambda>s. (Some ''commit failed'', s)) (\<lambda>s. s - 10)
     (\<lambda>s. ((True, None), s)) (3 :: int) = ((None, None), 3)"
  using with_forked_snapshot_drops_commit_error
    [of "\<lambda>s. ((True, None), s)" "\<lambda>s. s + 10" "3 :: int" None 13 "\<lambda>s. (Some ''commit failed'', s)"
      "''commit failed''" 13 "\<lambda>s. s - 10"]
  by simp

end
