(* ===== verification/Go_Values.thy ===== *)
theory Go_Values
  imports Complex_Main CA_Prelude
begin

text \<open>
  Values of Go and of its standard library that the core computes with.

  \<^item> Times are integers (nanoseconds since the zero value \<open>time.Time{}\<close>), \<open>Before\<close> and \<open>After\<close> are \<open><\<close>
    and \<open>>\<close>. Durations are the Go type \<open>int64\<close>; the function \<open>int64\<close> is its wrap-around.
  \<^item> \<open>float64\<close> values are rational numbers, and each operation rounds its exact result to the nearest
    number with a significand of 53 bits, ties to even (\<open>f64_round\<close>). The exponent range is not
    bounded: the modelled code works with counts and percentages.
  \<^item> Decimal printing and parsing of integers and \<open>Duration.String\<close>.
\<close>

section \<open>Times and durations\<close>

type_synonym time = int
type_synonym duration = int

definition zero_time :: time where
  "zero_time = 0"

definition int64 :: "int \<Rightarrow> int" where
  "int64 x = (x + 2 ^ 63) mod 2 ^ 64 - 2 ^ 63"

lemma int64_id: "- (2 ^ 63) \<le> x \<Longrightarrow> x < 2 ^ 63 \<Longrightarrow> int64 x = x"
  by (simp add: int64_def)

definition Second :: duration where "Second = 10 ^ 9"
definition Minute :: duration where "Minute = 60 * Second"

section \<open>Floating point\<close>

definition pow2 :: "int \<Rightarrow> rat" where
  "pow2 k = (if k \<ge> 0 then 2 ^ nat k else 1 / 2 ^ nat (- k))"

text \<open>The exponent of the leading bit of a positive number.\<close>

fun bit_length :: "int \<Rightarrow> int" where
  "bit_length n = (if n \<le> 0 then 0 else 1 + bit_length (n div 2))"

declare bit_length.simps [simp del]

definition ilog2 :: "rat \<Rightarrow> int" where
  "ilog2 x = (let (p, q) = quotient_of x; k = bit_length p - bit_length q
              in if x \<ge> pow2 k then k else k - 1)"

definition round_half_even :: "rat \<Rightarrow> int" where
  "round_half_even y =
     (let f = \<lfloor>y\<rfloor>; d = y - of_int f
      in if d < 1 / 2 then f else if d > 1 / 2 then f + 1 else if even f then f else f + 1)"

definition f64_round :: "rat \<Rightarrow> rat" where
  "f64_round x = (if x = 0 then 0
     else let e = ilog2 \<bar>x\<bar> - 52 in of_int (round_half_even (x / pow2 e)) * pow2 e)"

definition f64_of_int :: "int \<Rightarrow> rat" where
  "f64_of_int n = f64_round (of_int n)"

definition f64_mul :: "rat \<Rightarrow> rat \<Rightarrow> rat" where
  "f64_mul x y = f64_round (x * y)"

definition f64_div :: "rat \<Rightarrow> rat \<Rightarrow> rat" where
  "f64_div x y = f64_round (x / y)"

lemma bit_length_le: "n < 2 ^ k \<Longrightarrow> bit_length n \<le> int k"
proof (induction n arbitrary: k rule: bit_length.induct)
  case (1 n)
  show ?case
  proof (cases "n \<le> 0")
    case False
    with "1.prems" obtain k' where "k = Suc k'" by (cases k) auto
    then show ?thesis using "1.IH" [of k'] "1.prems" False by (simp add: bit_length.simps [of n])
  qed (simp add: bit_length.simps)
qed

lemma round_half_even_of_int [simp]: "round_half_even (of_int n) = n"
  by (simp add: round_half_even_def)

lemma pow2_nonzero [simp]: "pow2 k \<noteq> 0"
  by (simp add: pow2_def)

text \<open>Integers below $2^{53}$ are represented exactly.\<close>

lemma f64_of_int_exact:
  assumes "\<bar>n\<bar> < 2 ^ 53"
  shows "f64_of_int n = of_int n"
proof (cases "n = 0")
  case True
  then show ?thesis by (simp add: f64_of_int_def f64_round_def)
next
  case False
  have q: "quotient_of \<bar>of_int n :: rat\<bar> = (\<bar>n\<bar>, 1)"
    using quotient_of_int [of "\<bar>n\<bar>"] by (simp add: Rat.of_int_def)
  have "bit_length \<bar>n\<bar> \<le> 53" using bit_length_le [of "\<bar>n\<bar>" 53] assms by simp
  moreover have "bit_length 1 = 1" by (simp add: bit_length.simps)
  ultimately have "ilog2 \<bar>of_int n :: rat\<bar> \<le> 52" by (simp add: ilog2_def q Let_def)
  then obtain e where e: "ilog2 \<bar>of_int n :: rat\<bar> - 52 = e" "e \<le> 0" by simp
  have "of_int n / pow2 e = (of_int (n * 2 ^ nat (- e)) :: rat)"
    using e(2) by (simp add: pow2_def)
  then have "of_int (round_half_even (of_int n / pow2 e)) * pow2 e = (of_int n / pow2 e) * pow2 e"
    by (metis round_half_even_of_int)
  then show ?thesis using False e(1) by (simp add: f64_of_int_def f64_round_def Let_def)
qed

section \<open>Decimal strings\<close>

text \<open>\<open>fmt.Sprint\<close> of an \<open>int64\<close> and \<open>strconv.ParseInt(s, 10, 64)\<close>.\<close>

definition digit :: "int \<Rightarrow> char" where
  "digit d = char_of (48 + d)"

fun print_nat :: "int \<Rightarrow> string" where
  "print_nat n = (if n < 10 then [digit n] else print_nat (n div 10) @ [digit (n mod 10)])"

declare print_nat.simps [simp del]

definition Sprint_int :: "int \<Rightarrow> string" where
  "Sprint_int i = (if i < 0 then CHR ''-'' # print_nat (- i) else print_nat i)"

definition digit_value :: "char \<Rightarrow> int option" where
  "digit_value c = (let v = of_char c :: int in if 48 \<le> v \<and> v \<le> 57 then Some (v - 48) else None)"

fun parse_digits :: "int \<Rightarrow> string \<Rightarrow> int option" where
  "parse_digits acc [] = Some acc"
| "parse_digits acc (c # cs) = (case digit_value c of None \<Rightarrow> None | Some d \<Rightarrow> parse_digits (10 * acc + d) cs)"

definition ParseUint :: "string \<Rightarrow> int option" where
  "ParseUint s = (if s = [] then None else parse_digits 0 s)"

definition ParseInt :: "string \<Rightarrow> int option" where
  "ParseInt s =
     (let (neg, ds) = (case s of [] \<Rightarrow> (False, [])
           | c # cs \<Rightarrow> if c = CHR ''-'' then (True, cs) else if c = CHR ''+'' then (False, cs) else (False, s))
      in case ParseUint ds of None \<Rightarrow> None
         | Some n \<Rightarrow> if \<not> neg \<and> n \<ge> 2 ^ 63 then None
                     else if neg \<and> n > 2 ^ 63 then None
                     else Some (if neg then - n else n))"

text \<open>\<open>Duration.String\<close>: a fraction loses its trailing zeros; the micro sign is its UTF-8 encoding.\<close>

fun pad_digits :: "nat \<Rightarrow> int \<Rightarrow> string" where
  "pad_digits 0 n = []"
| "pad_digits (Suc k) n = pad_digits k (n div 10) @ [digit (n mod 10)]"

definition fraction :: "nat \<Rightarrow> int \<Rightarrow> string" where
  "fraction k n = (let ds = rev (dropWhile (\<lambda>c. c = CHR ''0'') (rev (pad_digits k n)))
                   in if ds = [] then [] else CHR ''.'' # ds)"

definition Duration_String :: "duration \<Rightarrow> string" where
  "Duration_String d =
     (if d = 0 then ''0s''
      else (let u = \<bar>d\<bar>; sign = (if d < 0 then ''-'' else [])
        in sign @
          (if u < 10 ^ 3 then print_nat u @ ''ns''
           else if u < 10 ^ 6 then print_nat (u div 10 ^ 3) @ fraction 3 (u mod 10 ^ 3) @ [CHR 0xC2, CHR 0xB5, CHR ''s'']
           else if u < 10 ^ 9 then print_nat (u div 10 ^ 6) @ fraction 6 (u mod 10 ^ 6) @ ''ms''
           else (let s = u div 10 ^ 9; m = s div 60; h = m div 60
             in (if h > 0 then print_nat h @ ''h'' else []) @
                (if m > 0 then print_nat (m mod 60) @ ''m'' else []) @
                print_nat (s mod 60) @ fraction 9 (u mod 10 ^ 9) @ ''s''))))"

lemma digit_value_digit [simp]: "0 \<le> d \<Longrightarrow> d < 10 \<Longrightarrow> digit_value (digit d) = Some d"
  by (simp add: digit_value_def digit_def)

lemma parse_digits_append:
  "parse_digits acc (xs @ ys) = (case parse_digits acc xs of None \<Rightarrow> None | Some v \<Rightarrow> parse_digits v ys)"
  by (induction xs arbitrary: acc) (auto split: option.splits)

lemma parse_print_nat: "0 \<le> n \<Longrightarrow> parse_digits 0 (print_nat n) = Some n"
proof (induction n rule: print_nat.induct)
  case (1 n)
  then show ?case
    by (subst print_nat.simps) (auto simp: parse_digits_append)
qed

lemma print_nat_not_Nil [simp]: "print_nat n \<noteq> []"
  by (subst print_nat.simps) simp

lemma hd_print_nat: "0 \<le> n \<Longrightarrow> \<exists>d. 0 \<le> d \<and> d < 10 \<and> hd (print_nat n) = digit d"
proof (induction n rule: print_nat.induct)
  case (1 n)
  then show ?case
    by (cases "n < 10") (auto simp: print_nat.simps [of n])
qed

lemma digit_not_sign: "0 \<le> d \<Longrightarrow> d < 10 \<Longrightarrow> digit d \<noteq> CHR ''-'' \<and> digit d \<noteq> CHR ''+''"
  using digit_value_digit [of d] by (auto simp: digit_value_def)

lemma ParseInt_print_nat: "0 \<le> n \<Longrightarrow> ParseInt (print_nat n) = (if n \<ge> 2 ^ 63 then None else Some n)"
proof -
  assume n: "0 \<le> n"
  obtain c cs where c: "print_nat n = c # cs" by (cases "print_nat n") auto
  then have "c \<noteq> CHR ''-''" "c \<noteq> CHR ''+''" using hd_print_nat [OF n] digit_not_sign by auto
  then show ?thesis using parse_print_nat [OF n] c
    by (simp add: ParseInt_def ParseUint_def Let_def)
qed

lemma ParseInt_Sprint_int:
  assumes "- (2 ^ 63) \<le> i" and "i < 2 ^ 63"
  shows "ParseInt (Sprint_int i) = Some i"
proof (cases "i < 0")
  case True
  then show ?thesis using assms parse_print_nat [of "- i"]
    by (simp add: Sprint_int_def ParseInt_def ParseUint_def Let_def)
next
  case False
  then show ?thesis using assms by (simp add: Sprint_int_def ParseInt_print_nat)
qed

end
