(* ===== verification/Cloud_Provider.thy ===== *)
theory Cloud_Provider
  imports Go_Values
begin

text \<open>
  The Kubernetes objects and the cloud-provider interface the core reads
  (src/pkg/cloudprovider/cloud_provider.go). Kubernetes nodes are records of the fields that the
  modelled code uses. Providers are services: a provider is a record of the answers it gives
  while one operation of the core runs (\<open>cloud_provider\<close>), over an abstract type \<open>'g\<close> of node
  groups. Calls that change the provider's state are recorded as effects by the components.
\<close>

section \<open>Kubernetes nodes\<close>

definition ConditionTrue :: string where "ConditionTrue = ''True''"
definition ConditionFalse :: string where "ConditionFalse = ''False''"
definition ConditionUnknown :: string where "ConditionUnknown = ''Unknown''"

record node_condition =
  Cond_Type :: string
  Cond_Status :: string
  Cond_LastTransitionTime :: time
  Cond_Reason :: string

record taint =
  Taint_Key :: string
  Taint_Value :: string
  Taint_Effect :: string
  Taint_TimeAdded :: "time option"

record node =
  Name :: string
  ProviderID :: string
  CreationTimestamp :: time
  Conditions :: "node_condition list"
  Taints :: "taint list"
  Annotations :: "(string, string) gmap"
  Labels :: "(string, string) gmap"
  Unschedulable :: bool

section \<open>Instances\<close>

type_synonym InstanceState = int

definition InstanceRunning :: InstanceState where "InstanceRunning = 1"
definition InstanceCreating :: InstanceState where "InstanceCreating = 2"
definition InstanceDeleting :: InstanceState where "InstanceDeleting = 3"

type_synonym InstanceErrorClass = int

definition OutOfResourcesErrorClass :: InstanceErrorClass where "OutOfResourcesErrorClass = 1"
definition OtherErrorClass :: InstanceErrorClass where "OtherErrorClass = 99"

record InstanceErrorInfo =
  ErrorClass :: InstanceErrorClass
  ErrorCode :: string
  ErrorMessage :: string

definition zero_InstanceErrorInfo :: InstanceErrorInfo where
  "zero_InstanceErrorInfo = \<lparr>ErrorClass = 0, ErrorCode = [], ErrorMessage = []\<rparr>"

record InstanceStatus =
  State :: InstanceState
  Status_ErrorInfo :: "InstanceErrorInfo option"

record Instance =
  Instance_Id :: string
  Instance_Status :: "InstanceStatus option"

section \<open>Providers\<close>

datatype cp_error = ErrNotImplemented | ProviderError string

record 'g cloud_provider =
  Id :: "'g \<Rightarrow> string"
  MinSize :: "'g \<Rightarrow> int"
  MaxSize :: "'g \<Rightarrow> int"
  TargetSize :: "'g \<Rightarrow> int \<times> cp_error option"
  Autoprovisioned :: "'g \<Rightarrow> bool"
  Nodes :: "'g \<Rightarrow> Instance list \<times> cp_error option"
  NodeGroups :: "'g list"
  NodeGroupForNode :: "node \<Rightarrow> 'g option \<times> cp_error option"
  HasInstance :: "node \<Rightarrow> bool \<times> cp_error option"

definition ResourceNameCores :: string where
  "ResourceNameCores = ''cpu''"

definition ResourceNameMemory :: string where
  "ResourceNameMemory = ''memory''"

definition IsCustomResource :: "string \<Rightarrow> bool" where
  "IsCustomResource resourceName \<longleftrightarrow> resourceName \<noteq> ResourceNameCores \<and> resourceName \<noteq> ResourceNameMemory"

fun ContainsCustomResources :: "string list \<Rightarrow> bool" where
  "ContainsCustomResources [] = False"
| "ContainsCustomResources (resource # resources) =
     (if IsCustomResource resource then True else ContainsCustomResources resources)"

definition NodeGroupListToMapById :: "'g cloud_provider \<Rightarrow> 'g list \<Rightarrow> (string, 'g) gmap" where
  "NodeGroupListToMapById cp nodeGroups = foldl (\<lambda>result g. gput (Id cp g) g result) [] nodeGroups"

text \<open>A loop that stores the entry of each group under its id, one entry per group.\<close>

lemma map_of_foldl_gput_id:
  "map_of (foldl (\<lambda>m g. gput (f g) (v g) m) m gs) k =
     (if \<exists>g\<in>set gs. f g = k then Some (v (last (filter (\<lambda>g. f g = k) gs))) else map_of m k)"
  by (induction gs arbitrary: m) (auto simp: filter_empty_conv)

lemma gm_wf_foldl_gput_id: "gm_wf m \<Longrightarrow> gm_wf (foldl (\<lambda>m g. gput (f g) (v g) m) m gs)"
  by (induction gs arbitrary: m) auto

lemma last_filter_inj:
  "distinct (map f gs) \<Longrightarrow> g \<in> set gs \<Longrightarrow> last (filter (\<lambda>x. f x = f g) gs) = g"
proof (induction gs)
  case (Cons x gs)
  then show ?case
    by (cases "x = g") (auto simp: filter_empty_conv image_iff)
qed simp

text \<open>Group ids of a provider are unique, as the interface documents.\<close>

definition unique_ids :: "'g cloud_provider \<Rightarrow> bool" where
  "unique_ids cp \<longleftrightarrow> distinct (map (Id cp) (NodeGroups cp))"

end
