(* ===== verification/Backoff.thy ===== *)
theory Backoff
  imports Cloud_Provider
begin

text \<open>
  Exponential backoff of node groups (src/pkg/utils/backoff). \<open>backoff_contract\<close> is the interface
  \<open>Backoff\<close> of backoff.go with the laws its clients rely on; \<open>exponentialBackoff\<close> is the
  implementation of exponential_backoff.go. The mutex makes every operation atomic.
\<close>

record Status =
  IsBackedOff :: bool
  ErrorInfo :: InstanceErrorInfo

abbreviation not_backed_off :: Status where
  "not_backed_off \<equiv> \<lparr>IsBackedOff = False, ErrorInfo = zero_InstanceErrorInfo\<rparr>"

section \<open>The interface\<close>

text \<open>
  \<open>key\<close> identifies the groups that share their backoff. The laws: after \<open>Backoff\<close> the group is
  backed off, with the reported error, exactly up to the returned time, which is not in the past;
  other groups are untouched; \<open>RemoveBackoff\<close> ends the backoff; discarding stale data is not
  observable from the moment it happens on.
\<close>

locale backoff_contract =
  fixes invar :: "'b \<Rightarrow> bool"
    and key :: "'b \<Rightarrow> 'g \<Rightarrow> string"
    and backoff :: "'g \<Rightarrow> InstanceErrorInfo \<Rightarrow> time \<Rightarrow> 'b \<Rightarrow> time \<times> 'b"
    and status :: "'g \<Rightarrow> time \<Rightarrow> 'b \<Rightarrow> Status"
    and remove :: "'g \<Rightarrow> 'b \<Rightarrow> 'b"
    and stale :: "time \<Rightarrow> 'b \<Rightarrow> 'b"
  assumes invar_backoff: "invar b \<Longrightarrow> invar (snd (backoff g e t b))"
    and invar_remove: "invar b \<Longrightarrow> invar (remove g b)"
    and invar_stale: "invar b \<Longrightarrow> invar (stale t b)"
    and key_backoff: "key (snd (backoff g e t b)) = key b"
    and until_ge: "invar b \<Longrightarrow> t \<le> fst (backoff g e t b)"
    and status_backoff: "invar b \<Longrightarrow> status g t' (snd (backoff g e t b)) =
      (if fst (backoff g e t b) < t' then not_backed_off else \<lparr>IsBackedOff = True, ErrorInfo = e\<rparr>)"
    and status_backoff_other: "invar b \<Longrightarrow> key b g' \<noteq> key b g \<Longrightarrow>
      status g' t' (snd (backoff g e t b)) = status g' t' b"
    and status_same_key: "key b g' = key b g \<Longrightarrow> status g' t b = status g t b"
    and status_remove: "invar b \<Longrightarrow> status g' t' (remove g b) =
      (if key b g' = key b g then not_backed_off else status g' t' b)"
    and status_stale: "invar b \<Longrightarrow> t \<le> t' \<Longrightarrow> status g t' (stale t b) = status g t' b"
begin

text \<open>A sequence of failures reported at the same time, as one pass of the core does it.\<close>

definition backoff_all :: "('g \<times> InstanceErrorInfo) list \<Rightarrow> time \<Rightarrow> 'b \<Rightarrow> 'b" where
  "backoff_all fs t b = foldl (\<lambda>b (g, e). snd (backoff g e t b)) b fs"

lemma backoff_all_simps [simp]:
  "backoff_all [] t b = b"
  "backoff_all ((g, e) # fs) t b = backoff_all fs t (snd (backoff g e t b))"
  by (simp_all add: backoff_all_def)

lemma invar_backoff_all: "invar b \<Longrightarrow> invar (backoff_all fs t b)"
  by (induction fs arbitrary: b) (auto simp: invar_backoff)

lemma key_backoff_all: "key (backoff_all fs t b) = key b"
  by (induction fs arbitrary: b) (auto simp: key_backoff)

lemma backed_off_after: "invar b \<Longrightarrow> key b g' = key b g \<Longrightarrow> IsBackedOff (status g t (snd (backoff g' e t b)))"
  using status_backoff [of b g' t e t] until_ge [of b t g' e]
    status_same_key [of "snd (backoff g' e t b)" g g' t]
  by (simp add: key_backoff not_less)

lemma backed_off_kept:
  assumes "invar b" and "IsBackedOff (status g t b)"
  shows "IsBackedOff (status g t (backoff_all fs t b))"
  using assms
proof (induction fs arbitrary: b)
  case (Cons f fs)
  obtain g' e where f: "f = (g', e)" by force
  have "IsBackedOff (status g t (snd (backoff g' e t b)))"
    using backed_off_after [OF Cons.prems(1)] status_backoff_other [OF Cons.prems(1), of g g'] Cons.prems(2)
    by (cases "key b g' = key b g") auto
  then show ?case using Cons.IH [OF invar_backoff [OF Cons.prems(1)]] by (simp add: f)
qed simp

lemma backoff_all_backs_off:
  assumes "invar b" and "(g, e) \<in> set fs"
  shows "IsBackedOff (status g t (backoff_all fs t b))"
  using assms
proof (induction fs arbitrary: b)
  case (Cons f fs)
  obtain g' e' where f: "f = (g', e')" by force
  have inv: "invar (snd (backoff g' e' t b))" by (rule invar_backoff [OF Cons.prems(1)])
  show ?case
  proof (cases "(g, e) \<in> set fs")
    case True
    then show ?thesis using Cons.IH [OF inv] f by simp
  next
    case False
    then have "g' = g" using Cons.prems(2) f by simp
    then show ?thesis using backed_off_kept [OF inv] backed_off_after [OF Cons.prems(1)] f by simp
  qed
qed simp

lemma backoff_all_other:
  assumes "invar b" and "\<And>g' e. (g', e) \<in> set fs \<Longrightarrow> key b g' \<noteq> key b g"
  shows "status g t' (backoff_all fs t b) = status g t' b"
  using assms
proof (induction fs arbitrary: b)
  case (Cons f fs)
  obtain g' e where f: "f = (g', e)" by force
  have "status g t' (backoff_all fs t (snd (backoff g' e t b))) = status g t' (snd (backoff g' e t b))"
    by (rule Cons.IH [OF invar_backoff [OF Cons.prems(1)]])
      (use Cons.prems(2) f in \<open>auto simp: key_backoff\<close>)
  also have "\<dots> = status g t' b"
    by (rule status_backoff_other [OF Cons.prems(1)]) (use Cons.prems(2) [of g' e] f in auto)
  finally show ?case by (simp add: f)
qed simp

end

section \<open>The implementation\<close>

record exponentialBackoffInfo =
  duration :: duration
  backoffUntil :: time
  lastFailedExecution :: time
  errorInfo :: InstanceErrorInfo

record 'g exponentialBackoff =
  maxBackoffDuration :: duration
  initialBackoffDuration :: duration
  backoffResetTimeout :: duration
  nodeGroupKey :: "'g \<Rightarrow> string"
  backoffInfo :: "(string, exponentialBackoffInfo) gmap"

definition NewExponentialBackoff :: "duration \<Rightarrow> duration \<Rightarrow> duration \<Rightarrow> ('g \<Rightarrow> string) \<Rightarrow>
    'g exponentialBackoff" where
  "NewExponentialBackoff initial maximum reset key =
     \<lparr>maxBackoffDuration = maximum, initialBackoffDuration = initial, backoffResetTimeout = reset,
      nodeGroupKey = key, backoffInfo = []\<rparr>"

definition NewIdBasedExponentialBackoff :: "'g cloud_provider \<Rightarrow> duration \<Rightarrow> duration \<Rightarrow> duration \<Rightarrow>
    'g exponentialBackoff" where
  "NewIdBasedExponentialBackoff cp initial maximum reset =
     NewExponentialBackoff initial maximum reset (\<lambda>nodeGroup. Id cp nodeGroup)"

definition backoff_duration :: "'g exponentialBackoff \<Rightarrow> 'g \<Rightarrow> time \<Rightarrow> duration" where
  "backoff_duration b nodeGroup currentTime =
     (case map_of (backoffInfo b) (nodeGroupKey b nodeGroup) of
        None \<Rightarrow> initialBackoffDuration b
      | Some info \<Rightarrow>
          if backoffUntil info < currentTime
          then (let d = int64 (2 * duration info)
                in if d > maxBackoffDuration b then maxBackoffDuration b else d)
          else duration info)"

definition Backoff :: "'g \<Rightarrow> InstanceErrorInfo \<Rightarrow> time \<Rightarrow> 'g exponentialBackoff \<Rightarrow>
    time \<times> 'g exponentialBackoff" where
  "Backoff nodeGroup error currentTime b =
     (let d = backoff_duration b nodeGroup currentTime; until = currentTime + d
      in (until, b\<lparr>backoffInfo := gput (nodeGroupKey b nodeGroup)
            \<lparr>duration = d, backoffUntil = until, lastFailedExecution = currentTime, errorInfo = error\<rparr>
            (backoffInfo b)\<rparr>))"

definition BackoffStatus :: "'g \<Rightarrow> time \<Rightarrow> 'g exponentialBackoff \<Rightarrow> Status" where
  "BackoffStatus nodeGroup currentTime b =
     (case map_of (backoffInfo b) (nodeGroupKey b nodeGroup) of
        None \<Rightarrow> not_backed_off
      | Some info \<Rightarrow> if backoffUntil info < currentTime then not_backed_off
                     else \<lparr>IsBackedOff = True, ErrorInfo = errorInfo info\<rparr>)"

definition RemoveBackoff :: "'g \<Rightarrow> 'g exponentialBackoff \<Rightarrow> 'g exponentialBackoff" where
  "RemoveBackoff nodeGroup b = b\<lparr>backoffInfo := gdel (nodeGroupKey b nodeGroup) (backoffInfo b)\<rparr>"

definition RemoveStaleBackoffData :: "time \<Rightarrow> 'g exponentialBackoff \<Rightarrow> 'g exponentialBackoff" where
  "RemoveStaleBackoffData currentTime b =
     b\<lparr>backoffInfo := foldl (\<lambda>m (key, info).
         if lastFailedExecution info + backoffResetTimeout b < currentTime then gdel key m else m)
       (backoffInfo b) (backoffInfo b)\<rparr>"

section \<open>The invariant\<close>

text \<open>
  The configuration: durations are not negative, the reset timeout is not below them (the
  defaults are 5 minutes, 30 minutes and 3 hours) and doubling does not overflow. Each entry
  lasts for its duration after the failure that created it.
\<close>

definition backoff_config_ok :: "'g exponentialBackoff \<Rightarrow> bool" where
  "backoff_config_ok b \<longleftrightarrow> 0 \<le> initialBackoffDuration b \<and> 0 \<le> maxBackoffDuration b \<and>
     initialBackoffDuration b \<le> backoffResetTimeout b \<and> maxBackoffDuration b \<le> backoffResetTimeout b \<and>
     initialBackoffDuration b < 2 ^ 62 \<and> maxBackoffDuration b < 2 ^ 62"

definition backoff_entry_ok :: "'g exponentialBackoff \<Rightarrow> exponentialBackoffInfo \<Rightarrow> bool" where
  "backoff_entry_ok b info \<longleftrightarrow> 0 \<le> duration info \<and>
     duration info \<le> max (initialBackoffDuration b) (maxBackoffDuration b) \<and>
     backoffUntil info = lastFailedExecution info + duration info"

definition backoff_inv :: "'g exponentialBackoff \<Rightarrow> bool" where
  "backoff_inv b \<longleftrightarrow> backoff_config_ok b \<and> gm_wf (backoffInfo b) \<and>
     (\<forall>(k, info) \<in> set (backoffInfo b). backoff_entry_ok b info)"

lemma backoff_inv_entry: "backoff_inv b \<Longrightarrow> map_of (backoffInfo b) k = Some info \<Longrightarrow> backoff_entry_ok b info"
  by (auto simp: backoff_inv_def dest: map_of_SomeD)

lemma backoff_inv_New: "backoff_config_ok (NewExponentialBackoff i m r key) \<Longrightarrow>
    backoff_inv (NewExponentialBackoff i m r key)"
  by (simp add: backoff_inv_def NewExponentialBackoff_def)

lemma backoff_config_ok_cong [simp]: "backoff_config_ok (b\<lparr>backoffInfo := m\<rparr>) = backoff_config_ok b"
  by (simp add: backoff_config_ok_def)

lemma backoff_entry_ok_cong [simp]: "backoff_entry_ok (b\<lparr>backoffInfo := m\<rparr>) = backoff_entry_ok b"
  by (simp add: backoff_entry_ok_def fun_eq_iff)

lemma duration_doubles:
  assumes "backoff_inv b" and "map_of (backoffInfo b) (nodeGroupKey b g) = Some info"
    and "backoffUntil info < t"
  shows "backoff_duration b g t = min (2 * duration info) (maxBackoffDuration b)"
proof -
  have "0 \<le> duration info" "duration info < 2 ^ 62"
    using backoff_inv_entry [OF assms(1,2)] assms(1)
    by (auto simp: backoff_entry_ok_def backoff_inv_def backoff_config_ok_def)
  then have "int64 (2 * duration info) = 2 * duration info" by (intro int64_id) auto
  then show ?thesis using assms(2,3) by (simp add: backoff_duration_def Let_def min_def)
qed

lemma backoff_duration_bounds:
  assumes "backoff_inv b"
  shows "0 \<le> backoff_duration b g t"
    and "backoff_duration b g t \<le> max (initialBackoffDuration b) (maxBackoffDuration b)"
proof -
  have "0 \<le> backoff_duration b g t \<and>
      backoff_duration b g t \<le> max (initialBackoffDuration b) (maxBackoffDuration b)"
  proof (cases "map_of (backoffInfo b) (nodeGroupKey b g)")
    case None
    then show ?thesis using assms
      by (auto simp: backoff_duration_def backoff_inv_def backoff_config_ok_def)
  next
    case (Some info)
    note ok = backoff_inv_entry [OF assms Some]
    show ?thesis
    proof (cases "backoffUntil info < t")
      case True
      then show ?thesis using duration_doubles [OF assms Some True] ok assms
        by (auto simp: backoff_entry_ok_def backoff_inv_def backoff_config_ok_def)
    next
      case False
      then show ?thesis using Some ok by (simp add: backoff_duration_def backoff_entry_ok_def)
    qed
  qed
  then show "0 \<le> backoff_duration b g t"
    and "backoff_duration b g t \<le> max (initialBackoffDuration b) (maxBackoffDuration b)" by auto
qed

lemma backoff_inv_Backoff:
  assumes "backoff_inv b"
  shows "backoff_inv (snd (Backoff g e t b))"
proof -
  let ?info = "\<lparr>duration = backoff_duration b g t, backoffUntil = t + backoff_duration b g t,
    lastFailedExecution = t, errorInfo = e\<rparr>"
  have "backoff_entry_ok b ?info"
    using backoff_duration_bounds [OF assms] by (simp add: backoff_entry_ok_def)
  then show ?thesis
    using assms set_gput_subset [of "nodeGroupKey b g" ?info "backoffInfo b"]
    by (auto simp: backoff_inv_def Backoff_def Let_def)
qed

lemma stale_loop:
  assumes "gm_wf es"
  shows "map_of (foldl (\<lambda>m (k, i). if P i then gdel k m else m) m es) k =
    (case map_of es k of None \<Rightarrow> map_of m k | Some i \<Rightarrow> if P i then None else map_of m k)"
  using assms
proof (induction es arbitrary: m)
  case (Cons e es)
  obtain k' i where e: "e = (k', i)" by force
  with Cons.prems have "map_of es k' = None" "gm_wf es" by (auto simp: map_of_eq_None_iff)
  then show ?case using Cons.IH by (simp add: e split: option.splits)
qed simp

lemma stale_loop_subset:
  "set (foldl (\<lambda>m (k, i). if P i then gdel k m else m) m es) \<subseteq> set m \<and>
   (gm_wf m \<longrightarrow> gm_wf (foldl (\<lambda>m (k, i). if P i then gdel k m else m) m es))"
proof (induction es arbitrary: m)
  case (Cons e es)
  obtain k i where "e = (k, i)" by force
  then show ?case
    using Cons.IH [of "if P i then gdel k m else m"] set_gdel_subset [of k m] by (auto split: if_splits)
qed simp

lemma map_of_stale:
  assumes "backoff_inv b"
  shows "map_of (backoffInfo (RemoveStaleBackoffData t b)) k =
    (case map_of (backoffInfo b) k of None \<Rightarrow> None
     | Some info \<Rightarrow> if lastFailedExecution info + backoffResetTimeout b < t then None else Some info)"
  using assms
  by (simp add: RemoveStaleBackoffData_def stale_loop backoff_inv_def split: option.splits)

lemma backoff_inv_stale: "backoff_inv b \<Longrightarrow> backoff_inv (RemoveStaleBackoffData t b)"
  using stale_loop_subset [of "\<lambda>i. lastFailedExecution i + backoffResetTimeout b < t" "backoffInfo b" "backoffInfo b"]
  by (auto simp: backoff_inv_def RemoveStaleBackoffData_def)

lemma backoff_inv_remove: "backoff_inv b \<Longrightarrow> backoff_inv (RemoveBackoff g b)"
  using set_gdel_subset [of "nodeGroupKey b g" "backoffInfo b"]
  by (auto simp: backoff_inv_def RemoveBackoff_def)

lemma stale_not_observable:
  assumes "backoff_inv b" and "t \<le> t'"
  shows "BackoffStatus g t' (RemoveStaleBackoffData t b) = BackoffStatus g t' b"
proof (cases "map_of (backoffInfo b) (nodeGroupKey b g)")
  case None
  then show ?thesis
    using map_of_stale [OF assms(1)]
    by (simp add: BackoffStatus_def) (simp add: RemoveStaleBackoffData_def)
next
  case (Some info)
  have key: "nodeGroupKey (RemoveStaleBackoffData t b) = nodeGroupKey b"
    by (simp add: RemoveStaleBackoffData_def)
  have "duration info \<le> backoffResetTimeout b"
    "backoffUntil info = lastFailedExecution info + duration info"
    using backoff_inv_entry [OF assms(1) Some] assms(1)
    by (auto simp: backoff_entry_ok_def backoff_inv_def backoff_config_ok_def)
  then show ?thesis
    using map_of_stale [OF assms(1), of t "nodeGroupKey b g"] Some assms(2)
    by (auto simp: BackoffStatus_def key)
qed

interpretation exp_backoff: backoff_contract backoff_inv nodeGroupKey Backoff BackoffStatus
  RemoveBackoff RemoveStaleBackoffData
proof unfold_locales
  fix b :: "'g exponentialBackoff" and g e and t t' :: time and g' :: 'g
  assume inv: "backoff_inv b"
  show "backoff_inv (snd (Backoff g e t b))" by (rule backoff_inv_Backoff [OF inv])
  show "backoff_inv (RemoveBackoff g b)" by (rule backoff_inv_remove [OF inv])
  show "backoff_inv (RemoveStaleBackoffData t b)" by (rule backoff_inv_stale [OF inv])
  show "t \<le> fst (Backoff g e t b)"
    using backoff_duration_bounds(1) [OF inv] by (simp add: Backoff_def Let_def)
  show "BackoffStatus g t' (snd (Backoff g e t b)) =
      (if fst (Backoff g e t b) < t' then not_backed_off else \<lparr>IsBackedOff = True, ErrorInfo = e\<rparr>)"
    by (simp add: Backoff_def BackoffStatus_def Let_def)
  show "BackoffStatus g' t' (RemoveBackoff g b) =
      (if nodeGroupKey b g' = nodeGroupKey b g then not_backed_off else BackoffStatus g' t' b)"
    by (simp add: RemoveBackoff_def BackoffStatus_def)
next
  fix b :: "'g exponentialBackoff" and g e t
  show "nodeGroupKey (snd (Backoff g e t b)) = nodeGroupKey b" by (simp add: Backoff_def Let_def)
next
  fix b :: "'g exponentialBackoff" and g e and t t' :: time and g' :: 'g
  assume "nodeGroupKey b g' \<noteq> nodeGroupKey b g"
  then show "BackoffStatus g' t' (snd (Backoff g e t b)) = BackoffStatus g' t' b"
    by (simp add: Backoff_def BackoffStatus_def Let_def)
next
  fix b :: "'g exponentialBackoff" and g g' :: 'g and t :: time
  assume "nodeGroupKey b g' = nodeGroupKey b g"
  then show "BackoffStatus g' t b = BackoffStatus g t b" by (simp add: BackoffStatus_def)
next
  fix b :: "'g exponentialBackoff" and g and t t' :: time
  assume "backoff_inv b" "t \<le> t'"
  then show "BackoffStatus g t' (RemoveStaleBackoffData t b) = BackoffStatus g t' b"
    by (rule stale_not_observable)
qed

section \<open>Properties\<close>

text \<open>
  Failures reported one after the other at the times of a list, and the condition that each of
  them finds the group out of its previous backoff.
\<close>

definition after_failures :: "'g \<Rightarrow> InstanceErrorInfo \<Rightarrow> time list \<Rightarrow> 'g exponentialBackoff \<Rightarrow> 'g exponentialBackoff" where
  "after_failures g e ts b = foldl (\<lambda>b t. snd (Backoff g e t b)) b ts"

fun spaced :: "'g \<Rightarrow> InstanceErrorInfo \<Rightarrow> time list \<Rightarrow> 'g exponentialBackoff \<Rightarrow> bool" where
  "spaced g e [] b = True"
| "spaced g e (t # ts) b = (\<not> IsBackedOff (BackoffStatus g t b) \<and> spaced g e ts (snd (Backoff g e t b)))"

lemma spaced_entry:
  assumes "backoff_inv b" and "map_of (backoffInfo b) (nodeGroupKey b g) = Some info"
    and "duration info = min (initialBackoffDuration b * 2 ^ n) (maxBackoffDuration b)"
    and "spaced g e (ts @ [t]) b"
  shows "fst (Backoff g e t (after_failures g e ts b)) =
    t + min (initialBackoffDuration b * 2 ^ (n + 1 + length ts)) (maxBackoffDuration b)"
  using assms
proof (induction ts arbitrary: b n info)
  case Nil
  then have exp: "backoffUntil info < t" by (auto simp: BackoffStatus_def split: if_splits)
  have "0 \<le> maxBackoffDuration b" using Nil.prems(1) by (simp add: backoff_inv_def backoff_config_ok_def)
  then show ?case
    using duration_doubles [OF Nil.prems(1,2) exp] Nil.prems(3)
    by (simp add: Backoff_def Let_def after_failures_def)
next
  case (Cons u ts)
  then have exp: "backoffUntil info < u" by (auto simp: BackoffStatus_def split: if_splits)
  have nn: "0 \<le> maxBackoffDuration b" using Cons.prems(1) by (simp add: backoff_inv_def backoff_config_ok_def)
  let ?b = "snd (Backoff g e u b)"
  have cfg: "nodeGroupKey ?b = nodeGroupKey b" "initialBackoffDuration ?b = initialBackoffDuration b"
    "maxBackoffDuration ?b = maxBackoffDuration b"
    by (simp_all add: Backoff_def Let_def)
  obtain info' where info': "map_of (backoffInfo ?b) (nodeGroupKey ?b g) = Some info'"
    and d: "duration info' = min (initialBackoffDuration b * 2 ^ Suc n) (maxBackoffDuration b)"
    using duration_doubles [OF Cons.prems(1,2) exp] Cons.prems(3) nn
    by (simp add: Backoff_def Let_def)
  show ?case
    using Cons.IH [OF backoff_inv_Backoff [OF Cons.prems(1)] info', of "Suc n"] d Cons.prems(4) cfg
    by (simp add: after_failures_def)
qed

text \<open>
  C20. Failures that each find the node group out of its previous backoff double the backoff up to
  the maximum: the failure number \<open>n + 1\<close>, reported at \<open>t\<close>, backs the group off until
  \<open>t + min (initial * 2 ^ n) maximum\<close>.
\<close>

theorem spaced_failures_double_backoff:
  assumes "backoff_config_ok b" and "initialBackoffDuration b \<le> maxBackoffDuration b"
    and "backoffInfo b = []" and "spaced g e (ts @ [t]) b"
  shows "fst (Backoff g e t (after_failures g e ts b)) =
    t + min (initialBackoffDuration b * 2 ^ length ts) (maxBackoffDuration b)"
proof (cases ts)
  case Nil
  then show ?thesis using assms(2,3) by (simp add: after_failures_def Backoff_def backoff_duration_def Let_def)
next
  case (Cons u us)
  have inv: "backoff_inv b" using assms(1,3) by (simp add: backoff_inv_def)
  let ?b = "snd (Backoff g e u b)"
  have cfg: "nodeGroupKey ?b = nodeGroupKey b" "initialBackoffDuration ?b = initialBackoffDuration b"
    "maxBackoffDuration ?b = maxBackoffDuration b"
    by (simp_all add: Backoff_def Let_def)
  obtain info where info: "map_of (backoffInfo ?b) (nodeGroupKey ?b g) = Some info"
    and d: "duration info = min (initialBackoffDuration b * 2 ^ 0) (maxBackoffDuration b)"
    using assms(2,3) by (simp add: Backoff_def Let_def backoff_duration_def)
  show ?thesis
    using spaced_entry [OF backoff_inv_Backoff [OF inv] info, of 0 e us t] d assms(4) Cons cfg
    by (simp add: after_failures_def)
qed

theorem spaced_failures_double_backoff_witness:
  "fst (Backoff ''ng'' zero_InstanceErrorInfo 1000
      (after_failures ''ng'' zero_InstanceErrorInfo [0, 100, 200] (NewExponentialBackoff 5 30 180 (\<lambda>g. g)))) = 1030"
  using spaced_failures_double_backoff [of "NewExponentialBackoff 5 30 180 (\<lambda>g. g)" "''ng''"
      zero_InstanceErrorInfo "[0, 100, 200]" 1000]
  by (simp add: NewExponentialBackoff_def backoff_config_ok_def BackoffStatus_def Backoff_def
      backoff_duration_def int64_def Let_def)

text \<open>
  In every state reachable under a sane configuration, a failure reported while the group is
  still backed off extends the backoff without doubling its duration, and discarding stale data
  changes the backoff status of no group from that moment on.
\<close>

theorem concurrent_failures_and_stale_data:
  assumes "backoff_inv b" and "map_of (backoffInfo b) (nodeGroupKey b g) = Some info"
    and "IsBackedOff (BackoffStatus g t b)" and "t \<le> t'"
  shows "fst (Backoff g e t b) = t + duration info \<and>
    BackoffStatus g' t' (RemoveStaleBackoffData t b) = BackoffStatus g' t' b"
  using assms exp_backoff.status_stale [OF assms(1,4)]
  by (auto simp: Backoff_def backoff_duration_def BackoffStatus_def Let_def split: if_splits)

theorem concurrent_failures_and_stale_data_witness:
  "fst (Backoff ''ng'' zero_InstanceErrorInfo 12
      (snd (Backoff ''ng'' zero_InstanceErrorInfo 10 (NewExponentialBackoff 5 30 180 (\<lambda>g. g))))) = 17"
proof -
  let ?b = "snd (Backoff ''ng'' zero_InstanceErrorInfo 10 (NewExponentialBackoff 5 30 180 (\<lambda>g. g)))"
  let ?i = "\<lparr>duration = 5, backoffUntil = 15, lastFailedExecution = 10, errorInfo = zero_InstanceErrorInfo\<rparr>"
  have inv: "backoff_inv ?b"
    by (rule backoff_inv_Backoff [OF backoff_inv_New]) (simp add: NewExponentialBackoff_def backoff_config_ok_def)
  show ?thesis
    using concurrent_failures_and_stale_data [OF inv, of "''ng''" ?i 12 12 zero_InstanceErrorInfo]
    by (simp add: Backoff_def BackoffStatus_def backoff_duration_def NewExponentialBackoff_def)
qed

end
