(* ===== verification/Node_Readiness.thy ===== *)
theory Node_Readiness
  imports Cloud_Provider
begin

text \<open>
  Readiness of nodes (src/pkg/utils/kubernetes/ready.go): the state machine over the conditions
  and taints of a node, and the unready copies the core puts in place of nodes that still lack a
  resource or carry a startup taint.
\<close>

definition NodeReady :: string where "NodeReady = ''Ready''"
definition NodeDiskPressure :: string where "NodeDiskPressure = ''DiskPressure''"
definition NodeNetworkUnavailable :: string where "NodeNetworkUnavailable = ''NetworkUnavailable''"

definition TaintNodeNotReady :: string where "TaintNodeNotReady = ''node.kubernetes.io/not-ready''"
definition TaintNodeDiskPressure :: string where "TaintNodeDiskPressure = ''node.kubernetes.io/disk-pressure''"
definition TaintNodeNetworkUnavailable :: string where
  "TaintNodeNetworkUnavailable = ''node.kubernetes.io/network-unavailable''"

definition ResourceUnready :: string where
  "ResourceUnready = ''cluster-autoscaler.kubernetes.io/resource-not-ready''"
definition StartupNodes :: string where
  "StartupNodes = ''cluster-autoscaler.kubernetes.io/startup-taint''"

lemmas condition_types = NodeReady_def NodeDiskPressure_def NodeNetworkUnavailable_def
lemmas condition_statuses = ConditionTrue_def ConditionFalse_def ConditionUnknown_def

record NodeReadiness =
  Ready :: bool
  LastTransitionTime :: time
  Reason :: string

definition zero_NodeReadiness :: NodeReadiness where
  "zero_NodeReadiness = \<lparr>Ready = False, LastTransitionTime = zero_time, Reason = []\<rparr>"

text \<open>The local variables of \<open>GetNodeReadiness\<close>.\<close>

record readiness_scan =
  canNodeBeReady :: bool
  readyFound :: bool
  lastTransition :: time
  notReadyReason :: string

definition later :: "time \<Rightarrow> readiness_scan \<Rightarrow> readiness_scan" where
  "later t s = (if lastTransition s < t then s\<lparr>lastTransition := t\<rparr> else s)"

definition scan_condition :: "node_condition \<Rightarrow> readiness_scan \<Rightarrow> readiness_scan" where
  "scan_condition cond s =
     (if Cond_Type cond = NodeReady then
        (let s1 = s\<lparr>readyFound := True\<rparr>;
             s2 = (if Cond_Status cond = ConditionFalse \<or> Cond_Status cond = ConditionUnknown
                   then s1\<lparr>canNodeBeReady := False, notReadyReason := Cond_Reason cond\<rparr> else s1)
         in later (Cond_LastTransitionTime cond) s2)
      else if Cond_Type cond = NodeDiskPressure \<or> Cond_Type cond = NodeNetworkUnavailable then
        (let s1 = (if Cond_Status cond = ConditionTrue then s\<lparr>canNodeBeReady := False\<rparr> else s)
         in later (Cond_LastTransitionTime cond) s1)
      else s)"

definition notReadyTaints :: "string list" where
  "notReadyTaints = [TaintNodeNotReady, TaintNodeDiskPressure, TaintNodeNetworkUnavailable]"

definition scan_taint :: "taint \<Rightarrow> readiness_scan \<Rightarrow> readiness_scan" where
  "scan_taint t s =
     (if Taint_Key t \<in> set notReadyTaints then
        (let s1 = s\<lparr>canNodeBeReady := False\<rparr>
         in case Taint_TimeAdded t of None \<Rightarrow> s1 | Some added \<Rightarrow> later added s1)
      else s)"

definition GetNodeReadiness :: "node \<Rightarrow> NodeReadiness \<times> string option" where
  "GetNodeReadiness node =
     (let s0 = \<lparr>canNodeBeReady = True, readyFound = False, lastTransition = zero_time, notReadyReason = []\<rparr>;
          s1 = fold scan_condition (Conditions node) s0;
          s2 = fold scan_taint (Taints node) s1
      in if \<not> readyFound s2 then (zero_NodeReadiness, Some ''readiness information not found'')
         else (\<lparr>Ready = canNodeBeReady s2, LastTransitionTime = lastTransition s2, Reason = notReadyReason s2\<rparr>, None))"

definition GetReadinessState :: "node \<Rightarrow> bool \<times> time \<times> string option" where
  "GetReadinessState node =
     (let (nr, err) = GetNodeReadiness node in (Ready nr, LastTransitionTime nr, err))"

definition IsNodeReadyAndSchedulable :: "node \<Rightarrow> bool" where
  "IsNodeReadyAndSchedulable node =
     (let (ready, _, _) = GetReadinessState node
      in if \<not> ready then False else if Unschedulable node then False else True)"

definition GetUnreadyNodeCopy :: "node \<Rightarrow> string \<Rightarrow> node" where
  "GetUnreadyNodeCopy node reason =
     node\<lparr>Conditions := \<lparr>Cond_Type = NodeReady, Cond_Status = ConditionFalse,
            Cond_LastTransitionTime = CreationTimestamp node, Cond_Reason = reason\<rparr> #
          filter (\<lambda>condition. Cond_Type condition \<noteq> NodeReady) (Conditions node)\<rparr>"

section \<open>What the scan computes\<close>

lemma later_sel [simp]:
  "canNodeBeReady (later t s) = canNodeBeReady s" "readyFound (later t s) = readyFound s"
  "notReadyReason (later t s) = notReadyReason s"
  by (simp_all add: later_def)

definition bad_condition :: "node_condition \<Rightarrow> bool" where
  "bad_condition c \<longleftrightarrow>
     (Cond_Type c = NodeReady \<and> (Cond_Status c = ConditionFalse \<or> Cond_Status c = ConditionUnknown)) \<or>
     ((Cond_Type c = NodeDiskPressure \<or> Cond_Type c = NodeNetworkUnavailable) \<and> Cond_Status c = ConditionTrue)"

lemma scan_condition_sel:
  "canNodeBeReady (scan_condition c s) \<longleftrightarrow> canNodeBeReady s \<and> \<not> bad_condition c"
  "readyFound (scan_condition c s) \<longleftrightarrow> readyFound s \<or> Cond_Type c = NodeReady"
  "Cond_Type c \<noteq> NodeReady \<Longrightarrow> notReadyReason (scan_condition c s) = notReadyReason s"
  by (auto simp: scan_condition_def bad_condition_def Let_def condition_types condition_statuses)

lemma scan_conditions_sel:
  "canNodeBeReady (fold scan_condition cs s) \<longleftrightarrow> canNodeBeReady s \<and> (\<forall>c\<in>set cs. \<not> bad_condition c)"
  "readyFound (fold scan_condition cs s) \<longleftrightarrow> readyFound s \<or> (\<exists>c\<in>set cs. Cond_Type c = NodeReady)"
  by (induction cs arbitrary: s) (auto simp: scan_condition_sel)

lemma scan_conditions_reason:
  "\<forall>c\<in>set cs. Cond_Type c \<noteq> NodeReady \<Longrightarrow> notReadyReason (fold scan_condition cs s) = notReadyReason s"
  by (induction cs arbitrary: s) (auto simp: scan_condition_sel)

lemma scan_taints_sel:
  "canNodeBeReady (fold scan_taint ts s) \<longleftrightarrow> canNodeBeReady s \<and> (\<forall>t\<in>set ts. Taint_Key t \<notin> set notReadyTaints)"
  "readyFound (fold scan_taint ts s) = readyFound s"
  "notReadyReason (fold scan_taint ts s) = notReadyReason s"
  by (induction ts arbitrary: s) (auto simp: scan_taint_def Let_def split: option.splits)

lemma GetNodeReadiness_Ready:
  "Ready (fst (GetNodeReadiness n)) \<longleftrightarrow>
     (\<exists>c\<in>set (Conditions n). Cond_Type c = NodeReady) \<and> (\<forall>c\<in>set (Conditions n). \<not> bad_condition c) \<and>
     (\<forall>t\<in>set (Taints n). Taint_Key t \<notin> set notReadyTaints)"
  by (auto simp: GetNodeReadiness_def Let_def zero_NodeReadiness_def scan_taints_sel scan_conditions_sel)

lemma GetNodeReadiness_error:
  "snd (GetNodeReadiness n) = None \<longleftrightarrow> (\<exists>c\<in>set (Conditions n). Cond_Type c = NodeReady)"
  by (auto simp: GetNodeReadiness_def Let_def scan_taints_sel scan_conditions_sel)

lemma GetUnreadyNodeCopy_not_ready:
  "\<not> Ready (fst (GetNodeReadiness (GetUnreadyNodeCopy n r)))"
  "Reason (fst (GetNodeReadiness (GetUnreadyNodeCopy n r))) = r"
  "snd (GetNodeReadiness (GetUnreadyNodeCopy n r)) = None"
proof -
  show "\<not> Ready (fst (GetNodeReadiness (GetUnreadyNodeCopy n r)))"
    by (simp add: GetNodeReadiness_Ready GetUnreadyNodeCopy_def bad_condition_def)
  show "snd (GetNodeReadiness (GetUnreadyNodeCopy n r)) = None"
    by (simp add: GetNodeReadiness_error GetUnreadyNodeCopy_def)
  show "Reason (fst (GetNodeReadiness (GetUnreadyNodeCopy n r))) = r"
    by (simp add: GetNodeReadiness_def GetUnreadyNodeCopy_def Let_def scan_taints_sel scan_conditions_sel
        scan_conditions_reason scan_condition_sel) (simp add: scan_condition_def later_def Let_def)
qed

lemma GetUnreadyNodeCopy_sel [simp]:
  "Name (GetUnreadyNodeCopy n r) = Name n" "Taints (GetUnreadyNodeCopy n r) = Taints n"
  by (simp_all add: GetUnreadyNodeCopy_def)

section \<open>Property\<close>

text \<open>
  C21. A node counts as ready and schedulable exactly when it reports the \<open>Ready\<close> condition, no
  condition speaks against it (a \<open>Ready\<close> condition that is false or unknown, disk pressure, missing
  network), it carries none of the not-ready taints and is not cordoned; the result does not
  depend on the order of conditions and taints.
\<close>

theorem ready_and_schedulable_iff:
  "IsNodeReadyAndSchedulable n \<longleftrightarrow>
     NodeReady \<in> Cond_Type ` set (Conditions n) \<and>
     (\<forall>c\<in>set (Conditions n). Cond_Type c = NodeReady \<longrightarrow> Cond_Status c \<notin> {ConditionFalse, ConditionUnknown}) \<and>
     (\<forall>c\<in>set (Conditions n). Cond_Type c \<in> {NodeDiskPressure, NodeNetworkUnavailable} \<longrightarrow> Cond_Status c \<noteq> ConditionTrue) \<and>
     Taint_Key ` set (Taints n) \<inter> set notReadyTaints = {} \<and> \<not> Unschedulable n"
proof -
  have "IsNodeReadyAndSchedulable n \<longleftrightarrow> Ready (fst (GetNodeReadiness n)) \<and> \<not> Unschedulable n"
    by (simp add: IsNodeReadyAndSchedulable_def GetReadinessState_def split_beta Let_def)
  also have "\<dots> \<longleftrightarrow> NodeReady \<in> Cond_Type ` set (Conditions n) \<and>
     (\<forall>c\<in>set (Conditions n). \<not> bad_condition c) \<and>
     Taint_Key ` set (Taints n) \<inter> set notReadyTaints = {} \<and> \<not> Unschedulable n"
    unfolding GetNodeReadiness_Ready by (auto simp: image_iff eq_commute [of NodeReady])
  finally show ?thesis unfolding bad_condition_def by blast
qed

theorem ready_and_schedulable_iff_witness:
  "\<not> IsNodeReadyAndSchedulable
     \<lparr>Name = ''n'', ProviderID = ''p'', CreationTimestamp = 5,
      Conditions = [\<lparr>Cond_Type = ''Ready'', Cond_Status = ''True'', Cond_LastTransitionTime = 7, Cond_Reason = []\<rparr>,
        \<lparr>Cond_Type = ''DiskPressure'', Cond_Status = ''True'', Cond_LastTransitionTime = 9, Cond_Reason = []\<rparr>],
      Taints = [], Annotations = [], Labels = [], Unschedulable = False\<rparr>"
  by (subst ready_and_schedulable_iff) (simp add: condition_types condition_statuses)

end
