(* ===== verification/Taints_Util.thy ===== *)
theory Taints_Util
  imports Node_Readiness "HOL-Library.Sublist"
begin

text \<open>
  Taints (src/pkg/utils/taints/taints.go): the marks the autoscaler puts on nodes it deletes, the
  retry loops that write them through the API server, the classification of startup and status
  taints and the filters built on it.

  The API server is a service: a run of the retry loops is driven by a script with one entry per
  iteration, holding what the server answers to \<open>Get\<close> and \<open>Update\<close> in this iteration and whether
  the deadline has passed by then. The value \<open>None\<close> of a loop says that the script ended before the
  loop did.
\<close>

definition ToBeDeletedTaint :: string where "ToBeDeletedTaint = ''ToBeDeletedByClusterAutoscaler''"
definition DeletionCandidateTaintKey :: string where
  "DeletionCandidateTaintKey = ''DeletionCandidateOfClusterAutoscaler''"
definition IgnoreTaintPrefix :: string where
  "IgnoreTaintPrefix = ''ignore-taint.cluster-autoscaler.kubernetes.io/''"
definition StartupTaintPrefix :: string where
  "StartupTaintPrefix = ''startup-taint.cluster-autoscaler.kubernetes.io/''"
definition StatusTaintPrefix :: string where
  "StatusTaintPrefix = ''status-taint.cluster-autoscaler.kubernetes.io/''"
definition gkeNodeTerminationHandlerTaint :: string where
  "gkeNodeTerminationHandlerTaint = ''cloud.google.com/impending-node-termination''"
definition awsNodeWithImpairedVolumesTaint :: string where
  "awsNodeWithImpairedVolumesTaint = ''NodeWithImpairedVolumes''"

lemmas taint_keys = ToBeDeletedTaint_def DeletionCandidateTaintKey_def IgnoreTaintPrefix_def
  StartupTaintPrefix_def StatusTaintPrefix_def gkeNodeTerminationHandlerTaint_def
  awsNodeWithImpairedVolumesTaint_def

type_synonym TaintKeySet = "(string, bool) gmap"

definition NodeConditionTaints :: TaintKeySet where
  "NodeConditionTaints = map (\<lambda>k. (k, True))
     [''node.kubernetes.io/not-ready'', ''node.kubernetes.io/unreachable'', ''node.kubernetes.io/unschedulable'',
      ''node.kubernetes.io/memory-pressure'', ''node.kubernetes.io/disk-pressure'',
      ''node.kubernetes.io/network-unavailable'', ''node.kubernetes.io/pid-pressure'',
      ''node.cloudprovider.kubernetes.io/uninitialized'', ''node.cloudprovider.kubernetes.io/shutdown'',
      gkeNodeTerminationHandlerTaint, awsNodeWithImpairedVolumesTaint]"

record TaintConfig =
  startupTaints :: TaintKeySet
  statusTaints :: TaintKeySet
  startupTaintPrefixes :: "string list"
  statusTaintPrefixes :: "string list"
  explicitlyReportedTaints :: TaintKeySet
  scaleFromUnschedulable :: bool

text \<open>The options \<open>NewTaintConfig\<close> reads.\<close>

record taint_options =
  Opt_StartupTaints :: "string list"
  Opt_StartupTaintPrefixes :: "string list"
  Opt_StatusTaints :: "string list"
  Opt_ScaleFromUnschedulable :: bool

definition NewTaintConfig :: "taint_options \<Rightarrow> TaintConfig" where
  "NewTaintConfig opts =
     \<lparr>startupTaints = foldl (\<lambda>m k. gput k True m) [] (Opt_StartupTaints opts),
      statusTaints = foldl (\<lambda>m k. gput k True m) [] (Opt_StatusTaints opts),
      startupTaintPrefixes = [IgnoreTaintPrefix, StartupTaintPrefix] @ Opt_StartupTaintPrefixes opts,
      statusTaintPrefixes = [StatusTaintPrefix],
      explicitlyReportedTaints = foldl (\<lambda>m (k, v). gput k v m)
        [(ToBeDeletedTaint, True), (DeletionCandidateTaintKey, True)] NodeConditionTaints,
      scaleFromUnschedulable = Opt_ScaleFromUnschedulable opts\<rparr>"

fun matchesAnyPrefix :: "string list \<Rightarrow> string \<Rightarrow> bool" where
  "matchesAnyPrefix [] key = False"
| "matchesAnyPrefix (p # ps) key = (if prefix p key then True else matchesAnyPrefix ps key)"

definition IsStartupTaint :: "TaintConfig \<Rightarrow> string \<Rightarrow> bool" where
  "IsStartupTaint tc t = (if ghas (startupTaints tc) t then True
     else matchesAnyPrefix (startupTaintPrefixes tc) t)"

definition IsStatusTaint :: "TaintConfig \<Rightarrow> string \<Rightarrow> bool" where
  "IsStatusTaint tc t = (if ghas (statusTaints tc) t then True
     else matchesAnyPrefix (statusTaintPrefixes tc) t)"

definition ShouldScaleFromUnschedulable :: "TaintConfig \<Rightarrow> bool" where
  "ShouldScaleFromUnschedulable tc = scaleFromUnschedulable tc"

definition isExplicitlyReportedTaint :: "TaintConfig \<Rightarrow> string \<Rightarrow> bool" where
  "isExplicitlyReportedTaint tc t = ghas (explicitlyReportedTaints tc) t"

fun HasTaint_in :: "taint list \<Rightarrow> string \<Rightarrow> bool" where
  "HasTaint_in [] k = False"
| "HasTaint_in (t # ts) k = (if Taint_Key t = k then True else HasTaint_in ts k)"

definition HasTaint :: "node \<Rightarrow> string \<Rightarrow> bool" where
  "HasTaint node k = HasTaint_in (Taints node) k"

definition HasToBeDeletedTaint :: "node \<Rightarrow> bool" where
  "HasToBeDeletedTaint node = HasTaint node ToBeDeletedTaint"

definition HasDeletionCandidateTaint :: "node \<Rightarrow> bool" where
  "HasDeletionCandidateTaint node = HasTaint node DeletionCandidateTaintKey"

section \<open>Time stamps\<close>

text \<open>The Unix epoch in the model's clock, \<open>time.Unix\<close> and \<open>Time.Unix\<close>.\<close>

definition unix_epoch :: time where
  "unix_epoch = 62135596800 * 10 ^ 9"

definition Unix :: "time \<Rightarrow> int" where
  "Unix t = (t - unix_epoch) div 10 ^ 9"

definition time_of_Unix :: "int \<Rightarrow> time" where
  "time_of_Unix sec = unix_epoch + sec * 10 ^ 9"

fun GetTaintTime_in :: "taint list \<Rightarrow> string \<Rightarrow> string + time option" where
  "GetTaintTime_in [] k = Inr None"
| "GetTaintTime_in (t # ts) k =
     (if Taint_Key t = k then
        (case ParseInt (Taint_Value t) of None \<Rightarrow> Inl ''invalid syntax''
         | Some sec \<Rightarrow> Inr (Some (time_of_Unix sec)))
      else GetTaintTime_in ts k)"

definition GetTaintTime :: "node \<Rightarrow> string \<Rightarrow> string + time option" where
  "GetTaintTime node k = GetTaintTime_in (Taints node) k"

definition GetToBeDeletedTime :: "node \<Rightarrow> string + time option" where
  "GetToBeDeletedTime node = GetTaintTime node ToBeDeletedTaint"

definition GetDeletionCandidateTime :: "node \<Rightarrow> string + time option" where
  "GetDeletionCandidateTime node = GetTaintTime node DeletionCandidateTaintKey"

definition getDeletionCandidateTTLCondition :: "duration \<Rightarrow> time \<Rightarrow> node \<Rightarrow> bool" where
  "getDeletionCandidateTTLCondition ttl now node =
     (if ttl = 0 then True
      else case GetDeletionCandidateTime node of Inl _ \<Rightarrow> True
        | Inr None \<Rightarrow> True
        | Inr (Some marked) \<Rightarrow> \<not> now - marked < ttl)"

section \<open>Writing taints\<close>

fun addTaintsToSpec_loop :: "taint list \<Rightarrow> node \<Rightarrow> bool \<Rightarrow> bool \<times> node" where
  "addTaintsToSpec_loop [] node added = (added, node)"
| "addTaintsToSpec_loop (t # ts) node added =
     (if HasTaint node (Taint_Key t) then addTaintsToSpec_loop ts node added
      else addTaintsToSpec_loop ts (node\<lparr>Taints := Taints node @ [t]\<rparr>) True)"

definition addTaintsToSpec :: "node \<Rightarrow> taint list \<Rightarrow> bool \<Rightarrow> bool \<times> node" where
  "addTaintsToSpec node taints cordonNode =
     (let (added, node') = addTaintsToSpec_loop taints node False
      in if \<not> added then (False, node')
         else if cordonNode then (True, node'\<lparr>Unschedulable := True\<rparr>) else (True, node'))"

datatype update_answer = Updated | Conflict | UpdateFailed

record api_step =
  on_Get :: "node option"
  on_Update :: update_answer
  before_deadline :: bool

datatype taint_error = GetNodeError | UpdateError

text \<open>One pass of the loop of \<open>AddTaints\<close> per script entry.\<close>

fun AddTaints_loop :: "taint list \<Rightarrow> bool \<Rightarrow> api_step list \<Rightarrow> node \<Rightarrow> bool \<Rightarrow> (taint_error + node) option" where
  "AddTaints_loop taints cordonNode [] freshNode refresh = None"
| "AddTaints_loop taints cordonNode (a # script) freshNode refresh =
     (case (if refresh then on_Get a else Some freshNode) of
        None \<Rightarrow> Some (Inl GetNodeError)
      | Some fresh \<Rightarrow>
          (let (added, fresh') = addTaintsToSpec fresh taints cordonNode
           in if \<not> added then
                (if \<not> refresh then AddTaints_loop taints cordonNode script fresh' True
                 else Some (Inr fresh'))
              else (case on_Update a of
                  Updated \<Rightarrow> Some (Inr fresh')
                | Conflict \<Rightarrow> if before_deadline a then AddTaints_loop taints cordonNode script fresh' True
                              else Some (Inl UpdateError)
                | UpdateFailed \<Rightarrow> Some (Inl UpdateError))))"

definition AddTaints :: "node \<Rightarrow> api_step list \<Rightarrow> taint list \<Rightarrow> bool \<Rightarrow> (taint_error + node) option" where
  "AddTaints node script taints cordonNode = AddTaints_loop taints cordonNode script node False"

definition MarkToBeDeleted :: "node \<Rightarrow> api_step list \<Rightarrow> bool \<Rightarrow> time \<Rightarrow> (taint_error + node) option" where
  "MarkToBeDeleted node script cordonNode now =
     AddTaints node script [\<lparr>Taint_Key = ToBeDeletedTaint, Taint_Value = Sprint_int (Unix now),
        Taint_Effect = ''NoSchedule'', Taint_TimeAdded = None\<rparr>] cordonNode"

definition DeletionCandidateTaint :: "time \<Rightarrow> taint" where
  "DeletionCandidateTaint now = \<lparr>Taint_Key = DeletionCandidateTaintKey, Taint_Value = Sprint_int (Unix now),
     Taint_Effect = ''PreferNoSchedule'', Taint_TimeAdded = None\<rparr>"

definition MarkDeletionCandidate :: "node \<Rightarrow> api_step list \<Rightarrow> time \<Rightarrow> (taint_error + node) option" where
  "MarkDeletionCandidate node script now = AddTaints node script [DeletionCandidateTaint now] False"

fun CleanTaints_loop :: "string list \<Rightarrow> bool \<Rightarrow> api_step list \<Rightarrow> node \<Rightarrow> bool \<Rightarrow> (taint_error + node) option" where
  "CleanTaints_loop keys cordonNode [] freshNode refresh = None"
| "CleanTaints_loop keys cordonNode (a # script) freshNode refresh =
     (case (if refresh then on_Get a else Some freshNode) of
        None \<Rightarrow> Some (Inl GetNodeError)
      | Some fresh \<Rightarrow>
          (let newTaints = filter (\<lambda>t. Taint_Key t \<notin> set keys) (Taints fresh)
           in if length newTaints = length (Taints fresh) then
                (if \<not> refresh then CleanTaints_loop keys cordonNode script fresh True
                 else Some (Inr fresh))
              else
                (let fresh1 = fresh\<lparr>Taints := newTaints\<rparr>;
                     fresh2 = (if cordonNode then fresh1\<lparr>Unschedulable := False\<rparr> else fresh1)
                 in case on_Update a of
                  Updated \<Rightarrow> Some (Inr fresh2)
                | Conflict \<Rightarrow> if before_deadline a then CleanTaints_loop keys cordonNode script fresh2 True
                              else Some (Inl UpdateError)
                | UpdateFailed \<Rightarrow> Some (Inl UpdateError))))"

definition CleanTaints :: "node \<Rightarrow> api_step list \<Rightarrow> string list \<Rightarrow> bool \<Rightarrow> (taint_error + node) option" where
  "CleanTaints node script keys cordonNode = CleanTaints_loop keys cordonNode script node False"

definition CleanToBeDeleted :: "node \<Rightarrow> api_step list \<Rightarrow> bool \<Rightarrow> (taint_error + node) option" where
  "CleanToBeDeleted node script cordonNode = CleanTaints node script [ToBeDeletedTaint] cordonNode"

definition CleanDeletionCandidate :: "node \<Rightarrow> api_step list \<Rightarrow> (taint_error + node) option" where
  "CleanDeletionCandidate node script = CleanTaints node script [DeletionCandidateTaintKey] False"

text \<open>
  \<open>CleanAllTaints\<close> with the script of each node's clean-up; the result lists the events: the name of
  the node and whether the taint was removed.
\<close>

fun CleanAllTaints :: "(node \<times> api_step list) list \<Rightarrow> string \<Rightarrow> bool \<Rightarrow> (node \<Rightarrow> bool) list \<Rightarrow>
    (string \<times> bool) list option" where
  "CleanAllTaints [] k cordonNode conditions = Some []"
| "CleanAllTaints ((node, script) # rest) k cordonNode conditions =
     (if \<not> HasTaint node k then CleanAllTaints rest k cordonNode conditions
      else if \<not> list_all (\<lambda>c. c node) conditions then CleanAllTaints rest k cordonNode conditions
      else (case CleanTaints node script [k] cordonNode of
          None \<Rightarrow> None
        | Some (Inl _) \<Rightarrow> map_option (\<lambda>es. (Name node, False) # es) (CleanAllTaints rest k cordonNode conditions)
        | Some (Inr node') \<Rightarrow>
            map_option (\<lambda>es. if Taints node' \<noteq> Taints node then (Name node, True) # es else es)
              (CleanAllTaints rest k cordonNode conditions)))"

definition CleanAllToBeDeleted :: "(node \<times> api_step list) list \<Rightarrow> bool \<Rightarrow> (string \<times> bool) list option" where
  "CleanAllToBeDeleted nodes cordonNode = CleanAllTaints nodes ToBeDeletedTaint cordonNode []"

definition CleanStaleDeletionCandidates :: "(node \<times> api_step list) list \<Rightarrow> duration \<Rightarrow> time \<Rightarrow>
    (string \<times> bool) list option" where
  "CleanStaleDeletionCandidates nodes ttl now =
     CleanAllTaints nodes DeletionCandidateTaintKey False [getDeletionCandidateTTLCondition ttl now]"

section \<open>Filters\<close>

fun SanitizeTaints :: "taint list \<Rightarrow> TaintConfig \<Rightarrow> taint list" where
  "SanitizeTaints [] tc = []"
| "SanitizeTaints (t # ts) tc =
     (if Taint_Key t = ToBeDeletedTaint then SanitizeTaints ts tc
      else if Taint_Key t = DeletionCandidateTaintKey then SanitizeTaints ts tc
      else if gget False NodeConditionTaints (Taint_Key t) then SanitizeTaints ts tc
      else if IsStartupTaint tc (Taint_Key t) \<or> IsStatusTaint tc (Taint_Key t) then SanitizeTaints ts tc
      else t # SanitizeTaints ts tc)"

fun has_startup_taint :: "TaintConfig \<Rightarrow> taint list \<Rightarrow> bool" where
  "has_startup_taint tc [] = False"
| "has_startup_taint tc (t # ts) = (if IsStartupTaint tc (Taint_Key t) then True else has_startup_taint tc ts)"

fun startup_loop :: "TaintConfig \<Rightarrow> node list \<Rightarrow> node list \<times> (string, node) gmap \<Rightarrow> node list \<times> (string, node) gmap" where
  "startup_loop tc [] (ready, unready) = (ready, unready)"
| "startup_loop tc (n # ns) (ready, unready) =
     (if Taints n = [] then startup_loop tc ns (ready @ [n], unready)
      else if has_startup_taint tc (Taints n)
      then startup_loop tc ns (ready, gput (Name n) (GetUnreadyNodeCopy n StartupNodes) unready)
      else startup_loop tc ns (ready @ [n], unready))"

definition FilterOutNodesWithStartupTaints :: "TaintConfig \<Rightarrow> node list \<Rightarrow> node list \<Rightarrow> node list \<times> node list" where
  "FilterOutNodesWithStartupTaints tc allNodes readyNodes =
     (let (newReadyNodes, nodesWithStartupTaints) = startup_loop tc readyNodes ([], [])
      in (map (\<lambda>node. case map_of nodesWithStartupTaints (Name node) of None \<Rightarrow> node | Some newNode \<Rightarrow> newNode) allNodes,
          newReadyNodes))"

definition getTaintTypeToReport :: "string \<Rightarrow> TaintConfig \<Rightarrow> string" where
  "getTaintTypeToReport key tc =
     (if prefix IgnoreTaintPrefix key then IgnoreTaintPrefix
      else if isExplicitlyReportedTaint tc key then key
      else if IsStartupTaint tc key then ''startup-taint''
      else if IsStatusTaint tc key then ''status-taint''
      else ''other'')"

definition CountNodeTaints :: "node list \<Rightarrow> TaintConfig \<Rightarrow> (string, int) gmap" where
  "CountNodeTaints nodes tc =
     foldl (\<lambda>m n. foldl (\<lambda>m t. let key = getTaintTypeToReport (Taint_Key t) tc
                               in gput key (gget 0 m key + 1) m) m (Taints n)) [] nodes"

section \<open>Lemmas\<close>

lemma HasTaint_iff: "HasTaint n k \<longleftrightarrow> k \<in> Taint_Key ` set (Taints n)"
proof -
  have "HasTaint_in ts k \<longleftrightarrow> k \<in> Taint_Key ` set ts" for ts
    by (induction ts) auto
  then show ?thesis by (simp add: HasTaint_def)
qed

lemma matchesAnyPrefix_iff: "matchesAnyPrefix ps k \<longleftrightarrow> (\<exists>p\<in>set ps. prefix p k)"
  by (induction ps) auto

lemma has_startup_taint_iff: "has_startup_taint tc ts \<longleftrightarrow> (\<exists>t\<in>set ts. IsStartupTaint tc (Taint_Key t))"
  by (induction ts) auto

text \<open>Adding to the specification of a node.\<close>

lemma addTaintsToSpec_loop_spec:
  "\<exists>us. addTaintsToSpec_loop ts n b = (b \<or> us \<noteq> [], n\<lparr>Taints := Taints n @ us\<rparr>) \<and> set us \<subseteq> set ts \<and>
     Taint_Key ` set us = Taint_Key ` set ts - Taint_Key ` set (Taints n)"
proof (induction ts arbitrary: n b)
  case Nil
  show ?case by (rule exI [of _ "[]"]) simp
next
  case (Cons t ts)
  show ?case
  proof (cases "HasTaint n (Taint_Key t)")
    case True
    obtain us where "addTaintsToSpec_loop ts n b = (b \<or> us \<noteq> [], n\<lparr>Taints := Taints n @ us\<rparr>)"
      "set us \<subseteq> set ts" "Taint_Key ` set us = Taint_Key ` set ts - Taint_Key ` set (Taints n)"
      using Cons.IH [of n b] by blast
    with True show ?thesis by (intro exI [of _ us]) (auto simp: HasTaint_iff)
  next
    case False
    let ?n = "n\<lparr>Taints := Taints n @ [t]\<rparr>"
    obtain us where "addTaintsToSpec_loop ts ?n True = (True, ?n\<lparr>Taints := Taints ?n @ us\<rparr>)"
      "set us \<subseteq> set ts" "Taint_Key ` set us = Taint_Key ` set ts - Taint_Key ` set (Taints ?n)"
      using Cons.IH [of ?n True] by auto
    with False show ?thesis by (intro exI [of _ "t # us"]) (auto simp: HasTaint_iff)
  qed
qed

lemma addTaintsToSpec_spec:
  obtains us where "addTaintsToSpec n ts c = (us \<noteq> [], n\<lparr>Taints := Taints n @ us,
      Unschedulable := Unschedulable n \<or> (us \<noteq> [] \<and> c)\<rparr>)" and "set us \<subseteq> set ts"
    and "Taint_Key ` set us = Taint_Key ` set ts - Taint_Key ` set (Taints n)"
proof -
  obtain us where "addTaintsToSpec_loop ts n False = (us \<noteq> [], n\<lparr>Taints := Taints n @ us\<rparr>)"
    "set us \<subseteq> set ts" "Taint_Key ` set us = Taint_Key ` set ts - Taint_Key ` set (Taints n)"
    using addTaintsToSpec_loop_spec [of ts n False] by auto
  then show thesis by (intro that [of us]) (simp_all add: addTaintsToSpec_def)
qed

text \<open>
  Results of the loops: the returned node is the caller's copy or one the server answered, with
  the change applied to it.
\<close>

definition served :: "node \<Rightarrow> api_step list \<Rightarrow> node set" where
  "served n script = insert n {m. \<exists>a\<in>set script. on_Get a = Some m}"

lemma AddTaints_loop_refreshed:
  "AddTaints_loop ts c script f True = Some (Inr n) \<Longrightarrow>
     \<exists>a\<in>set script. \<exists>m. on_Get a = Some m \<and> n = snd (addTaintsToSpec m ts c)"
  by (induction script arbitrary: f)
    (auto simp: split_beta Let_def split: option.splits if_splits update_answer.splits)

lemma AddTaints_served:
  assumes "AddTaints n script ts c = Some (Inr n')"
  shows "\<exists>m\<in>served n script. n' = snd (addTaintsToSpec m ts c)"
proof (cases script)
  case Nil
  then show ?thesis using assms by (simp add: AddTaints_def)
next
  case (Cons a script')
  then show ?thesis
    using assms AddTaints_loop_refreshed [of ts c script' _ n']
    by (auto simp: AddTaints_def served_def split_beta Let_def split: if_splits update_answer.splits)
qed

lemma CleanTaints_loop_refreshed:
  "CleanTaints_loop ks c script f True = Some (Inr n) \<Longrightarrow>
     \<exists>a\<in>set script. \<exists>m. on_Get a = Some m \<and> Taints n = filter (\<lambda>t. Taint_Key t \<notin> set ks) (Taints m)"
proof (induction script arbitrary: f)
  case (Cons a script)
  obtain m where m: "on_Get a = Some m" using Cons.prems by (cases "on_Get a") auto
  let ?ts = "filter (\<lambda>t. Taint_Key t \<notin> set ks) (Taints m)"
  show ?case
  proof (cases "length ?ts = length (Taints m)")
    case True
    then have "?ts = Taints m" by (metis length_filter_less less_irrefl filter_True)
    then show ?thesis using Cons.prems m by (auto simp: Let_def)
  next
    case False
    then show ?thesis using Cons m
      by (auto simp: Let_def split: if_splits update_answer.splits)
  qed
qed simp

lemma CleanTaints_served:
  assumes "CleanTaints n script ks c = Some (Inr n')"
  shows "\<exists>m\<in>served n script. Taints n' = filter (\<lambda>t. Taint_Key t \<notin> set ks) (Taints m)"
proof (cases script)
  case Nil
  then show ?thesis using assms by (simp add: CleanTaints_def)
next
  case (Cons a script')
  then show ?thesis
    using assms CleanTaints_loop_refreshed [of ks c script' _ n']
    by (auto simp: CleanTaints_def served_def Let_def split: if_splits update_answer.splits)
qed

text \<open>The loops return once an iteration after the first one passes the deadline.\<close>

lemma AddTaints_loop_returns:
  "\<exists>a\<in>set script. \<not> before_deadline a \<Longrightarrow> \<exists>r. AddTaints_loop ts c script f True = Some r"
  by (induction script arbitrary: f)
    (auto simp: split_beta Let_def split: option.splits if_splits update_answer.splits)

lemma CleanTaints_loop_returns:
  "\<exists>a\<in>set script. \<not> before_deadline a \<Longrightarrow> \<exists>r. CleanTaints_loop ks c script f True = Some r"
proof (induction script arbitrary: f)
  case (Cons a script)
  show ?case
  proof (cases "before_deadline a")
    case True
    then have "\<exists>r. CleanTaints_loop ks c script g True = Some r" for g
      using Cons by auto
    then show ?thesis by (cases c) (simp_all add: Let_def split: option.splits update_answer.splits)
  next
    case False
    then show ?thesis by (simp add: Let_def split: option.splits update_answer.splits)
  qed
qed simp

lemma GetTaintTime_in_append:
  "k \<notin> Taint_Key ` set ts \<Longrightarrow> GetTaintTime_in (ts @ us) k = GetTaintTime_in us k"
  by (induction ts) auto

section \<open>Properties\<close>


text \<open>
  C23. Writing taints ends: once the deadline has passed in some iteration after the first one,
  \<open>AddTaints\<close> and \<open>CleanTaints\<close> have returned; and a successful clean-up returns a version of the node
  without any of the given taints and with all its other taints in their order.
\<close>

theorem taint_loops_return_and_clean:
  assumes "\<exists>a\<in>set script. \<not> before_deadline a"
  shows "(\<exists>r. AddTaints n (a0 # script) ts c = Some r) \<and>
    (\<exists>r. CleanTaints n (a0 # script) ks c = Some r \<and>
      (\<forall>n'. r = Inr n' \<longrightarrow> (\<exists>m\<in>served n (a0 # script).
          Taints n' = filter (\<lambda>t. Taint_Key t \<notin> set ks) (Taints m) \<and> (\<forall>k\<in>set ks. \<not> HasTaint n' k))))"
proof -
  have "\<exists>r. AddTaints n (a0 # script) ts c = Some r"
    using AddTaints_loop_returns [OF assms]
    by (auto simp: AddTaints_def split_beta Let_def split: update_answer.splits)
  moreover obtain r where r: "CleanTaints n (a0 # script) ks c = Some r"
    using CleanTaints_loop_returns [OF assms]
    by (force simp: CleanTaints_def Let_def split: update_answer.splits)
  moreover have "\<exists>m\<in>served n (a0 # script). Taints n' = filter (\<lambda>t. Taint_Key t \<notin> set ks) (Taints m) \<and>
      (\<forall>k\<in>set ks. \<not> HasTaint n' k)" if "r = Inr n'" for n'
    using CleanTaints_served [of n "a0 # script" ks c n'] r that by (auto simp: HasTaint_iff)
  ultimately show ?thesis by blast
qed

text \<open>Concrete nodes and server answers for the witnesses.\<close>

definition demo_node :: "string \<Rightarrow> taint list \<Rightarrow> node" where
  "demo_node name ts = \<lparr>Name = name, ProviderID = name, CreationTimestamp = 0,
     Conditions = [\<lparr>Cond_Type = NodeReady, Cond_Status = ConditionTrue, Cond_LastTransitionTime = 0, Cond_Reason = []\<rparr>],
     Taints = ts, Annotations = [], Labels = [], Unschedulable = False\<rparr>"

definition demo_taint :: "string \<Rightarrow> taint" where
  "demo_taint k = \<lparr>Taint_Key = k, Taint_Value = [], Taint_Effect = ''NoSchedule'', Taint_TimeAdded = None\<rparr>"


theorem taint_loops_return_and_clean_witness:
  "\<exists>r. CleanTaints (demo_node ''n'' [])
     [\<lparr>on_Get = None, on_Update = Conflict, before_deadline = True\<rparr>,
      \<lparr>on_Get = Some (demo_node ''n'' [demo_taint ''gpu'']), on_Update = Conflict, before_deadline = False\<rparr>]
     [''gpu''] True = Some r"
  using taint_loops_return_and_clean [of "[\<lparr>on_Get = Some (demo_node ''n'' [demo_taint ''gpu'']),
    on_Update = Conflict, before_deadline = False\<rparr>]"] by fastforce

text \<open>The startup filter.\<close>

lemma startup_loop_spec:
  assumes "startup_loop tc ns (ready, unready) = (ready', unready')"
  shows "ready' = ready @ filter (\<lambda>n. \<not> has_startup_taint tc (Taints n)) ns"
    and "map_of unready' name = (if \<exists>n\<in>set ns. Name n = name \<and> has_startup_taint tc (Taints n)
      then Some (GetUnreadyNodeCopy (last (filter (\<lambda>n. Name n = name \<and> has_startup_taint tc (Taints n)) ns)) StartupNodes)
      else map_of unready name)"
  using assms
  by (induction tc ns "(ready, unready)" arbitrary: ready unready rule: startup_loop.induct)
    (auto simp: filter_empty_conv split: if_splits)

text \<open>
  The startup-taint filter: of the ready nodes exactly those without a startup taint are kept,
  in order; in the list of all nodes, positions and names are kept, a node whose name belongs to a
  ready node with a startup taint is replaced by a copy that reads as not ready for the startup
  reason, and every other node is unchanged.
\<close>

theorem startup_taint_filter_correct:
  assumes "FilterOutNodesWithStartupTaints tc all ready = (all', ready')"
  shows "ready' = filter (\<lambda>n. \<forall>t\<in>set (Taints n). \<not> IsStartupTaint tc (Taint_Key t)) ready \<and>
    map Name all' = map Name all \<and>
    (\<forall>i<length all. if (\<exists>n\<in>set ready. Name n = Name (all ! i) \<and> (\<exists>t\<in>set (Taints n). IsStartupTaint tc (Taint_Key t)))
       then \<not> Ready (fst (GetNodeReadiness (all' ! i))) \<and> Reason (fst (GetNodeReadiness (all' ! i))) = StartupNodes
       else all' ! i = all ! i)"
proof -
  obtain r u where l: "startup_loop tc ready ([], []) = (r, u)" by force
  note L = startup_loop_spec [OF l]
  have all': "all' = map (\<lambda>node. case map_of u (Name node) of None \<Rightarrow> node | Some newNode \<Rightarrow> newNode) all"
    and ready': "ready' = r"
    using assms l by (auto simp: FilterOutNodesWithStartupTaints_def)
  have name: "Name m = k" if "map_of u k = Some m" for k m
    using that last_in_set [of "filter (\<lambda>n. Name n = k \<and> has_startup_taint tc (Taints n)) ready"]
    by (auto simp: L(2) filter_empty_conv split: if_splits)
  have "ready' = filter (\<lambda>n. \<forall>t\<in>set (Taints n). \<not> IsStartupTaint tc (Taint_Key t)) ready"
    unfolding ready' L(1) by (simp add: has_startup_taint_iff)
  moreover have "map Name all' = map Name all"
    unfolding all' using name by (auto split: option.splits)
  moreover have "\<forall>i<length all. if (\<exists>n\<in>set ready. Name n = Name (all ! i) \<and> (\<exists>t\<in>set (Taints n). IsStartupTaint tc (Taint_Key t)))
       then \<not> Ready (fst (GetNodeReadiness (all' ! i))) \<and> Reason (fst (GetNodeReadiness (all' ! i))) = StartupNodes
       else all' ! i = all ! i"
    unfolding all' by (auto simp: L(2) has_startup_taint_iff GetUnreadyNodeCopy_not_ready)
  ultimately show ?thesis by blast
qed

theorem startup_taint_filter_correct_witness:
  "snd (FilterOutNodesWithStartupTaints (NewTaintConfig \<lparr>Opt_StartupTaints = [''boot''], Opt_StartupTaintPrefixes = [],
      Opt_StatusTaints = [], Opt_ScaleFromUnschedulable = False\<rparr>)
    [demo_node ''a'' [demo_taint ''boot''], demo_node ''b'' [demo_taint ''gpu'']]
    [demo_node ''a'' [demo_taint ''boot''], demo_node ''b'' [demo_taint ''gpu'']]) = [demo_node ''b'' [demo_taint ''gpu'']]"
proof -
  let ?tc = "NewTaintConfig \<lparr>Opt_StartupTaints = [''boot''], Opt_StartupTaintPrefixes = [],
      Opt_StatusTaints = [], Opt_ScaleFromUnschedulable = False\<rparr>"
  let ?ns = "[demo_node ''a'' [demo_taint ''boot''], demo_node ''b'' [demo_taint ''gpu'']]"
  obtain al rd where r: "FilterOutNodesWithStartupTaints ?tc ?ns ?ns = (al, rd)" by force
  have "IsStartupTaint ?tc ''boot''" "\<not> IsStartupTaint ?tc ''gpu''" by code_simp+
  with startup_taint_filter_correct [OF r] r show ?thesis
    by (simp add: demo_node_def demo_taint_def)
qed

end
