(* ===== verification/Cluster_State.thy ===== *)
theory Cluster_State
  imports Backoff Taints_Util "HOL-Library.Multiset"
begin

text \<open>
  The cluster state registry (src/pkg/clusterstate/clusterstate.go), with the observer list it
  reports failed scale-ups to (src/pkg/observers/nodegroupchange), the scale-up failure registry
  (src/pkg/clusterstate/scaleupfailures) and the cache of provider instances
  (src/pkg/clusterstate/utils/node_instances_cache.go).

  The registry's lock makes each operation atomic. Services are in the record \<open>csr_env\<close>: the cloud
  provider, the checker of groups that are still being created, the node group options and the
  registry of template node infos. What the registry does to the outside (provider calls, events)
  is appended to the field \<open>effects\<close>. Node counts are Go ints far below their bounds and are
  modelled as integers.
\<close>

section \<open>Data\<close>

record 'g ScaleUpRequest =
  Up_NodeGroup :: 'g
  Up_Time :: time
  ExpectedAddTime :: time
  Increase :: int

record 'g ScaleDownRequest =
  Down_NodeName :: string
  Down_NodeGroup :: 'g
  Down_Time :: time
  ExpectedDeleteTime :: time

record ClusterStateRegistryConfig =
  MaxTotalUnreadyPercentage :: rat
  OkTotalUnreadyCount :: int

record IncorrectNodeGroupSize =
  ExpectedSize :: int
  CurrentSize :: int
  FirstObserved :: time

record UnregisteredNode =
  Un_Node :: node
  UnregisteredSince :: time

record AcceptableRange =
  MinNodes :: int
  MaxNodes :: int
  CurrentTarget :: int

definition zero_AcceptableRange :: AcceptableRange where
  "zero_AcceptableRange = \<lparr>MinNodes = 0, MaxNodes = 0, CurrentTarget = 0\<rparr>"

record Readiness =
  R_Ready :: "string list"
  R_Unready :: "string list"
  R_Deleted :: "string list"
  R_NotStarted :: "string list"
  R_Suspended :: "string list"
  R_Registered :: "string list"
  R_LongUnregistered :: "string list"
  R_Unregistered :: "string list"
  R_Time :: time
  R_ResourceUnready :: "string list"

definition zero_Readiness :: Readiness where
  "zero_Readiness = \<lparr>R_Ready = [], R_Unready = [], R_Deleted = [], R_NotStarted = [], R_Suspended = [],
     R_Registered = [], R_LongUnregistered = [], R_Unregistered = [], R_Time = zero_time, R_ResourceUnready = []\<rparr>"

text \<open>A record of a failed scale-up, and the observers of the notifier.\<close>

record failure_record =
  F_ErrorInfo :: InstanceErrorInfo
  F_Delta :: int
  F_Time :: time

datatype observer = Obs_ClusterState | Obs_ScaleUpFailures | Obs_Other

datatype 'g csr_effect =
    Event_ScaleUpTimedOut string duration
  | Event_FailedToRevertScaleUp string cp_error
  | Event_ScaleUpFailed string int string string
  | Call_DecreaseTargetSize 'g int
  | Notify_FailedScaleUp 'g int InstanceErrorInfo time
  | Notify_ScaleUp 'g int time
  | Notify_ScaleDown 'g string time time
  | Notify_FailedScaleDown 'g string time

record cache_entry =
  instances :: "Instance list"
  refreshTime :: time

record 'g ClusterStateRegistry =
  csr_config :: ClusterStateRegistryConfig
  scaleUpRequests :: "(string, 'g ScaleUpRequest) gmap"
  scaleDownRequests :: "'g ScaleDownRequest list"
  csr_nodes :: "node list"
  perNodeGroupReadiness :: "(string, Readiness) gmap"
  totalReadiness :: Readiness
  acceptableRanges :: "(string, AcceptableRange) gmap"
  incorrectNodeGroupSizes :: "(string, IncorrectNodeGroupSize) gmap"
  unregisteredNodes :: "(string, UnregisteredNode) gmap"
  deletedNodes :: "(string, unit) gmap"
  candidatesForScaleDown :: "(string, string list) gmap"
  lastScaleDownUpdateTime :: time
  cloudProviderNodeInstances :: "(string, Instance list) gmap"
  previousCloudProviderNodeInstances :: "(string, Instance list) gmap"
  instancesCache :: "(string, cache_entry) gmap"
  csr_backoff :: "'g exponentialBackoff"
  scaleUpFailures :: "(string, failure_record list) gmap"
  observers :: "observer list"
  effects :: "'g csr_effect list"

record errorCode =
  code_code :: string
  code_class :: InstanceErrorClass

text \<open>
  The services. \<open>range_codes\<close> is the order in which Go visits the map of instances by error code.
\<close>

record 'g csr_env =
  cloudProvider :: "'g cloud_provider"
  IsUpcoming :: "'g \<Rightarrow> bool"
  GetMaxNodeProvisionTime :: "'g \<Rightarrow> cp_error + duration"
  GetMaxNodeStartupTime :: "'g \<Rightarrow> cp_error + duration"
  has_template :: "string \<Rightarrow> bool"
  DecreaseTargetSize :: "'g \<Rightarrow> int \<Rightarrow> cp_error option"
  range_codes :: "(errorCode \<times> Instance list) list \<Rightarrow> (errorCode \<times> Instance list) list"

definition emit :: "'g csr_effect \<Rightarrow> 'g ClusterStateRegistry \<Rightarrow> 'g ClusterStateRegistry" where
  "emit e csr = csr\<lparr>effects := effects csr @ [e]\<rparr>"

definition MaxNodeStartupTime :: duration where
  "MaxNodeStartupTime = 15 * Minute"

definition NewClusterStateRegistry :: "ClusterStateRegistryConfig \<Rightarrow> 'g exponentialBackoff \<Rightarrow> observer list \<Rightarrow>
    'g ClusterStateRegistry" where
  "NewClusterStateRegistry config b obs =
     \<lparr>csr_config = config, scaleUpRequests = [], scaleDownRequests = [], csr_nodes = [],
      perNodeGroupReadiness = [], totalReadiness = zero_Readiness, acceptableRanges = [],
      incorrectNodeGroupSizes = [], unregisteredNodes = [], deletedNodes = [], candidatesForScaleDown = [],
      lastScaleDownUpdateTime = zero_time, cloudProviderNodeInstances = [],
      previousCloudProviderNodeInstances = [], instancesCache = [], csr_backoff = b, scaleUpFailures = [],
      observers = obs, effects = []\<rparr>"

definition NewNotifiedClusterStateRegistry :: "ClusterStateRegistryConfig \<Rightarrow> 'g exponentialBackoff \<Rightarrow> observer list \<Rightarrow>
    'g ClusterStateRegistry" where
  "NewNotifiedClusterStateRegistry config b obs =
     (let csr = NewClusterStateRegistry config b obs in csr\<lparr>observers := observers csr @ [Obs_ClusterState]\<rparr>)"

section \<open>Scale-up and scale-down requests\<close>

definition NodeGroupScaleUpTime :: "'g csr_env \<Rightarrow> 'g option \<Rightarrow> 'g ClusterStateRegistry \<Rightarrow> string + time" where
  "NodeGroupScaleUpTime E nodeGroup csr =
     (case nodeGroup of
        None \<Rightarrow> Inl ''failed to find scaleUpRequest for node group: unexpected node group passed''
      | Some g \<Rightarrow> (case map_of (scaleUpRequests csr) (Id (cloudProvider E) g) of
            None \<Rightarrow> Inl (''failed to find scaleUpRequest for node group: '' @ Id (cloudProvider E) g)
          | Some r \<Rightarrow> Inr (Up_Time r)))"

definition registerOrUpdateScaleUpNoLock :: "'g csr_env \<Rightarrow> 'g \<Rightarrow> int \<Rightarrow> time \<Rightarrow> 'g ClusterStateRegistry \<Rightarrow>
    'g ClusterStateRegistry" where
  "registerOrUpdateScaleUpNoLock E nodeGroup delta currentTime csr =
     (case GetMaxNodeProvisionTime E nodeGroup of
        Inl _ \<Rightarrow> csr
      | Inr maxNodeProvisionTime \<Rightarrow>
          (let gid = Id (cloudProvider E) nodeGroup in
           case map_of (scaleUpRequests csr) gid of
             None \<Rightarrow>
               if delta > 0 then
                 csr\<lparr>scaleUpRequests := gput gid
                   \<lparr>Up_NodeGroup = nodeGroup, Up_Time = currentTime,
                    ExpectedAddTime = currentTime + maxNodeProvisionTime, Increase = delta\<rparr> (scaleUpRequests csr)\<rparr>
               else csr
           | Some r \<Rightarrow>
               if Increase r + delta \<le> 0 then csr\<lparr>scaleUpRequests := gdel gid (scaleUpRequests csr)\<rparr>
               else (let r1 = r\<lparr>Increase := Increase r + delta\<rparr>;
                         r2 = (if delta > 0 then r1\<lparr>Up_Time := currentTime,
                                 ExpectedAddTime := currentTime + maxNodeProvisionTime\<rparr> else r1)
                     in csr\<lparr>scaleUpRequests := gput gid r2 (scaleUpRequests csr)\<rparr>)))"

definition RegisterScaleUp :: "'g csr_env \<Rightarrow> 'g \<Rightarrow> int \<Rightarrow> time \<Rightarrow> 'g ClusterStateRegistry \<Rightarrow> 'g ClusterStateRegistry" where
  "RegisterScaleUp E nodeGroup delta currentTime csr = registerOrUpdateScaleUpNoLock E nodeGroup delta currentTime csr"

definition RegisterScaleDown :: "'g \<Rightarrow> string \<Rightarrow> time \<Rightarrow> time \<Rightarrow> 'g ClusterStateRegistry \<Rightarrow> 'g ClusterStateRegistry" where
  "RegisterScaleDown nodeGroup nodeName currentTime expectedDeleteTime csr =
     csr\<lparr>scaleDownRequests := scaleDownRequests csr @
       [\<lparr>Down_NodeName = nodeName, Down_NodeGroup = nodeGroup, Down_Time = currentTime,
         ExpectedDeleteTime = expectedDeleteTime\<rparr>]\<rparr>"

definition backoffNodeGroup :: "'g csr_env \<Rightarrow> 'g \<Rightarrow> InstanceErrorInfo \<Rightarrow> time \<Rightarrow> 'g ClusterStateRegistry \<Rightarrow>
    'g ClusterStateRegistry" where
  "backoffNodeGroup E nodeGroup err currentTime csr =
     (if \<not> has_template E (Id (cloudProvider E) nodeGroup) then csr
      else csr\<lparr>csr_backoff := snd (Backoff nodeGroup err currentTime (csr_backoff csr))\<rparr>)"

definition RegisterFailedScaleUp :: "'g csr_env \<Rightarrow> 'g \<Rightarrow> int \<Rightarrow> InstanceErrorInfo \<Rightarrow> time \<Rightarrow>
    'g ClusterStateRegistry \<Rightarrow> 'g ClusterStateRegistry" where
  "RegisterFailedScaleUp E nodeGroup delta err currentTime csr = backoffNodeGroup E nodeGroup err currentTime csr"

text \<open>\<open>Registry.RegisterFailedScaleUp\<close>, \<open>Registry.Refresh\<close> and \<open>Registry.Get\<close> of the failure registry.\<close>

definition failures_RegisterFailedScaleUp :: "'g csr_env \<Rightarrow> 'g \<Rightarrow> int \<Rightarrow> InstanceErrorInfo \<Rightarrow> time \<Rightarrow>
    (string, failure_record list) gmap \<Rightarrow> (string, failure_record list) gmap" where
  "failures_RegisterFailedScaleUp E nodeGroup delta err currentTime m =
     (let gid = Id (cloudProvider E) nodeGroup
      in gput gid (gget [] m gid @ [\<lparr>F_ErrorInfo = err, F_Delta = delta, F_Time = currentTime\<rparr>]) m)"

definition failures_Refresh :: "'g ClusterStateRegistry \<Rightarrow> 'g ClusterStateRegistry" where
  "failures_Refresh csr = csr\<lparr>scaleUpFailures := []\<rparr>"

definition GetScaleUpFailures :: "'g ClusterStateRegistry \<Rightarrow> (string, failure_record list) gmap" where
  "GetScaleUpFailures csr = foldl (\<lambda>result (gid, failures). gput gid failures result) [] (scaleUpFailures csr)"

text \<open>The notifier calls every observer in the order of registration.\<close>

definition notify_observer :: "'g csr_env \<Rightarrow> 'g \<Rightarrow> int \<Rightarrow> InstanceErrorInfo \<Rightarrow> time \<Rightarrow> observer \<Rightarrow>
    'g ClusterStateRegistry \<Rightarrow> 'g ClusterStateRegistry" where
  "notify_observer E nodeGroup delta err currentTime obs csr =
     (case obs of
        Obs_ClusterState \<Rightarrow> RegisterFailedScaleUp E nodeGroup delta err currentTime csr
      | Obs_ScaleUpFailures \<Rightarrow>
          csr\<lparr>scaleUpFailures := failures_RegisterFailedScaleUp E nodeGroup delta err currentTime (scaleUpFailures csr)\<rparr>
      | Obs_Other \<Rightarrow> emit (Notify_FailedScaleUp nodeGroup delta err currentTime) csr)"

definition notifier_RegisterFailedScaleUp :: "'g csr_env \<Rightarrow> 'g \<Rightarrow> int \<Rightarrow> InstanceErrorInfo \<Rightarrow> time \<Rightarrow>
    'g ClusterStateRegistry \<Rightarrow> 'g ClusterStateRegistry" where
  "notifier_RegisterFailedScaleUp E nodeGroup delta err currentTime csr =
     fold (notify_observer E nodeGroup delta err currentTime) (observers csr) csr"

definition notifier_RegisterScaleUp :: "'g csr_env \<Rightarrow> 'g \<Rightarrow> int \<Rightarrow> time \<Rightarrow> 'g ClusterStateRegistry \<Rightarrow> 'g ClusterStateRegistry" where
  "notifier_RegisterScaleUp E nodeGroup delta currentTime csr =
     fold (\<lambda>obs csr. case obs of
         Obs_ClusterState \<Rightarrow> RegisterScaleUp E nodeGroup delta currentTime csr
       | Obs_ScaleUpFailures \<Rightarrow> csr
       | Obs_Other \<Rightarrow> emit (Notify_ScaleUp nodeGroup delta currentTime) csr) (observers csr) csr"

definition notifier_RegisterScaleDown :: "'g \<Rightarrow> string \<Rightarrow> time \<Rightarrow> time \<Rightarrow> 'g ClusterStateRegistry \<Rightarrow> 'g ClusterStateRegistry" where
  "notifier_RegisterScaleDown nodeGroup nodeName currentTime expectedDeleteTime csr =
     fold (\<lambda>obs csr. case obs of
         Obs_ClusterState \<Rightarrow> RegisterScaleDown nodeGroup nodeName currentTime expectedDeleteTime csr
       | Obs_ScaleUpFailures \<Rightarrow> csr
       | Obs_Other \<Rightarrow> emit (Notify_ScaleDown nodeGroup nodeName currentTime expectedDeleteTime) csr) (observers csr) csr"

definition notifier_RegisterFailedScaleDown :: "'g \<Rightarrow> string \<Rightarrow> time \<Rightarrow> 'g ClusterStateRegistry \<Rightarrow> 'g ClusterStateRegistry" where
  "notifier_RegisterFailedScaleDown nodeGroup reason currentTime csr =
     fold (\<lambda>obs csr. case obs of
         Obs_ClusterState \<Rightarrow> csr
       | Obs_ScaleUpFailures \<Rightarrow> csr
       | Obs_Other \<Rightarrow> emit (Notify_FailedScaleDown nodeGroup reason currentTime) csr) (observers csr) csr"

section \<open>Ranges, upcoming nodes and health\<close>

definition getRunningNodeGroups :: "'g csr_env \<Rightarrow> 'g list" where
  "getRunningNodeGroups E = filter (\<lambda>g. \<not> IsUpcoming E g) (NodeGroups (cloudProvider E))"

definition calculateUpcomingNodesInNodeGroup :: "Readiness \<Rightarrow> AcceptableRange \<Rightarrow> int" where
  "calculateUpcomingNodesInNodeGroup r ar = CurrentTarget ar -
     (int (length (R_Ready r)) + int (length (R_Unready r)) + int (length (R_Suspended r)) +
      int (length (R_LongUnregistered r)))"

definition getUpcomingNodesInNodeGroup :: "string \<Rightarrow> 'g ClusterStateRegistry \<Rightarrow> int \<times> bool" where
  "getUpcomingNodesInNodeGroup nodeGroupName csr =
     (if length (acceptableRanges csr) = 0 then (0, False)
      else case map_of (acceptableRanges csr) nodeGroupName of
          None \<Rightarrow> (0, False)
        | Some acceptable \<Rightarrow>
            (case map_of (perNodeGroupReadiness csr) nodeGroupName of
               None \<Rightarrow> (CurrentTarget acceptable, True)
             | Some readiness \<Rightarrow> (calculateUpcomingNodesInNodeGroup readiness acceptable, True)))"

definition areThereUpcomingNodesInNodeGroup :: "string \<Rightarrow> 'g ClusterStateRegistry \<Rightarrow> bool" where
  "areThereUpcomingNodesInNodeGroup nodeGroupName csr =
     (let (upcoming, ok) = getUpcomingNodesInNodeGroup nodeGroupName csr
      in if \<not> ok then False else upcoming > 0)"

definition IsNodeGroupRegistered :: "string \<Rightarrow> 'g ClusterStateRegistry \<Rightarrow> bool" where
  "IsNodeGroupRegistered nodeGroupName csr = ghas (acceptableRanges csr) nodeGroupName"

definition IsNodeGroupAtTargetSize :: "string \<Rightarrow> 'g ClusterStateRegistry \<Rightarrow> bool" where
  "IsNodeGroupAtTargetSize nodeGroupName csr =
     (let (upcoming, ok) = getUpcomingNodesInNodeGroup nodeGroupName csr
      in if \<not> ok then False else upcoming = 0)"

definition IsNodeGroupScalingUp :: "string \<Rightarrow> 'g ClusterStateRegistry \<Rightarrow> bool" where
  "IsNodeGroupScalingUp nodeGroupName csr =
     (if \<not> areThereUpcomingNodesInNodeGroup nodeGroupName csr then False
      else ghas (scaleUpRequests csr) nodeGroupName)"

definition HasNodeGroupStartedScaleUp :: "string \<Rightarrow> 'g ClusterStateRegistry \<Rightarrow> bool" where
  "HasNodeGroupStartedScaleUp nodeGroupName csr = ghas (scaleUpRequests csr) nodeGroupName"

definition IsClusterHealthy :: "'g ClusterStateRegistry \<Rightarrow> bool" where
  "IsClusterHealthy csr =
     (let totalUnready = int (length (R_Unready (totalReadiness csr)))
      in if totalUnready > OkTotalUnreadyCount (csr_config csr) \<and>
            f64_of_int totalUnready > f64_mul (f64_div (MaxTotalUnreadyPercentage (csr_config csr)) 100)
              (f64_of_int (int (length (csr_nodes csr))))
         then False else True)"

definition IsNodeGroupHealthy :: "string \<Rightarrow> 'g ClusterStateRegistry \<Rightarrow> bool" where
  "IsNodeGroupHealthy nodeGroupName csr =
     (case map_of (acceptableRanges csr) nodeGroupName of
        None \<Rightarrow> False
      | Some acceptable \<Rightarrow>
          (case map_of (perNodeGroupReadiness csr) nodeGroupName of
             None \<Rightarrow> CurrentTarget acceptable = 0 \<or> (MinNodes acceptable = 0 \<and> CurrentTarget acceptable > 0)
           | Some readiness \<Rightarrow>
               (let ready = int (length (R_Ready readiness)); suspended = int (length (R_Suspended readiness));
                    unjustifiedUnready = (if ready + suspended < MinNodes acceptable
                      then 0 + (MinNodes acceptable - ready - suspended) else 0)
                in if unjustifiedUnready > OkTotalUnreadyCount (csr_config csr) \<and>
                      f64_of_int unjustifiedUnready > f64_mul (f64_div (MaxTotalUnreadyPercentage (csr_config csr)) 100)
                        (f64_of_int (ready + int (length (R_Unready readiness)) +
                           int (length (R_NotStarted readiness)) + suspended))
                   then False else True)))"

record NodeGroupScalingSafety =
  SafeToScale :: bool
  Healthy :: bool
  Safety_BackoffStatus :: Status

definition BackoffStatusForNodeGroup :: "'g csr_env \<Rightarrow> 'g \<Rightarrow> time \<Rightarrow> 'g ClusterStateRegistry \<Rightarrow> Status" where
  "BackoffStatusForNodeGroup E nodeGroup now csr =
     (if \<not> has_template E (Id (cloudProvider E) nodeGroup) then not_backed_off
      else BackoffStatus nodeGroup now (csr_backoff csr))"

definition NodeGroupScaleUpSafety :: "'g csr_env \<Rightarrow> 'g \<Rightarrow> time \<Rightarrow> 'g ClusterStateRegistry \<Rightarrow> NodeGroupScalingSafety" where
  "NodeGroupScaleUpSafety E nodeGroup now csr =
     (let isHealthy = IsNodeGroupHealthy (Id (cloudProvider E) nodeGroup) csr;
          backoffStatus = (if \<not> has_template E (Id (cloudProvider E) nodeGroup) then not_backed_off
                           else BackoffStatus nodeGroup now (csr_backoff csr))
      in \<lparr>SafeToScale = isHealthy \<and> \<not> IsBackedOff backoffStatus, Healthy = isHealthy,
          Safety_BackoffStatus = backoffStatus\<rparr>)"

definition updateAcceptableRanges :: "'g csr_env \<Rightarrow> (string, int) gmap \<Rightarrow> 'g ClusterStateRegistry \<Rightarrow>
    'g ClusterStateRegistry" where
  "updateAcceptableRanges E targetSize csr =
     (let r1 = foldl (\<lambda>result nodeGroup.
                 let gid = Id (cloudProvider E) nodeGroup; size = gget 0 targetSize gid;
                     readiness = gget zero_Readiness (perNodeGroupReadiness csr) gid
                 in gput gid \<lparr>MinNodes = size - int (length (R_LongUnregistered readiness)),
                              MaxNodes = size, CurrentTarget = size\<rparr> result) [] (getRunningNodeGroups E);
          r2 = foldl (\<lambda>result (nodeGroupName, scaleUpRequest).
                 let ar = gget zero_AcceptableRange result nodeGroupName
                 in gput nodeGroupName (ar\<lparr>MinNodes := MinNodes ar - Increase scaleUpRequest\<rparr>) result) r1 (scaleUpRequests csr);
          r3 = foldl (\<lambda>result scaleDownRequest.
                 let gid = Id (cloudProvider E) (Down_NodeGroup scaleDownRequest);
                     ar = gget zero_AcceptableRange result gid
                 in gput gid (ar\<lparr>MaxNodes := MaxNodes ar + 1\<rparr>) result) r2 (scaleDownRequests csr)
      in csr\<lparr>acceptableRanges := r3\<rparr>)"

section \<open>Timed-out requests\<close>

definition timeout_error :: "string \<Rightarrow> 'g ScaleUpRequest \<Rightarrow> time \<Rightarrow> InstanceErrorInfo" where
  "timeout_error nodeGroupName r currentTime =
     \<lparr>ErrorClass = OtherErrorClass, ErrorCode = ''timeout'',
      ErrorMessage = ''Scale-up timed out for node group '' @ nodeGroupName @ '' after '' @
        Duration_String (currentTime - Up_Time r)\<rparr>"

definition revert_timed_out :: "'g csr_env \<Rightarrow> 'g ScaleUpRequest \<Rightarrow> 'g ClusterStateRegistry \<Rightarrow> 'g ClusterStateRegistry" where
  "revert_timed_out E r csr =
     (if Increase r > 0 then
        (let csr1 = emit (Call_DecreaseTargetSize (Up_NodeGroup r) (- Increase r)) csr
         in case DecreaseTargetSize E (Up_NodeGroup r) (- Increase r) of
              None \<Rightarrow> csr1
            | Some err \<Rightarrow> emit (Event_FailedToRevertScaleUp (Id (cloudProvider E) (Up_NodeGroup r)) err) csr1)
      else csr)"

definition updateScaleRequest :: "'g csr_env \<Rightarrow> time \<Rightarrow> string \<times> 'g ScaleUpRequest \<Rightarrow> 'g ClusterStateRegistry \<Rightarrow>
    'g ClusterStateRegistry" where
  "updateScaleRequest E currentTime nr csr =
     (let (nodeGroupName, r) = nr in
      if IsUpcoming E (Up_NodeGroup r) then csr
      else if \<not> areThereUpcomingNodesInNodeGroup nodeGroupName csr then
        csr\<lparr>scaleUpRequests := gdel nodeGroupName (scaleUpRequests csr)\<rparr>
      else if ExpectedAddTime r < currentTime then
        (let csr1 = emit (Event_ScaleUpTimedOut (Id (cloudProvider E) (Up_NodeGroup r)) (currentTime - Up_Time r)) csr;
             csr2 = notifier_RegisterFailedScaleUp E (Up_NodeGroup r) (Increase r)
                      (timeout_error nodeGroupName r currentTime) currentTime csr1;
             csr3 = revert_timed_out E r csr2
         in csr3\<lparr>scaleUpRequests := gdel nodeGroupName (scaleUpRequests csr3)\<rparr>)
      else csr)"

definition updateScaleRequests :: "'g csr_env \<Rightarrow> time \<Rightarrow> 'g ClusterStateRegistry \<Rightarrow> 'g ClusterStateRegistry" where
  "updateScaleRequests E currentTime csr =
     (let csr1 = csr\<lparr>csr_backoff := RemoveStaleBackoffData currentTime (csr_backoff csr)\<rparr>;
          csr2 = fold (updateScaleRequest E currentTime) (scaleUpRequests csr1) csr1
      in csr2\<lparr>scaleDownRequests := filter (\<lambda>r. ExpectedDeleteTime r > currentTime) (scaleDownRequests csr2)\<rparr>)"

section \<open>Readiness\<close>

definition suspendedNodeCondition :: string where
  "suspendedNodeCondition = ''Suspended''"

fun isSuspendedNode_in :: "node_condition list \<Rightarrow> bool" where
  "isSuspendedNode_in [] = False"
| "isSuspendedNode_in (condition # cs) =
     (if Cond_Type condition = suspendedNodeCondition then Cond_Status condition = ConditionTrue
      else isSuspendedNode_in cs)"

definition isSuspendedNode :: "node \<Rightarrow> bool" where
  "isSuspendedNode node = isSuspendedNode_in (Conditions node)"

text \<open>
  The closure \<open>update\<close> of \<open>updateReadinessStats\<close>. It assigns the captured variable
  \<open>maxNodeStartupTime\<close>, which therefore lives on from node to node: it is an argument and a result.
\<close>

definition startup_time_after :: "'g csr_env \<Rightarrow> node \<Rightarrow> duration \<Rightarrow> duration" where
  "startup_time_after E node maxNodeStartupTime =
     (let (nodeGroup, errNg) = NodeGroupForNode (cloudProvider E) node
      in case nodeGroup of
           None \<Rightarrow> maxNodeStartupTime
         | Some g \<Rightarrow> if errNg = None then
               (case GetMaxNodeStartupTime E g of Inl _ \<Rightarrow> maxNodeStartupTime | Inr startupTime \<Rightarrow> startupTime)
             else maxNodeStartupTime)"

definition update_readiness :: "'g ClusterStateRegistry \<Rightarrow> time \<Rightarrow> duration \<Rightarrow> Readiness \<Rightarrow> node \<Rightarrow> NodeReadiness \<Rightarrow> Readiness" where
  "update_readiness csr currentTime maxNodeStartupTime current node nr =
     (let c = current\<lparr>R_Registered := R_Registered current @ [Name node]\<rparr>
      in if ghas (deletedNodes csr) (Name node) then c\<lparr>R_Deleted := R_Deleted c @ [Name node]\<rparr>
         else if isSuspendedNode node then c\<lparr>R_Suspended := R_Suspended c @ [Name node]\<rparr>
         else if Ready nr then c\<lparr>R_Ready := R_Ready c @ [Name node]\<rparr>
         else if CreationTimestamp node + maxNodeStartupTime > currentTime
         then c\<lparr>R_NotStarted := R_NotStarted c @ [Name node]\<rparr>
         else (let u = c\<lparr>R_Unready := R_Unready c @ [Name node]\<rparr>
               in if Reason nr = ResourceUnready then u\<lparr>R_ResourceUnready := R_ResourceUnready u @ [Name node]\<rparr>
                  else u))"

definition readiness_node :: "'g csr_env \<Rightarrow> 'g ClusterStateRegistry \<Rightarrow> time \<Rightarrow> node \<Rightarrow>
    (string, Readiness) gmap \<times> Readiness \<times> duration \<Rightarrow> (string, Readiness) gmap \<times> Readiness \<times> duration" where
  "readiness_node E csr currentTime node acc =
     (let (perNodeGroup, total, startup) = acc;
          (nodeGroup, errNg) = NodeGroupForNode (cloudProvider E) node;
          (nr, errReady) = GetNodeReadiness node;
          (perNodeGroup1, startup1) =
            (case nodeGroup of
               None \<Rightarrow> (perNodeGroup, startup)
             | Some g \<Rightarrow>
                 (let gid = Id (cloudProvider E) g; s1 = startup_time_after E node startup
                  in (gput gid (update_readiness csr currentTime s1 (gget zero_Readiness perNodeGroup gid) node nr)
                        perNodeGroup, s1)));
          startup2 = startup_time_after E node startup1
      in (perNodeGroup1, update_readiness csr currentTime startup2 total node nr, startup2))"

definition readiness_unregistered :: "'g csr_env \<Rightarrow> time \<Rightarrow> UnregisteredNode \<Rightarrow>
    (string, Readiness) gmap \<times> Readiness \<Rightarrow> (string, Readiness) gmap \<times> Readiness" where
  "readiness_unregistered E currentTime unregistered acc =
     (let (perNodeGroup, total) = acc;
          (nodeGroup, errNg) = NodeGroupForNode (cloudProvider E) (Un_Node unregistered);
          name = Name (Un_Node unregistered)
      in if errNg \<noteq> None then acc
         else (case nodeGroup of
             None \<Rightarrow> acc
           | Some g \<Rightarrow>
               (let gid = Id (cloudProvider E) g; perNgCopy = gget zero_Readiness perNodeGroup gid
                in case GetMaxNodeProvisionTime E g of
                     Inl _ \<Rightarrow> acc
                   | Inr maxNodeProvisionTime \<Rightarrow>
                       if UnregisteredSince unregistered + maxNodeProvisionTime < currentTime
                       then (gput gid (perNgCopy\<lparr>R_LongUnregistered := R_LongUnregistered perNgCopy @ [name]\<rparr>) perNodeGroup,
                             total\<lparr>R_LongUnregistered := R_LongUnregistered total @ [name]\<rparr>)
                       else (gput gid (perNgCopy\<lparr>R_Unregistered := R_Unregistered perNgCopy @ [name]\<rparr>) perNodeGroup,
                             total\<lparr>R_Unregistered := R_Unregistered total @ [name]\<rparr>))))"

definition updateReadinessStats :: "'g csr_env \<Rightarrow> time \<Rightarrow> 'g ClusterStateRegistry \<Rightarrow> 'g ClusterStateRegistry" where
  "updateReadinessStats E currentTime csr =
     (let (perNodeGroup, total, _) = fold (readiness_node E csr currentTime) (csr_nodes csr)
            ([], zero_Readiness\<lparr>R_Time := currentTime\<rparr>, MaxNodeStartupTime);
          (perNodeGroup1, total1) = fold (\<lambda>(_, u). readiness_unregistered E currentTime u) (unregisteredNodes csr)
            (perNodeGroup, total);
          perNodeGroup2 = map (\<lambda>(ngId, ngReadiness). (ngId, ngReadiness\<lparr>R_Time := currentTime\<rparr>)) perNodeGroup1
      in csr\<lparr>perNodeGroupReadiness := perNodeGroup2, totalReadiness := total1\<rparr>)"

definition updateIncorrectNodeGroupSizes :: "'g csr_env \<Rightarrow> time \<Rightarrow> 'g ClusterStateRegistry \<Rightarrow> 'g ClusterStateRegistry" where
  "updateIncorrectNodeGroupSizes E currentTime csr =
     csr\<lparr>incorrectNodeGroupSizes := foldl (\<lambda>result nodeGroup.
        let gid = Id (cloudProvider E) nodeGroup in
        case map_of (acceptableRanges csr) gid of
          None \<Rightarrow> result
        | Some acceptableRange \<Rightarrow>
            (case map_of (perNodeGroupReadiness csr) gid of
               None \<Rightarrow> result
             | Some readiness \<Rightarrow>
                 (let unregistered = int (length (R_Unregistered readiness)) + int (length (R_LongUnregistered readiness));
                      registered = int (length (R_Registered readiness))
                  in if registered > CurrentTarget acceptableRange \<or>
                        registered < CurrentTarget acceptableRange - unregistered
                     then (let incorrect = \<lparr>ExpectedSize = CurrentTarget acceptableRange, CurrentSize = registered,
                                            FirstObserved = currentTime\<rparr>
                           in gput gid
                                (case map_of (incorrectNodeGroupSizes csr) gid of
                                   None \<Rightarrow> incorrect
                                 | Some existing \<Rightarrow>
                                     if CurrentSize incorrect = CurrentSize existing \<and>
                                        ExpectedSize incorrect = ExpectedSize existing
                                     then existing else incorrect) result)
                     else result))) [] (getRunningNodeGroups E)\<rparr>"

definition GetIncorrectNodeGroupSize :: "string \<Rightarrow> 'g ClusterStateRegistry \<Rightarrow> IncorrectNodeGroupSize option" where
  "GetIncorrectNodeGroupSize nodeGroupName csr = map_of (incorrectNodeGroupSizes csr) nodeGroupName"

section \<open>Nodes known to the provider only, and nodes the provider has lost\<close>

definition FakeNode :: "Instance \<Rightarrow> string \<Rightarrow> node" where
  "FakeNode i reason = \<lparr>Name = Instance_Id i, ProviderID = Instance_Id i, CreationTimestamp = zero_time,
     Conditions = [], Taints = [], Annotations = [(''k8s.io/cluster-autoscaler/fake-node-reason'', reason)],
     Labels = [], Unschedulable = False\<rparr>"

definition expectedToRegister :: "Instance \<Rightarrow> bool" where
  "expectedToRegister i = (case Instance_Status i of None \<Rightarrow> True
     | Some st \<Rightarrow> State st \<noteq> InstanceDeleting \<and> Status_ErrorInfo st = None)"

definition getNotRegisteredNodes :: "node list \<Rightarrow> (string, Instance list) gmap \<Rightarrow> time \<Rightarrow> UnregisteredNode list" where
  "getNotRegisteredNodes allNodes cloudInstances t =
     (let registered = map ProviderID allNodes
      in concat (map (\<lambda>(_, is). map (\<lambda>i. \<lparr>Un_Node = FakeNode i ''unregistered'', UnregisteredSince = t\<rparr>)
           (filter (\<lambda>i. Instance_Id i \<notin> set registered \<and> expectedToRegister i) is)) cloudInstances))"

definition updateUnregisteredNodes :: "UnregisteredNode list \<Rightarrow> 'g ClusterStateRegistry \<Rightarrow> 'g ClusterStateRegistry" where
  "updateUnregisteredNodes unregistered csr =
     csr\<lparr>unregisteredNodes := foldl (\<lambda>result u.
        gput (Name (Un_Node u))
          (case map_of (unregisteredNodes csr) (Name (Un_Node u)) of None \<Rightarrow> u | Some prev \<Rightarrow> prev) result)
        [] unregistered\<rparr>"

definition GetUnregisteredNodes :: "'g ClusterStateRegistry \<Rightarrow> UnregisteredNode list" where
  "GetUnregisteredNodes csr = map snd (unregisteredNodes csr)"

definition hasCloudProviderInstance :: "'g csr_env \<Rightarrow> node \<Rightarrow> bool" where
  "hasCloudProviderInstance E node =
     (let (exists, err) = HasInstance (cloudProvider E) node
      in if err = None then exists else \<not> HasToBeDeletedTaint node)"

definition getCloudProviderDeletedNodes :: "'g csr_env \<Rightarrow> node list \<Rightarrow> node list" where
  "getCloudProviderDeletedNodes E allNodes = filter (\<lambda>node. \<not> hasCloudProviderInstance E node) allNodes"

definition updateCloudProviderDeletedNodes :: "node list \<Rightarrow> 'g ClusterStateRegistry \<Rightarrow> 'g ClusterStateRegistry" where
  "updateCloudProviderDeletedNodes deleted csr =
     csr\<lparr>deletedNodes := foldl (\<lambda>result d. gput (Name d) () result) [] deleted\<rparr>"

definition UpdateScaleDownCandidates :: "'g csr_env \<Rightarrow> node list \<Rightarrow> time \<Rightarrow> 'g ClusterStateRegistry \<Rightarrow>
    'g ClusterStateRegistry" where
  "UpdateScaleDownCandidates E unneeded now csr =
     csr\<lparr>candidatesForScaleDown := foldl (\<lambda>result node.
        let (group, err) = NodeGroupForNode (cloudProvider E) node in
        if err \<noteq> None then result
        else (case group of None \<Rightarrow> result
          | Some g \<Rightarrow> gput (Id (cloudProvider E) g) (gget [] result (Id (cloudProvider E) g) @ [Name node]) result))
        [] unneeded, lastScaleDownUpdateTime := now\<rparr>"

section \<open>The cache of provider instances\<close>

definition InvalidateCacheEntry :: "'g csr_env \<Rightarrow> 'g \<Rightarrow> 'g ClusterStateRegistry \<Rightarrow> 'g ClusterStateRegistry" where
  "InvalidateCacheEntry E nodeGroup csr =
     csr\<lparr>instancesCache := gdel (Id (cloudProvider E) nodeGroup) (instancesCache csr)\<rparr>"

definition fetchCloudProviderNodeInstancesForNodeGroup :: "'g csr_env \<Rightarrow> time \<Rightarrow> 'g \<Rightarrow>
    (string, cache_entry) gmap \<Rightarrow> (cp_error + Instance list) \<times> (string, cache_entry) gmap" where
  "fetchCloudProviderNodeInstancesForNodeGroup E now nodeGroup cache =
     (case Nodes (cloudProvider E) nodeGroup of
        (_, Some err) \<Rightarrow> (Inl err, cache)
      | (is, None) \<Rightarrow> (Inr is, gput (Id (cloudProvider E) nodeGroup) \<lparr>instances = is, refreshTime = now\<rparr> cache))"

definition GetCloudProviderNodeInstancesForNodeGroup :: "'g csr_env \<Rightarrow> time \<Rightarrow> 'g \<Rightarrow>
    (string, cache_entry) gmap \<Rightarrow> (cp_error + Instance list) \<times> (string, cache_entry) gmap" where
  "GetCloudProviderNodeInstancesForNodeGroup E now nodeGroup cache =
     (case map_of cache (Id (cloudProvider E) nodeGroup) of
        Some entry \<Rightarrow> (Inr (instances entry), cache)
      | None \<Rightarrow> fetchCloudProviderNodeInstancesForNodeGroup E now nodeGroup cache)"

text \<open>
  The first loop fetches the missing groups concurrently; every goroutine writes the entry of its
  own group, so their order is immaterial for groups with different ids.
\<close>

definition fetch_missing :: "'g csr_env \<Rightarrow> time \<Rightarrow> 'g \<Rightarrow> (string, cache_entry) gmap \<Rightarrow> (string, cache_entry) gmap" where
  "fetch_missing E now nodeGroup cache =
     (if ghas cache (Id (cloudProvider E) nodeGroup) then cache
      else snd (fetchCloudProviderNodeInstancesForNodeGroup E now nodeGroup cache))"

fun read_cache :: "'g csr_env \<Rightarrow> time \<Rightarrow> 'g list \<Rightarrow> (string, Instance list) gmap \<Rightarrow> (string, cache_entry) gmap \<Rightarrow>
    (cp_error + (string, Instance list) gmap) \<times> (string, cache_entry) gmap" where
  "read_cache E now [] results cache = (Inr results, cache)"
| "read_cache E now (g # gs) results cache =
     (case GetCloudProviderNodeInstancesForNodeGroup E now g cache of
        (Inl err, cache') \<Rightarrow> (Inl err, cache')
      | (Inr is, cache') \<Rightarrow> read_cache E now gs (gput (Id (cloudProvider E) g) is results) cache')"

definition GetCloudProviderNodeInstances :: "'g csr_env \<Rightarrow> time \<Rightarrow> (string, cache_entry) gmap \<Rightarrow>
    (cp_error + (string, Instance list) gmap) \<times> (string, cache_entry) gmap" where
  "GetCloudProviderNodeInstances E now cache =
     (let gs = NodeGroups (cloudProvider E) in read_cache E now gs [] (fold (fetch_missing E now) gs cache))"

definition removeEntriesForNonExistingNodeGroups :: "'g csr_env \<Rightarrow> 'g list \<Rightarrow> (string, cache_entry) gmap \<Rightarrow>
    (string, cache_entry) gmap" where
  "removeEntriesForNonExistingNodeGroups E nodeGroups cache =
     foldl (\<lambda>m (gid, _). if gid \<notin> Id (cloudProvider E) ` set nodeGroups then gdel gid m else m) cache cache"

definition RefreshCloudProviderNodeInstancesCache :: "'g csr_env \<Rightarrow> time \<Rightarrow> 'g ClusterStateRegistry \<Rightarrow> 'g ClusterStateRegistry" where
  "RefreshCloudProviderNodeInstancesCache E now csr =
     (let gs = NodeGroups (cloudProvider E)
      in csr\<lparr>instancesCache := foldl (\<lambda>m g.
           gput (Id (cloudProvider E) g)
             \<lparr>instances = fst (Nodes (cloudProvider E) g), refreshTime = now\<rparr> m)
           (removeEntriesForNonExistingNodeGroups E gs (instancesCache csr)) gs\<rparr>)"

definition getCloudProviderNodeInstances :: "'g csr_env \<Rightarrow> time \<Rightarrow> 'g ClusterStateRegistry \<Rightarrow>
    (cp_error + (string, Instance list) gmap) \<times> 'g ClusterStateRegistry" where
  "getCloudProviderNodeInstances E now csr =
     (let csr1 = fold (\<lambda>g csr. if IsNodeGroupScalingUp (Id (cloudProvider E) g) csr
                               then InvalidateCacheEntry E g csr else csr) (getRunningNodeGroups E) csr;
          (result, cache) = GetCloudProviderNodeInstances E now (instancesCache csr1)
      in (result, csr1\<lparr>instancesCache := cache\<rparr>))"

section \<open>Instance creation errors\<close>

definition creation_error :: "Instance \<Rightarrow> InstanceErrorInfo option" where
  "creation_error i = (case Instance_Status i of None \<Rightarrow> None
     | Some st \<Rightarrow> if State st = InstanceCreating then Status_ErrorInfo st else None)"

definition code_of :: "InstanceErrorInfo \<Rightarrow> errorCode" where
  "code_of info = \<lparr>code_code = ErrorCode info, code_class = ErrorClass info\<rparr>"

text \<open>
  The loop of \<open>buildInstanceToErrorCodeMappings\<close>: the error code of each failed instance, the set of
  messages per code and the instances per code.
\<close>

definition error_mappings_step :: "Instance \<Rightarrow>
    (string, errorCode) gmap \<times> (errorCode, (string, bool) gmap) gmap \<times> (errorCode, Instance list) gmap \<Rightarrow>
    (string, errorCode) gmap \<times> (errorCode, (string, bool) gmap) gmap \<times> (errorCode, Instance list) gmap" where
  "error_mappings_step i acc =
     (case creation_error i of None \<Rightarrow> acc
      | Some info \<Rightarrow>
          (let (toCode, tmp, byCode) = acc; c = code_of info;
               tmp1 = (if ghas tmp c then tmp else gput c [] tmp)
           in (gput (Instance_Id i) c toCode,
               gput c (gput (ErrorMessage info) True (gget [] tmp1 c)) tmp1,
               gput c (gget [] byCode c @ [i]) byCode)))"

definition buildInstanceToErrorCodeMappings :: "Instance list \<Rightarrow>
    (string, errorCode) gmap \<times> (errorCode, string list) gmap \<times> (errorCode, Instance list) gmap" where
  "buildInstanceToErrorCodeMappings is =
     (let (toCode, tmp, byCode) = fold error_mappings_step is ([], [], [])
      in (toCode, map (\<lambda>(c, msgs). (c, map fst msgs)) tmp, byCode))"

fun join_messages :: "string list \<Rightarrow> string" where
  "join_messages [] = []"
| "join_messages [m] = m"
| "join_messages (m # ms) = m @ '', '' @ join_messages ms"

definition buildErrorMessageEventString :: "string list \<Rightarrow> string" where
  "buildErrorMessageEventString uniqErrorMessages =
     (let maxErrors = 3; sb = join_messages uniqErrorMessages
      in if length uniqErrorMessages > maxErrors then sb @ '', ...'' else sb)"

definition errorClass_String :: "InstanceErrorClass \<Rightarrow> string" where
  "errorClass_String c = (if c = OutOfResourcesErrorClass then ''OutOfResource''
     else if c = OtherErrorClass then ''Other'' else Sprint_int c)"

definition errorCode_String :: "errorCode \<Rightarrow> string" where
  "errorCode_String c = errorClass_String (code_class c) @ ''.'' @ code_code c"

definition handle_error_code :: "'g csr_env \<Rightarrow> 'g \<Rightarrow> (errorCode, string list) gmap \<Rightarrow> (string, errorCode) gmap \<Rightarrow>
    time \<Rightarrow> errorCode \<times> Instance list \<Rightarrow> 'g ClusterStateRegistry \<Rightarrow> 'g ClusterStateRegistry" where
  "handle_error_code E nodeGroup messages previous currentTime ci csr =
     (let (c, is) = ci;
          unseenInstanceIds = map Instance_Id (filter (\<lambda>i. \<not> ghas previous (Instance_Id i)) is);
          gid = Id (cloudProvider E) nodeGroup;
          message = buildErrorMessageEventString (gget [] messages c)
      in if length unseenInstanceIds > 0 \<and> IsNodeGroupScalingUp gid csr then
           (let csr1 = emit (Event_ScaleUpFailed gid (int (length unseenInstanceIds)) (errorCode_String c) message) csr;
                csr2 = registerOrUpdateScaleUpNoLock E nodeGroup (- int (length unseenInstanceIds)) currentTime csr1
            in notifier_RegisterFailedScaleUp E nodeGroup (int (length unseenInstanceIds))
                 \<lparr>ErrorClass = code_class c, ErrorCode = code_code c, ErrorMessage = message\<rparr> currentTime csr2)
         else csr)"

definition handleInstanceCreationErrorsForNodeGroup :: "'g csr_env \<Rightarrow> 'g \<Rightarrow> Instance list \<Rightarrow> Instance list \<Rightarrow>
    time \<Rightarrow> 'g ClusterStateRegistry \<Rightarrow> 'g ClusterStateRegistry" where
  "handleInstanceCreationErrorsForNodeGroup E nodeGroup currentInstances previousInstances currentTime csr =
     (let (_, messages, byCode) = buildInstanceToErrorCodeMappings currentInstances;
          (previous, _, _) = buildInstanceToErrorCodeMappings previousInstances
      in fold (handle_error_code E nodeGroup messages previous currentTime) (range_codes E byCode) csr)"

definition handleInstanceCreationErrors :: "'g csr_env \<Rightarrow> time \<Rightarrow> 'g ClusterStateRegistry \<Rightarrow> 'g ClusterStateRegistry" where
  "handleInstanceCreationErrors E currentTime csr =
     fold (\<lambda>nodeGroup csr. handleInstanceCreationErrorsForNodeGroup E nodeGroup
         (gget [] (cloudProviderNodeInstances csr) (Id (cloudProvider E) nodeGroup))
         (gget [] (previousCloudProviderNodeInstances csr) (Id (cloudProvider E) nodeGroup)) currentTime csr)
       (getRunningNodeGroups E) csr"

definition GetCreatedNodesWithErrors :: "'g ClusterStateRegistry \<Rightarrow> (string, node list) gmap" where
  "GetCreatedNodesWithErrors csr =
     foldl (\<lambda>result (gid, is).
        let (_, _, byCode) = buildInstanceToErrorCodeMappings is
        in foldl (\<lambda>result i. gput gid (gget [] result gid @ [FakeNode i ''create-error'']) result) result
             (concat (map snd byCode))) [] (cloudProviderNodeInstances csr)"

section \<open>Updates\<close>

text \<open>\<open>getTargetSizes\<close> returns an empty map and the error when a group does not answer.\<close>

fun getTargetSizes_loop :: "'g cloud_provider \<Rightarrow> 'g list \<Rightarrow> (string, int) gmap \<Rightarrow> (string, int) gmap \<times> cp_error option" where
  "getTargetSizes_loop cp [] result = (result, None)"
| "getTargetSizes_loop cp (ng # ngs) result =
     (case TargetSize cp ng of
        (_, Some err) \<Rightarrow> ([], Some err)
      | (target, None) \<Rightarrow> getTargetSizes_loop cp ngs (gput (Id cp ng) target result))"

definition getTargetSizes :: "'g cloud_provider \<Rightarrow> (string, int) gmap \<times> cp_error option" where
  "getTargetSizes cp = getTargetSizes_loop cp (NodeGroups cp) []"

definition updateClusterStateRegistry :: "'g csr_env \<Rightarrow> node list \<Rightarrow> (string, Instance list) gmap \<Rightarrow> time \<Rightarrow>
    (string, int) gmap \<Rightarrow> 'g ClusterStateRegistry \<Rightarrow> 'g ClusterStateRegistry" where
  "updateClusterStateRegistry E nodes cloudInstances currentTime targetSizes csr =
     (let removed = getCloudProviderDeletedNodes E nodes;
          notRegistered = getNotRegisteredNodes nodes cloudInstances currentTime;
          csr1 = csr\<lparr>csr_nodes := nodes, previousCloudProviderNodeInstances := cloudProviderNodeInstances csr,
                     cloudProviderNodeInstances := cloudInstances\<rparr>;
          csr2 = updateUnregisteredNodes notRegistered csr1;
          csr3 = updateCloudProviderDeletedNodes removed csr2;
          csr4 = updateReadinessStats E currentTime csr3;
          csr5 = updateAcceptableRanges E targetSizes csr4;
          csr6 = updateScaleRequests E currentTime csr5;
          csr7 = handleInstanceCreationErrors E currentTime csr6;
          csr8 = updateAcceptableRanges E targetSizes csr7
      in updateIncorrectNodeGroupSizes E currentTime csr8)"

definition UpdateNodes :: "'g csr_env \<Rightarrow> node list \<Rightarrow> time \<Rightarrow> 'g ClusterStateRegistry \<Rightarrow>
    cp_error option \<times> 'g ClusterStateRegistry" where
  "UpdateNodes E nodes currentTime csr =
     (case getTargetSizes (cloudProvider E) of
        (_, Some err) \<Rightarrow> (Some err, csr)
      | (targetSizes, None) \<Rightarrow>
          (case getCloudProviderNodeInstances E currentTime csr of
             (Inl err, csr1) \<Rightarrow> (Some err, csr1)
           | (Inr cloudInstances, csr1) \<Rightarrow>
               (None, updateClusterStateRegistry E nodes cloudInstances currentTime targetSizes csr1)))"

definition Recalculate :: "'g csr_env \<Rightarrow> 'g ClusterStateRegistry \<Rightarrow> 'g ClusterStateRegistry" where
  "Recalculate E csr = (let (targetSizes, _) = getTargetSizes (cloudProvider E) in updateAcceptableRanges E targetSizes csr)"

section \<open>Queries\<close>

definition GetUpcomingNodes :: "'g csr_env \<Rightarrow> time \<Rightarrow> 'g ClusterStateRegistry \<Rightarrow>
    (string, int) gmap \<times> (string, string list) gmap" where
  "GetUpcomingNodes E now csr =
     foldl (\<lambda>(upcomingCounts, registeredNodeNames) nodeGroup.
        let gid = Id (cloudProvider E) nodeGroup in
        if IsUpcoming E nodeGroup then
          (let (target, err) = TargetSize (cloudProvider E) nodeGroup
           in if target \<ge> 0 \<or> err \<noteq> None then (gput gid target upcomingCounts, registeredNodeNames)
              else (upcomingCounts, registeredNodeNames))
        else
          (let readiness = gget zero_Readiness (perNodeGroupReadiness csr) gid;
               ar = gget zero_AcceptableRange (acceptableRanges csr) gid;
               newNodes = calculateUpcomingNodesInNodeGroup readiness ar
           in if newNodes \<le> 0 then (upcomingCounts, registeredNodeNames)
              else if \<not> ghas (scaleUpRequests csr) gid then (upcomingCounts, registeredNodeNames)
              else if IsBackedOff (BackoffStatusForNodeGroup E nodeGroup now csr) then (upcomingCounts, registeredNodeNames)
              else (gput gid newNodes upcomingCounts, gput gid (R_NotStarted readiness) registeredNodeNames)))
       ([], []) (NodeGroups (cloudProvider E))"

definition GetAutoscaledNodesCount :: "'g ClusterStateRegistry \<Rightarrow> int \<times> int" where
  "GetAutoscaledNodesCount csr =
     (sum_list (map (\<lambda>(_, r). int (length (R_Registered r)) - int (length (R_NotStarted r))) (perNodeGroupReadiness csr)),
      sum_list (map (\<lambda>(_, ar). CurrentTarget ar) (acceptableRanges csr)))"

definition GetClusterReadiness :: "'g ClusterStateRegistry \<Rightarrow> Readiness" where
  "GetClusterReadiness csr = totalReadiness csr"

definition messageTrancated :: string where
  "messageTrancated = ''<truncated>''"

text \<open>Strings are byte sequences; a negative \<open>maxLength\<close> makes the slice expression panic (\<open>None\<close>).\<close>

definition truncateIfExceedMaxLength :: "string \<Rightarrow> int \<Rightarrow> string option" where
  "truncateIfExceedMaxLength s maxLength =
     (if int (length s) \<le> maxLength then Some s
      else (let untrancatedLen = maxLength - int (length messageTrancated)
            in if untrancatedLen < 0 then (if maxLength < 0 then None else Some (take (nat maxLength) s))
               else Some (take (nat untrancatedLen) s @ messageTrancated)))"

end
