(* ===== verification/Cluster_State_Props.thy ===== *)
theory Cluster_State_Props
  imports Cluster_State
begin

text \<open>
  Correctness of the cluster state registry: the request invariant over all reachable states,
  the acceptable ranges, the readiness statistics, timed-out and failed scale-ups, upcoming nodes
  and the error paths of \<open>UpdateNodes\<close>.
\<close>

section \<open>Loops over maps\<close>

text \<open>A \<open>range\<close> loop that updates the entry of every visited key once.\<close>

lemma map_of_foldl_modify:
  assumes "gm_wf es"
  shows "map_of (foldl (\<lambda>m (k, v). gput k (f v (gget z m k)) m) m es) k =
    (case map_of es k of None \<Rightarrow> map_of m k | Some v \<Rightarrow> Some (f v (gget z m k)))"
  using assms
proof (induction es arbitrary: m)
  case (Cons e es)
  obtain k' v where e: "e = (k', v)" by force
  with Cons.prems have "map_of es k' = None" "gm_wf es" by (auto simp: map_of_eq_None_iff)
  then show ?case using Cons.IH [of "gput k' (f v (gget z m k')) m"]
    by (simp add: e split: option.splits)
qed simp

text \<open>A loop that applies \<open>f\<close> to the entry of a key for each element with this key.\<close>

lemma map_of_foldl_iterate:
  "map_of (foldl (\<lambda>m x. gput (key x) (f (gget z m (key x))) m) m xs) k =
    (if k \<in> key ` set xs then Some ((f ^^ length (filter (\<lambda>x. key x = k) xs)) (gget z m k)) else map_of m k)"
proof (induction xs arbitrary: m)
  case (Cons x xs)
  have "filter (\<lambda>x. key x = k) xs = []" if "k \<notin> key ` set xs" using that by (auto simp: filter_empty_conv)
  then show ?case using Cons.IH [of "gput (key x) (f (gget z m (key x))) m"]
    by (auto simp: funpow_Suc_right simp del: funpow.simps)
qed simp

lemma gm_wf_foldl_modify: "gm_wf m \<Longrightarrow> gm_wf (foldl (\<lambda>m x. gput (k x m) (v x m) m) m xs)"
  by (induction xs arbitrary: m) auto

lemma gget_alt: "gget z m k = (case map_of m k of None \<Rightarrow> z | Some v \<Rightarrow> v)"
  by (simp add: gget_def)

section \<open>Acceptable ranges\<close>

definition is_running :: "'g csr_env \<Rightarrow> string \<Rightarrow> bool" where
  "is_running E gid \<longleftrightarrow> (\<exists>g\<in>set (getRunningNodeGroups E). Id (cloudProvider E) g = gid)"

definition requested :: "'g ClusterStateRegistry \<Rightarrow> string \<Rightarrow> int" where
  "requested csr gid = (case map_of (scaleUpRequests csr) gid of None \<Rightarrow> 0 | Some r \<Rightarrow> Increase r)"

definition being_deleted :: "'g csr_env \<Rightarrow> 'g ClusterStateRegistry \<Rightarrow> string \<Rightarrow> int" where
  "being_deleted E csr gid =
     int (length (filter (\<lambda>r. Id (cloudProvider E) (Down_NodeGroup r) = gid) (scaleDownRequests csr)))"

definition long_unregistered :: "'g ClusterStateRegistry \<Rightarrow> string \<Rightarrow> int" where
  "long_unregistered csr gid = int (length (R_LongUnregistered (gget zero_Readiness (perNodeGroupReadiness csr) gid)))"

lemma funpow_MaxNodes:
  "((\<lambda>ar. ar\<lparr>MaxNodes := MaxNodes ar + 1\<rparr>) ^^ n) ar = ar\<lparr>MaxNodes := MaxNodes ar + int n\<rparr>"
  by (induction n arbitrary: ar) simp_all

lemma updateAcceptableRanges_map_of:
  assumes "gm_wf (scaleUpRequests csr)"
  shows "map_of (acceptableRanges (updateAcceptableRanges E ts csr)) gid =
    (if is_running E gid \<or> ghas (scaleUpRequests csr) gid \<or>
        gid \<in> (\<lambda>r. Id (cloudProvider E) (Down_NodeGroup r)) ` set (scaleDownRequests csr)
     then let target = (if is_running E gid then gget 0 ts gid else 0);
              missing = (if is_running E gid then long_unregistered csr gid else 0)
          in Some \<lparr>MinNodes = target - missing - requested csr gid,
                   MaxNodes = target + being_deleted E csr gid, CurrentTarget = target\<rparr>
     else None)"
proof -
  let ?base = "\<lambda>gid. \<lparr>MinNodes = gget 0 ts gid - long_unregistered csr gid, MaxNodes = gget 0 ts gid,
     CurrentTarget = gget 0 ts gid\<rparr>"
  define r1 where "r1 = foldl (\<lambda>m g. gput (Id (cloudProvider E) g) (?base (Id (cloudProvider E) g)) m) []
    (getRunningNodeGroups E)"
  let ?up = "\<lambda>r ar. ar\<lparr>MinNodes := MinNodes ar - Increase r\<rparr>"
  define r2 where "r2 = foldl (\<lambda>m (k, r). gput k (?up r (gget zero_AcceptableRange m k)) m) r1 (scaleUpRequests csr)"
  let ?dk = "\<lambda>r. Id (cloudProvider E) (Down_NodeGroup r)"
  let ?dn = "\<lambda>ar. ar\<lparr>MaxNodes := MaxNodes ar + 1\<rparr>"
  have eq: "acceptableRanges (updateAcceptableRanges E ts csr) =
      foldl (\<lambda>m r. gput (?dk r) (?dn (gget zero_AcceptableRange m (?dk r))) m) r2 (scaleDownRequests csr)"
    by (simp add: updateAcceptableRanges_def Let_def long_unregistered_def r1_def r2_def)
  have m1: "map_of r1 gid = (if is_running E gid then Some (?base gid) else None)"
    using last_in_set [of "filter (\<lambda>g. Id (cloudProvider E) g = gid) (getRunningNodeGroups E)"]
    by (auto simp: r1_def map_of_foldl_gput_id is_running_def filter_empty_conv)
  have m2: "map_of r2 gid = (case map_of (scaleUpRequests csr) gid of None \<Rightarrow> map_of r1 gid
      | Some r \<Rightarrow> Some (?up r (gget zero_AcceptableRange r1 gid)))"
    unfolding r2_def by (rule map_of_foldl_modify [OF assms])
  let ?T = "if is_running E gid then gget 0 ts gid else 0"
  let ?M = "if is_running E gid then long_unregistered csr gid else 0"
  have m2': "map_of r2 gid = (if is_running E gid \<or> ghas (scaleUpRequests csr) gid
      then Some \<lparr>MinNodes = ?T - ?M - requested csr gid, MaxNodes = ?T, CurrentTarget = ?T\<rparr> else None)"
    by (cases "is_running E gid"; cases "map_of (scaleUpRequests csr) gid")
      (simp_all add: m1 m2 gget_alt [of _ r1] ghas_def requested_def zero_AcceptableRange_def)
  have none: "being_deleted E csr gid = 0" if "gid \<notin> ?dk ` set (scaleDownRequests csr)"
    using that by (auto simp: being_deleted_def filter_empty_conv)
  have "\<not> ghas (scaleUpRequests csr) gid \<Longrightarrow> requested csr gid = 0"
    by (simp add: ghas_def requested_def)
  then have g2: "gget zero_AcceptableRange r2 gid =
      \<lparr>MinNodes = ?T - ?M - requested csr gid, MaxNodes = ?T, CurrentTarget = ?T\<rparr>"
    by (simp add: gget_alt [of _ r2] m2' zero_AcceptableRange_def)
  have m3: "map_of (acceptableRanges (updateAcceptableRanges E ts csr)) gid =
      (if gid \<in> ?dk ` set (scaleDownRequests csr)
       then Some ((?dn ^^ length (filter (\<lambda>x. ?dk x = gid) (scaleDownRequests csr))) (gget zero_AcceptableRange r2 gid))
       else map_of r2 gid)"
    unfolding eq by (rule map_of_foldl_iterate)
  show ?thesis
    using none unfolding m3 funpow_MaxNodes g2 m2' by (auto simp: being_deleted_def Let_def)
qed

lemma ranges_cleared: "updateAcceptableRanges E ts csr = csr\<lparr>acceptableRanges := acceptableRanges (updateAcceptableRanges E ts csr)\<rparr>"
  by (simp add: updateAcceptableRanges_def Let_def)

section \<open>The request invariant\<close>

text \<open>
  Requests are stored under the id of their group and ask for at least one node; the backoff is in
  a consistent state and keyed by group id.
\<close>

definition req_ok :: "('g \<Rightarrow> string) \<Rightarrow> string \<Rightarrow> 'g ScaleUpRequest \<Rightarrow> bool" where
  "req_ok gid k r \<longleftrightarrow> 0 < Increase r \<and> k = gid (Up_NodeGroup r)"

definition reqs_ok :: "('g \<Rightarrow> string) \<Rightarrow> (string, 'g ScaleUpRequest) gmap \<Rightarrow> bool" where
  "reqs_ok gid m \<longleftrightarrow> gm_wf m \<and> (\<forall>(k, r)\<in>set m. req_ok gid k r)"

definition csr_inv :: "('g \<Rightarrow> string) \<Rightarrow> 'g ClusterStateRegistry \<Rightarrow> bool" where
  "csr_inv gid csr \<longleftrightarrow> reqs_ok gid (scaleUpRequests csr) \<and> backoff_inv (csr_backoff csr) \<and>
     nodeGroupKey (csr_backoff csr) = gid"

lemma reqs_ok_gput: "reqs_ok gid m \<Longrightarrow> req_ok gid k r \<Longrightarrow> reqs_ok gid (gput k r m)"
  using set_gput_subset [of k r m] by (auto simp: reqs_ok_def)

lemma reqs_ok_gdel: "reqs_ok gid m \<Longrightarrow> reqs_ok gid (gdel k m)"
  using set_gdel_subset [of k m] by (auto simp: reqs_ok_def)

lemma reqs_ok_lookup: "reqs_ok gid m \<Longrightarrow> map_of m k = Some r \<Longrightarrow> req_ok gid k r"
  by (auto simp: reqs_ok_def dest: map_of_SomeD)

lemma csr_inv_register:
  assumes "csr_inv gid csr" and "Id (cloudProvider E) = gid"
  shows "csr_inv gid (registerOrUpdateScaleUpNoLock E g delta t csr)"
proof (cases "GetMaxNodeProvisionTime E g")
  case (Inr d)
  note inv = assms(1) [unfolded csr_inv_def]
  show ?thesis
  proof (cases "map_of (scaleUpRequests csr) (gid g)")
    case None
    then show ?thesis using inv Inr assms(2)
      by (auto simp: registerOrUpdateScaleUpNoLock_def csr_inv_def intro!: reqs_ok_gput simp: req_ok_def)
  next
    case (Some r)
    with inv have "req_ok gid (gid g) r" by (auto intro: reqs_ok_lookup)
    then show ?thesis using inv Inr Some assms(2)
      by (auto simp: registerOrUpdateScaleUpNoLock_def csr_inv_def Let_def req_ok_def intro!: reqs_ok_gput reqs_ok_gdel)
  qed
qed (simp add: registerOrUpdateScaleUpNoLock_def assms)

lemma csr_inv_backoffNodeGroup: "csr_inv gid csr \<Longrightarrow> csr_inv gid (backoffNodeGroup E g e t csr)"
  by (simp add: backoffNodeGroup_def csr_inv_def backoff_inv_Backoff exp_backoff.key_backoff)

lemma csr_inv_emit [simp]: "csr_inv gid (emit e csr) = csr_inv gid csr"
  by (simp add: emit_def csr_inv_def)

lemma csr_inv_notify: "csr_inv gid csr \<Longrightarrow> csr_inv gid (notify_observer E g d e t obs csr)"
  by (cases obs) (auto simp: notify_observer_def RegisterFailedScaleUp_def csr_inv_backoffNodeGroup, simp add: csr_inv_def)

lemma csr_inv_fold: "(\<And>x csr. csr_inv gid csr \<Longrightarrow> csr_inv gid (f x csr)) \<Longrightarrow> csr_inv gid csr \<Longrightarrow> csr_inv gid (fold f xs csr)"
  by (induction xs arbitrary: csr) auto

lemma csr_inv_notifier: "csr_inv gid csr \<Longrightarrow> csr_inv gid (notifier_RegisterFailedScaleUp E g d e t csr)"
  unfolding notifier_RegisterFailedScaleUp_def by (rule csr_inv_fold [OF csr_inv_notify])

lemma csr_inv_gdel: "csr_inv gid csr \<Longrightarrow> csr_inv gid (csr\<lparr>scaleUpRequests := gdel k (scaleUpRequests csr)\<rparr>)"
  by (simp add: csr_inv_def reqs_ok_gdel)

lemma csr_inv_revert: "csr_inv gid csr \<Longrightarrow> csr_inv gid (revert_timed_out E r csr)"
  by (simp add: revert_timed_out_def Let_def split: option.splits)

lemma csr_inv_updateScaleRequest: "csr_inv gid csr \<Longrightarrow> csr_inv gid (updateScaleRequest E t nr csr)"
  by (auto simp: updateScaleRequest_def Let_def split_beta intro!: csr_inv_gdel csr_inv_revert csr_inv_notifier)

lemma csr_inv_updateScaleRequests: "csr_inv gid csr \<Longrightarrow> csr_inv gid (updateScaleRequests E t csr)"
proof -
  assume "csr_inv gid csr"
  then have "csr_inv gid (csr\<lparr>csr_backoff := RemoveStaleBackoffData t (csr_backoff csr)\<rparr>)"
    by (simp add: csr_inv_def backoff_inv_stale) (simp add: RemoveStaleBackoffData_def)
  then have "csr_inv gid (fold (updateScaleRequest E t) (scaleUpRequests csr) (csr\<lparr>csr_backoff := RemoveStaleBackoffData t (csr_backoff csr)\<rparr>))"
    by (intro csr_inv_fold csr_inv_updateScaleRequest)
  then show ?thesis by (simp add: updateScaleRequests_def Let_def) (simp add: csr_inv_def)
qed

lemma csr_inv_handle_error_code:
  "csr_inv gid csr \<Longrightarrow> Id (cloudProvider E) = gid \<Longrightarrow> csr_inv gid (handle_error_code E g ms prev t ci csr)"
  by (auto simp: handle_error_code_def Let_def split_beta intro!: csr_inv_notifier csr_inv_register)

lemma csr_inv_handleInstanceCreationErrors:
  "csr_inv gid csr \<Longrightarrow> Id (cloudProvider E) = gid \<Longrightarrow> csr_inv gid (handleInstanceCreationErrors E t csr)"
  unfolding handleInstanceCreationErrors_def handleInstanceCreationErrorsForNodeGroup_def Let_def split_beta
  by (intro csr_inv_fold csr_inv_handle_error_code)

text \<open>Operations that touch neither the requests nor the backoff.\<close>

lemma csr_inv_other_fields [simp]:
  "csr_inv gid (csr\<lparr>csr_nodes := ns\<rparr>) = csr_inv gid csr"
  "csr_inv gid (updateUnregisteredNodes us csr) = csr_inv gid csr"
  "csr_inv gid (updateCloudProviderDeletedNodes ds csr) = csr_inv gid csr"
  "csr_inv gid (updateReadinessStats E t csr) = csr_inv gid csr"
  "csr_inv gid (updateAcceptableRanges E ts csr) = csr_inv gid csr"
  "csr_inv gid (updateIncorrectNodeGroupSizes E t csr) = csr_inv gid csr"
  "csr_inv gid (InvalidateCacheEntry E g csr) = csr_inv gid csr"
  "csr_inv gid (RefreshCloudProviderNodeInstancesCache E t csr) = csr_inv gid csr"
  "csr_inv gid (UpdateScaleDownCandidates E ns t csr) = csr_inv gid csr"
  "csr_inv gid (RegisterScaleDown g n t t' csr) = csr_inv gid csr"
  "csr_inv gid (failures_Refresh csr) = csr_inv gid csr"
  by (simp_all add: csr_inv_def updateUnregisteredNodes_def updateCloudProviderDeletedNodes_def
      updateReadinessStats_def updateAcceptableRanges_def updateIncorrectNodeGroupSizes_def Let_def split_beta
      InvalidateCacheEntry_def RefreshCloudProviderNodeInstancesCache_def UpdateScaleDownCandidates_def
      RegisterScaleDown_def failures_Refresh_def)

lemma csr_inv_updateClusterStateRegistry:
  assumes "csr_inv gid csr" and "Id (cloudProvider E) = gid"
  shows "csr_inv gid (updateClusterStateRegistry E ns is t ts csr)"
proof -
  have "csr_inv gid (csr\<lparr>csr_nodes := ns, previousCloudProviderNodeInstances := p, cloudProviderNodeInstances := is\<rparr>)" for p
    using assms(1) by (simp add: csr_inv_def)
  then show ?thesis
    unfolding updateClusterStateRegistry_def Let_def
    by (simp add: csr_inv_handleInstanceCreationErrors csr_inv_updateScaleRequests assms(2))
qed

lemma csr_inv_getCloudProviderNodeInstances:
  assumes "csr_inv gid csr"
  shows "csr_inv gid (snd (getCloudProviderNodeInstances E t csr))"
proof -
  have "csr_inv gid (fold (\<lambda>g csr. if IsNodeGroupScalingUp (Id (cloudProvider E) g) csr
      then InvalidateCacheEntry E g csr else csr) gs csr)" for gs
    by (rule csr_inv_fold [OF _ assms]) simp
  then show ?thesis
    by (simp add: getCloudProviderNodeInstances_def Let_def split_beta) (simp add: csr_inv_def)
qed

lemma csr_inv_UpdateNodes:
  assumes "csr_inv gid csr" and "Id (cloudProvider E) = gid"
  shows "csr_inv gid (snd (UpdateNodes E ns t csr))"
  using csr_inv_getCloudProviderNodeInstances [OF assms(1), of E t] assms
  by (auto simp: UpdateNodes_def intro: csr_inv_updateClusterStateRegistry split: prod.splits option.splits sum.splits)

text \<open>
  The operations of the registry as a transition relation; the services may answer differently at
  every step, the ids of the groups do not change.
\<close>

inductive csr_step :: "('g \<Rightarrow> string) \<Rightarrow> 'g ClusterStateRegistry \<Rightarrow> 'g ClusterStateRegistry \<Rightarrow> bool" for gid where
  "Id (cloudProvider E) = gid \<Longrightarrow> csr_step gid csr (RegisterScaleUp E g delta t csr)"
| "csr_step gid csr (RegisterScaleDown g n t t' csr)"
| "csr_step gid csr (RegisterFailedScaleUp E g delta e t csr)"
| "Id (cloudProvider E) = gid \<Longrightarrow> csr_step gid csr (snd (UpdateNodes E ns t csr))"
| "csr_step gid csr (Recalculate E csr)"
| "csr_step gid csr (UpdateScaleDownCandidates E ns t csr)"
| "csr_step gid csr (InvalidateCacheEntry E g csr)"
| "csr_step gid csr (RefreshCloudProviderNodeInstancesCache E t csr)"
| "csr_step gid csr (failures_Refresh csr)"

lemma csr_inv_step: "csr_step gid csr csr' \<Longrightarrow> csr_inv gid csr \<Longrightarrow> csr_inv gid csr'"
  by (induction rule: csr_step.induct)
    (simp_all add: RegisterScaleUp_def csr_inv_register RegisterFailedScaleUp_def csr_inv_backoffNodeGroup
      csr_inv_UpdateNodes Recalculate_def split_beta Let_def)

lemma csr_inv_New:
  "backoff_inv b \<Longrightarrow> nodeGroupKey b = gid \<Longrightarrow> csr_inv gid (NewClusterStateRegistry config b obs)"
  "backoff_inv b \<Longrightarrow> nodeGroupKey b = gid \<Longrightarrow> csr_inv gid (NewNotifiedClusterStateRegistry config b obs)"
  by (simp_all add: csr_inv_def NewClusterStateRegistry_def NewNotifiedClusterStateRegistry_def Let_def reqs_ok_def)

lemma csr_inv_reachable: "(csr_step gid)\<^sup>*\<^sup>* csr csr' \<Longrightarrow> csr_inv gid csr \<Longrightarrow> csr_inv gid csr'"
  by (induction rule: rtranclp_induct) (auto intro: csr_inv_step)

section \<open>Readiness statistics\<close>

definition partitioned :: "Readiness \<Rightarrow> bool" where
  "partitioned r \<longleftrightarrow> mset (R_Registered r) =
       mset (R_Ready r) + mset (R_Unready r) + mset (R_Deleted r) + mset (R_NotStarted r) + mset (R_Suspended r) \<and>
     set (R_ResourceUnready r) \<subseteq> set (R_Unready r)"

lemma partitioned_zero [simp]: "partitioned zero_Readiness" "partitioned (zero_Readiness\<lparr>R_Time := t\<rparr>)"
  by (simp_all add: partitioned_def zero_Readiness_def)

lemma partitioned_update: "partitioned r \<Longrightarrow> partitioned (update_readiness csr t d r n nr)"
  by (auto simp: partitioned_def update_readiness_def Let_def)

lemma Registered_update [simp]: "R_Registered (update_readiness csr t d r n nr) = R_Registered r @ [Name n]"
  by (simp add: update_readiness_def Let_def)

definition group_of :: "'g csr_env \<Rightarrow> node \<Rightarrow> string option" where
  "group_of E n = map_option (Id (cloudProvider E)) (fst (NodeGroupForNode (cloudProvider E) n))"

lemma readiness_node_sel:
  assumes "readiness_node E csr t n (per, tot, d) = (per', tot', d')"
  shows "partitioned tot \<Longrightarrow> partitioned tot'" and "R_Registered tot' = R_Registered tot @ [Name n]"
    and "(\<And>k. partitioned (gget zero_Readiness per k)) \<Longrightarrow> partitioned (gget zero_Readiness per' k)"
    and "R_Registered (gget zero_Readiness per' k) =
      R_Registered (gget zero_Readiness per k) @ (if group_of E n = Some k then [Name n] else [])"
    and "gm_wf per \<Longrightarrow> gm_wf per'"
  using assms
  by (auto simp: readiness_node_def Let_def split_beta group_of_def partitioned_update split: option.splits)

lemma readiness_nodes_sel:
  assumes "fold (readiness_node E csr t) ns (per, tot, d) = (per', tot', d')"
  shows "partitioned tot \<Longrightarrow> partitioned tot'" and "R_Registered tot' = R_Registered tot @ map Name ns"
    and "(\<And>k. partitioned (gget zero_Readiness per k)) \<Longrightarrow> partitioned (gget zero_Readiness per' k)"
    and "R_Registered (gget zero_Readiness per' k) =
      R_Registered (gget zero_Readiness per k) @ map Name (filter (\<lambda>n. group_of E n = Some k) ns)"
    and "gm_wf per \<Longrightarrow> gm_wf per'"
proof -
  have "(partitioned tot \<longrightarrow> partitioned tot') \<and> R_Registered tot' = R_Registered tot @ map Name ns \<and>
    ((\<forall>k. partitioned (gget zero_Readiness per k)) \<longrightarrow> (\<forall>k. partitioned (gget zero_Readiness per' k))) \<and>
    (\<forall>k. R_Registered (gget zero_Readiness per' k) =
      R_Registered (gget zero_Readiness per k) @ map Name (filter (\<lambda>n. group_of E n = Some k) ns)) \<and>
    (gm_wf per \<longrightarrow> gm_wf per')"
    using assms
  proof (induction ns arbitrary: per tot d)
    case (Cons n ns)
    obtain p1 t1 d1 where n: "readiness_node E csr t n (per, tot, d) = (p1, t1, d1)"
      by (metis prod_cases3)
    note N = readiness_node_sel [OF n]
    have "fold (readiness_node E csr t) ns (p1, t1, d1) = (per', tot', d')"
      using Cons.prems by (simp add: n)
    from Cons.IH [OF this] show ?case using N(1,3,5) by (auto simp: N(2,4))
  qed simp
  then show "partitioned tot \<Longrightarrow> partitioned tot'" "R_Registered tot' = R_Registered tot @ map Name ns"
    "(\<And>k. partitioned (gget zero_Readiness per k)) \<Longrightarrow> partitioned (gget zero_Readiness per' k)"
    "R_Registered (gget zero_Readiness per' k) =
      R_Registered (gget zero_Readiness per k) @ map Name (filter (\<lambda>n. group_of E n = Some k) ns)"
    "gm_wf per \<Longrightarrow> gm_wf per'"
    by blast+
qed

lemma readiness_unregistered_sel:
  assumes "readiness_unregistered E t u (per, tot) = (per', tot')"
  shows "partitioned tot' = partitioned tot" and "R_Registered tot' = R_Registered tot"
    and "partitioned (gget zero_Readiness per' k) = partitioned (gget zero_Readiness per k)"
    and "R_Registered (gget zero_Readiness per' k) = R_Registered (gget zero_Readiness per k)"
    and "gm_wf per \<Longrightarrow> gm_wf per'"
  using assms
  by (auto simp: readiness_unregistered_def Let_def split_beta partitioned_def split: option.splits sum.splits if_splits)

lemma readiness_all_unregistered_sel:
  assumes "fold (\<lambda>(_, u). readiness_unregistered E t u) us (per, tot) = (per', tot')"
  shows "partitioned tot' = partitioned tot \<and> R_Registered tot' = R_Registered tot \<and>
    partitioned (gget zero_Readiness per' k) = partitioned (gget zero_Readiness per k) \<and>
    R_Registered (gget zero_Readiness per' k) = R_Registered (gget zero_Readiness per k) \<and>
    (gm_wf per \<longrightarrow> gm_wf per')"
  using assms
proof (induction us arbitrary: per tot)
  case (Cons u us)
  obtain p1 t1 where u: "readiness_unregistered E t (snd u) (per, tot) = (p1, t1)" by force
  note U = readiness_unregistered_sel [OF u]
  have "fold (\<lambda>(_, u). readiness_unregistered E t u) us (p1, t1) = (per', tot')"
    using Cons.prems u by (cases u) simp
  from Cons.IH [OF this] show ?case using U(5) by (simp add: U(1-4))
qed simp

lemma gget_map_Time:
  "partitioned (gget zero_Readiness (map (\<lambda>(k, r). (k, r\<lparr>R_Time := t\<rparr>)) m) k) = partitioned (gget zero_Readiness m k)"
  "R_Registered (gget zero_Readiness (map (\<lambda>(k, r). (k, r\<lparr>R_Time := t\<rparr>)) m) k) = R_Registered (gget zero_Readiness m k)"
proof -
  have "map_of (map (\<lambda>(k, r). (k, r\<lparr>R_Time := t\<rparr>)) m) k = map_option (\<lambda>r. r\<lparr>R_Time := t\<rparr>) (map_of m k)"
    by (induction m) auto
  then show "partitioned (gget zero_Readiness (map (\<lambda>(k, r). (k, r\<lparr>R_Time := t\<rparr>)) m) k) = partitioned (gget zero_Readiness m k)"
    "R_Registered (gget zero_Readiness (map (\<lambda>(k, r). (k, r\<lparr>R_Time := t\<rparr>)) m) k) = R_Registered (gget zero_Readiness m k)"
    by (simp_all add: gget_def partitioned_def split: option.splits)
qed

lemma updateReadinessStats_spec:
  fixes csr :: "'g ClusterStateRegistry"
  defines "csr' \<equiv> \<lambda>E t. updateReadinessStats E t csr"
  shows "partitioned (totalReadiness (csr' E t))" and "R_Registered (totalReadiness (csr' E t)) = map Name (csr_nodes csr)"
    and "partitioned (gget zero_Readiness (perNodeGroupReadiness (csr' E t)) k)"
    and "R_Registered (gget zero_Readiness (perNodeGroupReadiness (csr' E t)) k) =
      map Name (filter (\<lambda>n. group_of E n = Some k) (csr_nodes csr))"
proof -
  obtain per tot d where n: "fold (readiness_node E csr t) (csr_nodes csr)
      ([], zero_Readiness\<lparr>R_Time := t\<rparr>, MaxNodeStartupTime) = (per, tot, d)" by (metis prod_cases3)
  obtain per1 total1 where u: "fold (\<lambda>(_, u). readiness_unregistered E t u) (unregisteredNodes csr) (per, tot) = (per1, total1)"
    by force
  note N = readiness_nodes_sel [OF n] and U = readiness_all_unregistered_sel [OF u]
  have eq: "csr' E t = csr\<lparr>perNodeGroupReadiness := map (\<lambda>(k, r). (k, r\<lparr>R_Time := t\<rparr>)) per1, totalReadiness := total1\<rparr>"
    unfolding csr'_def updateReadinessStats_def using n u by (simp add: Let_def)
  show "partitioned (totalReadiness (csr' E t))" "R_Registered (totalReadiness (csr' E t)) = map Name (csr_nodes csr)"
    "partitioned (gget zero_Readiness (perNodeGroupReadiness (csr' E t)) k)"
    "R_Registered (gget zero_Readiness (perNodeGroupReadiness (csr' E t)) k) =
      map Name (filter (\<lambda>n. group_of E n = Some k) (csr_nodes csr))"
    using U N(1,2,3,4) by (simp_all add: eq gget_map_Time) (simp_all add: zero_Readiness_def)
qed

section \<open>Failed scale-ups\<close>

text \<open>What the notifier changes: the failures it passes to the backoff, once per registration of the registry.\<close>

definition reported :: "'g csr_env \<Rightarrow> observer list \<Rightarrow> 'g \<Rightarrow> InstanceErrorInfo \<Rightarrow> ('g \<times> InstanceErrorInfo) list" where
  "reported E obs g e = (if has_template E (Id (cloudProvider E) g)
     then replicate (count_list obs Obs_ClusterState) (g, e) else [])"

definition decreases :: "'g csr_effect list \<Rightarrow> ('g \<times> int) list" where
  "decreases es = concat (map (\<lambda>e. case e of Call_DecreaseTargetSize g d \<Rightarrow> [(g, d)] | _ \<Rightarrow> []) es)"

lemma decreases_append [simp]: "decreases (xs @ ys) = decreases xs @ decreases ys"
  by (simp add: decreases_def)

lemma backoff_all_append:
  "exp_backoff.backoff_all (xs @ ys) t b = exp_backoff.backoff_all ys t (exp_backoff.backoff_all xs t b)"
  by (simp add: exp_backoff.backoff_all_def)

definition same_view :: "'g ClusterStateRegistry \<Rightarrow> 'g ClusterStateRegistry \<Rightarrow> bool" where
  "same_view c c' \<longleftrightarrow> acceptableRanges c' = acceptableRanges c \<and> perNodeGroupReadiness c' = perNodeGroupReadiness c \<and>
     observers c' = observers c \<and> scaleDownRequests c' = scaleDownRequests c \<and>
     cloudProviderNodeInstances c' = cloudProviderNodeInstances c \<and>
     previousCloudProviderNodeInstances c' = previousCloudProviderNodeInstances c"

lemma same_view_refl [simp]: "same_view c c"
  by (simp add: same_view_def)

lemma same_view_trans: "same_view a b \<Longrightarrow> same_view b c \<Longrightarrow> same_view a c"
  by (simp add: same_view_def)

lemma same_view_upcoming: "same_view c c' \<Longrightarrow> areThereUpcomingNodesInNodeGroup k c' = areThereUpcomingNodesInNodeGroup k c"
  by (auto simp: same_view_def areThereUpcomingNodesInNodeGroup_def getUpcomingNodesInNodeGroup_def split: option.splits)

lemma notify_all_sel:
  assumes "fold (notify_observer E g d e t) obs csr = csr'"
  shows "same_view csr csr'" and "scaleUpRequests csr' = scaleUpRequests csr"
    and "csr_backoff csr' = exp_backoff.backoff_all (reported E obs g e) t (csr_backoff csr)"
    and "decreases (effects csr') = decreases (effects csr)"
proof -
  have "same_view csr csr' \<and> scaleUpRequests csr' = scaleUpRequests csr \<and>
    csr_backoff csr' = exp_backoff.backoff_all (reported E obs g e) t (csr_backoff csr) \<and>
    decreases (effects csr') = decreases (effects csr)"
    using assms
  proof (induction obs arbitrary: csr)
    case Nil
    then show ?case by (auto simp: reported_def)
  next
    case (Cons ob obs)
    from Cons.IH [of "notify_observer E g d e t ob csr"] Cons.prems
    show ?case
      by (cases ob) (auto simp: notify_observer_def RegisterFailedScaleUp_def backoffNodeGroup_def reported_def
          emit_def same_view_def decreases_def split: if_splits)
  qed
  then show "same_view csr csr'" "scaleUpRequests csr' = scaleUpRequests csr"
    "csr_backoff csr' = exp_backoff.backoff_all (reported E obs g e) t (csr_backoff csr)"
    "decreases (effects csr') = decreases (effects csr)" by blast+
qed

lemmas notifier_sel = notify_all_sel [OF notifier_RegisterFailedScaleUp_def [symmetric]]

text \<open>The verdict on a request.\<close>

definition timed_out :: "'g csr_env \<Rightarrow> time \<Rightarrow> 'g ClusterStateRegistry \<Rightarrow> string \<times> 'g ScaleUpRequest \<Rightarrow> bool" where
  "timed_out E t csr kr \<longleftrightarrow> \<not> IsUpcoming E (Up_NodeGroup (snd kr)) \<and>
     areThereUpcomingNodesInNodeGroup (fst kr) csr \<and> ExpectedAddTime (snd kr) < t"

definition kept :: "'g csr_env \<Rightarrow> time \<Rightarrow> 'g ClusterStateRegistry \<Rightarrow> string \<times> 'g ScaleUpRequest \<Rightarrow> bool" where
  "kept E t csr kr \<longleftrightarrow> IsUpcoming E (Up_NodeGroup (snd kr)) \<or>
     areThereUpcomingNodesInNodeGroup (fst kr) csr \<and> t \<le> ExpectedAddTime (snd kr)"

definition timeout_reports :: "'g csr_env \<Rightarrow> time \<Rightarrow> 'g ClusterStateRegistry \<Rightarrow> string \<times> 'g ScaleUpRequest \<Rightarrow>
    ('g \<times> InstanceErrorInfo) list" where
  "timeout_reports E t csr kr = (if timed_out E t csr kr
     then reported E (observers csr) (Up_NodeGroup (snd kr)) (timeout_error (fst kr) (snd kr) t) else [])"

lemma same_view_verdicts:
  "same_view c c' \<Longrightarrow> timed_out E t c' = timed_out E t c"
  "same_view c c' \<Longrightarrow> kept E t c' = kept E t c"
  "same_view c c' \<Longrightarrow> timeout_reports E t c' = timeout_reports E t c"
proof -
  assume v: "same_view c c'"
  show a: "timed_out E t c' = timed_out E t c" and "kept E t c' = kept E t c"
    by (simp_all add: fun_eq_iff timed_out_def kept_def same_view_upcoming [OF v])
  show "timeout_reports E t c' = timeout_reports E t c"
    using v by (simp add: fun_eq_iff timeout_reports_def a) (simp add: same_view_def)
qed

lemma revert_timed_out_sel:
  "0 < Increase r \<Longrightarrow> decreases (effects (revert_timed_out E r c)) = decreases (effects c) @ [(Up_NodeGroup r, - Increase r)]"
  "same_view c (revert_timed_out E r c)" "scaleUpRequests (revert_timed_out E r c) = scaleUpRequests c"
  "csr_backoff (revert_timed_out E r c) = csr_backoff c"
  by (simp_all add: revert_timed_out_def Let_def emit_def decreases_def same_view_def split: option.splits)

lemma updateScaleRequest_sel:
  assumes "0 < Increase r"
  shows "same_view csr (updateScaleRequest E t (k, r) csr)"
    and "scaleUpRequests (updateScaleRequest E t (k, r) csr) =
      (if kept E t csr (k, r) then scaleUpRequests csr else gdel k (scaleUpRequests csr))"
    and "csr_backoff (updateScaleRequest E t (k, r) csr) =
      exp_backoff.backoff_all (timeout_reports E t csr (k, r)) t (csr_backoff csr)"
    and "decreases (effects (updateScaleRequest E t (k, r) csr)) = decreases (effects csr) @
      (if timed_out E t csr (k, r) then [(Up_NodeGroup r, - Increase r)] else [])"
proof -
  consider "IsUpcoming E (Up_NodeGroup r)"
    | "\<not> IsUpcoming E (Up_NodeGroup r)" "\<not> areThereUpcomingNodesInNodeGroup k csr"
    | "\<not> IsUpcoming E (Up_NodeGroup r)" "areThereUpcomingNodesInNodeGroup k csr" "t \<le> ExpectedAddTime r"
    | "\<not> IsUpcoming E (Up_NodeGroup r)" "areThereUpcomingNodesInNodeGroup k csr" "ExpectedAddTime r < t"
    by linarith
  then have "same_view csr (updateScaleRequest E t (k, r) csr) \<and>
    scaleUpRequests (updateScaleRequest E t (k, r) csr) =
      (if kept E t csr (k, r) then scaleUpRequests csr else gdel k (scaleUpRequests csr)) \<and>
    csr_backoff (updateScaleRequest E t (k, r) csr) =
      exp_backoff.backoff_all (timeout_reports E t csr (k, r)) t (csr_backoff csr) \<and>
    decreases (effects (updateScaleRequest E t (k, r) csr)) = decreases (effects csr) @
      (if timed_out E t csr (k, r) then [(Up_NodeGroup r, - Increase r)] else [])"
  proof cases
    case 4
    let ?c1 = "emit (Event_ScaleUpTimedOut (Id (cloudProvider E) (Up_NodeGroup r)) (t - Up_Time r)) csr"
    let ?c2 = "notifier_RegisterFailedScaleUp E (Up_NodeGroup r) (Increase r) (timeout_error k r t) t ?c1"
    let ?c3 = "revert_timed_out E r ?c2"
    have eq: "updateScaleRequest E t (k, r) csr = ?c3\<lparr>scaleUpRequests := gdel k (scaleUpRequests ?c3)\<rparr>"
      using 4 by (simp add: updateScaleRequest_def Let_def)
    have v1: "same_view csr ?c1" "observers ?c1 = observers csr" "scaleUpRequests ?c1 = scaleUpRequests csr"
      "csr_backoff ?c1 = csr_backoff csr" "decreases (effects ?c1) = decreases (effects csr)"
      by (simp_all add: emit_def same_view_def decreases_def)
    have "same_view csr ?c3"
      using same_view_trans [OF v1(1) same_view_trans [OF notifier_sel(1) revert_timed_out_sel(2)]] .
    moreover have "timed_out E t csr (k, r)" "\<not> kept E t csr (k, r)" using 4 by (auto simp: timed_out_def kept_def)
    ultimately show ?thesis
      using v1 assms unfolding eq
      by (simp add: revert_timed_out_sel notifier_sel timeout_reports_def) (simp add: same_view_def)
  qed (auto simp: updateScaleRequest_def kept_def timed_out_def timeout_reports_def same_view_def)
  then show "same_view csr (updateScaleRequest E t (k, r) csr)"
    "scaleUpRequests (updateScaleRequest E t (k, r) csr) =
      (if kept E t csr (k, r) then scaleUpRequests csr else gdel k (scaleUpRequests csr))"
    "csr_backoff (updateScaleRequest E t (k, r) csr) =
      exp_backoff.backoff_all (timeout_reports E t csr (k, r)) t (csr_backoff csr)"
    "decreases (effects (updateScaleRequest E t (k, r) csr)) = decreases (effects csr) @
      (if timed_out E t csr (k, r) then [(Up_NodeGroup r, - Increase r)] else [])"
    by blast+
qed

lemma updateScaleRequest_fold:
  assumes "gm_wf es" and "\<forall>(k, r)\<in>set es. 0 < Increase r"
  shows "same_view csr (fold (updateScaleRequest E t) es csr) \<and>
    map_of (scaleUpRequests (fold (updateScaleRequest E t) es csr)) k =
      (case map_of es k of None \<Rightarrow> map_of (scaleUpRequests csr) k
       | Some r \<Rightarrow> if kept E t csr (k, r) then map_of (scaleUpRequests csr) k else None) \<and>
    csr_backoff (fold (updateScaleRequest E t) es csr) =
      exp_backoff.backoff_all (concat (map (timeout_reports E t csr) es)) t (csr_backoff csr) \<and>
    decreases (effects (fold (updateScaleRequest E t) es csr)) = decreases (effects csr) @
      map (\<lambda>(k, r). (Up_NodeGroup r, - Increase r)) (filter (timed_out E t csr) es)"
  using assms
proof (induction es arbitrary: csr)
  case (Cons e es)
  obtain k' r where e: "e = (k', r)" by force
  let ?c = "updateScaleRequest E t (k', r) csr"
  have pos: "0 < Increase r" and wf: "gm_wf es" "\<forall>(k, r)\<in>set es. 0 < Increase r" and new: "map_of es k' = None"
    using Cons.prems e by (auto simp: map_of_eq_None_iff)
  note S = updateScaleRequest_sel [OF pos, where csr = csr and E = E and t = t and k = k']
  note V = same_view_verdicts [OF S(1)]
  note I = Cons.IH [OF wf, of ?c]
  have "same_view csr (fold (updateScaleRequest E t) es ?c)"
    using same_view_trans [OF S(1)] I by blast
  moreover have "map_of (scaleUpRequests (fold (updateScaleRequest E t) es ?c)) k =
      (case map_of (e # es) k of None \<Rightarrow> map_of (scaleUpRequests csr) k
       | Some r \<Rightarrow> if kept E t csr (k, r) then map_of (scaleUpRequests csr) k else None)"
    using I new by (auto simp: V e S(2) split: option.splits)
  ultimately show ?case using I by (simp add: e V S(3,4) backoff_all_append)
qed simp

section \<open>Instance creation errors\<close>

lemma mset_concat_gput_append:
  "mset (concat (map snd (gput k (gget [] m k @ [x]) m))) = add_mset x (mset (concat (map snd m)))"
  by (induction m) (auto simp: gget_def)

lemma error_mappings_fold:
  assumes "fold error_mappings_step is (toCode, tmp, byCode) = (toCode', tmp', byCode')"
  shows "ghas toCode' i \<longleftrightarrow> ghas toCode i \<or> (\<exists>j\<in>set is. creation_error j \<noteq> None \<and> Instance_Id j = i)"
    and "mset (concat (map snd byCode')) = mset (concat (map snd byCode)) + mset (filter (\<lambda>j. creation_error j \<noteq> None) is)"
proof -
  have "(ghas toCode' i \<longleftrightarrow> ghas toCode i \<or> (\<exists>j\<in>set is. creation_error j \<noteq> None \<and> Instance_Id j = i)) \<and>
    mset (concat (map snd byCode')) = mset (concat (map snd byCode)) + mset (filter (\<lambda>j. creation_error j \<noteq> None) is)"
    using assms
  proof (induction "is" arbitrary: toCode tmp byCode)
    case (Cons j js)
    show ?case
    proof (cases "creation_error j")
      case None
      then show ?thesis using Cons.IH Cons.prems by (simp add: error_mappings_step_def)
    next
      case (Some info)
      let ?c = "code_of info"
      obtain tmp1 where step: "error_mappings_step j (toCode, tmp, byCode) =
          (gput (Instance_Id j) ?c toCode, tmp1, gput ?c (gget [] byCode ?c @ [j]) byCode)"
        using Some by (simp add: error_mappings_step_def Let_def)
      have "fold error_mappings_step js (gput (Instance_Id j) ?c toCode, tmp1, gput ?c (gget [] byCode ?c @ [j]) byCode) =
          (toCode', tmp', byCode')" using Cons.prems by (simp add: step)
      from Cons.IH [OF this] show ?thesis using Some by (auto simp: mset_concat_gput_append)
    qed
  qed simp
  then show "ghas toCode' i \<longleftrightarrow> ghas toCode i \<or> (\<exists>j\<in>set is. creation_error j \<noteq> None \<and> Instance_Id j = i)"
    "mset (concat (map snd byCode')) = mset (concat (map snd byCode)) + mset (filter (\<lambda>j. creation_error j \<noteq> None) is)"
    by blast+
qed

lemma error_mappings:
  assumes "buildInstanceToErrorCodeMappings is = (toCode, messages, byCode)"
  shows "ghas toCode i \<longleftrightarrow> (\<exists>j\<in>set is. creation_error j \<noteq> None \<and> Instance_Id j = i)"
    and "mset (concat (map snd byCode)) = mset (filter (\<lambda>j. creation_error j \<noteq> None) is)"
proof -
  obtain tc tmp bc where f: "fold error_mappings_step is ([], [], []) = (tc, tmp, bc)" by (metis prod_cases3)
  show "ghas toCode i \<longleftrightarrow> (\<exists>j\<in>set is. creation_error j \<noteq> None \<and> Instance_Id j = i)"
    "mset (concat (map snd byCode)) = mset (filter (\<lambda>j. creation_error j \<noteq> None) is)"
    using assms error_mappings_fold [OF f] by (simp_all add: buildInstanceToErrorCodeMappings_def f)
qed

definition unseen :: "(string, errorCode) gmap \<Rightarrow> Instance list \<Rightarrow> int" where
  "unseen previous is = int (length (filter (\<lambda>i. \<not> ghas previous (Instance_Id i)) is))"

lemma unseen_nonneg [simp]: "0 \<le> unseen previous is"
  by (simp add: unseen_def)

lemma handle_no_request:
  assumes "\<not> ghas (scaleUpRequests csr) (Id (cloudProvider E) g)"
  shows "fold (handle_error_code E g ms prev t) cs csr = csr"
  by (induction cs) (simp_all add: handle_error_code_def split_beta Let_def IsNodeGroupScalingUp_def assms)

lemma handle_error_code_sel:
  assumes "GetMaxNodeProvisionTime E g = Inr d" and "areThereUpcomingNodesInNodeGroup (Id (cloudProvider E) g) csr"
    and "map_of (scaleUpRequests csr) (Id (cloudProvider E) g) = Some r"
    and "0 < unseen prev (snd ci)"
  shows "same_view csr (handle_error_code E g ms prev t ci csr)"
    and "scaleUpRequests (handle_error_code E g ms prev t ci csr) =
      (if Increase r \<le> unseen prev (snd ci) then gdel (Id (cloudProvider E) g) (scaleUpRequests csr)
       else gput (Id (cloudProvider E) g) (r\<lparr>Increase := Increase r - unseen prev (snd ci)\<rparr>) (scaleUpRequests csr))"
    and "\<exists>e. csr_backoff (handle_error_code E g ms prev t ci csr) =
      exp_backoff.backoff_all (reported E (observers csr) g e) t (csr_backoff csr)"
proof -
  let ?gid = "Id (cloudProvider E) g"
  define n where "n = unseen prev (snd ci)"
  define msg where "msg = buildErrorMessageEventString (gget [] ms (fst ci))"
  define c1 where "c1 = emit (Event_ScaleUpFailed ?gid n (errorCode_String (fst ci)) msg) csr"
  define c2 where "c2 = registerOrUpdateScaleUpNoLock E g (- n) t c1"
  let ?e = "\<lparr>ErrorClass = code_class (fst ci), ErrorCode = code_code (fst ci), ErrorMessage = msg\<rparr>"
  have pos: "0 < n" using assms(4) by (simp add: n_def)
  then have "IsNodeGroupScalingUp ?gid csr" "filter (\<lambda>i. \<not> ghas prev (Instance_Id i)) (snd ci) \<noteq> []"
    using assms(2,3) by (auto simp: IsNodeGroupScalingUp_def ghas_def n_def unseen_def)
  then have eq: "handle_error_code E g ms prev t ci csr = notifier_RegisterFailedScaleUp E g n ?e t c2"
    by (simp add: handle_error_code_def split_beta Let_def n_def unseen_def msg_def c1_def c2_def)
  have c1: "same_view csr c1" "scaleUpRequests c1 = scaleUpRequests csr" "csr_backoff c1 = csr_backoff csr"
    "observers c1 = observers csr" by (simp_all add: c1_def emit_def same_view_def)
  have c2: "c2 = c1\<lparr>scaleUpRequests := (if Increase r \<le> n then gdel ?gid (scaleUpRequests csr)
       else gput ?gid (r\<lparr>Increase := Increase r - n\<rparr>) (scaleUpRequests csr))\<rparr>"
    using assms(1,3) pos by (auto simp: c2_def registerOrUpdateScaleUpNoLock_def c1 Let_def)
  then have "same_view csr c2" using c1(1) by (simp add: same_view_def)
  then show "same_view csr (handle_error_code E g ms prev t ci csr)"
    unfolding eq by (rule same_view_trans [OF _ notifier_sel(1)])
  show "scaleUpRequests (handle_error_code E g ms prev t ci csr) =
      (if Increase r \<le> unseen prev (snd ci) then gdel ?gid (scaleUpRequests csr)
       else gput ?gid (r\<lparr>Increase := Increase r - unseen prev (snd ci)\<rparr>) (scaleUpRequests csr))"
    unfolding eq notifier_sel(2) by (simp add: c2 n_def)
  show "\<exists>e. csr_backoff (handle_error_code E g ms prev t ci csr) =
      exp_backoff.backoff_all (reported E (observers csr) g e) t (csr_backoff csr)"
    unfolding eq notifier_sel(3) by (rule exI [of _ ?e]) (simp add: c2 c1)
qed

lemma handle_error_code_seen:
  "unseen prev (snd ci) \<le> 0 \<Longrightarrow> handle_error_code E g ms prev t ci csr = csr"
  by (simp add: handle_error_code_def split_beta Let_def unseen_def)

definition total_unseen :: "(string, errorCode) gmap \<Rightarrow> (errorCode \<times> Instance list) list \<Rightarrow> int" where
  "total_unseen prev cs = sum_list (map (\<lambda>c. unseen prev (snd c)) cs)"

lemma total_unseen_nonneg [simp]: "0 \<le> total_unseen prev cs"
  unfolding total_unseen_def by (induction cs) auto

lemma handle_error_codes:
  assumes "GetMaxNodeProvisionTime E g = Inr d" and "areThereUpcomingNodesInNodeGroup (Id (cloudProvider E) g) csr"
    and "map_of (scaleUpRequests csr) (Id (cloudProvider E) g) = Some r" and "0 < Increase r"
  shows "map_of (scaleUpRequests (fold (handle_error_code E g ms prev t) cs csr)) k =
      (if k = Id (cloudProvider E) g
       then (if Increase r \<le> total_unseen prev cs then None else Some (r\<lparr>Increase := Increase r - total_unseen prev cs\<rparr>))
       else map_of (scaleUpRequests csr) k) \<and>
    (\<exists>fs. csr_backoff (fold (handle_error_code E g ms prev t) cs csr) = exp_backoff.backoff_all fs t (csr_backoff csr) \<and>
      (0 < total_unseen prev cs \<longrightarrow> (\<exists>e. set (reported E (observers csr) g e) \<subseteq> set fs)))"
  using assms(2-4)
proof (induction cs arbitrary: csr r)
  case Nil
  then show ?case by (auto simp: total_unseen_def intro: exI [of _ "[]"])
next
  case (Cons ci cs)
  let ?gid = "Id (cloudProvider E) g" and ?n = "unseen prev (snd ci)"
  have tot: "total_unseen prev (ci # cs) = ?n + total_unseen prev cs" by (simp add: total_unseen_def)
  show ?case
  proof (cases "?n \<le> 0")
    case True
    then have "?n = 0" using unseen_nonneg [of prev "snd ci"] by linarith
    then show ?thesis using Cons.IH [OF Cons.prems] True by (simp add: tot handle_error_code_seen)
  next
    case False
    then have n: "0 < ?n" by simp
    let ?c = "handle_error_code E g ms prev t ci csr"
    note S = handle_error_code_sel [OF assms(1) Cons.prems(1,2) n, of ms t]
    obtain e where e: "csr_backoff ?c = exp_backoff.backoff_all (reported E (observers csr) g e) t (csr_backoff csr)"
      using S(3) by blast
    show ?thesis
    proof (cases "Increase r \<le> ?n")
      case True
      then have "scaleUpRequests ?c = gdel ?gid (scaleUpRequests csr)" using S(2) by simp
      moreover have "fold (handle_error_code E g ms prev t) cs ?c = ?c"
        by (rule handle_no_request) (simp add: calculation)
      moreover have "Increase r \<le> total_unseen prev (ci # cs)"
        using True tot total_unseen_nonneg [of prev cs] by linarith
      ultimately show ?thesis using e
        by (auto intro: exI [of _ "reported E (observers csr) g e"])
    next
      case False
      let ?r = "r\<lparr>Increase := Increase r - ?n\<rparr>"
      have reqs: "scaleUpRequests ?c = gput ?gid ?r (scaleUpRequests csr)" using S(2) False by simp
      have "areThereUpcomingNodesInNodeGroup ?gid ?c"
        using Cons.prems(1) by (simp add: same_view_upcoming [OF S(1)])
      from Cons.IH [OF this, of ?r] obtain fs where
        I: "map_of (scaleUpRequests (fold (handle_error_code E g ms prev t) cs ?c)) k =
          (if k = ?gid then (if Increase ?r \<le> total_unseen prev cs then None
             else Some (?r\<lparr>Increase := Increase ?r - total_unseen prev cs\<rparr>)) else map_of (scaleUpRequests ?c) k)"
        and fs: "csr_backoff (fold (handle_error_code E g ms prev t) cs ?c) = exp_backoff.backoff_all fs t (csr_backoff ?c)"
        using reqs False by auto
      have "csr_backoff (fold (handle_error_code E g ms prev t) cs ?c) =
          exp_backoff.backoff_all (reported E (observers csr) g e @ fs) t (csr_backoff csr)"
        by (simp only: fs e backoff_all_append)
      then show ?thesis using I reqs tot
        by (auto simp: algebra_simps intro!: exI [of _ "reported E (observers csr) g e @ fs"] exI [of _ e])
    qed
  qed
qed

lemma total_unseen_mset:
  assumes "mset cs = mset byCode"
  shows "total_unseen prev cs = int (size (filter_mset (\<lambda>i. \<not> ghas prev (Instance_Id i)) (mset (concat (map snd byCode)))))"
proof -
  have "total_unseen prev cs = total_unseen prev byCode"
    unfolding total_unseen_def sum_mset_sum_list [symmetric] mset_map assms ..
  also have "\<dots> = int (size (filter_mset (\<lambda>i. \<not> ghas prev (Instance_Id i)) (mset (concat (map snd byCode)))))"
    by (induction byCode) (auto simp: total_unseen_def unseen_def simp flip: mset_filter)
  finally show ?thesis .
qed

section \<open>Upcoming nodes\<close>

definition upcoming_count :: "'g csr_env \<Rightarrow> time \<Rightarrow> 'g ClusterStateRegistry \<Rightarrow> 'g \<Rightarrow> int option" where
  "upcoming_count E now csr g =
     (let gid = Id (cloudProvider E) g;
          n = calculateUpcomingNodesInNodeGroup (gget zero_Readiness (perNodeGroupReadiness csr) gid)
                (gget zero_AcceptableRange (acceptableRanges csr) gid)
      in if IsUpcoming E g then
           (if fst (TargetSize (cloudProvider E) g) \<ge> 0 \<or> snd (TargetSize (cloudProvider E) g) \<noteq> None
            then Some (fst (TargetSize (cloudProvider E) g)) else None)
         else if 0 < n \<and> ghas (scaleUpRequests csr) gid \<and> \<not> IsBackedOff (BackoffStatusForNodeGroup E g now csr)
         then Some n else None)"

definition upcoming_step :: "'g csr_env \<Rightarrow> time \<Rightarrow> 'g ClusterStateRegistry \<Rightarrow>
    (string, int) gmap \<times> (string, string list) gmap \<Rightarrow> 'g \<Rightarrow> (string, int) gmap \<times> (string, string list) gmap" where
  "upcoming_step E now csr acc g =
     (case upcoming_count E now csr g of None \<Rightarrow> acc
      | Some n \<Rightarrow> (gput (Id (cloudProvider E) g) n (fst acc),
          if IsUpcoming E g then snd acc else gput (Id (cloudProvider E) g)
            (R_NotStarted (gget zero_Readiness (perNodeGroupReadiness csr) (Id (cloudProvider E) g))) (snd acc)))"

lemma GetUpcomingNodes_alt:
  "GetUpcomingNodes E now csr = foldl (upcoming_step E now csr) ([], []) (NodeGroups (cloudProvider E))"
proof -
  have "(\<lambda>(upcomingCounts, registeredNodeNames) nodeGroup.
        let gid = Id (cloudProvider E) nodeGroup in
        if IsUpcoming E nodeGroup then
          (let (target, err) = TargetSize (cloudProvider E) nodeGroup
           in if target \<ge> 0 \<or> err \<noteq> None then (gput gid target upcomingCounts, registeredNodeNames)
              else (upcomingCounts, registeredNodeNames))
        else
          (let readiness = gget zero_Readiness (perNodeGroupReadiness csr) gid;
               ar = gget zero_AcceptableRange (acceptableRanges csr) gid;
               newNodes = calculateUpcomingNodesInNodeGroup readiness ar
           in if newNodes \<le> 0 then (upcomingCounts, registeredNodeNames)
              else if \<not> ghas (scaleUpRequests csr) gid then (upcomingCounts, registeredNodeNames)
              else if IsBackedOff (BackoffStatusForNodeGroup E nodeGroup now csr) then (upcomingCounts, registeredNodeNames)
              else (gput gid newNodes upcomingCounts, gput gid (R_NotStarted readiness) registeredNodeNames))) =
      upcoming_step E now csr"
    by (auto simp: fun_eq_iff upcoming_step_def upcoming_count_def Let_def split_beta)
  then show ?thesis unfolding GetUpcomingNodes_def by simp
qed

lemma upcoming_fold:
  assumes "distinct (map (Id (cloudProvider E)) gs)"
  shows "map_of (fst (foldl (upcoming_step E now csr) acc gs)) k =
    (case find (\<lambda>g. Id (cloudProvider E) g = k) gs of None \<Rightarrow> map_of (fst acc) k
     | Some g \<Rightarrow> (case upcoming_count E now csr g of None \<Rightarrow> map_of (fst acc) k | Some n \<Rightarrow> Some n))"
  using assms
proof (induction gs arbitrary: acc)
  case (Cons g gs)
  have "find (\<lambda>h. Id (cloudProvider E) h = k) gs = None" if "Id (cloudProvider E) g = k"
    using Cons.prems that by (force simp: find_None_iff image_iff)
  then show ?case using Cons by (auto simp: upcoming_step_def split: option.splits)
qed simp

lemma find_id:
  "distinct (map f gs) \<Longrightarrow> g \<in> set gs \<Longrightarrow> find (\<lambda>h. f h = f g) gs = Some g"
  by (induction gs) (auto simp: image_iff)

section \<open>A concrete environment for the witnesses\<close>

text \<open>Node groups are their ids; group \<open>a\<close> has target size 3, group \<open>b\<close> target size 1.\<close>

definition demo_cp :: "string cloud_provider" where
  "demo_cp = \<lparr>Id = (\<lambda>g. g), MinSize = (\<lambda>_. 0), MaxSize = (\<lambda>_. 10),
     TargetSize = (\<lambda>g. (if g = ''a'' then 3 else 1, None)), Autoprovisioned = (\<lambda>_. False),
     Nodes = (\<lambda>_. ([], None)), NodeGroups = [''a'', ''b''],
     NodeGroupForNode = (\<lambda>n. (if Name n = ''n1'' then Some ''a'' else None, None)),
     HasInstance = (\<lambda>_. (True, None))\<rparr>"

definition demo_env :: "string csr_env" where
  "demo_env = \<lparr>cloudProvider = demo_cp, IsUpcoming = (\<lambda>_. False), GetMaxNodeProvisionTime = (\<lambda>_. Inr 100),
     GetMaxNodeStartupTime = (\<lambda>_. Inr 60), has_template = (\<lambda>_. True), DecreaseTargetSize = (\<lambda>_ _. None),
     range_codes = (\<lambda>m. m)\<rparr>"

definition demo_backoff :: "string exponentialBackoff" where
  "demo_backoff = NewExponentialBackoff 5 30 180 (\<lambda>g. g)"

definition demo_csr :: "string ClusterStateRegistry" where
  "demo_csr = NewNotifiedClusterStateRegistry \<lparr>MaxTotalUnreadyPercentage = 45, OkTotalUnreadyCount = 3\<rparr> demo_backoff []"

lemma demo_backoff_ok: "backoff_inv demo_backoff" "nodeGroupKey demo_backoff = (\<lambda>g. g)"
  by (simp_all add: demo_backoff_def backoff_inv_def backoff_config_ok_def NewExponentialBackoff_def)

lemma demo_inv: "csr_inv (\<lambda>g. g) demo_csr"
  unfolding demo_csr_def by (rule csr_inv_New(2) [OF demo_backoff_ok])

lemma demo_ids: "Id (cloudProvider demo_env) = (\<lambda>g. g)"
  by (simp add: demo_env_def demo_cp_def)

section \<open>Properties\<close>

text \<open>
  C24. In every state the registry can reach, each scale-up request asks for at least one node and
  is stored under the id of its group, and the backoff data is consistent.
\<close>

theorem reachable_requests_positive:
  assumes "backoff_inv b" and "nodeGroupKey b = gid"
    and "(csr_step gid)\<^sup>*\<^sup>* (NewNotifiedClusterStateRegistry config b obs) csr"
  shows "gm_wf (scaleUpRequests csr) \<and>
    (\<forall>k r. map_of (scaleUpRequests csr) k = Some r \<longrightarrow> 0 < Increase r \<and> gid (Up_NodeGroup r) = k) \<and>
    backoff_inv (csr_backoff csr)"
  using csr_inv_reachable [OF assms(3) csr_inv_New(2) [OF assms(1,2)]]
  by (auto simp: csr_inv_def reqs_ok_def req_ok_def dest!: map_of_SomeD)

theorem reachable_requests_positive_witness:
  "\<exists>r. map_of (scaleUpRequests (RegisterScaleUp demo_env ''a'' (-1) 7 (RegisterScaleUp demo_env ''a'' 2 5 demo_csr))) ''a'' = Some r
     \<and> 0 < Increase r \<and> Up_NodeGroup r = ''a''"
proof -
  let ?csr = "RegisterScaleUp demo_env ''a'' (-1) 7 (RegisterScaleUp demo_env ''a'' 2 5 demo_csr)"
  have "(csr_step (\<lambda>g. g))\<^sup>*\<^sup>* demo_csr ?csr"
    by (rule converse_rtranclp_into_rtranclp, rule csr_step.intros(1), rule demo_ids)
      (rule r_into_rtranclp, rule csr_step.intros(1), rule demo_ids)
  then have "\<forall>k r. map_of (scaleUpRequests ?csr) k = Some r \<longrightarrow> 0 < Increase r \<and> Up_NodeGroup r = k"
    using reachable_requests_positive [OF demo_backoff_ok] unfolding demo_csr_def by blast
  moreover have "map_option Increase (map_of (scaleUpRequests ?csr) ''a'') = Some 1" by code_simp
  ultimately show ?thesis by auto
qed

text \<open>
  C25. The acceptable range of every node group: for a running group the target size, reduced in
  \<open>MinNodes\<close> by the long unregistered nodes and the requested increase and raised in \<open>MaxNodes\<close> by the
  nodes being deleted; whatever the order in which the maps are visited.
\<close>

theorem acceptable_ranges_exact:
  assumes "csr_inv gid csr"
  shows "map_of (acceptableRanges (updateAcceptableRanges E ts csr)) k =
    (if is_running E k \<or> ghas (scaleUpRequests csr) k \<or>
        k \<in> (\<lambda>r. Id (cloudProvider E) (Down_NodeGroup r)) ` set (scaleDownRequests csr)
     then let target = (if is_running E k then gget 0 ts k else 0);
              missing = (if is_running E k then long_unregistered csr k else 0)
          in Some \<lparr>MinNodes = target - missing - requested csr k,
                   MaxNodes = target + being_deleted E csr k, CurrentTarget = target\<rparr>
     else None)"
  using updateAcceptableRanges_map_of assms unfolding csr_inv_def reqs_ok_def by blast

theorem acceptable_ranges_exact_witness:
  "map_of (acceptableRanges (updateAcceptableRanges demo_env [(''a'', 3), (''b'', 1)]
      (RegisterScaleDown ''a'' ''n7'' 5 50 (RegisterScaleUp demo_env ''a'' 2 5 demo_csr)))) ''a'' =
    Some \<lparr>MinNodes = 1, MaxNodes = 4, CurrentTarget = 3\<rparr>"
proof -
  let ?c = "RegisterScaleDown ''a'' ''n7'' 5 50 (RegisterScaleUp demo_env ''a'' 2 5 demo_csr)"
  have inv: "csr_inv (\<lambda>g. g) ?c"
    by (simp add: RegisterScaleUp_def csr_inv_register demo_inv demo_ids)
  have "is_running demo_env ''a''" by code_simp
  moreover have "requested ?c ''a'' = 2" "being_deleted demo_env ?c ''a'' = 1" "long_unregistered ?c ''a'' = 0"
    by code_simp+
  ultimately show ?thesis
    by (subst acceptable_ranges_exact [OF inv]) (simp add: gget_def)
qed

text \<open>
  C26. The readiness statistics partition the registered nodes: for the cluster and for every node
  group, each registered node is counted in exactly one of \<open>Ready\<close>, \<open>Unready\<close>, \<open>Deleted\<close>, \<open>NotStarted\<close>
  and \<open>Suspended\<close>; a group counts exactly the nodes the provider assigns to it, the total all nodes.
\<close>

theorem readiness_partitions_nodes:
  "(let r = totalReadiness (updateReadinessStats E t csr)
    in R_Registered r = map Name (csr_nodes csr) \<and>
       mset (R_Registered r) = mset (R_Ready r) + mset (R_Unready r) + mset (R_Deleted r) + mset (R_NotStarted r) + mset (R_Suspended r)) \<and>
   (let r = gget zero_Readiness (perNodeGroupReadiness (updateReadinessStats E t csr)) k
    in R_Registered r = map Name (filter (\<lambda>n. group_of E n = Some k) (csr_nodes csr)) \<and>
       mset (R_Registered r) = mset (R_Ready r) + mset (R_Unready r) + mset (R_Deleted r) + mset (R_NotStarted r) + mset (R_Suspended r))"
  using updateReadinessStats_spec(1,2) [where E = E and t = t and csr = csr]
    updateReadinessStats_spec(3,4) [where E = E and t = t and csr = csr and k = k]
  by (simp add: Let_def partitioned_def)

text \<open>
  C9. One pass over the scale-up requests: a request stays exactly if its group is still being
  created or has upcoming nodes and time left; each timed-out request is reverted by exactly one
  call that decreases the target size by its increase; and its group is backed off from then on,
  whatever the order of the requests.
\<close>

theorem timed_out_scale_ups_reverted_and_backed_off:
  assumes "csr_inv gid csr" and "Obs_ClusterState \<in> set (observers csr)"
  shows "map_of (scaleUpRequests (updateScaleRequests E t csr)) k =
      (case map_of (scaleUpRequests csr) k of None \<Rightarrow> None | Some r \<Rightarrow> if kept E t csr (k, r) then Some r else None) \<and>
    decreases (effects (updateScaleRequests E t csr)) = decreases (effects csr) @
      map (\<lambda>(k, r). (Up_NodeGroup r, - Increase r)) (filter (timed_out E t csr) (scaleUpRequests csr)) \<and>
    (\<forall>(k, r)\<in>set (scaleUpRequests csr). timed_out E t csr (k, r) \<longrightarrow> has_template E (Id (cloudProvider E) (Up_NodeGroup r)) \<longrightarrow>
       IsBackedOff (BackoffStatusForNodeGroup E (Up_NodeGroup r) t (updateScaleRequests E t csr)))"
proof -
  let ?reqs = "scaleUpRequests csr"
  let ?c1 = "csr\<lparr>csr_backoff := RemoveStaleBackoffData t (csr_backoff csr)\<rparr>"
  let ?c2 = "fold (updateScaleRequest E t) ?reqs ?c1"
  have wf: "gm_wf ?reqs" "\<forall>(k, r)\<in>set ?reqs. 0 < Increase r"
    using assms(1) by (auto simp: csr_inv_def reqs_ok_def req_ok_def)
  have v: "same_view csr ?c1" by (simp add: same_view_def)
  note F = updateScaleRequest_fold [OF wf, of ?c1 E t, unfolded same_view_verdicts [OF v]]
  have eq: "updateScaleRequests E t csr = ?c2\<lparr>scaleDownRequests := filter (\<lambda>r. ExpectedDeleteTime r > t) (scaleDownRequests ?c2)\<rparr>"
    by (simp add: updateScaleRequests_def Let_def)
  have inv: "backoff_inv (csr_backoff ?c1)" using assms(1) by (simp add: csr_inv_def backoff_inv_stale)
  have "IsBackedOff (BackoffStatusForNodeGroup E (Up_NodeGroup r) t (updateScaleRequests E t csr))"
    if kr: "(k, r) \<in> set ?reqs" "timed_out E t csr (k, r)" "has_template E (Id (cloudProvider E) (Up_NodeGroup r))" for k r
  proof -
    have "count_list (observers csr) Obs_ClusterState \<noteq> 0" using assms(2) by (simp add: count_list_0_iff)
    then have "(Up_NodeGroup r, timeout_error k r t) \<in> set (concat (map (timeout_reports E t csr) ?reqs))"
      using kr by (force simp: timeout_reports_def reported_def)
    from exp_backoff.backoff_all_backs_off [OF inv this]
    show ?thesis using F kr(3) by (simp add: BackoffStatusForNodeGroup_def eq)
  qed
  moreover have "map_of (scaleUpRequests (updateScaleRequests E t csr)) k =
      (case map_of ?reqs k of None \<Rightarrow> None | Some r \<Rightarrow> if kept E t csr (k, r) then Some r else None)"
    using F [of k] by (simp add: eq split: option.splits)
  moreover have "decreases (effects (updateScaleRequests E t csr)) = decreases (effects csr) @
      map (\<lambda>(k, r). (Up_NodeGroup r, - Increase r)) (filter (timed_out E t csr) ?reqs)"
    using F by (simp add: eq)
  ultimately show ?thesis by blast
qed

theorem timed_out_scale_ups_reverted_and_backed_off_witness:
  "let csr = updateAcceptableRanges demo_env [(''a'', 3), (''b'', 1)] (RegisterScaleUp demo_env ''a'' 2 5 demo_csr)
   in decreases (effects (updateScaleRequests demo_env 200 csr)) = [(''a'', -2)]"
proof -
  let ?c = "updateAcceptableRanges demo_env [(''a'', 3), (''b'', 1)] (RegisterScaleUp demo_env ''a'' 2 5 demo_csr)"
  have inv: "csr_inv (\<lambda>g. g) ?c"
    by (simp add: RegisterScaleUp_def csr_inv_register demo_inv demo_ids)
  have obs: "Obs_ClusterState \<in> set (observers ?c)" by code_simp
  have c: "decreases (effects ?c) = []" "scaleUpRequests ?c = [(''a'', \<lparr>Up_NodeGroup = ''a'', Up_Time = 5, ExpectedAddTime = 105, Increase = 2\<rparr>)]"
    "areThereUpcomingNodesInNodeGroup ''a'' ?c"
    by code_simp+
  have up: "IsUpcoming demo_env ''a'' = False" by code_simp
  show ?thesis
    using timed_out_scale_ups_reverted_and_backed_off [OF inv obs, where E = demo_env and t = 200 and k = "[]"] c up
    by (simp add: Let_def timed_out_def)
qed

definition new_failures :: "Instance list \<Rightarrow> Instance list \<Rightarrow> int" where
  "new_failures previous current = int (length (filter (\<lambda>i. creation_error i \<noteq> None \<and>
     (\<forall>j\<in>set previous. creation_error j \<noteq> None \<longrightarrow> Instance_Id j \<noteq> Instance_Id i)) current))"

lemma total_unseen_new_failures:
  assumes "buildInstanceToErrorCodeMappings current = (tc, ms, byCode)"
    and "buildInstanceToErrorCodeMappings previous = (prev, ms', bc')" and "mset cs = mset byCode"
  shows "total_unseen prev cs = new_failures previous current"
proof -
  have "total_unseen prev cs = int (size (filter_mset (\<lambda>i. \<not> ghas prev (Instance_Id i))
      (mset (filter (\<lambda>j. creation_error j \<noteq> None) current))))"
    by (simp only: total_unseen_mset [OF assms(3)] error_mappings(2) [OF assms(1)])
  also have "\<dots> = int (length (filter (\<lambda>i. \<not> ghas prev (Instance_Id i)) (filter (\<lambda>j. creation_error j \<noteq> None) current)))"
    by (simp only: mset_filter [symmetric] size_mset)
  also have "\<dots> = new_failures previous current"
    unfolding new_failures_def filter_filter error_mappings(1) [OF assms(2)]
    by (rule arg_cong [where f = "\<lambda>P. int (length (filter P current))"]) (auto simp: fun_eq_iff)
  finally show ?thesis .
qed

text \<open>
  C27. Creation errors reported by the provider for a group that is scaling up: the scale-up
  request shrinks by the number of instances whose error was not there before, or disappears when
  nothing is left of it; requests of other groups stay; and the group is backed off as soon as
  there is one new error. The result does not depend on the order of the error codes.
\<close>

theorem creation_errors_shrink_request:
  assumes "map_of (scaleUpRequests csr) (Id (cloudProvider E) g) = Some r" and "csr_inv gid csr"
    and "areThereUpcomingNodesInNodeGroup (Id (cloudProvider E) g) csr"
    and "GetMaxNodeProvisionTime E g = Inr d" and "\<forall>m. mset (range_codes E m) = mset m"
    and "Obs_ClusterState \<in> set (observers csr)" and "has_template E (Id (cloudProvider E) g)"
  shows "let csr' = handleInstanceCreationErrorsForNodeGroup E g current previous t csr; n = new_failures previous current
    in (\<forall>k. map_of (scaleUpRequests csr') k =
         (if k = Id (cloudProvider E) g
          then (if Increase r \<le> n then None else Some (r\<lparr>Increase := Increase r - n\<rparr>))
          else map_of (scaleUpRequests csr) k)) \<and>
       (0 < n \<longrightarrow> IsBackedOff (BackoffStatusForNodeGroup E g t csr'))"
proof -
  obtain tc ms byCode where cur: "buildInstanceToErrorCodeMappings current = (tc, ms, byCode)" by (metis prod_cases3)
  obtain prev ms' bc' where pre: "buildInstanceToErrorCodeMappings previous = (prev, ms', bc')" by (metis prod_cases3)
  let ?cs = "range_codes E byCode"
  let ?c = "fold (handle_error_code E g ms prev t) ?cs csr"
  have eq: "handleInstanceCreationErrorsForNodeGroup E g current previous t csr = ?c"
    by (simp add: handleInstanceCreationErrorsForNodeGroup_def cur pre)
  have n: "total_unseen prev ?cs = new_failures previous current"
    by (rule total_unseen_new_failures [OF cur pre]) (simp add: assms(5))
  have pos: "0 < Increase r" using assms(1,2) by (auto simp: csr_inv_def req_ok_def dest: reqs_ok_lookup)
  note H = handle_error_codes [OF assms(4,3,1) pos, of ms prev t ?cs, unfolded n]
  have "IsBackedOff (BackoffStatusForNodeGroup E g t ?c)" if new: "0 < new_failures previous current"
  proof -
    have "count_list (observers csr) Obs_ClusterState \<noteq> 0" using assms(6) by (simp add: count_list_0_iff)
    then have "(g, e) \<in> set (reported E (observers csr) g e)" for e using assms(7) by (simp add: reported_def)
    then obtain fs e where fs: "csr_backoff ?c = exp_backoff.backoff_all fs t (csr_backoff csr)" "(g, e) \<in> set fs"
      using H new by blast
    then show ?thesis
      using exp_backoff.backoff_all_backs_off [OF _ fs(2), of "csr_backoff csr" t] assms(2,7)
      by (simp add: BackoffStatusForNodeGroup_def csr_inv_def)
  qed
  then show ?thesis using H unfolding eq by (simp add: Let_def)
qed

theorem creation_errors_shrink_request_witness:
  "let csr = updateAcceptableRanges demo_env [(''a'', 3), (''b'', 1)] (RegisterScaleUp demo_env ''a'' 2 5 demo_csr);
       broken = (\<lambda>i. \<lparr>Instance_Id = i, Instance_Status = Some \<lparr>State = InstanceCreating,
         Status_ErrorInfo = Some \<lparr>ErrorClass = OutOfResourcesErrorClass, ErrorCode = ''QUOTA'', ErrorMessage = ''no quota''\<rparr>\<rparr>\<rparr>)
   in map_of (scaleUpRequests (handleInstanceCreationErrorsForNodeGroup demo_env ''a''
        [broken ''i1'', broken ''i2''] [broken ''i1''] 9 csr)) ''a'' =
      Some \<lparr>Up_NodeGroup = ''a'', Up_Time = 5, ExpectedAddTime = 105, Increase = 1\<rparr>"
proof -
  let ?c = "updateAcceptableRanges demo_env [(''a'', 3), (''b'', 1)] (RegisterScaleUp demo_env ''a'' 2 5 demo_csr)"
  let ?b = "\<lambda>i. \<lparr>Instance_Id = i, Instance_Status = Some \<lparr>State = InstanceCreating,
         Status_ErrorInfo = Some \<lparr>ErrorClass = OutOfResourcesErrorClass, ErrorCode = ''QUOTA'', ErrorMessage = ''no quota''\<rparr>\<rparr>\<rparr>"
  let ?r = "\<lparr>Up_NodeGroup = ''a'', Up_Time = 5, ExpectedAddTime = 105, Increase = 2\<rparr>"
  have req: "map_of (scaleUpRequests ?c) (Id (cloudProvider demo_env) ''a'') = Some ?r" by code_simp
  have inv: "csr_inv (\<lambda>g. g) ?c"
    by (simp add: RegisterScaleUp_def csr_inv_register demo_inv demo_ids)
  have up: "areThereUpcomingNodesInNodeGroup (Id (cloudProvider demo_env) ''a'') ?c" by code_simp
  have prov: "GetMaxNodeProvisionTime demo_env ''a'' = Inr 100" by code_simp
  have ord: "\<forall>m. mset (range_codes demo_env m) = mset m" by (simp add: demo_env_def)
  have obs: "Obs_ClusterState \<in> set (observers ?c)" by code_simp
  have tmp: "has_template demo_env (Id (cloudProvider demo_env) ''a'')" by code_simp
  have "new_failures [?b ''i1''] [?b ''i1'', ?b ''i2''] = 1" by code_simp
  then show ?thesis
    using creation_errors_shrink_request [OF req inv up prov ord obs tmp,
      where previous = "[?b ''i1'']" and current = "[?b ''i1'', ?b ''i2'']" and t = 9] demo_ids
    by (simp add: Let_def)
qed

text \<open>
  C28. \<open>GetUpcomingNodes\<close> reports, for a running node group, nodes exactly when its target exceeds the
  nodes it accounts for, a scale-up request is open and the group is not backed off, and the count
  is the difference; groups without an open request are never reported.
\<close>

theorem upcoming_nodes_exact:
  assumes "unique_ids (cloudProvider E)" and "g \<in> set (NodeGroups (cloudProvider E))" and "\<not> IsUpcoming E g"
  shows "map_of (fst (GetUpcomingNodes E now csr)) (Id (cloudProvider E) g) = Some n \<longleftrightarrow>
    n = calculateUpcomingNodesInNodeGroup (gget zero_Readiness (perNodeGroupReadiness csr) (Id (cloudProvider E) g))
          (gget zero_AcceptableRange (acceptableRanges csr) (Id (cloudProvider E) g)) \<and>
    0 < n \<and> HasNodeGroupStartedScaleUp (Id (cloudProvider E) g) csr \<and>
    \<not> IsBackedOff (BackoffStatusForNodeGroup E g now csr)"
proof -
  have "map_of (fst (GetUpcomingNodes E now csr)) (Id (cloudProvider E) g) = upcoming_count E now csr g"
    unfolding GetUpcomingNodes_alt using assms(1,2)
    by (subst upcoming_fold) (auto simp: unique_ids_def find_id split: option.splits)
  then show ?thesis using assms(3)
    by (auto simp: upcoming_count_def Let_def HasNodeGroupStartedScaleUp_def)
qed

theorem upcoming_nodes_exact_witness:
  "map_of (fst (GetUpcomingNodes demo_env 9 (updateAcceptableRanges demo_env [(''a'', 3), (''b'', 1)]
     (RegisterScaleUp demo_env ''a'' 2 5 demo_csr)))) ''a'' = Some 3"
proof -
  let ?c = "updateAcceptableRanges demo_env [(''a'', 3), (''b'', 1)] (RegisterScaleUp demo_env ''a'' 2 5 demo_csr)"
  have "unique_ids (cloudProvider demo_env)" "''a'' \<in> set (NodeGroups (cloudProvider demo_env))" "\<not> IsUpcoming demo_env ''a''"
    by code_simp+
  moreover have "calculateUpcomingNodesInNodeGroup (gget zero_Readiness (perNodeGroupReadiness ?c) ''a'')
      (gget zero_AcceptableRange (acceptableRanges ?c) ''a'') = 3"
    "HasNodeGroupStartedScaleUp ''a'' ?c" "\<not> IsBackedOff (BackoffStatusForNodeGroup demo_env ''a'' 9 ?c)"
    by code_simp+
  ultimately show ?thesis
    using upcoming_nodes_exact [of demo_env "''a''" 9 ?c 3] by (simp add: demo_ids)
qed

text \<open>
  Reading the instance cache before the update changes nothing but the cache.
\<close>

lemma getCloudProviderNodeInstances_frame:
  "\<exists>cache. snd (getCloudProviderNodeInstances E t csr) = csr\<lparr>instancesCache := cache\<rparr>"
proof -
  have "\<exists>cache. fold (\<lambda>g csr. if IsNodeGroupScalingUp (Id (cloudProvider E) g) csr
      then InvalidateCacheEntry E g csr else csr) gs csr = csr\<lparr>instancesCache := cache\<rparr>" for gs
  proof (induction gs arbitrary: csr)
    case Nil
    show ?case by (rule exI [of _ "instancesCache csr"]) simp
  next
    case (Cons g gs)
    show ?case
      using Cons.IH [of csr] Cons.IH [of "InvalidateCacheEntry E g csr"]
      by (auto simp: InvalidateCacheEntry_def)
  qed
  then obtain cache where "fold (\<lambda>g csr. if IsNodeGroupScalingUp (Id (cloudProvider E) g) csr
      then InvalidateCacheEntry E g csr else csr) (getRunningNodeGroups E) csr = csr\<lparr>instancesCache := cache\<rparr>" by blast
  then show ?thesis by (auto simp: getCloudProviderNodeInstances_def Let_def split_beta)
qed

definition range_of :: "'g csr_env \<Rightarrow> (string, int) gmap \<Rightarrow> 'g ClusterStateRegistry \<Rightarrow> string \<Rightarrow> AcceptableRange" where
  "range_of E ts csr k = \<lparr>MinNodes = gget 0 ts k - long_unregistered csr k - requested csr k,
     MaxNodes = gget 0 ts k + being_deleted E csr k, CurrentTarget = gget 0 ts k\<rparr>"

lemma range_of_cong:
  "scaleUpRequests c = scaleUpRequests c' \<Longrightarrow> scaleDownRequests c = scaleDownRequests c' \<Longrightarrow>
   perNodeGroupReadiness c = perNodeGroupReadiness c' \<Longrightarrow> range_of E ts c = range_of E ts c'"
  by (simp add: range_of_def requested_def being_deleted_def long_unregistered_def fun_eq_iff)

text \<open>
  C29. \<open>UpdateNodes\<close>: if the provider fails to report target sizes or instances, the error is returned
  and nothing but the instance cache has changed; otherwise no error is returned and the ranges of
  all running groups are the ones that belong to the requests left after the update, so requests
  that timed out or failed during the update no longer widen them.
\<close>

theorem update_nodes_all_or_nothing:
  assumes "csr_inv gid csr" and "Id (cloudProvider E) = gid"
  shows "case UpdateNodes E ns t csr of
      (Some err, csr') \<Rightarrow> \<exists>cache. csr' = csr\<lparr>instancesCache := cache\<rparr>
    | (None, csr') \<Rightarrow> snd (getTargetSizes (cloudProvider E)) = None \<and>
        (\<forall>k. is_running E k \<longrightarrow>
          map_of (acceptableRanges csr') k = Some (range_of E (fst (getTargetSizes (cloudProvider E))) csr' k))"
proof (cases "getTargetSizes (cloudProvider E)")
  case (Pair ts err)
  obtain res csr1 where inst: "getCloudProviderNodeInstances E t csr = (res, csr1)" by force
  note frame = getCloudProviderNodeInstances_frame [of E t csr, unfolded inst]
  have inv1: "csr_inv gid csr1" using csr_inv_getCloudProviderNodeInstances [OF assms(1), of E t] by (simp add: inst)
  show ?thesis
  proof (cases err)
    case (Some e)
    then show ?thesis using Pair by (simp add: UpdateNodes_def) (rule exI [of _ "instancesCache csr"], simp)
  next
    case None
    show ?thesis
    proof (cases res)
      case (Inl e)
      then show ?thesis using Pair None frame inst by (simp add: UpdateNodes_def)
    next
      case (Inr insts)
      let ?c = "updateClusterStateRegistry E ns insts t ts csr1"
      obtain c7 where c7: "csr_inv gid c7" and eq: "?c = updateIncorrectNodeGroupSizes E t (updateAcceptableRanges E ts c7)"
      proof -
        let ?base = "csr1\<lparr>csr_nodes := ns, previousCloudProviderNodeInstances := cloudProviderNodeInstances csr1,
                     cloudProviderNodeInstances := insts\<rparr>"
        have "csr_inv gid ?base" using inv1 by (simp add: csr_inv_def)
        then have "csr_inv gid (handleInstanceCreationErrors E t (updateScaleRequests E t (updateAcceptableRanges E ts
            (updateReadinessStats E t (updateCloudProviderDeletedNodes (getCloudProviderDeletedNodes E ns)
              (updateUnregisteredNodes (getNotRegisteredNodes ns insts t) ?base))))))"
          by (intro csr_inv_handleInstanceCreationErrors csr_inv_updateScaleRequests) (simp_all add: assms(2))
        from that [OF this] show thesis by (simp add: updateClusterStateRegistry_def Let_def)
      qed
      have "range_of E ts ?c = range_of E ts c7"
        by (rule range_of_cong) (simp_all add: eq updateIncorrectNodeGroupSizes_def updateAcceptableRanges_def Let_def)
      moreover have "acceptableRanges ?c = acceptableRanges (updateAcceptableRanges E ts c7)"
        by (simp add: eq updateIncorrectNodeGroupSizes_def)
      moreover have "map_of (acceptableRanges (updateAcceptableRanges E ts c7)) k = Some (range_of E ts c7 k)"
        if "is_running E k" for k
        using that c7 updateAcceptableRanges_map_of [of c7 E ts k]
        by (simp add: csr_inv_def reqs_ok_def range_of_def Let_def)
      ultimately show ?thesis
        using Pair None Inr inst by (simp add: UpdateNodes_def)
    qed
  qed
qed

theorem update_nodes_all_or_nothing_witness:
  "\<exists>csr'. UpdateNodes demo_env [] 50 (RegisterScaleUp demo_env ''a'' 2 5 demo_csr) = (None, csr') \<and>
     map_of (acceptableRanges csr') ''a'' = Some (range_of demo_env [(''a'', 3), (''b'', 1)] csr' ''a'')"
proof -
  let ?c = "RegisterScaleUp demo_env ''a'' 2 5 demo_csr"
  have inv: "csr_inv (\<lambda>g. g) ?c" by (simp add: RegisterScaleUp_def csr_inv_register demo_inv demo_ids)
  have ts: "getTargetSizes (cloudProvider demo_env) = ([(''a'', 3), (''b'', 1)], None)" and "is_running demo_env ''a''"
    by code_simp+
  moreover have "fst (getCloudProviderNodeInstances demo_env 50 ?c) = Inr [(''a'', []), (''b'', [])]" by code_simp
  then have "fst (UpdateNodes demo_env [] 50 ?c) = None"
    by (cases "getCloudProviderNodeInstances demo_env 50 ?c") (simp add: UpdateNodes_def ts)
  ultimately show ?thesis
    using update_nodes_all_or_nothing [OF inv demo_ids, of "[]" 50] by (cases "UpdateNodes demo_env [] 50 ?c") simp
qed

text \<open>
  The startup limit leaks from node to node: the closure that classifies nodes assigns the
  captured variable, so a node without a node group is judged by the limit of the group of the
  node before it. The same node is \<open>NotStarted\<close> or \<open>Unready\<close> depending on the order of the list.
\<close>

theorem startup_limit_leaks_between_nodes:
  assumes "NodeGroupForNode (cloudProvider E) n1 = (Some g, None)" and "GetMaxNodeStartupTime E g = Inr d"
    and "fst (NodeGroupForNode (cloudProvider E) n2) = None"
    and "CreationTimestamp n2 + d \<le> t" and "t < CreationTimestamp n2 + MaxNodeStartupTime"
    and "\<not> ghas (deletedNodes csr) (Name n2)" and "\<not> isSuspendedNode n2" and "\<not> Ready (fst (GetNodeReadiness n2))"
    and "unregisteredNodes csr = []"
  shows "Name n2 \<in> set (R_Unready (totalReadiness (updateReadinessStats E t (csr\<lparr>csr_nodes := [n1, n2]\<rparr>)))) \<and>
    Name n2 \<in> set (R_NotStarted (totalReadiness (updateReadinessStats E t (csr\<lparr>csr_nodes := [n2, n1]\<rparr>))))"
proof -
  let ?c = "\<lambda>ns. csr\<lparr>csr_nodes := ns\<rparr>"
  have s1: "startup_time_after E n1 x = d" and s2: "startup_time_after E n2 x = x" for x
    using assms(1-3) by (auto simp: startup_time_after_def split_beta split: option.splits)
  have unready: "Name n2 \<in> set (R_Unready (update_readiness (?c ns) t d r n2 (fst (GetNodeReadiness n2))))" for r ns
    using assms(4,6-8) by (auto simp: update_readiness_def Let_def)
  have start: "Name n2 \<in> set (R_NotStarted (update_readiness (?c ns) t MaxNodeStartupTime r n2 (fst (GetNodeReadiness n2))))" for r ns
    using assms(5-8) by (auto simp: update_readiness_def Let_def)
  have keep: "set (R_NotStarted r) \<subseteq> set (R_NotStarted (update_readiness c t d r n nr))" for r c n nr
    by (auto simp: update_readiness_def Let_def)
  have n2: "NodeGroupForNode (cloudProvider E) n2 = (None, snd (NodeGroupForNode (cloudProvider E) n2))"
    using assms(3) by (metis prod.collapse)
  have t1: "totalReadiness (updateReadinessStats E t (?c [n1, n2])) =
      update_readiness (?c [n1, n2]) t d (update_readiness (?c [n1, n2]) t d (zero_Readiness\<lparr>R_Time := t\<rparr>) n1 (fst (GetNodeReadiness n1)))
        n2 (fst (GetNodeReadiness n2))"
    using assms(9) by (simp add: updateReadinessStats_def readiness_node_def Let_def split_beta assms(1,3) s1 s2)
  have t2: "totalReadiness (updateReadinessStats E t (?c [n2, n1])) =
      update_readiness (?c [n2, n1]) t d (update_readiness (?c [n2, n1]) t MaxNodeStartupTime (zero_Readiness\<lparr>R_Time := t\<rparr>) n2
        (fst (GetNodeReadiness n2))) n1 (fst (GetNodeReadiness n1))"
    using assms(9) by (simp add: updateReadinessStats_def readiness_node_def Let_def split_beta assms(1,3) s1 s2)
  show ?thesis unfolding t1 t2 using unready subsetD [OF keep start] by blast
qed

theorem startup_limit_leaks_between_nodes_witness:
  "\<exists>n1 n2. R_Unready (totalReadiness (updateReadinessStats demo_env 100 (demo_csr\<lparr>csr_nodes := [n1, n2]\<rparr>))) \<noteq>
     R_Unready (totalReadiness (updateReadinessStats demo_env 100 (demo_csr\<lparr>csr_nodes := [n2, n1]\<rparr>)))"
proof -
  let ?n1 = "demo_node ''n1'' []" and ?n2 = "(demo_node ''n2'' [])\<lparr>Conditions := []\<rparr>"
  have "Name ?n2 \<in> set (R_Unready (totalReadiness (updateReadinessStats demo_env 100 (demo_csr\<lparr>csr_nodes := [?n1, ?n2]\<rparr>)))) \<and>
    Name ?n2 \<in> set (R_NotStarted (totalReadiness (updateReadinessStats demo_env 100 (demo_csr\<lparr>csr_nodes := [?n2, ?n1]\<rparr>))))"
    by (rule startup_limit_leaks_between_nodes [where g = "''a''" and d = 60]) code_simp+
  moreover have "R_Unready (totalReadiness (updateReadinessStats demo_env 100 (demo_csr\<lparr>csr_nodes := [?n2, ?n1]\<rparr>))) = []"
    by code_simp
  ultimately show ?thesis by (intro exI [of _ ?n1] exI [of _ ?n2]) auto
qed

text \<open>
  \<open>Recalculate\<close> goes on after an error: when the provider fails to report one target size, the
  registry installs ranges with target size 0 for every running group until the next update,
  although it only logs a warning.
\<close>

theorem recalculate_zeroes_targets_on_error:
  assumes "csr_inv gid csr" and "snd (getTargetSizes (cloudProvider E)) \<noteq> None" and "is_running E k"
  shows "\<exists>ar. map_of (acceptableRanges (Recalculate E csr)) k = Some ar \<and> CurrentTarget ar = 0"
proof -
  have "snd (getTargetSizes_loop cp gs m) \<noteq> None \<Longrightarrow> fst (getTargetSizes_loop cp gs m) = []" for cp :: "'a cloud_provider" and gs m
    by (induction gs arbitrary: m) (auto split: prod.splits option.splits)
  then have "fst (getTargetSizes (cloudProvider E)) = []" using assms(2) by (simp add: getTargetSizes_def)
  moreover have "gm_wf (scaleUpRequests csr)" using assms(1) by (simp add: csr_inv_def reqs_ok_def)
  ultimately show ?thesis
    using assms(3) updateAcceptableRanges_map_of [of csr E "[]" k]
    by (simp add: Recalculate_def split_beta Let_def)
qed

theorem recalculate_zeroes_targets_on_error_witness:
  "let E = demo_env\<lparr>cloudProvider := demo_cp\<lparr>TargetSize := (\<lambda>g. if g = ''b'' then (0, Some ErrNotImplemented) else (3, None))\<rparr>\<rparr>
   in \<exists>ar. map_of (acceptableRanges (Recalculate E demo_csr)) ''a'' = Some ar \<and> CurrentTarget ar = 0"
  unfolding Let_def
  by (rule recalculate_zeroes_targets_on_error [OF demo_inv]) code_simp+

end
