(* ===== verification/Cluster_Status.thy ===== *)
theory Cluster_Status
  imports Cluster_State_Props
begin

text \<open>
  The status the registry publishes (\<open>GetStatus\<close> and the builders of its conditions in
  src/pkg/clusterstate/clusterstate.go; types in src/pkg/clusterstate/api/types.go). All six
  builders keep the time of the last transition in the same way; the locale \<open>condition_builder\<close>
  states the rule once, and its lemma follows a condition over a history of probes.
\<close>

section \<open>Types\<close>

definition ClusterAutoscalerHealthy :: string where "ClusterAutoscalerHealthy = ''Healthy''"
definition ClusterAutoscalerUnhealthy :: string where "ClusterAutoscalerUnhealthy = ''Unhealthy''"
definition ClusterAutoscalerCandidatesPresent :: string where "ClusterAutoscalerCandidatesPresent = ''CandidatesPresent''"
definition ClusterAutoscalerNoCandidates :: string where "ClusterAutoscalerNoCandidates = ''NoCandidates''"
definition ClusterAutoscalerInProgress :: string where "ClusterAutoscalerInProgress = ''InProgress''"
definition ClusterAutoscalerNoActivity :: string where "ClusterAutoscalerNoActivity = ''NoActivity''"
definition ClusterAutoscalerBackoff :: string where "ClusterAutoscalerBackoff = ''Backoff''"

lemmas status_strings = ClusterAutoscalerHealthy_def ClusterAutoscalerUnhealthy_def
  ClusterAutoscalerCandidatesPresent_def ClusterAutoscalerNoCandidates_def ClusterAutoscalerInProgress_def
  ClusterAutoscalerNoActivity_def ClusterAutoscalerBackoff_def

record NodeCount =
  NC_Total :: int
  NC_Ready :: int
  NC_NotStarted :: int
  NC_Suspended :: int
  NC_BeingDeleted :: int
  NC_Unready :: int
  NC_ResourceUnready :: int
  NC_LongUnregistered :: int
  NC_Unregistered :: int

record ClusterHealthCondition =
  CH_Status :: string
  CH_NodeCounts :: NodeCount
  CH_LastProbeTime :: time
  CH_LastTransitionTime :: time

record NodeGroupHealthCondition =
  NH_Status :: string
  NH_NodeCounts :: NodeCount
  CloudProviderTarget :: int
  NH_MinSize :: int
  NH_MaxSize :: int
  NH_LastProbeTime :: time
  NH_LastTransitionTime :: time

record ClusterScaleUpCondition =
  CU_Status :: string
  CU_LastProbeTime :: time
  CU_LastTransitionTime :: time

record BackoffInfo =
  BI_ErrorCode :: string
  BI_ErrorMessage :: string

record NodeGroupScaleUpCondition =
  NU_Status :: string
  NU_BackoffInfo :: BackoffInfo
  NU_LastProbeTime :: time
  NU_LastTransitionTime :: time

record ScaleDownCondition =
  SD_Status :: string
  Candidates :: int
  SD_LastProbeTime :: time
  SD_LastTransitionTime :: time

record NodeGroupStatus =
  NG_Name :: string
  NG_Health :: NodeGroupHealthCondition
  NG_ScaleUp :: NodeGroupScaleUpCondition
  NG_ScaleDown :: ScaleDownCondition

record ClusterWideStatus =
  CW_Health :: ClusterHealthCondition
  CW_ScaleUp :: ClusterScaleUpCondition
  CW_ScaleDown :: ScaleDownCondition

record ClusterAutoscalerStatus =
  AutoscalerStatus :: string
  ClusterWide :: ClusterWideStatus
  Status_NodeGroups :: "NodeGroupStatus list"

definition zero_NodeCount :: NodeCount where
  "zero_NodeCount = \<lparr>NC_Total = 0, NC_Ready = 0, NC_NotStarted = 0, NC_Suspended = 0, NC_BeingDeleted = 0,
     NC_Unready = 0, NC_ResourceUnready = 0, NC_LongUnregistered = 0, NC_Unregistered = 0\<rparr>"

definition zero_ScaleDownCondition :: ScaleDownCondition where
  "zero_ScaleDownCondition = \<lparr>SD_Status = [], Candidates = 0, SD_LastProbeTime = zero_time, SD_LastTransitionTime = zero_time\<rparr>"

definition zero_NodeGroupStatus :: NodeGroupStatus where
  "zero_NodeGroupStatus = \<lparr>NG_Name = [],
     NG_Health = \<lparr>NH_Status = [], NH_NodeCounts = zero_NodeCount, CloudProviderTarget = 0, NH_MinSize = 0, NH_MaxSize = 0,
       NH_LastProbeTime = zero_time, NH_LastTransitionTime = zero_time\<rparr>,
     NG_ScaleUp = \<lparr>NU_Status = [], NU_BackoffInfo = \<lparr>BI_ErrorCode = [], BI_ErrorMessage = []\<rparr>,
       NU_LastProbeTime = zero_time, NU_LastTransitionTime = zero_time\<rparr>,
     NG_ScaleDown = zero_ScaleDownCondition\<rparr>"

section \<open>Builders\<close>

definition buildNodeCount :: "Readiness \<Rightarrow> NodeCount" where
  "buildNodeCount r =
     \<lparr>NC_Total = int (length (R_Registered r)), NC_Ready = int (length (R_Ready r)),
      NC_NotStarted = int (length (R_NotStarted r)), NC_Suspended = int (length (R_Suspended r)),
      NC_BeingDeleted = int (length (R_Deleted r)), NC_Unready = int (length (R_Unready r)),
      NC_ResourceUnready = int (length (R_ResourceUnready r)),
      NC_LongUnregistered = int (length (R_LongUnregistered r)), NC_Unregistered = int (length (R_Unregistered r))\<rparr>"

definition buildHealthStatusNodeGroup :: "bool \<Rightarrow> Readiness \<Rightarrow> AcceptableRange \<Rightarrow> int \<Rightarrow> int \<Rightarrow>
    NodeGroupHealthCondition \<Rightarrow> NodeGroupHealthCondition" where
  "buildHealthStatusNodeGroup isHealthy readiness acceptable minSize maxSize lastStatus =
     (let status = (if isHealthy then ClusterAutoscalerHealthy else ClusterAutoscalerUnhealthy)
      in \<lparr>NH_Status = status, NH_NodeCounts = buildNodeCount readiness, CloudProviderTarget = CurrentTarget acceptable,
          NH_MinSize = minSize, NH_MaxSize = maxSize, NH_LastProbeTime = R_Time readiness,
          NH_LastTransitionTime = (if status = NH_Status lastStatus then NH_LastTransitionTime lastStatus else R_Time readiness)\<rparr>)"

definition maxErrorMessageSize :: int where
  "maxErrorMessageSize = 500"

definition buildScaleUpStatusNodeGroup :: "'g csr_env \<Rightarrow> 'g \<Rightarrow> Readiness \<Rightarrow> time \<Rightarrow> 'g ClusterStateRegistry \<Rightarrow>
    NodeGroupScaleUpCondition \<Rightarrow> NodeGroupScaleUpCondition" where
  "buildScaleUpStatusNodeGroup E nodeGroup readiness now csr lastStatus =
     (let isScaleUpInProgress = IsNodeGroupScalingUp (Id (cloudProvider E) nodeGroup) csr;
          scaleUpSafety = NodeGroupScaleUpSafety E nodeGroup now csr;
          (status, info) =
            (if isScaleUpInProgress then (ClusterAutoscalerInProgress, \<lparr>BI_ErrorCode = [], BI_ErrorMessage = []\<rparr>)
             else if \<not> Healthy scaleUpSafety then (ClusterAutoscalerUnhealthy, \<lparr>BI_ErrorCode = [], BI_ErrorMessage = []\<rparr>)
             else if \<not> SafeToScale scaleUpSafety then
               (ClusterAutoscalerBackoff, \<lparr>BI_ErrorCode = ErrorCode (ErrorInfo (Safety_BackoffStatus scaleUpSafety)),
                  BI_ErrorMessage = the (truncateIfExceedMaxLength
                    (ErrorMessage (ErrorInfo (Safety_BackoffStatus scaleUpSafety))) maxErrorMessageSize)\<rparr>)
             else (ClusterAutoscalerNoActivity, \<lparr>BI_ErrorCode = [], BI_ErrorMessage = []\<rparr>))
      in \<lparr>NU_Status = status, NU_BackoffInfo = info, NU_LastProbeTime = R_Time readiness,
          NU_LastTransitionTime = (if status = NU_Status lastStatus then NU_LastTransitionTime lastStatus else R_Time readiness)\<rparr>)"

definition buildScaleDownStatusNodeGroup :: "string list \<Rightarrow> time \<Rightarrow> ScaleDownCondition \<Rightarrow> ScaleDownCondition" where
  "buildScaleDownStatusNodeGroup candidates lastProbed lastStatus =
     (let status = (if length candidates > 0 then ClusterAutoscalerCandidatesPresent else ClusterAutoscalerNoCandidates)
      in \<lparr>SD_Status = status, Candidates = int (length candidates), SD_LastProbeTime = lastProbed,
          SD_LastTransitionTime = (if status = SD_Status lastStatus then SD_LastTransitionTime lastStatus else lastProbed)\<rparr>)"

definition buildHealthStatusClusterwide :: "bool \<Rightarrow> Readiness \<Rightarrow> ClusterHealthCondition \<Rightarrow> ClusterHealthCondition" where
  "buildHealthStatusClusterwide isHealthy readiness lastStatus =
     (let status = (if isHealthy then ClusterAutoscalerHealthy else ClusterAutoscalerUnhealthy)
      in \<lparr>CH_Status = status, CH_NodeCounts = buildNodeCount readiness, CH_LastProbeTime = R_Time readiness,
          CH_LastTransitionTime = (if status = CH_Status lastStatus then CH_LastTransitionTime lastStatus else R_Time readiness)\<rparr>)"

fun anyScaleUpInProgress :: "NodeGroupStatus list \<Rightarrow> bool" where
  "anyScaleUpInProgress [] = False"
| "anyScaleUpInProgress (s # ss) =
     (if NU_Status (NG_ScaleUp s) = ClusterAutoscalerInProgress then True else anyScaleUpInProgress ss)"

definition buildScaleUpStatusClusterwide :: "NodeGroupStatus list \<Rightarrow> Readiness \<Rightarrow> ClusterScaleUpCondition \<Rightarrow>
    ClusterScaleUpCondition" where
  "buildScaleUpStatusClusterwide nodeGroupsStatuses readiness lastStatus =
     (let status = (if anyScaleUpInProgress nodeGroupsStatuses then ClusterAutoscalerInProgress else ClusterAutoscalerNoActivity)
      in \<lparr>CU_Status = status, CU_LastProbeTime = R_Time readiness,
          CU_LastTransitionTime = (if status = CU_Status lastStatus then CU_LastTransitionTime lastStatus else R_Time readiness)\<rparr>)"

definition buildScaleDownStatusClusterwide :: "(string, string list) gmap \<Rightarrow> time \<Rightarrow> ScaleDownCondition \<Rightarrow> ScaleDownCondition" where
  "buildScaleDownStatusClusterwide candidates lastProbed lastStatus =
     (let totalCandidates = sum_list (map (\<lambda>(_, val). int (length val)) candidates);
          status = (if totalCandidates > 0 then ClusterAutoscalerCandidatesPresent else ClusterAutoscalerNoCandidates)
      in \<lparr>SD_Status = status, Candidates = totalCandidates, SD_LastProbeTime = lastProbed,
          SD_LastTransitionTime = (if status = SD_Status lastStatus then SD_LastTransitionTime lastStatus else lastProbed)\<rparr>)"

definition GetStatus :: "'g csr_env \<Rightarrow> time \<Rightarrow> 'g ClusterStateRegistry \<Rightarrow> ClusterAutoscalerStatus \<Rightarrow> ClusterAutoscalerStatus" where
  "GetStatus E now csr lastStatus =
     (let nodeGroupsLastStatus = foldl (\<lambda>m s. gput (NG_Name s) s m) [] (Status_NodeGroups lastStatus);
          groups = map (\<lambda>nodeGroup.
            let gid = Id (cloudProvider E) nodeGroup;
                readiness = gget zero_Readiness (perNodeGroupReadiness csr) gid;
                acceptable = gget zero_AcceptableRange (acceptableRanges csr) gid;
                previous = gget zero_NodeGroupStatus nodeGroupsLastStatus gid
            in \<lparr>NG_Name = gid,
                NG_Health = buildHealthStatusNodeGroup (IsNodeGroupHealthy gid csr) readiness acceptable
                  (MinSize (cloudProvider E) nodeGroup) (MaxSize (cloudProvider E) nodeGroup) (NG_Health previous),
                NG_ScaleUp = buildScaleUpStatusNodeGroup E nodeGroup readiness now csr (NG_ScaleUp previous),
                NG_ScaleDown = buildScaleDownStatusNodeGroup (gget [] (candidatesForScaleDown csr) gid)
                  (lastScaleDownUpdateTime csr) (NG_ScaleDown previous)\<rparr>) (getRunningNodeGroups E)
      in \<lparr>AutoscalerStatus = ''Running'',
          ClusterWide = \<lparr>CW_Health = buildHealthStatusClusterwide (IsClusterHealthy csr) (totalReadiness csr) (CW_Health (ClusterWide lastStatus)),
            CW_ScaleUp = buildScaleUpStatusClusterwide groups (totalReadiness csr) (CW_ScaleUp (ClusterWide lastStatus)),
            CW_ScaleDown = buildScaleDownStatusClusterwide (candidatesForScaleDown csr) (lastScaleDownUpdateTime csr) (CW_ScaleDown (ClusterWide lastStatus))\<rparr>,
          Status_NodeGroups = groups\<rparr>)"

section \<open>The transition rule\<close>

locale condition_builder =
  fixes build :: "'i \<Rightarrow> 'c \<Rightarrow> 'c" and status :: "'c \<Rightarrow> string" and transition :: "'c \<Rightarrow> time"
    and status_of :: "'i \<Rightarrow> string" and probe_of :: "'i \<Rightarrow> time"
  assumes status_build: "status (build i c) = status_of i"
    and transition_build: "transition (build i c) = (if status_of i = status c then transition c else probe_of i)"
begin

definition history :: "'i list \<Rightarrow> 'c \<Rightarrow> 'c" where
  "history is c = foldl (\<lambda>c i. build i c) c is"

lemma history_append: "history (xs @ ys) c = history ys (history xs c)"
  by (simp add: history_def)

lemma history_same_status:
  "\<forall>i\<in>set is. status_of i = status c \<Longrightarrow> transition (history is c) = transition c"
proof (induction "is" arbitrary: c)
  case (Cons i "is")
  then show ?case using Cons.IH [of "build i c"]
    by (simp add: history_def status_build transition_build)
qed (simp add: history_def)

text \<open>The transition time is the probe time of the first probe that saw the present status.\<close>

lemma transition_is_first_probe:
  assumes "status (history before c) \<noteq> status_of i" and "\<forall>j\<in>set after. status_of j = status_of i"
  shows "transition (history (before @ i # after) c) = probe_of i"
proof -
  have "transition (history after (build i (history before c))) = transition (build i (history before c))"
    using assms(2) by (intro history_same_status) (simp add: status_build)
  then show ?thesis
    using assms(1) by (simp add: history_append) (simp add: history_def transition_build)
qed

end

interpretation ng_health: condition_builder
  "\<lambda>(isHealthy, readiness, acceptable, minSize, maxSize). buildHealthStatusNodeGroup isHealthy readiness acceptable minSize maxSize"
  NH_Status NH_LastTransitionTime
  "\<lambda>(isHealthy, _). if isHealthy then ClusterAutoscalerHealthy else ClusterAutoscalerUnhealthy"
  "\<lambda>(_, readiness, _). R_Time readiness"
  by unfold_locales (auto simp: buildHealthStatusNodeGroup_def Let_def)

interpretation ng_scale_down: condition_builder
  "\<lambda>(candidates, probed). buildScaleDownStatusNodeGroup candidates probed" SD_Status SD_LastTransitionTime
  "\<lambda>(candidates, _). if candidates \<noteq> [] then ClusterAutoscalerCandidatesPresent else ClusterAutoscalerNoCandidates" snd
  by unfold_locales (auto simp: buildScaleDownStatusNodeGroup_def Let_def)

interpretation cluster_health: condition_builder
  "\<lambda>(isHealthy, readiness). buildHealthStatusClusterwide isHealthy readiness" CH_Status CH_LastTransitionTime
  "\<lambda>(isHealthy, _). if isHealthy then ClusterAutoscalerHealthy else ClusterAutoscalerUnhealthy"
  "\<lambda>(_, readiness). R_Time readiness"
  by unfold_locales (auto simp: buildHealthStatusClusterwide_def Let_def)

interpretation cluster_scale_up: condition_builder
  "\<lambda>(groups, readiness). buildScaleUpStatusClusterwide groups readiness" CU_Status CU_LastTransitionTime
  "\<lambda>(groups, _). if anyScaleUpInProgress groups then ClusterAutoscalerInProgress else ClusterAutoscalerNoActivity"
  "\<lambda>(_, readiness). R_Time readiness"
  by unfold_locales (auto simp: buildScaleUpStatusClusterwide_def Let_def)

interpretation cluster_scale_down: condition_builder
  "\<lambda>(candidates, probed). buildScaleDownStatusClusterwide candidates probed" SD_Status SD_LastTransitionTime
  "\<lambda>(candidates, _). if 0 < sum_list (map (\<lambda>(_, val). int (length val)) candidates)
     then ClusterAutoscalerCandidatesPresent else ClusterAutoscalerNoCandidates" snd
  by unfold_locales (auto simp: buildScaleDownStatusClusterwide_def Let_def)

definition scale_up_status :: "'g csr_env \<times> 'g \<times> Readiness \<times> time \<times> 'g ClusterStateRegistry \<Rightarrow> string" where
  "scale_up_status = (\<lambda>(E, g, readiness, now, csr).
     let safety = NodeGroupScaleUpSafety E g now csr
     in if IsNodeGroupScalingUp (Id (cloudProvider E) g) csr then ClusterAutoscalerInProgress
        else if \<not> Healthy safety then ClusterAutoscalerUnhealthy
        else if \<not> SafeToScale safety then ClusterAutoscalerBackoff else ClusterAutoscalerNoActivity)"

fun probe_scale_up :: "'g csr_env \<times> 'g \<times> Readiness \<times> time \<times> 'g ClusterStateRegistry \<Rightarrow>
    NodeGroupScaleUpCondition \<Rightarrow> NodeGroupScaleUpCondition" where
  "probe_scale_up (E, g, readiness, now, csr) c = buildScaleUpStatusNodeGroup E g readiness now csr c"

lemma probe_scale_up_sel:
  "NU_Status (probe_scale_up i c) = scale_up_status i"
  "NU_LastTransitionTime (probe_scale_up i c) =
     (if scale_up_status i = NU_Status c then NU_LastTransitionTime c else (case i of (_, _, readiness, _) \<Rightarrow> R_Time readiness))"
proof -
  obtain E g r now csr where i: "i = (E, g, r, now, csr)" by (metis prod_cases5)
  let ?up = "IsNodeGroupScalingUp (Id (cloudProvider E) g) csr" and ?s = "NodeGroupScaleUpSafety E g now csr"
  show "NU_Status (probe_scale_up i c) = scale_up_status i"
    "NU_LastTransitionTime (probe_scale_up i c) =
     (if scale_up_status i = NU_Status c then NU_LastTransitionTime c else (case i of (_, _, readiness, _) \<Rightarrow> R_Time readiness))"
    unfolding i
    by (cases ?up; cases "Healthy ?s"; cases "SafeToScale ?s";
        simp add: buildScaleUpStatusNodeGroup_def scale_up_status_def Let_def)+
qed

interpretation ng_scale_up: condition_builder probe_scale_up NU_Status NU_LastTransitionTime
  scale_up_status "\<lambda>(_, _, readiness, _). R_Time readiness"
  by unfold_locales (rule probe_scale_up_sel)+

section \<open>Truncation\<close>

lemma truncate_bound:
  assumes "0 \<le> m"
  shows "\<exists>s'. truncateIfExceedMaxLength s m = Some s' \<and> int (length s') \<le> m"
  using assms by (auto simp: truncateIfExceedMaxLength_def Let_def messageTrancated_def)

lemma backoff_message_bound:
  "int (length (BI_ErrorMessage (NU_BackoffInfo (buildScaleUpStatusNodeGroup E g r now csr previous)))) \<le> maxErrorMessageSize"
proof -
  obtain s' where "truncateIfExceedMaxLength (ErrorMessage (ErrorInfo (Safety_BackoffStatus (NodeGroupScaleUpSafety E g now csr))))
      maxErrorMessageSize = Some s'" "int (length s') \<le> maxErrorMessageSize"
    using truncate_bound [of maxErrorMessageSize] by (auto simp: maxErrorMessageSize_def)
  then show ?thesis by (simp add: buildScaleUpStatusNodeGroup_def Let_def maxErrorMessageSize_def)
qed

lemma node_counts_add_up:
  assumes "partitioned r"
  shows "NC_Total (buildNodeCount r) = NC_Ready (buildNodeCount r) + NC_Unready (buildNodeCount r) +
    NC_BeingDeleted (buildNodeCount r) + NC_NotStarted (buildNodeCount r) + NC_Suspended (buildNodeCount r)"
proof -
  have "size (mset (R_Registered r)) = size (mset (R_Ready r) + mset (R_Unready r) + mset (R_Deleted r) +
      mset (R_NotStarted r) + mset (R_Suspended r))"
    using assms by (simp add: partitioned_def)
  then show ?thesis by (simp add: buildNodeCount_def)
qed

section \<open>Properties\<close>

text \<open>
  C31. Over any history of published scale-up conditions of a node group, the last transition time
  is the probe time of the first probe that saw the present status: probes that find the same
  status again never move it, a probe that finds another status always does.
\<close>

theorem scale_up_transition_time_is_first_probe:
  assumes "NU_Status (foldl (\<lambda>c i. probe_scale_up i c) c0 before) \<noteq>
      scale_up_status (E, g, r, now, csr)"
    and "\<forall>j\<in>set after. scale_up_status j = scale_up_status (E, g, r, now, csr)"
  shows "NU_LastTransitionTime (foldl (\<lambda>c i. probe_scale_up i c) c0
      (before @ (E, g, r, now, csr) # after)) = R_Time r"
  using ng_scale_up.transition_is_first_probe [of before c0 "(E, g, r, now, csr)" after] assms
  by (simp add: ng_scale_up.history_def)

theorem scale_up_transition_time_is_first_probe_witness:
  "NU_LastTransitionTime (foldl (\<lambda>c i. probe_scale_up i c)
      (NG_ScaleUp zero_NodeGroupStatus)
      ([] @ (demo_env, ''a'', zero_Readiness\<lparr>R_Time := 10\<rparr>, 10, demo_csr) #
       [(demo_env, ''a'', zero_Readiness\<lparr>R_Time := 20\<rparr>, 20, demo_csr)])) = 10"
proof -
  have "NU_LastTransitionTime (foldl (\<lambda>c i. probe_scale_up i c)
      (NG_ScaleUp zero_NodeGroupStatus)
      ([] @ (demo_env, ''a'', zero_Readiness\<lparr>R_Time := 10\<rparr>, 10, demo_csr) #
       [(demo_env, ''a'', zero_Readiness\<lparr>R_Time := 20\<rparr>, 20, demo_csr)])) = R_Time (zero_Readiness\<lparr>R_Time := 10\<rparr>)"
    by (rule scale_up_transition_time_is_first_probe) code_simp+
  then show ?thesis by simp
qed

text \<open>
  C32. The published status is well formed: one entry per running node group in the order of the
  provider; in every entry and for the cluster the node counts of the five states add up to the
  number of registered nodes; and a backoff message never exceeds 500 bytes.
\<close>

theorem published_status_well_formed:
  "let s = GetStatus E now (updateReadinessStats E t csr) previous;
       adds_up = (\<lambda>c. NC_Total c = NC_Ready c + NC_Unready c + NC_BeingDeleted c + NC_NotStarted c + NC_Suspended c)
   in map NG_Name (Status_NodeGroups s) = map (Id (cloudProvider E)) (getRunningNodeGroups E) \<and>
      adds_up (CH_NodeCounts (CW_Health (ClusterWide s))) \<and>
      list_all (\<lambda>ng. adds_up (NH_NodeCounts (NG_Health ng)) \<and>
         length (BI_ErrorMessage (NU_BackoffInfo (NG_ScaleUp ng))) \<le> 500) (Status_NodeGroups s)"
proof -
  note R = updateReadinessStats_spec(1,3) [where E = E and t = t and csr = csr]
  have "length (BI_ErrorMessage (NU_BackoffInfo (buildScaleUpStatusNodeGroup E g r now c l))) \<le> 500" for g r c l
    using backoff_message_bound [of E g r now c l] by (simp add: maxErrorMessageSize_def)
  then show ?thesis
    unfolding Let_def GetStatus_def
    by (simp add: buildHealthStatusNodeGroup_def buildHealthStatusClusterwide_def Let_def node_counts_add_up R comp_def list_all_iff)
qed

end
