(* ===== verification/Deletion_Tracker.thy ===== *)
theory Deletion_Tracker
  imports Cloud_Provider
begin

text \<open>
  Tracking of node deletions (src/pkg/core/scaledown/deletiontracker/nodedeletiontracker.go) over
  expiring lists (src/pkg/utils/expiring/list.go). The lock makes each operation atomic; the
  current time is an argument of the operations that read the clock.
\<close>

section \<open>Expiring lists\<close>

text \<open>A list of elements with the times at which they were added, oldest first.\<close>

type_synonym 'a expiring_list = "('a \<times> time) list"

definition ToSlice :: "'a expiring_list \<Rightarrow> 'a list" where
  "ToSlice e = map fst e"

definition ToSliceWithTimestamp :: "time \<Rightarrow> 'a expiring_list \<Rightarrow> 'a list \<times> time" where
  "ToSliceWithTimestamp now e = (if length e = 0 then ([], now) else (ToSlice e, snd (last e)))"

definition RegisterElement :: "time \<Rightarrow> 'a \<Rightarrow> 'a expiring_list \<Rightarrow> 'a expiring_list" where
  "RegisterElement now elem e = e @ [(elem, now)]"

fun DropNotNewerThan :: "time \<Rightarrow> 'a expiring_list \<Rightarrow> 'a expiring_list" where
  "DropNotNewerThan expiry [] = []"
| "DropNotNewerThan expiry (p # ps) = (if snd p > expiry then p # ps else DropNotNewerThan expiry ps)"

text \<open>With a clock that does not run backwards the list is sorted, and dropping is filtering.\<close>

definition in_order :: "'a expiring_list \<Rightarrow> bool" where
  "in_order e \<longleftrightarrow> sorted (map snd e)"

lemma DropNotNewerThan_filter:
  "in_order e \<Longrightarrow> DropNotNewerThan expiry e = filter (\<lambda>p. snd p > expiry) e"
proof (induction e)
  case (Cons p e)
  show ?case
  proof (cases "snd p > expiry")
    case True
    then have "\<forall>q\<in>set (p # e). snd q > expiry"
      using Cons.prems by (fastforce simp: in_order_def)
    then show ?thesis using True by simp
  next
    case False
    then show ?thesis using Cons by (simp add: in_order_def)
  qed
qed (simp add: in_order_def)

lemma in_order_Drop: "in_order e \<Longrightarrow> in_order (DropNotNewerThan expiry e)"
  by (simp add: DropNotNewerThan_filter) (simp add: in_order_def sorted_filter)

lemma in_order_Register:
  "in_order e \<Longrightarrow> \<forall>p\<in>set e. snd p \<le> now \<Longrightarrow> in_order (RegisterElement now x e)"
  by (auto simp: in_order_def RegisterElement_def sorted_append)

section \<open>The tracker\<close>

record ('p, 'r) NodeDeletionTracker =
  deletionsPerNodeGroup :: "(string, int) gmap"
  emptyNodeDeletions :: "(string, bool) gmap"
  drainedNodeDeletions :: "(string, bool) gmap"
  evictions :: "'p expiring_list"
  evictionsTTL :: duration
  deletionResults :: "(string \<times> 'r) expiring_list"

definition NewNodeDeletionTracker :: "duration \<Rightarrow> ('p, 'r) NodeDeletionTracker" where
  "NewNodeDeletionTracker podEvictionsTTL =
     \<lparr>deletionsPerNodeGroup = [], emptyNodeDeletions = [], drainedNodeDeletions = [], evictions = [],
      evictionsTTL = podEvictionsTTL, deletionResults = []\<rparr>"

definition StartDeletion :: "string \<Rightarrow> string \<Rightarrow> ('p, 'r) NodeDeletionTracker \<Rightarrow> ('p, 'r) NodeDeletionTracker" where
  "StartDeletion nodeGroupId nodeName n =
     n\<lparr>deletionsPerNodeGroup := gput nodeGroupId (gget 0 (deletionsPerNodeGroup n) nodeGroupId + 1) (deletionsPerNodeGroup n),
       emptyNodeDeletions := gput nodeName True (emptyNodeDeletions n)\<rparr>"

definition StartDeletionWithDrain :: "string \<Rightarrow> string \<Rightarrow> ('p, 'r) NodeDeletionTracker \<Rightarrow> ('p, 'r) NodeDeletionTracker" where
  "StartDeletionWithDrain nodeGroupId nodeName n =
     n\<lparr>deletionsPerNodeGroup := gput nodeGroupId (gget 0 (deletionsPerNodeGroup n) nodeGroupId + 1) (deletionsPerNodeGroup n),
       drainedNodeDeletions := gput nodeName True (drainedNodeDeletions n)\<rparr>"

definition EndDeletion :: "time \<Rightarrow> string \<Rightarrow> string \<Rightarrow> 'r \<Rightarrow> ('p, 'r) NodeDeletionTracker \<Rightarrow> ('p, 'r) NodeDeletionTracker" where
  "EndDeletion now nodeGroupId nodeName result n =
     (let n1 = n\<lparr>deletionResults := RegisterElement now (nodeName, result) (deletionResults n)\<rparr>
      in if \<not> ghas (deletionsPerNodeGroup n1) nodeGroupId then n1
         else (let v = gget 0 (deletionsPerNodeGroup n1) nodeGroupId - 1;
                   m1 = gput nodeGroupId v (deletionsPerNodeGroup n1);
                   m2 = (if v \<le> 0 then gdel nodeGroupId m1 else m1)
               in n1\<lparr>deletionsPerNodeGroup := m2, emptyNodeDeletions := gdel nodeName (emptyNodeDeletions n1),
                     drainedNodeDeletions := gdel nodeName (drainedNodeDeletions n1)\<rparr>))"

definition mapKeysSlice :: "(string, bool) gmap \<Rightarrow> string list" where
  "mapKeysSlice m = map fst m"

definition DeletionsInProgress :: "('p, 'r) NodeDeletionTracker \<Rightarrow> string list \<times> string list" where
  "DeletionsInProgress n = (mapKeysSlice (emptyNodeDeletions n), mapKeysSlice (drainedNodeDeletions n))"

definition RegisterEviction :: "time \<Rightarrow> 'p \<Rightarrow> ('p, 'r) NodeDeletionTracker \<Rightarrow> ('p, 'r) NodeDeletionTracker" where
  "RegisterEviction now pod n = n\<lparr>evictions := RegisterElement now pod (evictions n)\<rparr>"

definition RecentEvictions :: "time \<Rightarrow> ('p, 'r) NodeDeletionTracker \<Rightarrow> 'p list \<times> ('p, 'r) NodeDeletionTracker" where
  "RecentEvictions now n =
     (let n1 = n\<lparr>evictions := DropNotNewerThan (now - evictionsTTL n) (evictions n)\<rparr>
      in (ToSlice (evictions n1), n1))"

definition DeletionsCount :: "string \<Rightarrow> ('p, 'r) NodeDeletionTracker \<Rightarrow> int" where
  "DeletionsCount nodeGroupId n = gget 0 (deletionsPerNodeGroup n) nodeGroupId"

definition DeletionResults :: "time \<Rightarrow> ('p, 'r) NodeDeletionTracker \<Rightarrow> (string, 'r) gmap \<times> time" where
  "DeletionResults now n =
     (let (els, ts) = ToSliceWithTimestamp now (deletionResults n)
      in (foldl (\<lambda>drs (nodeName, result). gput nodeName result drs) [] els, ts))"

definition ClearResultsNotNewerThan :: "time \<Rightarrow> ('p, 'r) NodeDeletionTracker \<Rightarrow> ('p, 'r) NodeDeletionTracker" where
  "ClearResultsNotNewerThan t n = n\<lparr>deletionResults := DropNotNewerThan t (deletionResults n)\<rparr>"

definition Tracker_Snapshot :: "time \<Rightarrow> ('p, 'r) NodeDeletionTracker \<Rightarrow>
    ('p, 'r) NodeDeletionTracker \<times> ('p, 'r) NodeDeletionTracker" where
  "Tracker_Snapshot now n =
     (let n1 = n\<lparr>evictions := DropNotNewerThan (now - evictionsTTL n) (evictions n)\<rparr>;
          s = NewNodeDeletionTracker (evictionsTTL n1);
          copy = (\<lambda>m. foldl (\<lambda>c (k, v). gput k v c) [] m)
      in (s\<lparr>emptyNodeDeletions := copy (emptyNodeDeletions n1),
            drainedNodeDeletions := copy (drainedNodeDeletions n1),
            deletionsPerNodeGroup := foldl (\<lambda>c (k, v). gput k v c) [] (deletionsPerNodeGroup n1),
            evictions := foldl (\<lambda>e p. RegisterElement now p e) [] (ToSlice (evictions n1)),
            deletionResults := foldl (\<lambda>e r. RegisterElement now r e) [] (ToSlice (deletionResults n1))\<rparr>, n1))"

section \<open>The tracker against a set of deletions\<close>

text \<open>
  The specification: the set of deletions in progress, each a node with its group and whether it
  is drained. The actuator starts a deletion of a node that is not being deleted and ends one
  that was started.
\<close>

datatype deletion_op = Start string string | Start_Drain string string | End string string

type_synonym deletions = "(string \<times> string \<times> bool) set"

fun spec_step :: "deletion_op \<Rightarrow> deletions \<Rightarrow> deletions" where
  "spec_step (Start g m) S = insert (g, m, False) S"
| "spec_step (Start_Drain g m) S = insert (g, m, True) S"
| "spec_step (End g m) S = S - {(g, m, False), (g, m, True)}"

fun allowed :: "deletion_op \<Rightarrow> deletions \<Rightarrow> bool" where
  "allowed (Start g m) S \<longleftrightarrow> (\<forall>g' d. (g', m, d) \<notin> S)"
| "allowed (Start_Drain g m) S \<longleftrightarrow> (\<forall>g' d. (g', m, d) \<notin> S)"
| "allowed (End g m) S \<longleftrightarrow> (\<exists>d. (g, m, d) \<in> S)"

fun spec_run :: "deletion_op list \<Rightarrow> deletions \<Rightarrow> deletions option" where
  "spec_run [] S = Some S"
| "spec_run (op # ops) S = (if allowed op S then spec_run ops (spec_step op S) else None)"

fun tracker_step :: "(time \<times> 'r) \<Rightarrow> deletion_op \<Rightarrow> ('p, 'r) NodeDeletionTracker \<Rightarrow> ('p, 'r) NodeDeletionTracker" where
  "tracker_step _ (Start g m) n = StartDeletion g m n"
| "tracker_step _ (Start_Drain g m) n = StartDeletionWithDrain g m n"
| "tracker_step (t, r) (End g m) n = EndDeletion t g m r n"

definition group_deletions :: "deletions \<Rightarrow> string \<Rightarrow> (string \<times> bool) set" where
  "group_deletions S g = {(m, d). (g, m, d) \<in> S}"

definition tracks :: "('p, 'r) NodeDeletionTracker \<Rightarrow> deletions \<Rightarrow> bool" where
  "tracks n S \<longleftrightarrow> finite S \<and> inj_on (\<lambda>(g, m, d). m) S \<and>
     (\<forall>g. map_of (deletionsPerNodeGroup n) g =
        (let c = int (card (group_deletions S g)) in if c = 0 then None else Some c)) \<and>
     (\<forall>m. ghas (emptyNodeDeletions n) m \<longleftrightarrow> (\<exists>g. (g, m, False) \<in> S)) \<and>
     (\<forall>m. ghas (drainedNodeDeletions n) m \<longleftrightarrow> (\<exists>g. (g, m, True) \<in> S)) \<and>
     gm_wf (emptyNodeDeletions n) \<and> gm_wf (drainedNodeDeletions n)"

lemma tracks_New: "tracks (NewNodeDeletionTracker ttl) {}"
  by (simp add: tracks_def NewNodeDeletionTracker_def group_deletions_def)

lemma finite_group_deletions: "finite S \<Longrightarrow> finite (group_deletions S g)"
proof -
  assume "finite S"
  moreover have "group_deletions S g \<subseteq> snd ` S" by (force simp: group_deletions_def)
  ultimately show ?thesis by (meson finite_imageI finite_subset)
qed

lemma group_deletions_insert:
  "group_deletions (insert (g, m, d) S) g' = (if g' = g then insert (m, d) (group_deletions S g') else group_deletions S g')"
  by (auto simp: group_deletions_def)

lemma card_start:
  assumes "finite S" and "\<forall>g' d. (g', m, d) \<notin> S"
  shows "int (card (group_deletions (insert (g, m, d) S) g')) =
    int (card (group_deletions S g')) + (if g' = g then 1 else 0)"
  using assms finite_group_deletions [OF assms(1)]
  by (auto simp: group_deletions_insert card_insert_if) (auto simp: group_deletions_def)

lemma tracks_start:
  assumes "tracks n S" and "\<forall>g' d. (g', m, d) \<notin> S"
  shows "tracks (StartDeletion g m n) (insert (g, m, False) S)"
    and "tracks (StartDeletionWithDrain g m n) (insert (g, m, True) S)"
proof -
  have fin: "finite S" and inj: "inj_on (\<lambda>(g, m, d). m) S" using assms(1) by (auto simp: tracks_def)
  have inj': "inj_on (\<lambda>(g, m, d). m) (insert (g, m, d) S)" for d
    using inj assms(2) by (auto simp: inj_on_def)
  have cnt: "gget 0 (deletionsPerNodeGroup n) g' = int (card (group_deletions S g'))" for g'
    using assms(1) by (simp add: tracks_def gget_def Let_def)
  have mp: "map_of (gput g (gget 0 (deletionsPerNodeGroup n) g + 1) (deletionsPerNodeGroup n)) g' =
      (let c = int (card (group_deletions (insert (g, m, d) S) g')) in if c = 0 then None else Some c)" for g' d
    using assms(1) card_start [OF fin assms(2), of g d g'] by (simp add: tracks_def cnt Let_def)
  show "tracks (StartDeletion g m n) (insert (g, m, False) S)"
    "tracks (StartDeletionWithDrain g m n) (insert (g, m, True) S)"
    using assms(1) inj' mp by (auto simp: tracks_def StartDeletion_def StartDeletionWithDrain_def)
qed

lemma tracks_end:
  assumes "tracks n S" and "(g, m, d) \<in> S"
  shows "tracks (EndDeletion t g m r n) (S - {(g, m, False), (g, m, True)})"
proof -
  let ?S = "S - {(g, m, False), (g, m, True)}"
  have fin: "finite S" and inj: "inj_on (\<lambda>(g, m, d). m) S" using assms(1) by (auto simp: tracks_def)
  have only: "(g', m, d') \<in> S \<Longrightarrow> g' = g \<and> d' = d" for g' d'
    using inj_onD [OF inj, of "(g', m, d')" "(g, m, d)"] assms(2) by auto
  have grp: "group_deletions ?S g' = (if g' = g then group_deletions S g' - {(m, d)} else group_deletions S g')" for g'
    using only by (auto simp: group_deletions_def)
  have mem: "(m, d) \<in> group_deletions S g" using assms(2) by (simp add: group_deletions_def)
  have card: "int (card (group_deletions ?S g')) = int (card (group_deletions S g')) - (if g' = g then 1 else 0)" for g'
    using mem finite_group_deletions [OF fin, of g]
    by (simp add: grp card_Diff_singleton) (metis One_nat_def Suc_leI card_gt_0_iff empty_iff of_nat_1 of_nat_diff)
  have pos: "0 < card (group_deletions S g)"
    using mem finite_group_deletions [OF fin, of g] by (auto simp: card_gt_0_iff)
  have cnt: "map_of (deletionsPerNodeGroup n) g' =
      (let c = int (card (group_deletions S g')) in if c = 0 then None else Some c)" for g'
    using assms(1) by (simp add: tracks_def)
  have has: "ghas (deletionsPerNodeGroup n) g" "gget 0 (deletionsPerNodeGroup n) g = int (card (group_deletions S g))"
    using cnt [of g] pos by (simp_all add: ghas_def gget_def Let_def)
  have inj': "inj_on (\<lambda>(g, m, d). m) ?S" using inj by (rule inj_on_subset) auto
  show ?thesis
    using assms(1) fin inj' has pos card cnt only
    by (auto simp: tracks_def EndDeletion_def Let_def)
qed

section \<open>Properties\<close>

definition tracker_run :: "(time \<times> 'r) list \<Rightarrow> deletion_op list \<Rightarrow> ('p, 'r) NodeDeletionTracker \<Rightarrow> ('p, 'r) NodeDeletionTracker" where
  "tracker_run trs ops n = foldl (\<lambda>n (tr, op). tracker_step tr op n) n (zip trs ops)"

lemma tracks_step: "tracks n S \<Longrightarrow> allowed op S \<Longrightarrow> tracks (tracker_step tr op n) (spec_step op S)"
  by (cases tr; cases op) (auto simp: tracks_start tracks_end)

lemma tracks_run:
  "tracks n S \<Longrightarrow> spec_run ops S = Some S' \<Longrightarrow> length trs = length ops \<Longrightarrow> tracks (tracker_run trs ops n) S'"
proof (induction ops arbitrary: trs n S)
  case (Cons op ops)
  then obtain tr trs' where trs: "trs = tr # trs'" by (cases trs) auto
  have al: "allowed op S" and run: "spec_run ops (spec_step op S) = Some S'"
    using Cons.prems(2) by (auto split: if_splits)
  show ?case
    using Cons.IH [OF tracks_step [OF Cons.prems(1) al, of tr] run, of trs'] Cons.prems(3) trs
    by (simp add: tracker_run_def)
qed (simp add: tracker_run_def)

text \<open>
  C16. The deletion tracker refines the set of deletions in progress: after any sequence of
  deletions that start on nodes not being deleted and end after they started, the count of each
  node group is the number of its deletions in progress, and the two lists hold exactly the nodes
  being deleted without and with a drain, without duplicates.
\<close>

theorem deletion_tracker_counts_deletions:
  fixes trs :: "(time \<times> 'r) list"
  assumes "spec_run ops {} = Some S" and "length trs = length ops"
  shows "let n = tracker_run trs ops (NewNodeDeletionTracker ttl :: ('p, 'r) NodeDeletionTracker)
    in DeletionsCount g n = int (card {m. (\<exists>d. (g, m, d) \<in> S)}) \<and>
       set (fst (DeletionsInProgress n)) = {m. \<exists>g. (g, m, False) \<in> S} \<and>
       set (snd (DeletionsInProgress n)) = {m. \<exists>g. (g, m, True) \<in> S} \<and>
       distinct (fst (DeletionsInProgress n)) \<and> distinct (snd (DeletionsInProgress n))"
proof -
  let ?n = "tracker_run trs ops (NewNodeDeletionTracker ttl :: ('p, 'r) NodeDeletionTracker)"
  have T: "tracks ?n S" by (rule tracks_run [OF tracks_New assms])
  then have inj: "inj_on (\<lambda>(g, m, d). m) S" unfolding tracks_def by blast
  have "fst ` group_deletions S g = {m. \<exists>d. (g, m, d) \<in> S}" by (force simp: group_deletions_def)
  moreover have "inj_on fst (group_deletions S g)"
    using inj by (fastforce simp: inj_on_def group_deletions_def)
  ultimately have "card {m. \<exists>d. (g, m, d) \<in> S} = card (group_deletions S g)" by (metis card_image)
  moreover have "set (mapKeysSlice m) = {k. ghas m k}" for m by (auto simp: mapKeysSlice_def ghas_iff)
  moreover have "gm_wf m \<Longrightarrow> distinct (mapKeysSlice m)" for m by (simp add: mapKeysSlice_def gm_wf_def)
  ultimately show ?thesis
    using T by (auto simp: tracks_def DeletionsCount_def DeletionsInProgress_def gget_def Let_def)
qed

theorem deletion_tracker_counts_deletions_witness:
  "DeletionsCount ''g'' (tracker_run [(1, True), (2, True), (3, False)]
      [Start ''g'' ''n1'', Start_Drain ''g'' ''n2'', End ''g'' ''n1'']
      (NewNodeDeletionTracker 5 :: (unit, bool) NodeDeletionTracker)) = 1"
proof -
  have run: "spec_run [Start ''g'' ''n1'', Start_Drain ''g'' ''n2'', End ''g'' ''n1''] {} = Some {(''g'', ''n2'', True)}"
    by auto
  have "{m. \<exists>d. (''g'', m, d) \<in> {(''g'', ''n2'', True)}} = {''n2''}" by auto
  then show ?thesis
    by (intro trans [OF deletion_tracker_counts_deletions [OF run, unfolded Let_def, THEN conjunct1]]) simp_all
qed



end
