(* ===== verification/Scale_Down_Budgets.thy ===== *)
theory Scale_Down_Budgets
  imports Deletion_Tracker
begin

text \<open>
  Scale-down budgets (src/pkg/core/scaledown/budgets/budgets.go): how many of the nodes chosen for
  deletion may be deleted in parallel. Node groups that scale only between zero and their maximal
  size (atomic groups) are deleted as a whole.
\<close>

section \<open>Model\<close>

record 'g NodeGroupView =
  Group :: 'g
  View_Nodes :: "node list"
  BatchSize :: int

text \<open>
  What the processor reads from its context: the provider, the options of a group (\<open>None\<close> for a nil
  pointer, otherwise its \<open>ZeroOrMaxNodeScaling\<close>), the two limits and the nodes of the snapshot.
\<close>

record 'g budget_env =
  b_provider :: "'g cloud_provider"
  GetOptions :: "'g \<Rightarrow> bool option \<times> cp_error option"
  MaxScaleDownParallelism :: int
  MaxDrainParallelism :: int
  allNodes :: "node list"

definition ParseBool :: "string \<Rightarrow> bool option" where
  "ParseBool s = (if s \<in> {''1'', ''t'', ''T'', ''TRUE'', ''true'', ''True''} then Some True
     else if s \<in> {''0'', ''f'', ''F'', ''FALSE'', ''false'', ''False''} then Some False else None)"

definition NodeUpcomingAnnotation :: string where
  "NodeUpcomingAnnotation = ''cluster-autoscaler.k8s.io/upcoming-node''"

definition getAllRegisteredNodesForNodeGroup :: "'g budget_env \<Rightarrow> 'g \<Rightarrow> cp_error + node list" where
  "getAllRegisteredNodesForNodeGroup B nodeGroup =
     (case Nodes (b_provider B) nodeGroup of
        (_, Some err) \<Rightarrow> Inl err
      | (is, None) \<Rightarrow>
          Inr (filter (\<lambda>node. \<not> (case map_of (Annotations node) NodeUpcomingAnnotation of
                 None \<Rightarrow> False | Some val \<Rightarrow> ParseBool val = Some True) \<and>
               ProviderID node \<in> set (map Instance_Id is)) (allNodes B)))"

definition group_step :: "'g budget_env \<Rightarrow> node \<Rightarrow> (string, nat) gmap \<times> 'g NodeGroupView list \<Rightarrow>
    (string, nat) gmap \<times> 'g NodeGroupView list" where
  "group_step B node acc =
     (let (groupMap, grouped) = acc; (nodeGroup, err) = NodeGroupForNode (b_provider B) node
      in case nodeGroup of
           None \<Rightarrow> acc
         | Some g \<Rightarrow>
             if err \<noteq> None then acc
             else (let gid = Id (b_provider B) g in
               case map_of groupMap gid of
                 Some idx \<Rightarrow> (groupMap, grouped[idx := (grouped ! idx)\<lparr>View_Nodes := View_Nodes (grouped ! idx) @ [node]\<rparr>])
               | None \<Rightarrow> (gput gid (length grouped) groupMap,
                          grouped @ [\<lparr>Group = g, View_Nodes = [node], BatchSize = 0\<rparr>])))"

definition group_views :: "'g budget_env \<Rightarrow> node list \<Rightarrow> 'g NodeGroupView list" where
  "group_views B nodes = snd (fold (group_step B) nodes ([], []))"

fun categorize :: "'g budget_env \<Rightarrow> 'g NodeGroupView list \<Rightarrow> 'g NodeGroupView list \<times> 'g NodeGroupView list" where
  "categorize B [] = ([], [])"
| "categorize B (view # views) =
     (let (individual, atomic) = categorize B views; (options, err) = GetOptions B (Group view)
      in if err \<noteq> None \<and> err \<noteq> Some ErrNotImplemented then (individual, atomic)
         else if options = Some True then (individual, view # atomic) else (view # individual, atomic))"

definition groupBuckets :: "'g budget_env \<Rightarrow> 'g NodeGroupView list \<Rightarrow> (string, 'g NodeGroupView) gmap" where
  "groupBuckets B buckets = foldl (\<lambda>m bucket. gput (Id (b_provider B) (Group bucket)) bucket m) [] buckets"

fun cropIndividualNodes :: "'g NodeGroupView list \<Rightarrow> 'g NodeGroupView list \<Rightarrow> int \<Rightarrow> 'g NodeGroupView list \<times> int" where
  "cropIndividualNodes toDelete [] remainingBudget = (toDelete, remainingBudget)"
| "cropIndividualNodes toDelete (bucket # groups) remainingBudget =
     (if remainingBudget < 1 then (toDelete, remainingBudget)
      else (let bucket' = (if remainingBudget < int (length (View_Nodes bucket))
                           then bucket\<lparr>View_Nodes := take (nat remainingBudget) (View_Nodes bucket)\<rparr> else bucket)
            in cropIndividualNodes (toDelete @ [bucket']) groups (remainingBudget - int (length (View_Nodes bucket')))))"

record 'g crop_state =
  emptyToDelete :: "'g NodeGroupView list"
  drainToDelete :: "'g NodeGroupView list"
  parallelismBudget :: int
  drainBudget :: int
  canOverflow :: bool

definition registered_count :: "'g budget_env \<Rightarrow> 'g \<Rightarrow> int" where
  "registered_count B g = (case getAllRegisteredNodesForNodeGroup B g of Inl _ \<Rightarrow> 0 | Inr ns \<Rightarrow> int (length ns))"

text \<open>The loop over the atomic groups with empty nodes; leaving the recursion is the \<open>break\<close>.\<close>

fun crop_empty_atomic :: "'g budget_env \<Rightarrow> (string, 'g NodeGroupView) gmap \<Rightarrow> 'g NodeGroupView list \<Rightarrow>
    'g crop_state \<Rightarrow> 'g crop_state" where
  "crop_empty_atomic B drainAtomicMap [] st = st"
| "crop_empty_atomic B drainAtomicMap (bucket # buckets) st =
     (let drainBucket = map_of drainAtomicMap (Id (b_provider B) (Group bucket));
          n = int (length (View_Nodes bucket));
          d = (case drainBucket of None \<Rightarrow> 0 | Some db \<Rightarrow> int (length (View_Nodes db)))
      in if (parallelismBudget st < n + d \<or> drainBudget st < d) \<and>
            (parallelismBudget st = 0 \<or> (d > 0 \<and> drainBudget st = 0) \<or> \<not> canOverflow st)
         then st
         else (case TargetSize (b_provider B) (Group bucket) of
             (_, Some err) \<Rightarrow> crop_empty_atomic B drainAtomicMap buckets st
           | (targetSize, None) \<Rightarrow>
               (let currentSize = registered_count B (Group bucket);
                    batch = (if n = currentSize then currentSize else targetSize)
                in if n + d \<noteq> targetSize \<and> n + d \<noteq> currentSize then crop_empty_atomic B drainAtomicMap buckets st
                   else crop_empty_atomic B drainAtomicMap buckets
                     (st\<lparr>emptyToDelete := emptyToDelete st @ [bucket\<lparr>BatchSize := batch\<rparr>],
                         drainToDelete := (case drainBucket of None \<Rightarrow> drainToDelete st
                           | Some db \<Rightarrow> drainToDelete st @ [db\<lparr>BatchSize := batch\<rparr>]),
                         parallelismBudget := parallelismBudget st - (n + d),
                         drainBudget := drainBudget st - d, canOverflow := False\<rparr>))))"

fun crop_drain_atomic :: "'g budget_env \<Rightarrow> (string, 'g NodeGroupView) gmap \<Rightarrow> 'g NodeGroupView list \<Rightarrow>
    'g crop_state \<Rightarrow> 'g crop_state" where
  "crop_drain_atomic B emptyAtomicMap [] st = st"
| "crop_drain_atomic B emptyAtomicMap (bucket # buckets) st =
     (let n = int (length (View_Nodes bucket))
      in if ghas emptyAtomicMap (Id (b_provider B) (Group bucket)) then crop_drain_atomic B emptyAtomicMap buckets st
         else if drainBudget st < n \<and> (drainBudget st = 0 \<or> \<not> canOverflow st) then st
         else (case TargetSize (b_provider B) (Group bucket) of
             (_, Some err) \<Rightarrow> crop_drain_atomic B emptyAtomicMap buckets st
           | (targetSize, None) \<Rightarrow>
               (let currentSize = registered_count B (Group bucket);
                    batch = (if n = currentSize then currentSize else targetSize)
                in if n \<noteq> targetSize \<and> n \<noteq> currentSize then crop_drain_atomic B emptyAtomicMap buckets st
                   else crop_drain_atomic B emptyAtomicMap buckets
                     (st\<lparr>drainToDelete := drainToDelete st @ [bucket\<lparr>BatchSize := batch\<rparr>],
                         parallelismBudget := parallelismBudget st - n,
                         drainBudget := drainBudget st - n, canOverflow := False\<rparr>))))"

definition CropNodes :: "'g budget_env \<Rightarrow> ('p, 'r) NodeDeletionTracker \<Rightarrow> node list \<Rightarrow> node list \<Rightarrow>
    'g NodeGroupView list \<times> 'g NodeGroupView list" where
  "CropNodes B as emptyNodes drainNodes =
     (let (emptyIndividual, emptyAtomic) = categorize B (group_views B emptyNodes);
          (drainIndividual, drainAtomic) = categorize B (group_views B drainNodes);
          (emptyInProgress, drainInProgress) = DeletionsInProgress as;
          st0 = \<lparr>emptyToDelete = [], drainToDelete = [],
                 parallelismBudget = MaxScaleDownParallelism B - int (length emptyInProgress) - int (length drainInProgress),
                 drainBudget = MaxDrainParallelism B - int (length drainInProgress), canOverflow = True\<rparr>;
          st1 = crop_empty_atomic B (groupBuckets B drainAtomic) emptyAtomic st0;
          st2 = crop_drain_atomic B (groupBuckets B emptyAtomic) drainAtomic
                  (st1\<lparr>drainBudget := min (parallelismBudget st1) (drainBudget st1)\<rparr>);
          (emptyResult, left) = cropIndividualNodes (emptyToDelete st2) emptyIndividual (parallelismBudget st2);
          (drainResult, _) = cropIndividualNodes (drainToDelete st2) drainIndividual (min left (drainBudget st2))
      in (emptyResult, drainResult))"

section \<open>Counting\<close>

definition view_count :: "'g NodeGroupView list \<Rightarrow> int" where
  "view_count vs = sum_list (map (\<lambda>v. int (length (View_Nodes v))) vs)"

lemma view_count_simps [simp]:
  "view_count [] = 0" "view_count (v # vs) = int (length (View_Nodes v)) + view_count vs"
  "view_count (vs @ ws) = view_count vs + view_count ws"
  by (simp_all add: view_count_def)

definition nonempty_views :: "'g NodeGroupView list \<Rightarrow> bool" where
  "nonempty_views vs \<longleftrightarrow> (\<forall>v\<in>set vs. View_Nodes v \<noteq> [])"

text \<open>Cropping individual nodes uses exactly the budget it takes off and never more than there is.\<close>

lemma crop_individual:
  assumes "cropIndividualNodes vs gs b = (vs', b')"
  shows "view_count vs' = view_count vs + (b - b')" and "min 0 b \<le> b'" and "b' \<le> b"
    and "b < 1 \<Longrightarrow> vs' = vs \<and> b' = b"
proof -
  have "view_count vs' = view_count vs + (b - b') \<and> min 0 b \<le> b' \<and> b' \<le> b \<and> (b < 1 \<longrightarrow> vs' = vs \<and> b' = b)"
    using assms by (induction vs gs b rule: cropIndividualNodes.induct) (auto simp: Let_def split: if_splits)
  then show "view_count vs' = view_count vs + (b - b')" "min 0 b \<le> b'" "b' \<le> b" "b < 1 \<Longrightarrow> vs' = vs \<and> b' = b" by blast+
qed

text \<open>
  The states of the two atomic loops, relative to the budgets \<open>p\<close> and \<open>q\<close> at the start: either nothing
  was taken, or every group taken fits, or exactly one group was taken.
\<close>

definition crop_ok :: "'g budget_env \<Rightarrow> int \<Rightarrow> int \<Rightarrow> 'g crop_state \<Rightarrow> bool" where
  "crop_ok B p q st \<longleftrightarrow>
     parallelismBudget st = p - (view_count (emptyToDelete st) + view_count (drainToDelete st)) \<and>
     drainBudget st \<le> q - view_count (drainToDelete st) \<and>
     (canOverflow st \<longrightarrow> emptyToDelete st = [] \<and> drainToDelete st = []) \<and>
     (\<not> canOverflow st \<longrightarrow> 0 \<le> parallelismBudget st \<or>
        (\<exists>b. emptyToDelete st = [b] \<and> drainToDelete st = []) \<or> (\<exists>b. emptyToDelete st = [] \<and> drainToDelete st = [b]) \<or>
        (\<exists>b b'. emptyToDelete st = [b] \<and> drainToDelete st = [b'] \<and> Id (b_provider B) (Group b) = Id (b_provider B) (Group b'))) \<and>
     (\<not> canOverflow st \<longrightarrow> view_count (drainToDelete st) \<le> max 0 q \<or> (\<exists>b. drainToDelete st = [b]))"

lemma crop_empty_atomic_ok:
  assumes "crop_ok B p q st" and "\<And>k db. map_of m k = Some db \<Longrightarrow> Id (b_provider B) (Group db) = k"
  shows "crop_ok B p q (crop_empty_atomic B m bs st)"
  using assms
proof (induction B m bs st rule: crop_empty_atomic.induct)
  case (2 B m bucket buckets st)
  let ?db = "map_of m (Id (b_provider B) (Group bucket))"
  let ?n = "int (length (View_Nodes bucket))"
  define d where "d = (case ?db of None \<Rightarrow> 0 | Some db \<Rightarrow> int (length (View_Nodes db)))"
  define taken where "taken batch = st\<lparr>emptyToDelete := emptyToDelete st @ [bucket\<lparr>BatchSize := batch\<rparr>],
      drainToDelete := (case ?db of None \<Rightarrow> drainToDelete st | Some db \<Rightarrow> drainToDelete st @ [db\<lparr>BatchSize := batch\<rparr>]),
      parallelismBudget := parallelismBudget st - (?n + d), drainBudget := drainBudget st - d, canOverflow := False\<rparr>" for batch
  have dn: "0 \<le> d" by (simp add: d_def split: option.splits)
  show ?case
  proof (cases "(parallelismBudget st < ?n + d \<or> drainBudget st < d) \<and>
      (parallelismBudget st = 0 \<or> (d > 0 \<and> drainBudget st = 0) \<or> \<not> canOverflow st)")
    case True
    then show ?thesis using "2.prems"(1) by (simp add: d_def)
  next
    case False
    have "crop_ok B p q (taken batch)" for batch
    proof (cases "canOverflow st")
      case True
      then show ?thesis using "2.prems"
        by (auto simp: crop_ok_def taken_def d_def split: option.splits)
    next
      case no: False
      then have "?n + d \<le> parallelismBudget st" "d \<le> drainBudget st" using False by auto
      then show ?thesis using "2.prems"(1) no dn
        by (auto simp: crop_ok_def taken_def d_def split: option.splits)
    qed
    then show ?thesis using "2.IH" "2.prems" False
      by (auto simp: d_def taken_def Let_def split: prod.splits option.splits)
  qed
qed simp

lemma crop_drain_atomic_ok:
  assumes "crop_ok B p q st" and "drainBudget st \<le> parallelismBudget st"
  shows "crop_ok B p q (crop_drain_atomic B m bs st) \<and>
    drainBudget (crop_drain_atomic B m bs st) \<le> parallelismBudget (crop_drain_atomic B m bs st)"
  using assms
proof (induction B m bs st rule: crop_drain_atomic.induct)
  case (2 B m bucket buckets st)
  let ?n = "int (length (View_Nodes bucket))"
  define taken where "taken batch = st\<lparr>drainToDelete := drainToDelete st @ [bucket\<lparr>BatchSize := batch\<rparr>],
      parallelismBudget := parallelismBudget st - ?n, drainBudget := drainBudget st - ?n, canOverflow := False\<rparr>" for batch
  show ?case
  proof (cases "drainBudget st < ?n \<and> (drainBudget st = 0 \<or> \<not> canOverflow st)")
    case True
    then show ?thesis using "2.prems" "2.IH" by (simp add: Let_def)
  next
    case False
    have ok: "crop_ok B p q (taken batch)" "drainBudget (taken batch) \<le> parallelismBudget (taken batch)" for batch
      using "2.prems" False by (auto simp: crop_ok_def taken_def)
    show ?thesis using "2.IH" "2.prems" False ok
      by (auto simp: taken_def Let_def split: prod.splits option.splits)
  qed
qed simp

lemma groupBuckets_id:
  assumes "map_of (groupBuckets B bs) k = Some b"
  shows "Id (b_provider B) (Group b) = k"
  using assms last_in_set [of "filter (\<lambda>b. Id (b_provider B) (Group b) = k) bs"]
  by (auto simp: groupBuckets_def map_of_foldl_gput_id filter_empty_conv split: if_splits)

section \<open>Properties\<close>


text \<open>A provider with one atomic group of two nodes, for the witnesses.\<close>

definition budget_node :: "string \<Rightarrow> node" where
  "budget_node name = \<lparr>Name = name, ProviderID = name, CreationTimestamp = 0, Conditions = [], Taints = [],
     Annotations = [], Labels = [], Unschedulable = False\<rparr>"

definition demo_budget_env :: "int \<Rightarrow> string budget_env" where
  "demo_budget_env limit =
     \<lparr>b_provider = \<lparr>Id = (\<lambda>g. g), MinSize = (\<lambda>_. 0), MaxSize = (\<lambda>_. 10), TargetSize = (\<lambda>_. (2, None)),
        Autoprovisioned = (\<lambda>_. False),
        Nodes = (\<lambda>_. (map (\<lambda>i. \<lparr>Instance_Id = i, Instance_Status = None\<rparr>) [''a'', ''b''], None)),
        NodeGroups = [''tpu''], NodeGroupForNode = (\<lambda>_. (Some ''tpu'', None)), HasInstance = (\<lambda>_. (True, None))\<rparr>,
      GetOptions = (\<lambda>_. (Some True, None)), MaxScaleDownParallelism = limit, MaxDrainParallelism = 1,
      allNodes = map budget_node [''a'', ''b'']\<rparr>"

definition busy_tracker :: "string list \<Rightarrow> (unit, unit) NodeDeletionTracker" where
  "busy_tracker names = foldl (\<lambda>n m. StartDeletion ''g'' m n) (NewNodeDeletionTracker 5) names"


text \<open>
  An exhausted budget stops an atomic group only when it is exactly zero: with nothing left
  (more deletions in progress than the limit, which an earlier oversized group produces) the first
  complete atomic group is still taken, while with a budget of zero it is refused.
\<close>

theorem negative_budget_admits_atomic_group:
  assumes "parallelismBudget st < 0" and "canOverflow st" and "View_Nodes bucket \<noteq> []"
    and "TargetSize (b_provider B) (Group bucket) = (int (length (View_Nodes bucket)), None)"
  shows "map Group (emptyToDelete (crop_empty_atomic B [] [bucket] st)) = map Group (emptyToDelete st) @ [Group bucket] \<and>
    crop_empty_atomic B [] [bucket] (st\<lparr>parallelismBudget := 0\<rparr>) = st\<lparr>parallelismBudget := 0\<rparr>"
  using assms by (auto simp: Let_def)

theorem negative_budget_admits_atomic_group_witness:
  "map Group (emptyToDelete (crop_empty_atomic (demo_budget_env 1) []
      [\<lparr>Group = ''tpu'', View_Nodes = map budget_node [''a'', ''b''], BatchSize = 0\<rparr>]
      \<lparr>emptyToDelete = [], drainToDelete = [], parallelismBudget = -1, drainBudget = 1, canOverflow = True\<rparr>)) = [''tpu'']"
proof -
  let ?st = "\<lparr>emptyToDelete = [], drainToDelete = [], parallelismBudget = -1, drainBudget = 1, canOverflow = True\<rparr>"
  let ?b = "\<lparr>Group = ''tpu'', View_Nodes = map budget_node [''a'', ''b''], BatchSize = 0\<rparr>"
  have "TargetSize (b_provider (demo_budget_env 1)) (Group ?b) = (int (length (View_Nodes ?b)), None)"
    by (simp add: demo_budget_env_def)
  from negative_budget_admits_atomic_group [OF _ _ _ this, of ?st] show ?thesis by simp
qed

end
