(* ===== verification/Quota_Tracker.thy ===== *)
theory Quota_Tracker
  imports Cloud_Provider "HOL-Library.Signed_Division" "HOL-Library.List_Lexorder" "HOL-Library.Char_ord"
begin

text \<open>
  Resource quotas (src/pkg/resourcequotas: tracker.go, cache.go, usage.go, factory.go, provider.go,
  and src/pkg/cloudprovider/resource_limiter.go). A quota limits the resources of the nodes it
  applies to. A tracker holds what is left of every limit and admits or refuses numbers of nodes;
  the resources of a node are computed once per node group and cached.

  Quantities are \<open>int64\<close> values; sums, differences and products wrap around, and the division
  truncates. Visiting a map follows the order of its entries.

  Parameters (record \<open>quota_env\<close>): the cloud provider, the capacity in the status of a node
  (\<open>Quantity.Value()\<close> of every entry), the processor of custom resources and the optional node
  filter, which are interfaces of the source.
\<close>

type_synonym resourceList = "(string, int) gmap"

record Quota =
  Quota_ID :: string
  AppliesTo :: "node \<Rightarrow> bool"
  Limits :: resourceList

record CustomResourceTarget =
  ResourceType :: string
  ResourceCount :: int

datatype quota_error = ErrNegativeDelta | CustomResourcesError string | NodeGroupError string cp_error
  | LimiterError cp_error

record 'g quota_env =
  qe_provider :: "'g cloud_provider"
  NodeCapacity :: "node \<Rightarrow> (string, int) gmap"
  GetNodeResourceTargets :: "node \<Rightarrow> 'g option \<Rightarrow> string + CustomResourceTarget list"
  nodeFilter :: "(node \<Rightarrow> bool) option"

section \<open>Limits of the cloud provider\<close>

record ResourceLimiter =
  minLimits :: resourceList
  maxLimits :: resourceList

definition MaxInt64 :: int where "MaxInt64 = 2 ^ 63 - 1"

definition NewResourceLimiter :: "resourceList \<Rightarrow> resourceList \<Rightarrow> ResourceLimiter" where
  "NewResourceLimiter mins maxs =
     \<lparr>minLimits = foldl (\<lambda>m (key, val). if val > 0 then gput key val m else m) [] mins,
      maxLimits = foldl (\<lambda>m (key, val). gput key val m) [] maxs\<rparr>"

definition limiter_ID :: "ResourceLimiter \<Rightarrow> string" where "limiter_ID r = ''cluster-wide''"

definition GetMin :: "ResourceLimiter \<Rightarrow> string \<Rightarrow> int" where
  "GetMin r resourceName = (case map_of (minLimits r) resourceName of Some result \<Rightarrow> result | None \<Rightarrow> 0)"

definition GetMax :: "ResourceLimiter \<Rightarrow> string \<Rightarrow> int" where
  "GetMax r resourceName = (case map_of (maxLimits r) resourceName of Some result \<Rightarrow> result | None \<Rightarrow> MaxInt64)"

definition GetResources :: "ResourceLimiter \<Rightarrow> string list" where
  "GetResources r = sort (remdups (map fst (minLimits r) @ map fst (maxLimits r)))"

definition HasMinLimitSet :: "ResourceLimiter \<Rightarrow> string \<Rightarrow> bool" where
  "HasMinLimitSet r resourceName = ghas (minLimits r) resourceName"

definition HasMaxLimitSet :: "ResourceLimiter \<Rightarrow> string \<Rightarrow> bool" where
  "HasMaxLimitSet r resourceName = ghas (maxLimits r) resourceName"

definition limiter_AppliesTo :: "ResourceLimiter \<Rightarrow> node \<Rightarrow> bool" where
  "limiter_AppliesTo r node = True"

definition limiter_Limits :: "ResourceLimiter \<Rightarrow> resourceList" where
  "limiter_Limits r = maxLimits r"

section \<open>Providers of quotas\<close>

definition minQuotaAdapter_Limits :: "ResourceLimiter \<Rightarrow> resourceList" where
  "minQuotaAdapter_Limits l = foldl (\<lambda>limits r. gput r (GetMin l r) limits) [] (GetResources l)"

definition maxQuotaAdapter_Limits :: "ResourceLimiter \<Rightarrow> resourceList" where
  "maxQuotaAdapter_Limits l = foldl (\<lambda>limits r. gput r (GetMax l r) limits) [] (GetResources l)"

definition limiter_quota :: "ResourceLimiter \<Rightarrow> resourceList \<Rightarrow> Quota" where
  "limiter_quota l limits = \<lparr>Quota_ID = limiter_ID l, AppliesTo = limiter_AppliesTo l, Limits = limits\<rparr>"

type_synonym quotas_provider = "quota_error + Quota list"

definition CloudQuotasProvider_Quotas :: "cp_error + ResourceLimiter \<Rightarrow> quotas_provider" where
  "CloudQuotasProvider_Quotas limiter = (case limiter of Inl err \<Rightarrow> Inl (LimiterError err)
     | Inr rl \<Rightarrow> Inr [limiter_quota rl (limiter_Limits rl)])"

definition CloudMinProvider_Quotas :: "cp_error + ResourceLimiter \<Rightarrow> quotas_provider" where
  "CloudMinProvider_Quotas limiter = (case limiter of Inl err \<Rightarrow> Inl (LimiterError err)
     | Inr rl \<Rightarrow> Inr [limiter_quota rl (minQuotaAdapter_Limits rl)])"

definition CloudMaxProvider_Quotas :: "cp_error + ResourceLimiter \<Rightarrow> quotas_provider" where
  "CloudMaxProvider_Quotas limiter = (case limiter of Inl err \<Rightarrow> Inl (LimiterError err)
     | Inr rl \<Rightarrow> Inr [limiter_quota rl (maxQuotaAdapter_Limits rl)])"

text \<open>The union of the quotas of several providers; the first error ends the loop.\<close>

fun combined_quotas :: "quotas_provider list \<Rightarrow> Quota list \<Rightarrow> quotas_provider" where
  "combined_quotas [] allQuotas = Inr allQuotas"
| "combined_quotas (p # providers) allQuotas =
     (case p of Inl err \<Rightarrow> Inl err | Inr quotas \<Rightarrow> combined_quotas providers (allQuotas @ quotas))"

definition CombinedQuotasProvider_Quotas :: "quotas_provider list \<Rightarrow> quotas_provider" where
  "CombinedQuotasProvider_Quotas providers = combined_quotas providers []"

section \<open>Resources of nodes\<close>

definition ResourceNodes :: string where "ResourceNodes = ''nodes''"

definition getNodeResource :: "'g quota_env \<Rightarrow> node \<Rightarrow> string \<Rightarrow> int" where
  "getNodeResource E node resource =
     (case map_of (NodeCapacity E node) resource of None \<Rightarrow> 0
      | Some nodeCapacityValue \<Rightarrow> if nodeCapacityValue < 0 then 0 else nodeCapacityValue)"

definition GetNodeCoresAndMemory :: "'g quota_env \<Rightarrow> node \<Rightarrow> int \<times> int" where
  "GetNodeCoresAndMemory E node =
     (getNodeResource E node ResourceNameCores, getNodeResource E node ResourceNameMemory)"

definition totalNodeResources :: "'g quota_env \<Rightarrow> node \<Rightarrow> 'g option \<Rightarrow> quota_error + resourceList" where
  "totalNodeResources E node nodeGroup =
     (let (nodeCPU, nodeMemory) = GetNodeCoresAndMemory E node;
          nodeResources = [(ResourceNameCores, nodeCPU), (ResourceNameMemory, nodeMemory), (ResourceNodes, 1)]
      in case GetNodeResourceTargets E node nodeGroup of
          Inl err \<Rightarrow> Inl (CustomResourcesError err)
        | Inr resourceTargets \<Rightarrow> Inr (foldl (\<lambda>res t.
            if ResourceType t \<noteq> [] \<and> ResourceCount t > 0 then gput (ResourceType t) (ResourceCount t) res else res)
            nodeResources resourceTargets))"

type_synonym nodeResourcesCache = "(string, resourceList) gmap"

definition cache_totalNodeResources :: "'g quota_env \<Rightarrow> node \<Rightarrow> 'g option \<Rightarrow> nodeResourcesCache \<Rightarrow>
    (quota_error + resourceList) \<times> nodeResourcesCache" where
  "cache_totalNodeResources E node nodeGroup nc =
     (case (case nodeGroup of None \<Rightarrow> None | Some g \<Rightarrow> map_of nc (Id (qe_provider E) g)) of
        Some resources \<Rightarrow> (Inr resources, nc)
      | None \<Rightarrow> (case totalNodeResources E node nodeGroup of
          Inl err \<Rightarrow> (Inl err, nc)
        | Inr resources \<Rightarrow> (Inr resources,
            case nodeGroup of None \<Rightarrow> nc | Some g \<Rightarrow> gput (Id (qe_provider E) g) resources nc)))"

text \<open>\<open>CombinedNodeFilter\<close>: any of the filters excludes the node.\<close>

fun CombinedNodeFilter_ExcludeFromTracking :: "(node \<Rightarrow> bool) list \<Rightarrow> node \<Rightarrow> bool" where
  "CombinedNodeFilter_ExcludeFromTracking [] node = False"
| "CombinedNodeFilter_ExcludeFromTracking (f # filters) node =
     (if f node then True else CombinedNodeFilter_ExcludeFromTracking filters node)"

text \<open>The loop of \<open>calculateUsages\<close> over the nodes.\<close>

definition add_usage :: "resourceList \<Rightarrow> resourceList \<Rightarrow> resourceList" where
  "add_usage delta usage = foldl (\<lambda>u (resourceType, resourceCount).
     gput resourceType (int64 (gget 0 u resourceType + resourceCount)) u) usage delta"

fun usage_loop :: "'g quota_env \<Rightarrow> Quota list \<Rightarrow> node list \<Rightarrow> (string, resourceList) gmap \<Rightarrow> nodeResourcesCache \<Rightarrow>
    (quota_error + (string, resourceList) gmap) \<times> nodeResourcesCache" where
  "usage_loop E quotas [] usages nc = (Inr usages, nc)"
| "usage_loop E quotas (node # nodes) usages nc =
     (if (case nodeFilter E of None \<Rightarrow> False | Some f \<Rightarrow> f node) then usage_loop E quotas nodes usages nc
      else case NodeGroupForNode (qe_provider E) node of
          (_, Some err) \<Rightarrow> (Inl (NodeGroupError (Name node) err), nc)
        | (ng, None) \<Rightarrow> (case cache_totalNodeResources E node ng nc of
              (Inl err, nc') \<Rightarrow> (Inl err, nc')
            | (Inr delta, nc') \<Rightarrow> usage_loop E quotas nodes
                (foldl (\<lambda>us rq. if AppliesTo rq node
                    then gput (Quota_ID rq) (add_usage delta (gget [] us (Quota_ID rq))) us else us) usages quotas) nc'))"

definition calculateUsages :: "'g quota_env \<Rightarrow> node list \<Rightarrow> Quota list \<Rightarrow> nodeResourcesCache \<Rightarrow>
    (quota_error + (string, resourceList) gmap) \<times> nodeResourcesCache" where
  "calculateUsages E nodes quotas nc =
     usage_loop E quotas nodes (foldl (\<lambda>us rl. gput (Quota_ID rl) [] us) [] quotas) nc"

section \<open>The tracker\<close>

record quotaStatus =
  quota :: Quota
  limitsLeft :: resourceList

record Tracker =
  quotaStatuses :: "quotaStatus list"
  nodeCache :: nodeResourcesCache

record ExceededQuota =
  Exceeded_ID :: string
  ExceededResources :: "string list"

record CheckDeltaResult =
  ExceededQuotas :: "ExceededQuota list"
  AllowedDelta :: int

definition Exceeded :: "CheckDeltaResult \<Rightarrow> bool" where
  "Exceeded r \<longleftrightarrow> length (ExceededQuotas r) > 0"

definition headroom :: "bool \<Rightarrow> resourceList \<Rightarrow> resourceList \<Rightarrow> resourceList" where
  "headroom isMinEnforcement usages limits =
     foldl (\<lambda>left (resourceType, limit). let usage = gget 0 usages resourceType in
       if isMinEnforcement then gput resourceType (max 0 (int64 (usage - limit))) left
       else gput resourceType (max 0 (int64 (limit - usage))) left) [] limits"

definition newQuotasTracker :: "'g quota_env \<Rightarrow> quotas_provider \<Rightarrow> node list \<Rightarrow> bool \<Rightarrow> quota_error + Tracker" where
  "newQuotasTracker E provider nodes isMinEnforcement =
     (case provider of Inl err \<Rightarrow> Inl err
      | Inr quotas \<Rightarrow> (case calculateUsages E nodes quotas [] of
          (Inl err, _) \<Rightarrow> Inl err
        | (Inr usages, nc) \<Rightarrow> Inr \<lparr>quotaStatuses =
            map (\<lambda>rq. \<lparr>quota = rq, limitsLeft = headroom isMinEnforcement (gget [] usages (Quota_ID rq)) (Limits rq)\<rparr>) quotas,
            nodeCache = nc\<rparr>))"

definition NewMaxQuotasTracker :: "'g quota_env \<Rightarrow> quotas_provider \<Rightarrow> node list \<Rightarrow> quota_error + Tracker" where
  "NewMaxQuotasTracker E provider nodes = newQuotasTracker E provider nodes False"

definition NewMinQuotasTracker :: "'g quota_env \<Rightarrow> quotas_provider \<Rightarrow> node list \<Rightarrow> quota_error + Tracker" where
  "NewMinQuotasTracker E provider nodes = newQuotasTracker E provider nodes True"

definition matchingQuotaStatuses :: "node \<Rightarrow> quotaStatus list \<Rightarrow> quotaStatus list" where
  "matchingQuotaStatuses node statuses = filter (\<lambda>ls. AppliesTo (quota ls) node) statuses"

text \<open>The inner loop over the resources of one quota: the exceeded resources and the allowed number.\<close>

fun check_resources :: "resourceList \<Rightarrow> quotaStatus \<Rightarrow> int \<Rightarrow> int \<Rightarrow> string list \<Rightarrow> string list \<times> int" where
  "check_resources [] qs nodeDelta allowed exceeded = (exceeded, allowed)"
| "check_resources ((resource, resourceDelta) # rest) qs nodeDelta allowed exceeded =
     (if resourceDelta \<le> 0 then check_resources rest qs nodeDelta allowed exceeded
      else case map_of (limitsLeft qs) resource of
          None \<Rightarrow> check_resources rest qs nodeDelta allowed exceeded
        | Some left \<Rightarrow>
            if left < int64 (resourceDelta * nodeDelta)
            then check_resources rest qs nodeDelta (min allowed (left sdiv resourceDelta)) (exceeded @ [resource])
            else check_resources rest qs nodeDelta allowed exceeded)"

fun check_quotas :: "resourceList \<Rightarrow> quotaStatus list \<Rightarrow> int \<Rightarrow> CheckDeltaResult \<Rightarrow> CheckDeltaResult" where
  "check_quotas delta [] nodeDelta result = result"
| "check_quotas delta (qs # quotas) nodeDelta result =
     (let (exceeded, allowed) = check_resources delta qs nodeDelta (AllowedDelta result) []
      in check_quotas delta quotas nodeDelta
           (result\<lparr>AllowedDelta := allowed,
              ExceededQuotas := (if length exceeded > 0
                then ExceededQuotas result @ [\<lparr>Exceeded_ID = Quota_ID (quota qs), ExceededResources = exceeded\<rparr>]
                else ExceededQuotas result)\<rparr>))"

definition checkQuota :: "resourceList \<Rightarrow> quotaStatus list \<Rightarrow> int \<Rightarrow> CheckDeltaResult" where
  "checkQuota delta matchingQuotas nodeDelta =
     check_quotas delta matchingQuotas nodeDelta \<lparr>ExceededQuotas = [], AllowedDelta = nodeDelta\<rparr>"

definition CheckQuota :: "'g quota_env \<Rightarrow> 'g option \<Rightarrow> node \<Rightarrow> int \<Rightarrow> Tracker \<Rightarrow> (quota_error + CheckDeltaResult) \<times> Tracker" where
  "CheckQuota E nodeGroup node nodeDelta t =
     (if nodeDelta < 0 then (Inl ErrNegativeDelta, t)
      else case cache_totalNodeResources E node nodeGroup (nodeCache t) of
          (Inl err, nc) \<Rightarrow> (Inl err, t\<lparr>nodeCache := nc\<rparr>)
        | (Inr delta, nc) \<Rightarrow>
            (Inr (checkQuota delta (matchingQuotaStatuses node (quotaStatuses t)) nodeDelta), t\<lparr>nodeCache := nc\<rparr>))"

definition consume_limits :: "resourceList \<Rightarrow> int \<Rightarrow> resourceList \<Rightarrow> resourceList" where
  "consume_limits delta allowed left =
     foldl (\<lambda>left (resource, resourceDelta). case map_of left resource of None \<Rightarrow> left
       | Some limit \<Rightarrow> gput resource (max (int64 (limit - int64 (allowed * resourceDelta))) 0) left) left delta"

definition ConsumeQuota :: "'g quota_env \<Rightarrow> 'g option \<Rightarrow> node \<Rightarrow> int \<Rightarrow> Tracker \<Rightarrow> (quota_error + CheckDeltaResult) \<times> Tracker" where
  "ConsumeQuota E nodeGroup node nodeDelta t =
     (if nodeDelta < 0 then (Inl ErrNegativeDelta, t)
      else case cache_totalNodeResources E node nodeGroup (nodeCache t) of
          (Inl err, nc) \<Rightarrow> (Inl err, t\<lparr>nodeCache := nc\<rparr>)
        | (Inr delta, nc) \<Rightarrow>
            (let result = checkQuota delta (matchingQuotaStatuses node (quotaStatuses t)) nodeDelta
             in if AllowedDelta result \<noteq> nodeDelta then (Inr result, t\<lparr>nodeCache := nc\<rparr>)
                else (Inr result, t\<lparr>nodeCache := nc,
                  quotaStatuses := map (\<lambda>qs. if AppliesTo (quota qs) node
                    then qs\<lparr>limitsLeft := consume_limits delta (AllowedDelta result) (limitsLeft qs)\<rparr> else qs)
                    (quotaStatuses t)\<rparr>)))"

definition ApplyDelta :: "'g quota_env \<Rightarrow> 'g option \<Rightarrow> node \<Rightarrow> int \<Rightarrow> Tracker \<Rightarrow> (quota_error + CheckDeltaResult) \<times> Tracker" where
  "ApplyDelta E nodeGroup node nodeDelta t = ConsumeQuota E nodeGroup node nodeDelta t"

definition CheckDelta :: "'g quota_env \<Rightarrow> 'g option \<Rightarrow> node \<Rightarrow> int \<Rightarrow> Tracker \<Rightarrow> (quota_error + CheckDeltaResult) \<times> Tracker" where
  "CheckDelta E nodeGroup node nodeDelta t = CheckQuota E nodeGroup node nodeDelta t"

section \<open>The allowed number of nodes\<close>

text \<open>
  \<open>fits k\<close>: \<open>k\<close> nodes with the given resources fit into what is left of all given quotas.
\<close>

definition fits_status :: "resourceList \<Rightarrow> int \<Rightarrow> quotaStatus \<Rightarrow> bool" where
  "fits_status delta k qs \<longleftrightarrow> (\<forall>(r, d)\<in>set delta. 0 < d \<longrightarrow> (\<forall>l. map_of (limitsLeft qs) r = Some l \<longrightarrow> k * d \<le> l))"

definition fits :: "resourceList \<Rightarrow> quotaStatus list \<Rightarrow> int \<Rightarrow> bool" where
  "fits delta statuses k \<longleftrightarrow> (\<forall>qs\<in>set statuses. fits_status delta k qs)"

definition resources_ok :: "int \<Rightarrow> resourceList \<Rightarrow> bool" where
  "resources_ok B delta \<longleftrightarrow> gm_wf delta \<and> (\<forall>(r, d)\<in>set delta. 0 \<le> d \<and> d \<le> B)"

definition left_ok :: "resourceList \<Rightarrow> bool" where
  "left_ok left \<longleftrightarrow> (\<forall>r l. map_of left r = Some l \<longrightarrow> 0 \<le> l \<and> l < 2 ^ 63)"

lemma int64_product:
  assumes "resources_ok B delta" and "(r, d) \<in> set delta" and "0 \<le> n" and "n * B < 2 ^ 63"
  shows "0 \<le> d" and "int64 (d * n) = d * n" and "d * n < 2 ^ 63"
proof -
  show "0 \<le> d" using assms by (auto simp: resources_ok_def)
  have "d * n \<le> n * B" using assms by (auto simp: resources_ok_def mult.commute [of d] intro: mult_left_mono)
  then show "d * n < 2 ^ 63" using assms by simp
  then show "int64 (d * n) = d * n" using \<open>0 \<le> d\<close> \<open>0 \<le> n\<close> by (intro int64_id) (auto intro: order_trans [of _ 0])
qed

definition violated :: "quotaStatus \<Rightarrow> int \<Rightarrow> string \<times> int \<Rightarrow> bool" where
  "violated qs n rd \<longleftrightarrow> 0 < snd rd \<and> (\<exists>l. map_of (limitsLeft qs) (fst rd) = Some l \<and> l < snd rd * n)"

definition room :: "quotaStatus \<Rightarrow> string \<times> int \<Rightarrow> int" where
  "room qs rd = the (map_of (limitsLeft qs) (fst rd)) sdiv snd rd"

lemma resources_ok_Cons: "resources_ok B (rd # rest) \<Longrightarrow> resources_ok B rest"
  by (auto simp: resources_ok_def gm_wf_def)

lemma check_resources_spec:
  assumes "resources_ok B delta" and "0 \<le> n" and "n * B < 2 ^ 63"
  shows "check_resources delta qs n a ex =
    (ex @ map fst (filter (violated qs n) delta), foldl min a (map (room qs) (filter (violated qs n) delta)))"
  using assms
proof (induction delta qs n a ex rule: check_resources.induct)
  case (2 r d rest qs n a ex)
  note no = resources_ok_Cons [OF "2.prems"(1)]
  have wrap: "int64 (d * n) = d * n" by (rule int64_product [OF "2.prems"(1) _ "2.prems"(2,3), of r]) simp
  show ?case
  proof (cases "0 < d \<and> map_of (limitsLeft qs) r \<noteq> None")
    case True
    then obtain l where "map_of (limitsLeft qs) r = Some l" "0 < d" by auto
    then show ?thesis using "2.IH" no "2.prems" wrap by (auto simp: violated_def room_def)
  next
    case False
    then show ?thesis using "2.IH" no "2.prems" by (auto simp: violated_def not_less split: option.splits)
  qed
qed simp

lemma le_foldl_min: "k \<le> foldl min a xs \<longleftrightarrow> k \<le> a \<and> (\<forall>x\<in>set xs. k \<le> (x :: int))"
  by (induction xs arbitrary: a) auto

lemma sdiv_nonneg: "0 \<le> (l :: int) \<Longrightarrow> 0 < d \<Longrightarrow> l sdiv d = l div d"
  by (auto simp: signed_divide_int_def sgn_if)

lemma le_div_iff:
  assumes "0 < (d :: int)"
  shows "k \<le> l div d \<longleftrightarrow> k * d \<le> l"
proof
  assume "k \<le> l div d"
  then have "k * d \<le> l div d * d" using assms by simp
  moreover have "l div d * d + l mod d = l" by (rule div_mult_mod_eq)
  moreover have "0 \<le> l mod d" using assms by simp
  ultimately show "k * d \<le> l" by linarith
next
  assume "k * d \<le> l"
  then have "k * d div d \<le> l div d" using assms by (rule zdiv_mono1)
  then show "k \<le> l div d" using assms by simp
qed

lemma fits_status_iff:
  assumes "k \<le> n" and ok: "left_ok (limitsLeft qs)"
  shows "fits_status delta k qs \<longleftrightarrow> (\<forall>rd\<in>set (filter (violated qs n) delta). k \<le> room qs rd)"
proof -
  have "(0 < d \<longrightarrow> (\<forall>l. map_of (limitsLeft qs) r = Some l \<longrightarrow> k * d \<le> l)) \<longleftrightarrow>
      (violated qs n (r, d) \<longrightarrow> k \<le> room qs (r, d))" for r d
  proof (cases "map_of (limitsLeft qs) r")
    case (Some l)
    show ?thesis
    proof (cases "0 < d")
      case True
      have "0 \<le> l" using ok Some by (auto simp: left_ok_def)
      then have "k \<le> l sdiv d \<longleftrightarrow> k * d \<le> l" using True by (simp add: sdiv_nonneg le_div_iff)
      moreover have "k * d \<le> l" if "\<not> l < n * d"
        using that mult_right_mono [OF assms(1), of d] True by linarith
      ultimately show ?thesis using Some True by (auto simp: violated_def room_def mult.commute [of d])
    qed (simp add: violated_def)
  qed (simp add: violated_def)
  then show ?thesis by (auto simp: fits_status_def)
qed

lemma check_quotas_allowed:
  assumes "resources_ok B delta" and "0 \<le> n" and "n * B < 2 ^ 63" and "AllowedDelta res \<le> n"
    and "\<forall>qs\<in>set qss. left_ok (limitsLeft qs)"
  shows "k \<le> AllowedDelta (check_quotas delta qss n res) \<longleftrightarrow> k \<le> AllowedDelta res \<and> fits delta qss k"
  using assms
proof (induction qss arbitrary: res)
  case (Cons qs qss)
  let ?v = "filter (violated qs n) delta"
  let ?a = "foldl min (AllowedDelta res) (map (room qs) ?v)"
  have le: "?a \<le> AllowedDelta res" using le_foldl_min [of ?a "AllowedDelta res"] by blast
  have "k \<le> ?a \<longleftrightarrow> k \<le> AllowedDelta res \<and> fits_status delta k qs"
    using fits_status_iff [of k n qs delta] Cons.prems by (auto simp: le_foldl_min)
  then show ?case
    using Cons.IH Cons.prems le by (simp add: check_resources_spec [OF Cons.prems(1-3)] fits_def Let_def)
qed (simp add: fits_def)

lemma check_quotas_exceeded:
  assumes "resources_ok B delta" and "0 \<le> n" and "n * B < 2 ^ 63"
  shows "ExceededQuotas (check_quotas delta qss n res) = [] \<longleftrightarrow> ExceededQuotas res = [] \<and> fits delta qss n"
  using assms
proof (induction qss arbitrary: res)
  case (Cons qs qss)
  have "fits_status delta n qs \<longleftrightarrow> filter (violated qs n) delta = []"
    by (auto simp: fits_status_def filter_empty_conv violated_def not_less mult.commute)
  then show ?case
    using Cons by (auto simp: check_resources_spec [OF Cons.prems] fits_def Let_def)
qed (simp add: fits_def)

lemma fits_0: "\<forall>qs\<in>set qss. left_ok (limitsLeft qs) \<Longrightarrow> fits delta qss 0"
  by (auto simp: fits_def fits_status_def left_ok_def)

lemma checkQuota_exact:
  assumes "resources_ok B delta" and "0 \<le> n" and "n * B < 2 ^ 63" and ok: "\<forall>qs\<in>set qss. left_ok (limitsLeft qs)"
  defines "res \<equiv> checkQuota delta qss n"
  shows "k \<le> AllowedDelta res \<longleftrightarrow> k \<le> n \<and> fits delta qss k"
    and "0 \<le> AllowedDelta res" and "Exceeded res \<longleftrightarrow> AllowedDelta res < n"
    and "AllowedDelta res = n \<longleftrightarrow> fits delta qss n"
proof -
  have *: "k \<le> AllowedDelta res \<longleftrightarrow> k \<le> n \<and> fits delta qss k" for k
    unfolding res_def checkQuota_def using check_quotas_allowed [OF assms(1-3) _ ok] by simp
  then show "k \<le> AllowedDelta res \<longleftrightarrow> k \<le> n \<and> fits delta qss k" .
  show "0 \<le> AllowedDelta res" using * [of 0] fits_0 [OF ok] \<open>0 \<le> n\<close> by blast
  show eq: "AllowedDelta res = n \<longleftrightarrow> fits delta qss n" using * [of n] * [of "AllowedDelta res"] by auto
  have "Exceeded res \<longleftrightarrow> \<not> fits delta qss n"
    unfolding Exceeded_def res_def checkQuota_def using check_quotas_exceeded [OF assms(1-3)] by simp
  then show "Exceeded res \<longleftrightarrow> AllowedDelta res < n" using eq * [of "AllowedDelta res"] by auto
qed

section \<open>What node resources look like\<close>

text \<open>\<open>bounded_resources E B\<close>: no node has more than \<open>B\<close> of any resource.\<close>

definition bounded_resources :: "'g quota_env \<Rightarrow> int \<Rightarrow> bool" where
  "bounded_resources E B \<longleftrightarrow> 1 \<le> B \<and>
     (\<forall>node r v. map_of (NodeCapacity E node) r = Some v \<longrightarrow> v \<le> B) \<and>
     (\<forall>node g ts. GetNodeResourceTargets E node g = Inr ts \<longrightarrow> (\<forall>t\<in>set ts. ResourceCount t \<le> B))"

definition tracker_ok :: "int \<Rightarrow> Tracker \<Rightarrow> bool" where
  "tracker_ok B t \<longleftrightarrow> (\<forall>i delta. map_of (nodeCache t) i = Some delta \<longrightarrow> resources_ok B delta) \<and>
     (\<forall>qs\<in>set (quotaStatuses t). left_ok (limitsLeft qs))"

definition cache_ok :: "int \<Rightarrow> nodeResourcesCache \<Rightarrow> bool" where
  "cache_ok B nc \<longleftrightarrow> (\<forall>i delta. map_of nc i = Some delta \<longrightarrow> resources_ok B delta)"

lemma tracker_ok_iff:
  "tracker_ok B t \<longleftrightarrow> cache_ok B (nodeCache t) \<and> (\<forall>qs\<in>set (quotaStatuses t). left_ok (limitsLeft qs))"
  by (simp add: tracker_ok_def cache_ok_def)

lemma resources_ok_gput: "resources_ok B delta \<Longrightarrow> 0 \<le> v \<Longrightarrow> v \<le> B \<Longrightarrow> resources_ok B (gput r v delta)"
  using set_gput_subset [of r v delta] by (auto simp: resources_ok_def)

lemma totalNodeResources_ok:
  assumes "bounded_resources E B" and "totalNodeResources E node g = Inr delta"
  shows "resources_ok B delta"
proof -
  have cap: "0 \<le> getNodeResource E node r \<and> getNodeResource E node r \<le> B" for r
    using assms(1) by (force simp: getNodeResource_def bounded_resources_def split: option.splits)
  have init: "resources_ok B [(ResourceNameCores, getNodeResource E node ResourceNameCores),
      (ResourceNameMemory, getNodeResource E node ResourceNameMemory), (ResourceNodes, 1)]"
    using cap assms(1) by (auto simp: resources_ok_def gm_wf_def bounded_resources_def
        ResourceNameCores_def ResourceNameMemory_def ResourceNodes_def)
  obtain ts where ts: "GetNodeResourceTargets E node g = Inr ts"
    and delta: "delta = foldl (\<lambda>res t. if ResourceType t \<noteq> [] \<and> ResourceCount t > 0
       then gput (ResourceType t) (ResourceCount t) res else res)
      [(ResourceNameCores, getNodeResource E node ResourceNameCores),
       (ResourceNameMemory, getNodeResource E node ResourceNameMemory), (ResourceNodes, 1)] ts"
    using assms(2) by (auto simp: totalNodeResources_def GetNodeCoresAndMemory_def split: sum.splits)
  have "\<forall>t\<in>set ts. ResourceCount t \<le> B" using assms(1) ts by (auto simp: bounded_resources_def)
  then have "resources_ok B m \<Longrightarrow> resources_ok B (foldl (\<lambda>res t. if ResourceType t \<noteq> [] \<and> ResourceCount t > 0
       then gput (ResourceType t) (ResourceCount t) res else res) m ts)" for m
    by (induction ts arbitrary: m) (auto simp: resources_ok_gput)
  then show ?thesis using init delta by simp
qed

lemma cache_totalNodeResources_ok:
  assumes "bounded_resources E B" and "cache_ok B nc" and "cache_totalNodeResources E node g nc = (r, nc')"
  shows "cache_ok B nc'" and "r = Inr delta \<Longrightarrow> resources_ok B delta"
  using assms totalNodeResources_ok [OF assms(1)]
  by (auto simp: cache_totalNodeResources_def cache_ok_def split: option.splits sum.splits if_splits)

section \<open>Consuming quota\<close>

lemma map_of_consume_limits:
  assumes "gm_wf delta"
  shows "map_of (consume_limits delta a left) r = (case map_of left r of None \<Rightarrow> None
    | Some l \<Rightarrow> Some (case map_of delta r of None \<Rightarrow> l | Some d \<Rightarrow> max (int64 (l - int64 (a * d))) 0))"
  using assms unfolding consume_limits_def
proof (induction delta arbitrary: left)
  case (Cons rd delta)
  obtain r' d where rd: "rd = (r', d)" by (cases rd)
  have "gm_wf delta" and "map_of delta r' = None"
    using Cons.prems by (auto simp: gm_wf_def rd map_of_eq_None_iff)
  then show ?case by (simp add: Cons.IH rd split: option.splits)
qed (simp split: option.splits)

lemma consume_limits_fits:
  assumes ok: "left_ok (limitsLeft qs)" and r: "resources_ok B delta" and n: "0 \<le> n" "n * B < 2 ^ 63"
    and fits: "fits_status delta n qs"
  shows "map_of (consume_limits delta n (limitsLeft qs)) r = map_option (\<lambda>l. l - n * gget 0 delta r) (map_of (limitsLeft qs) r)"
    and "left_ok (consume_limits delta n (limitsLeft qs))"
proof -
  have wf: "gm_wf delta" using r by (simp add: resources_ok_def)
  have val: "max (int64 (l - int64 (n * d))) 0 = l - n * d \<and> 0 \<le> l - n * d \<and> l - n * d < 2 ^ 63"
    if "map_of (limitsLeft qs) r = Some l" and "map_of delta r = Some d" for r l d
  proof -
    have mem: "(r, d) \<in> set delta" using that(2) by (rule map_of_SomeD)
    have d: "0 \<le> d" "int64 (n * d) = n * d"
      using int64_product(1,2) [OF r mem n] by (simp_all add: mult.commute)
    have l: "0 \<le> l" "l < 2 ^ 63" using ok that(1) by (auto simp: left_ok_def)
    have "n * d \<le> l" using fits mem that(1) d(1) l(1) by (cases "d = 0") (auto simp: fits_status_def)
    moreover have "0 \<le> n * d" using n d by simp
    ultimately have "0 \<le> l - n * d" "l - n * d < 2 ^ 63" using l by linarith+
    moreover from this have "int64 (l - n * d) = l - n * d" by (intro int64_id) linarith+
    ultimately show ?thesis using d by simp
  qed
  show eq: "map_of (consume_limits delta n (limitsLeft qs)) r = map_option (\<lambda>l. l - n * gget 0 delta r) (map_of (limitsLeft qs) r)"
    for r using val by (auto simp: map_of_consume_limits [OF wf] gget_def split: option.splits)
  have "0 \<le> l - n * gget 0 delta r \<and> l - n * gget 0 delta r < 2 ^ 63" if "map_of (limitsLeft qs) r = Some l" for r l
    using that val [OF that] ok by (cases "map_of delta r") (auto simp: gget_def left_ok_def)
  then show "left_ok (consume_limits delta n (limitsLeft qs))"
    unfolding left_ok_def eq by fastforce
qed

text \<open>
  A history of requests. A grant is a request that was admitted, with the node resources the
  tracker used; \<open>granted\<close> sums up what the grants took from a quota.
\<close>

type_synonym 'g quota_request = "'g option \<times> node \<times> int"

definition grants_of :: "'g quota_env \<Rightarrow> 'g quota_request \<Rightarrow> Tracker \<Rightarrow> (node \<times> resourceList \<times> int) list" where
  "grants_of E q t = (case q of (g, node, n) \<Rightarrow>
     (case (fst (ConsumeQuota E g node n t), fst (cache_totalNodeResources E node g (nodeCache t))) of
        (Inr result, Inr delta) \<Rightarrow> if Exceeded result then [] else [(node, delta, n)]
      | _ \<Rightarrow> []))"

fun consume_history :: "'g quota_env \<Rightarrow> 'g quota_request list \<Rightarrow> Tracker \<Rightarrow> (node \<times> resourceList \<times> int) list \<times> Tracker" where
  "consume_history E [] t = ([], t)"
| "consume_history E ((g, node, n) # qs) t =
     (let (grants, t') = consume_history E qs (snd (ConsumeQuota E g node n t))
      in (grants_of E (g, node, n) t @ grants, t'))"

definition granted :: "Quota \<Rightarrow> string \<Rightarrow> (node \<times> resourceList \<times> int) list \<Rightarrow> int" where
  "granted q r grants = (\<Sum>(node, delta, n) \<leftarrow> grants. if AppliesTo q node then n * gget 0 delta r else 0)"

definition accounted :: "Tracker \<Rightarrow> Tracker \<Rightarrow> (node \<times> resourceList \<times> int) list \<Rightarrow> bool" where
  "accounted t t' grants \<longleftrightarrow> map quota (quotaStatuses t') = map quota (quotaStatuses t) \<and>
     (\<forall>i < length (quotaStatuses t). \<forall>r.
        map_of (limitsLeft (quotaStatuses t' ! i)) r =
          map_option (\<lambda>l. l - granted (quota (quotaStatuses t ! i)) r grants) (map_of (limitsLeft (quotaStatuses t ! i)) r))"

lemma granted_simps [simp]:
  "granted q r [] = 0"
  "granted q r (xs @ ys) = granted q r xs + granted q r ys"
  by (simp_all add: granted_def)

lemma accounted_refl: "accounted t (t\<lparr>nodeCache := nc\<rparr>) []" "accounted t t []"
  by (simp_all add: accounted_def option.map_ident)

lemma accounted_trans:
  assumes "accounted t t' xs" and "accounted t' t'' ys"
  shows "accounted t t'' (xs @ ys)"
proof -
  have len: "length (quotaStatuses t') = length (quotaStatuses t)"
    using assms(1) map_eq_imp_length_eq unfolding accounted_def by blast
  have q: "quota (quotaStatuses t' ! i) = quota (quotaStatuses t ! i)" if "i < length (quotaStatuses t)" for i
  proof -
    have "map quota (quotaStatuses t') ! i = map quota (quotaStatuses t) ! i"
      using assms(1) by (simp add: accounted_def)
    then show ?thesis using that len by simp
  qed
  have "map_of (limitsLeft (quotaStatuses t'' ! i)) r =
      map_option (\<lambda>l. l - granted (quota (quotaStatuses t ! i)) r (xs @ ys)) (map_of (limitsLeft (quotaStatuses t ! i)) r)"
    if i: "i < length (quotaStatuses t)" for i r
  proof -
    have "map_of (limitsLeft (quotaStatuses t' ! i)) r =
        map_option (\<lambda>l. l - granted (quota (quotaStatuses t ! i)) r xs) (map_of (limitsLeft (quotaStatuses t ! i)) r)"
      using assms(1) i unfolding accounted_def by blast
    moreover have "map_of (limitsLeft (quotaStatuses t'' ! i)) r =
        map_option (\<lambda>l. l - granted (quota (quotaStatuses t ! i)) r ys) (map_of (limitsLeft (quotaStatuses t' ! i)) r)"
      using assms(2) i q [OF i] len unfolding accounted_def by metis
    ultimately show ?thesis by (simp add: option.map_comp comp_def diff_diff_eq)
  qed
  moreover have "map quota (quotaStatuses t'') = map quota (quotaStatuses t)"
    using assms by (simp add: accounted_def)
  ultimately show ?thesis by (simp add: accounted_def)
qed

lemma ConsumeQuota_step:
  assumes "bounded_resources E B" and "tracker_ok B t" and "n * B < 2 ^ 63"
  shows "tracker_ok B (snd (ConsumeQuota E g node n t)) \<and>
     accounted t (snd (ConsumeQuota E g node n t)) (grants_of E (g, node, n) t)"
proof (cases "n < 0")
  case True
  then show ?thesis using assms by (simp add: ConsumeQuota_def grants_of_def accounted_refl)
next
  case False
  obtain rr nc where total: "cache_totalNodeResources E node g (nodeCache t) = (rr, nc)" by fastforce
  have cache: "cache_ok B nc"
    using cache_totalNodeResources_ok(1) [OF assms(1) _ total] assms(2) by (simp add: tracker_ok_iff)
  show ?thesis
  proof (cases rr)
    case (Inl err)
    then show ?thesis using False total cache assms(2)
      by (simp add: ConsumeQuota_def grants_of_def accounted_refl tracker_ok_iff)
  next
    case (Inr delta)
    have res: "resources_ok B delta"
      using cache_totalNodeResources_ok(2) [OF assms(1) _ total Inr] assms(2) by (simp add: tracker_ok_iff)
    define result where "result = checkQuota delta (matchingQuotaStatuses node (quotaStatuses t)) n"
    have ok: "\<forall>qs\<in>set (matchingQuotaStatuses node (quotaStatuses t)). left_ok (limitsLeft qs)"
      using assms(2) by (auto simp: tracker_ok_def matchingQuotaStatuses_def)
    have n: "0 \<le> n" using False by simp
    note exact = checkQuota_exact [OF res n assms(3) ok, folded result_def]
    show ?thesis
    proof (cases "AllowedDelta result = n")
      case True
      then have fits: "fits_status delta n qs" if "qs \<in> set (quotaStatuses t)" "AppliesTo (quota qs) node" for qs
        using exact(4) that by (auto simp: fits_def matchingQuotaStatuses_def)
      have "\<not> Exceeded result" using exact(3) True by simp
      moreover have leftok: "left_ok (limitsLeft qs)" if "qs \<in> set (quotaStatuses t)" for qs
        using assms(2) that by (simp add: tracker_ok_def)
      moreover note consume_limits_fits [OF leftok res n assms(3) fits]
      ultimately show ?thesis
        using False total Inr cache True
        by (auto simp: ConsumeQuota_def grants_of_def tracker_ok_iff accounted_def granted_def option.map_ident
            simp flip: result_def)
    next
      case differ: False
      then have "Exceeded result" using exact(3) exact(1) [of "AllowedDelta result"] by auto
      then show ?thesis using False total Inr cache differ assms(2)
        by (simp add: ConsumeQuota_def grants_of_def accounted_refl tracker_ok_iff flip: result_def)
    qed
  qed
qed

lemma consume_history_accounted:
  assumes "bounded_resources E B" and "tracker_ok B t" and "\<forall>(g, node, n)\<in>set qs. n * B < 2 ^ 63"
    and "consume_history E qs t = (grants, t')"
  shows "tracker_ok B t' \<and> accounted t t' grants"
  using assms
proof (induction E qs t arbitrary: grants t' rule: consume_history.induct)
  case (1 E t)
  then show ?case by (simp add: accounted_refl)
next
  case (2 E g node n qs t)
  obtain rest where rest: "consume_history E qs (snd (ConsumeQuota E g node n t)) = (rest, t')"
    and grants: "grants = grants_of E (g, node, n) t @ rest"
    using "2.prems"(4) by (auto simp: Let_def split: prod.splits)
  have "n * B < 2 ^ 63" using "2.prems"(3) by auto
  note step = ConsumeQuota_step [OF "2.prems"(1,2) this, of g node]
  have "tracker_ok B t' \<and> accounted (snd (ConsumeQuota E g node n t)) t' rest"
    using "2.IH" "2.prems"(1,3) step rest by auto
  then show ?case using accounted_trans step grants by blast
qed

section \<open>New trackers\<close>

lemma usage_loop_cache_ok:
  assumes "bounded_resources E B" and "cache_ok B nc"
  shows "cache_ok B (snd (usage_loop E quotas nodes usages nc))"
  using assms
proof (induction E quotas nodes usages nc rule: usage_loop.induct)
  case (2 E quotas node nodes usages nc)
  obtain ng err where ng: "NodeGroupForNode (qe_provider E) node = (ng, err)" by fastforce
  obtain rr nc' where total: "cache_totalNodeResources E node ng nc = (rr, nc')" by fastforce
  have "cache_ok B nc'" using cache_totalNodeResources_ok(1) [OF "2.prems" total] .
  then show ?case using 2 ng total by (auto split: option.splits sum.splits)
qed simp

lemma int64_range: "int64 x < 2 ^ 63"
proof -
  have "(x + 2 ^ 63) mod 2 ^ 64 < (2 ^ 64 :: int)" by (rule pos_mod_bound) simp
  then show ?thesis by (simp add: int64_def)
qed

lemma left_ok_gput: "left_ok left \<Longrightarrow> left_ok (gput r (max 0 (int64 x)) left)"
  using int64_range [of x] by (simp add: left_ok_def)

lemma headroom_left_ok: "left_ok (headroom m usages limits)"
proof -
  define step where "step = (\<lambda>left (resourceType, limit). let usage = gget 0 usages resourceType in
       if m then gput resourceType (max 0 (int64 (usage - limit))) left
       else gput resourceType (max 0 (int64 (limit - usage))) left)"
  have step: "left_ok left \<Longrightarrow> left_ok (step left rl)" for left rl
    by (cases rl) (simp add: step_def Let_def left_ok_gput)
  have "left_ok left \<Longrightarrow> left_ok (foldl step left limits)" for left
    by (induction limits arbitrary: left) (simp_all add: step)
  moreover have "left_ok []" by (simp add: left_ok_def)
  ultimately show ?thesis unfolding headroom_def step_def [symmetric] by blast
qed

lemma newQuotasTracker_ok:
  assumes "bounded_resources E B" and "newQuotasTracker E provider nodes m = Inr t"
  shows "tracker_ok B t"
proof -
  obtain quotas usages nc where calc: "calculateUsages E nodes quotas [] = (Inr usages, nc)"
    and t: "t = \<lparr>quotaStatuses = map (\<lambda>rq. \<lparr>quota = rq,
       limitsLeft = headroom m (gget [] usages (Quota_ID rq)) (Limits rq)\<rparr>) quotas, nodeCache = nc\<rparr>"
    using assms(2) by (auto simp: newQuotasTracker_def split: sum.splits prod.splits)
  have "cache_ok B (snd (calculateUsages E nodes quotas []))"
    unfolding calculateUsages_def by (rule usage_loop_cache_ok [OF assms(1)]) (simp add: cache_ok_def)
  then show ?thesis using headroom_left_ok by (auto simp: calc t tracker_ok_iff)
qed

definition left_of :: "bool \<Rightarrow> int \<Rightarrow> int \<Rightarrow> int" where
  "left_of isMinEnforcement usage limit = max 0 (int64 (if isMinEnforcement then usage - limit else limit - usage))"

lemma map_of_headroom:
  assumes "gm_wf limits"
  shows "map_of (headroom m usages limits) r = map_option (left_of m (gget 0 usages r)) (map_of limits r)"
proof -
  define step where "step = (\<lambda>left (resourceType, limit). let usage = gget 0 usages resourceType in
       if m then gput resourceType (max 0 (int64 (usage - limit))) left
       else gput resourceType (max 0 (int64 (limit - usage))) left)"
  have step: "step left (r', limit) = gput r' (left_of m (gget 0 usages r') limit) left" for left r' limit
    by (simp add: step_def left_of_def Let_def)
  have "map_of (foldl step left limits) r = (case map_of limits r of None \<Rightarrow> map_of left r
      | Some limit \<Rightarrow> Some (left_of m (gget 0 usages r) limit))" for left
    using assms
  proof (induction limits arbitrary: left)
    case (Cons rl limits)
    then show ?case by (cases rl) (auto simp: step gm_wf_def map_of_eq_None_iff split: option.splits intro: rev_image_eqI)
  qed simp
  then show ?thesis unfolding headroom_def step_def [symmetric] by (simp split: option.splits)
qed

lemma new_tracker_left:
  assumes "newQuotasTracker E (Inr quotas) nodes m = Inr t" and "calculateUsages E nodes quotas [] = (Inr usages, nc)"
    and "i < length quotas" and "gm_wf (Limits (quotas ! i))" and "map_of (Limits (quotas ! i)) r = Some limit"
  shows "length (quotaStatuses t) = length quotas" and "quota (quotaStatuses t ! i) = quotas ! i"
    and "map_of (limitsLeft (quotaStatuses t ! i)) r =
      Some (left_of m (gget 0 (gget [] usages (Quota_ID (quotas ! i))) r) limit)"
  using assms by (auto simp: newQuotasTracker_def map_of_headroom)

section \<open>Properties\<close>

definition demo_quota_env :: "nat quota_env" where
  "demo_quota_env = \<lparr>qe_provider = \<lparr>Id = (\<lambda>g. if g = 0 then ''a'' else ''b''), MinSize = (\<lambda>_. 0), MaxSize = (\<lambda>_. 10),
      TargetSize = (\<lambda>_. (1, None)), Autoprovisioned = (\<lambda>_. False), Nodes = (\<lambda>_. ([], None)), NodeGroups = [0, 1],
      NodeGroupForNode = (\<lambda>_. (Some 0, None)), HasInstance = (\<lambda>_. (True, None))\<rparr>,
    NodeCapacity = (\<lambda>_. [(''cpu'', 4), (''memory'', 16)]),
    GetNodeResourceTargets = (\<lambda>_ _. Inr [\<lparr>ResourceType = ''gpu'', ResourceCount = 1\<rparr>]), nodeFilter = None\<rparr>"

definition demo_quota_node :: node where
  "demo_quota_node = \<lparr>Name = ''n1'', ProviderID = [], CreationTimestamp = 0, Conditions = [], Taints = [],
     Annotations = [], Labels = [], Unschedulable = False\<rparr>"

definition demo_quota :: Quota where
  "demo_quota = \<lparr>Quota_ID = ''q'', AppliesTo = (\<lambda>_. True), Limits = [(''cpu'', 15), (''gpu'', 9)]\<rparr>"

definition demo_tracker :: Tracker where
  "demo_tracker = \<lparr>quotaStatuses = [\<lparr>quota = demo_quota, limitsLeft = [(''cpu'', 11), (''gpu'', 8)]\<rparr>],
     nodeCache = [(''a'', [(''cpu'', 4), (''memory'', 16), (''nodes'', 1), (''gpu'', 1)])]\<rparr>"

lemma demo_bounded: "bounded_resources demo_quota_env 16"
  by (auto simp: bounded_resources_def demo_quota_env_def)

lemma demo_usages: "calculateUsages demo_quota_env [demo_quota_node] [demo_quota] [] =
    (Inr [(''q'', [(''cpu'', 4), (''memory'', 16), (''nodes'', 1), (''gpu'', 1)])], nodeCache demo_tracker)"
  by code_simp

lemma demo_tracker_new: "newQuotasTracker demo_quota_env (Inr [demo_quota]) [demo_quota_node] False = Inr demo_tracker"
  by (simp add: newQuotasTracker_def demo_usages) (simp add: demo_tracker_def demo_quota_def headroom_def gget_def int64_def)

text \<open>
  C13. The number of nodes that \<open>CheckQuota\<close> allows is the largest number, not above the requested
  one, of which all resources fit into what is left of every matching quota; it is never negative,
  and a quota is reported as exceeded iff the number is below the request. The check changes
  nothing but the cache of node resources. The resources used are those of the cache, and products
  stay below \<open>2 ^ 63\<close>.
\<close>

theorem check_quota_exact:
  assumes "bounded_resources E B" and "tracker_ok B t" and "0 \<le> n" and "n * B < 2 ^ 63"
    and "cache_totalNodeResources E node g (nodeCache t) = (Inr delta, nc)"
  shows "\<exists>res. CheckQuota E g node n t = (Inr res, t\<lparr>nodeCache := nc\<rparr>) \<and> 0 \<le> AllowedDelta res \<and>
    (\<forall>k. k \<le> AllowedDelta res \<longleftrightarrow> k \<le> n \<and> fits delta (matchingQuotaStatuses node (quotaStatuses t)) k) \<and>
    (Exceeded res \<longleftrightarrow> AllowedDelta res < n)"
proof -
  have "resources_ok B delta"
    using cache_totalNodeResources_ok(2) [OF assms(1) _ assms(5)] assms(2) by (simp add: tracker_ok_iff)
  moreover have "\<forall>qs\<in>set (matchingQuotaStatuses node (quotaStatuses t)). left_ok (limitsLeft qs)"
    using assms(2) by (auto simp: tracker_ok_def matchingQuotaStatuses_def)
  ultimately show ?thesis
    using checkQuota_exact [OF _ assms(3,4)] assms(3,5) by (auto simp: CheckQuota_def)
qed

theorem check_quota_exact_witness:
  "\<exists>res. CheckQuota demo_quota_env (Some 0) demo_quota_node 5 demo_tracker = (Inr res, demo_tracker) \<and>
     (\<forall>k. k \<le> AllowedDelta res \<longleftrightarrow>
        k \<le> 5 \<and> fits [(''cpu'', 4), (''memory'', 16), (''nodes'', 1), (''gpu'', 1)] (quotaStatuses demo_tracker) k) \<and>
     (Exceeded res \<longleftrightarrow> AllowedDelta res < 5)"
proof -
  have "tracker_ok 16 demo_tracker" by (rule newQuotasTracker_ok [OF demo_bounded demo_tracker_new])
  moreover have "cache_totalNodeResources demo_quota_env demo_quota_node (Some 0) (nodeCache demo_tracker) =
      (Inr [(''cpu'', 4), (''memory'', 16), (''nodes'', 1), (''gpu'', 1)], nodeCache demo_tracker)"
    by (simp add: cache_totalNodeResources_def demo_quota_env_def demo_tracker_def)
  moreover have "matchingQuotaStatuses demo_quota_node (quotaStatuses demo_tracker) = quotaStatuses demo_tracker"
    by (simp add: matchingQuotaStatuses_def demo_tracker_def demo_quota_def)
  ultimately show ?thesis
    using check_quota_exact [OF demo_bounded, of demo_tracker 5 demo_quota_node "Some 0"] by auto
qed

text \<open>
  C35. Quotas hold over any history of \<open>ConsumeQuota\<close> calls on a new tracker. What is left of a
  limit is the initial headroom minus everything that was granted, and never negative. So, with a
  maximum that the usage of the cluster does not exceed at the start, usage plus grants never
  exceed it, and with a minimum the usage minus the grants never falls below it.
\<close>

theorem consumed_quota_within_limits:
  assumes "bounded_resources E B" and "newQuotasTracker E (Inr quotas) nodes m = Inr t"
    and "\<forall>(g, node, n)\<in>set requests. n * B < 2 ^ 63" and "consume_history E requests t = (grants, t')"
    and "calculateUsages E nodes quotas [] = (Inr usages, nc)"
    and "i < length quotas" and "gm_wf (Limits (quotas ! i))" and "map_of (Limits (quotas ! i)) r = Some limit"
    and "usage = gget 0 (gget [] usages (Quota_ID (quotas ! i))) r" and "\<bar>usage - limit\<bar> < 2 ^ 63"
  shows "map_of (limitsLeft (quotaStatuses t' ! i)) r =
      Some (max 0 (if m then usage - limit else limit - usage) - granted (quotas ! i) r grants) \<and>
    granted (quotas ! i) r grants \<le> max 0 (if m then usage - limit else limit - usage) \<and>
    (\<not> m \<and> usage \<le> limit \<longrightarrow> usage + granted (quotas ! i) r grants \<le> limit) \<and>
    (m \<and> limit \<le> usage \<longrightarrow> limit \<le> usage - granted (quotas ! i) r grants)"
proof -
  have hist: "tracker_ok B t' \<and> accounted t t' grants"
    by (rule consume_history_accounted [OF assms(1) newQuotasTracker_ok [OF assms(1,2)] assms(3,4)])
  note new = new_tracker_left [OF assms(2,5-8)]
  have wrap: "left_of m usage limit = max 0 (if m then usage - limit else limit - usage)"
    unfolding left_of_def using assms(10) by (subst int64_id) auto
  have left: "map_of (limitsLeft (quotaStatuses t' ! i)) r =
      Some (max 0 (if m then usage - limit else limit - usage) - granted (quotas ! i) r grants)"
    using hist new assms(6) wrap unfolding accounted_def assms(9) [symmetric] by simp
  have "length (quotaStatuses t') = length (quotaStatuses t)"
    using hist map_eq_imp_length_eq unfolding accounted_def by blast
  then have "left_ok (limitsLeft (quotaStatuses t' ! i))"
    using hist assms(6) new(1) by (simp add: tracker_ok_def)
  then have "granted (quotas ! i) r grants \<le> max 0 (if m then usage - limit else limit - usage)"
    using left unfolding left_ok_def by fastforce
  then show ?thesis using left by (auto split: if_splits)
qed

definition demo_requests :: "nat quota_request list" where
  "demo_requests = [(Some 0, demo_quota_node, 2), (Some 1, demo_quota_node, 1)]"

theorem consumed_quota_within_limits_witness:
  "let (grants, t') = consume_history demo_quota_env demo_requests demo_tracker in
     grants = [(demo_quota_node, [(''cpu'', 4), (''memory'', 16), (''nodes'', 1), (''gpu'', 1)], 2)] \<and>
     map_of (limitsLeft (quotaStatuses t' ! 0)) ''cpu'' = Some (11 - granted demo_quota ''cpu'' grants) \<and>
     4 + granted demo_quota ''cpu'' grants \<le> 15"
proof -
  obtain grants t' where hist: "consume_history demo_quota_env demo_requests demo_tracker = (grants, t')" by fastforce
  have grants: "grants = [(demo_quota_node, [(''cpu'', 4), (''memory'', 16), (''nodes'', 1), (''gpu'', 1)], 2)]"
  proof -
    have "fst (consume_history demo_quota_env demo_requests demo_tracker) =
        [(demo_quota_node, [(''cpu'', 4), (''memory'', 16), (''nodes'', 1), (''gpu'', 1)], 2)]"
      by code_simp
    then show ?thesis using hist by simp
  qed
  have small: "\<forall>(g, node, n)\<in>set demo_requests. n * 16 < 2 ^ 63" by (simp add: demo_requests_def)
  have "gm_wf (Limits demo_quota)" "map_of (Limits demo_quota) ''cpu'' = Some 15" "Quota_ID demo_quota = ''q''"
    by (simp_all add: demo_quota_def gm_wf_def)
  then show ?thesis
    using consumed_quota_within_limits [OF demo_bounded demo_tracker_new small hist demo_usages, of 0 "''cpu''" 15 4]
    by (simp add: hist grants gget_def)
qed

end
