(* ===== verification/Unneeded_Nodes.thy ===== *)
theory Unneeded_Nodes
  imports Quota_Tracker Deletion_Tracker Taints_Util "HOL-Library.Multiset"
begin

text \<open>
  Nodes that are not needed and nodes that cannot be removed
  (src/pkg/core/scaledown/unneeded/nodes.go, src/pkg/core/scaledown/unremovable/nodes.go,
  \<open>GetNodeGroupSizeMap\<close> of src/pkg/utils/utils.go, \<open>HasNoScaleDownAnnotation\<close> of
  src/pkg/core/scaledown/eligibility/eligibility.go and the result types of
  src/pkg/simulator/cluster.go).

  The unneeded nodes remember since when each of them has been unneeded. \<open>RemovableAt\<close> picks those
  that may be removed now: unneeded for long enough, their groups above the minimal size and the
  minimal resource limits kept. The provider is asked in every operation, so operations take the
  environment with its present answers. The loops over \<open>byName\<close> follow the order of its entries.
\<close>

section \<open>Model: unneeded nodes\<close>

datatype UnremovableReason =
  NoReason | ScaleDownDisabledAnnotation | ScaleDownUnreadyDisabled | NotAutoscaled | NotUnneededLongEnough
  | NotUnreadyLongEnough | NodeGroupMinSizeReached | NodeGroupMaxDeletionCountReached | AtomicScaleDownFailed
  | MinimalResourceLimitExceeded | CurrentlyBeingDeleted | NotUnderutilized | NotUnneededOtherReason
  | RecentlyUnremovable | NoPlaceToMovePods | BlockedByPod | UnexpectedError | NoNodeInfo | BlockedByOnCompletionPod

record 'p NodeToBeRemoved =
  ntbr_Node :: node
  IsRisky :: bool
  PodsToReschedule :: "'p list"
  DaemonSetPods :: "'p list"
  OnCompletionPods :: "'p list"

record 'b UnremovableNode =
  un_Node :: node
  un_Reason :: UnremovableReason
  BlockingPod :: "'b option"

record UnneededNode =
  uu_Node :: node
  RemovalThreshold :: duration

record 'p unneeded_node =
  ntbr :: "'p NodeToBeRemoved"
  since :: time
  removalThreshold :: duration
  thresholdRetrievalFailed :: bool

record 'p unneeded =
  cachedList :: "UnneededNode list option"
  byName :: "(string, 'p unneeded_node) gmap"

record 'g unneeded_env =
  ue_quota :: "'g quota_env"
  GetScaleDownUnneededTime :: "'g \<Rightarrow> string + duration"
  GetScaleDownUnreadyTime :: "'g \<Rightarrow> string + duration"

abbreviation ue_cp :: "'g unneeded_env \<Rightarrow> 'g cloud_provider" where
  "ue_cp E \<equiv> qe_provider (ue_quota E)"

definition NewNodes :: "'p unneeded" where
  "NewNodes = \<lparr>cachedList = None, byName = []\<rparr>"

definition lookupAndSetRemovalThreshold :: "'g unneeded_env \<Rightarrow> 'p unneeded_node \<Rightarrow> 'p unneeded_node" where
  "lookupAndSetRemovalThreshold E v =
     (case NodeGroupForNode (ue_cp E) (ntbr_Node (ntbr v)) of
        (_, Some err) \<Rightarrow> v
      | (None, None) \<Rightarrow> v
      | (Some nodeGroup, None) \<Rightarrow>
          (case (if Ready (fst (GetNodeReadiness (ntbr_Node (ntbr v)))) then GetScaleDownUnneededTime E nodeGroup
                 else GetScaleDownUnreadyTime E nodeGroup) of
             Inl err \<Rightarrow> v\<lparr>thresholdRetrievalFailed := True\<rparr>
           | Inr threshold \<Rightarrow> v\<lparr>removalThreshold := threshold\<rparr>))"

definition newNode :: "'g unneeded_env \<Rightarrow> 'p NodeToBeRemoved \<Rightarrow> ('p NodeToBeRemoved \<Rightarrow> time option) \<Rightarrow> time \<Rightarrow> 'p unneeded_node" where
  "newNode E nn timestampGetter ts =
     lookupAndSetRemovalThreshold E \<lparr>ntbr = nn,
       since = (case timestampGetter nn of Some existingts \<Rightarrow> existingts | None \<Rightarrow> ts),
       removalThreshold = 0, thresholdRetrievalFailed = False\<rparr>"

definition update_node :: "'g unneeded_env \<Rightarrow> ('p NodeToBeRemoved \<Rightarrow> time option) \<Rightarrow> time \<Rightarrow> 'p unneeded \<Rightarrow>
    'p NodeToBeRemoved \<Rightarrow> 'p unneeded_node" where
  "update_node E timestampGetter ts n nn =
     (case map_of (byName n) (Name (ntbr_Node nn)) of
        Some val \<Rightarrow> lookupAndSetRemovalThreshold E \<lparr>ntbr = nn, since = since val, removalThreshold = 0, thresholdRetrievalFailed = False\<rparr>
      | None \<Rightarrow> newNode E nn timestampGetter ts)"

definition updateInternalState :: "'g unneeded_env \<Rightarrow> 'p NodeToBeRemoved list \<Rightarrow> time \<Rightarrow> ('p NodeToBeRemoved \<Rightarrow> time option) \<Rightarrow>
    'p unneeded \<Rightarrow> 'p unneeded" where
  "updateInternalState E nodes ts timestampGetter n =
     n\<lparr>byName := foldl (\<lambda>updated nn. gput (Name (ntbr_Node nn)) (update_node E timestampGetter ts n nn) updated) [] nodes,
       cachedList := None\<rparr>"

definition Update :: "'g unneeded_env \<Rightarrow> 'p NodeToBeRemoved list \<Rightarrow> time \<Rightarrow> 'p unneeded \<Rightarrow> 'p unneeded" where
  "Update E nodes ts n = updateInternalState E nodes ts (\<lambda>_. None) n"

definition initialize :: "'g unneeded_env \<Rightarrow> 'p NodeToBeRemoved list \<Rightarrow> time \<Rightarrow> 'p unneeded \<Rightarrow> 'p unneeded" where
  "initialize E nodes ts n = updateInternalState E nodes ts
     (\<lambda>nn. case GetDeletionCandidateTime (ntbr_Node nn) of Inr marked \<Rightarrow> marked | Inl _ \<Rightarrow> None) n"

definition nodes_with_taints :: "duration \<Rightarrow> time \<Rightarrow> node list \<Rightarrow> 'p NodeToBeRemoved list" where
  "nodes_with_taints ttl ts nodes =
     map (\<lambda>node. \<lparr>ntbr_Node = node, IsRisky = False, PodsToReschedule = [], DaemonSetPods = [], OnCompletionPods = []\<rparr>)
       (filter (\<lambda>node. case GetDeletionCandidateTime node of
            Inl err \<Rightarrow> False | Inr None \<Rightarrow> False | Inr (Some marked) \<Rightarrow> \<not> marked + ttl < ts) nodes)"

definition LoadFromExistingTaints :: "'g unneeded_env \<Rightarrow> string + node list \<Rightarrow> duration \<Rightarrow> time \<Rightarrow> 'p unneeded \<Rightarrow>
    string option \<times> 'p unneeded" where
  "LoadFromExistingTaints E listed deletionCandidateStalenessTTL ts n =
     (case listed of Inl err \<Rightarrow> (Some (''failed to list nodes when initializing unneeded nodes: '' @ err), n)
      | Inr nodes \<Rightarrow>
          (let nodesWithTaints = nodes_with_taints deletionCandidateStalenessTTL ts nodes
           in (None, if length nodesWithTaints > 0 then initialize E nodesWithTaints ts n else n)))"

definition Clear :: "'g unneeded_env \<Rightarrow> 'p unneeded \<Rightarrow> 'p unneeded" where
  "Clear E n = Update E [] zero_time n"

definition unneeded_Contains :: "string \<Rightarrow> 'p unneeded \<Rightarrow> bool" where
  "unneeded_Contains nodeName n = ghas (byName n) nodeName"

definition unneeded_AsList :: "'p unneeded \<Rightarrow> UnneededNode list \<times> 'p unneeded" where
  "unneeded_AsList n =
     (case cachedList n of Some l \<Rightarrow> (l, n)
      | None \<Rightarrow> (let l = map (\<lambda>(_, v). \<lparr>uu_Node = ntbr_Node (ntbr v), RemovalThreshold = removalThreshold v\<rparr>) (byName n)
          in (l, n\<lparr>cachedList := Some l\<rparr>)))"

definition Drop :: "string \<Rightarrow> 'p unneeded \<Rightarrow> 'p unneeded" where
  "Drop node n = n\<lparr>byName := gdel node (byName n), cachedList := None\<rparr>"

section \<open>Model: removable nodes\<close>

definition ScaleDownDisabledKey :: string where
  "ScaleDownDisabledKey = ''cluster-autoscaler.kubernetes.io/scale-down-disabled''"

definition HasNoScaleDownAnnotation :: "node \<Rightarrow> bool" where
  "HasNoScaleDownAnnotation node \<longleftrightarrow> gget [] (Annotations node) ScaleDownDisabledKey = ''true''"

definition GetNodeGroupSizeMap :: "'g cloud_provider \<Rightarrow> (string, int) gmap" where
  "GetNodeGroupSizeMap cp = foldl (\<lambda>nodeGroupSize g. case TargetSize cp g of
     (sz, None) \<Rightarrow> gput (Id cp g) sz nodeGroupSize | (_, Some err) \<Rightarrow> nodeGroupSize) [] (NodeGroups cp)"

definition verifyMinSize :: "'g cloud_provider \<Rightarrow> 'g \<Rightarrow> (string, int) gmap \<Rightarrow> ('q, 'r) NodeDeletionTracker \<Rightarrow> UnremovableReason" where
  "verifyMinSize cp nodeGroup nodeGroupSize as =
     (case map_of nodeGroupSize (Id cp nodeGroup) of
        None \<Rightarrow> UnexpectedError
      | Some sz \<Rightarrow> if sz - DeletionsCount (Id cp nodeGroup) as \<le> MinSize cp nodeGroup then NodeGroupMinSizeReached else NoReason)"

text \<open>The state of the loop: the sizes of the groups and the tracker of the minimal limits.\<close>

type_synonym removal_state = "(string, int) gmap \<times> Tracker"

definition unremovableReason :: "'g unneeded_env \<Rightarrow> ('q, 'r) NodeDeletionTracker \<Rightarrow> 'p unneeded_node \<Rightarrow> time \<Rightarrow>
    removal_state \<Rightarrow> UnremovableReason \<times> removal_state" where
  "unremovableReason E as v ts s =
     (let (nodeGroupSize, tracker) = s; node = ntbr_Node (ntbr v) in
      if thresholdRetrievalFailed v then (UnexpectedError, s)
      else if HasNoScaleDownAnnotation node then (ScaleDownDisabledAnnotation, s)
      else if removalThreshold v > 0 \<and> \<not> since v + removalThreshold v < ts
        then (if Ready (fst (GetNodeReadiness node)) then NotUnneededLongEnough else NotUnreadyLongEnough, s)
      else case NodeGroupForNode (ue_cp E) node of
          (_, Some err) \<Rightarrow> (NotAutoscaled, s)
        | (None, None) \<Rightarrow> (NotAutoscaled, s)
        | (Some nodeGroup, None) \<Rightarrow>
            (let reason = verifyMinSize (ue_cp E) nodeGroup nodeGroupSize as in
             if reason \<noteq> NoReason then (reason, s)
             else case ConsumeQuota (ue_quota E) (Some nodeGroup) node 1 tracker of
                 (Inl err, tracker') \<Rightarrow> (UnexpectedError, (nodeGroupSize, tracker'))
               | (Inr checkResult, tracker') \<Rightarrow>
                   if Exceeded checkResult then (MinimalResourceLimitExceeded, (nodeGroupSize, tracker'))
                   else (NoReason, (gput (Id (ue_cp E) nodeGroup)
                      (gget 0 nodeGroupSize (Id (ue_cp E) nodeGroup) - 1) nodeGroupSize, tracker'))))"

definition splitEmptyAndNonEmptyNodes :: "'p unneeded \<Rightarrow> (string, 'p unneeded_node) gmap \<times> (string, 'p unneeded_node) gmap" where
  "splitEmptyAndNonEmptyNodes n =
     (filter (\<lambda>(name, v). \<not> length (PodsToReschedule (ntbr v)) > 0) (byName n),
      filter (\<lambda>(name, v). length (PodsToReschedule (ntbr v)) > 0) (byName n))"

text \<open>One of the two loops of \<open>RemovableAt\<close>: the removable nodes, the others with their reasons.\<close>

fun removable_loop :: "'g unneeded_env \<Rightarrow> ('q, 'r) NodeDeletionTracker \<Rightarrow> time \<Rightarrow> 'p unneeded_node list \<Rightarrow> removal_state \<Rightarrow>
    'p unneeded_node list \<times> 'b UnremovableNode list \<times> removal_state" where
  "removable_loop E as ts [] s = ([], [], s)"
| "removable_loop E as ts (v # vs) s =
     (let (r, s1) = unremovableReason E as v ts s; (removable, unremovable, s2) = removable_loop E as ts vs s1
      in if r \<noteq> NoReason
         then (removable, \<lparr>un_Node = ntbr_Node (ntbr v), un_Reason = r, BlockingPod = None\<rparr> # unremovable, s2)
         else (v # removable, unremovable, s2))"

definition RemovableAt :: "'g unneeded_env \<Rightarrow> ('q, 'r) NodeDeletionTracker \<Rightarrow> Tracker \<Rightarrow> time \<Rightarrow> 'p unneeded \<Rightarrow>
    'p NodeToBeRemoved list \<times> 'p NodeToBeRemoved list \<times> 'b UnremovableNode list \<times> Tracker" where
  "RemovableAt E as tracker ts n =
     (let nodeGroupSize = GetNodeGroupSizeMap (ue_cp E);
          (emptyNodes, drainNodes) = splitEmptyAndNonEmptyNodes n;
          (empty_vs, un1, s1) = removable_loop E as ts (map snd emptyNodes) (nodeGroupSize, tracker);
          (drain_vs, un2, s2) = removable_loop E as ts (map snd drainNodes) s1
      in (map ntbr empty_vs, map ntbr drain_vs, un1 @ un2, snd s2))"

section \<open>Model: unremovable nodes\<close>

record 'b unremovable =
  ttls :: "(string, time) gmap"
  reasons :: "(string, 'b UnremovableNode) gmap"

definition unremovable_NewNodes :: "'b unremovable" where
  "unremovable_NewNodes = \<lparr>ttls = [], reasons = []\<rparr>"

text \<open>\<open>getNodeInfo name\<close> tells whether the snapshot has the node.\<close>

definition unremovable_Update :: "(string \<Rightarrow> bool) \<Rightarrow> time \<Rightarrow> 'b unremovable \<Rightarrow> 'b unremovable" where
  "unremovable_Update getNodeInfo timestamp n =
     (let n1 = n\<lparr>reasons := []\<rparr> in
      if length (ttls n) \<le> 0 then n1
      else n1\<lparr>ttls := foldl (\<lambda>newTTLs (name, ttl). if \<not> getNodeInfo name then newTTLs
          else if ttl > timestamp then gput name ttl newTTLs else newTTLs) [] (ttls n)\<rparr>)"

definition unremovable_Contains :: "string \<Rightarrow> 'b unremovable \<Rightarrow> bool" where
  "unremovable_Contains nodeName n = ghas (reasons n) nodeName"

definition unremovable_Add :: "'b UnremovableNode \<Rightarrow> 'b unremovable \<Rightarrow> 'b unremovable" where
  "unremovable_Add node n = n\<lparr>reasons := gput (Name (un_Node node)) node (reasons n)\<rparr>"

definition AddTimeout :: "'b UnremovableNode \<Rightarrow> time \<Rightarrow> 'b unremovable \<Rightarrow> 'b unremovable" where
  "AddTimeout node timeout n = unremovable_Add node (n\<lparr>ttls := gput (Name (un_Node node)) timeout (ttls n)\<rparr>)"

definition AddReason :: "node \<Rightarrow> UnremovableReason \<Rightarrow> 'b unremovable \<Rightarrow> 'b unremovable" where
  "AddReason node reason n = unremovable_Add \<lparr>un_Node = node, un_Reason = reason, BlockingPod = None\<rparr> n"

definition unremovable_AsList :: "'b unremovable \<Rightarrow> 'b UnremovableNode list" where
  "unremovable_AsList n = map snd (reasons n)"

definition HasReason :: "string \<Rightarrow> 'b unremovable \<Rightarrow> bool" where
  "HasReason nodeName n = ghas (reasons n) nodeName"

definition IsRecent :: "string \<Rightarrow> 'b unremovable \<Rightarrow> bool" where
  "IsRecent nodeName n = ghas (ttls n) nodeName"

section \<open>Accounting for admissions\<close>

text \<open>
  A loop that admits or refuses items one by one and keeps levels (group sizes, limits left).
  Admitting an item lowers the levels by its cost and never takes a level that it lowers below its
  floor; refusing leaves the levels alone. Then the whole loop keeps every floor, and a level falls
  by exactly what was spent on the admitted items.
\<close>

locale admission =
  fixes admit :: "'i \<Rightarrow> 's \<Rightarrow> bool \<times> 's" and inv :: "'s \<Rightarrow> bool" and level :: "'s \<Rightarrow> 'k \<Rightarrow> int"
    and cost :: "'i \<Rightarrow> 's \<Rightarrow> 'k \<Rightarrow> int" and floor_of :: "'k \<Rightarrow> int"
  assumes admit_inv: "inv s \<Longrightarrow> inv (snd (admit i s))"
    and refused: "inv s \<Longrightarrow> \<not> fst (admit i s) \<Longrightarrow> level (snd (admit i s)) k = level s k"
    and admitted: "inv s \<Longrightarrow> fst (admit i s) \<Longrightarrow> level (snd (admit i s)) k = level s k - cost i s k"
    and above_floor: "inv s \<Longrightarrow> fst (admit i s) \<Longrightarrow> cost i s k \<noteq> 0 \<Longrightarrow> floor_of k \<le> level (snd (admit i s)) k"
    and cost_nonneg: "inv s \<Longrightarrow> 0 \<le> cost i s k"
begin

fun admit_all :: "'i list \<Rightarrow> 's \<Rightarrow> 'i list \<times> 's" where
  "admit_all [] s = ([], s)"
| "admit_all (i # items) s =
     (let (a, s1) = admit i s; (xs, s2) = admit_all items s1 in (if a then i # xs else xs, s2))"

fun spent :: "'i list \<Rightarrow> 's \<Rightarrow> 'k \<Rightarrow> int" where
  "spent [] s k = 0"
| "spent (i # items) s k = (if fst (admit i s) then cost i s k else 0) + spent items (snd (admit i s)) k"

lemma admit_all_Cons:
  "fst (admit_all (i # items) s) = (if fst (admit i s) then [i] else []) @ fst (admit_all items (snd (admit i s)))"
  "snd (admit_all (i # items) s) = snd (admit_all items (snd (admit i s)))"
  by (simp_all split: prod.splits)

declare admit_all.simps(2) [simp del] admit_all_Cons [simp]

lemma admit_all_inv: "inv s \<Longrightarrow> inv (snd (admit_all items s))"
  by (induction items arbitrary: s) (simp_all add: admit_inv)

lemma admit_all_append:
  "fst (admit_all (xs @ ys) s) = fst (admit_all xs s) @ fst (admit_all ys (snd (admit_all xs s)))"
  "snd (admit_all (xs @ ys) s) = snd (admit_all ys (snd (admit_all xs s)))"
  by (induction xs arbitrary: s) simp_all

lemma admit_all_admitted: "i \<in> set (fst (admit_all items s)) \<Longrightarrow> i \<in> set items \<and> (\<exists>s. fst (admit i s))"
  by (induction items arbitrary: s) (auto split: if_splits)

lemma spent_nonneg: "inv s \<Longrightarrow> 0 \<le> spent items s k"
  by (induction items arbitrary: s) (simp_all add: admit_inv cost_nonneg)

lemma level_admit_all: "inv s \<Longrightarrow> level (snd (admit_all items s)) k = level s k - spent items s k"
proof (induction items arbitrary: s)
  case (Cons i items)
  let ?s1 = "snd (admit i s)"
  have "inv ?s1" using Cons.prems by (rule admit_inv)
  moreover have "level ?s1 k = level s k - (if fst (admit i s) then cost i s k else 0)"
    using admitted [OF Cons.prems, of i k] refused [OF Cons.prems, of i k] by simp
  ultimately show ?case using Cons.IH by simp
qed simp

lemma floor_kept:
  assumes "inv s" and "spent items s k \<noteq> 0"
  shows "floor_of k \<le> level (snd (admit_all items s)) k"
  using assms
proof (induction items arbitrary: s)
  case (Cons i items)
  let ?s1 = "snd (admit i s)"
  have s1: "inv ?s1" using Cons.prems(1) by (rule admit_inv)
  show ?case
  proof (cases "spent items ?s1 k = 0")
    case True
    then have "fst (admit i s)" and "cost i s k \<noteq> 0" using Cons.prems(2) by (auto split: if_splits)
    then have "floor_of k \<le> level ?s1 k" by (rule above_floor [OF Cons.prems(1)])
    then show ?thesis using level_admit_all [OF s1, of items k] True by simp
  next
    case False
    then show ?thesis using Cons.IH [OF s1] by simp
  qed
qed simp

end

text \<open>The removal loop admits a node when there is no reason against its removal.\<close>

definition admit_removal :: "'g unneeded_env \<Rightarrow> ('q, 'r) NodeDeletionTracker \<Rightarrow> time \<Rightarrow> 'p unneeded_node \<Rightarrow> removal_state \<Rightarrow>
    bool \<times> removal_state" where
  "admit_removal E as ts v s = (let (r, s') = unremovableReason E as v ts s in (r = NoReason, s'))"

definition group_of :: "'g unneeded_env \<Rightarrow> 'p NodeToBeRemoved \<Rightarrow> 'g option" where
  "group_of E nn = (case NodeGroupForNode (ue_cp E) (ntbr_Node nn) of (g, None) \<Rightarrow> g | (_, Some _) \<Rightarrow> None)"

lemmas removal_simps = admit_removal_def unremovableReason_def verifyMinSize_def Let_def

text \<open>What an admission means: every check of the source has been passed.\<close>

lemma admitted_removal:
  assumes "admit_removal E as ts v s = (True, s')"
  obtains g result where "\<not> thresholdRetrievalFailed v" and "\<not> HasNoScaleDownAnnotation (ntbr_Node (ntbr v))"
    and "0 < removalThreshold v \<Longrightarrow> since v + removalThreshold v < ts" and "group_of E (ntbr v) = Some g"
    and "map_of (fst s) (Id (ue_cp E) g) = Some (gget 0 (fst s) (Id (ue_cp E) g))"
    and "MinSize (ue_cp E) g < gget 0 (fst s) (Id (ue_cp E) g) - DeletionsCount (Id (ue_cp E) g) as"
    and "fst (ConsumeQuota (ue_quota E) (Some g) (ntbr_Node (ntbr v)) 1 (snd s)) = Inr result" and "\<not> Exceeded result"
    and "s' = (gput (Id (ue_cp E) g) (gget 0 (fst s) (Id (ue_cp E) g) - 1) (fst s),
               snd (ConsumeQuota (ue_quota E) (Some g) (ntbr_Node (ntbr v)) 1 (snd s)))"
  using assms
  by (cases s) (auto simp: removal_simps group_of_def gget_def
      split: if_splits prod.splits option.splits sum.splits)

lemma refused_removal:
  assumes "admit_removal E as ts v s = (False, s')"
  shows "fst s' = fst s"
  using assms by (cases s) (auto simp: removal_simps split: if_splits prod.splits option.splits sum.splits)

text \<open>
  Two instances on the removal loop. Levels of the first are the group sizes, with one unit per
  removed node and the minimal size plus the deletions in progress as floor; levels of the second
  are the limits left in the tracker, with floor 0.
\<close>

interpretation sizes: admission "admit_removal E st ts" "\<lambda>s. inj (Id (ue_cp E))"
    "\<lambda>s g. gget 0 (fst s) (Id (ue_cp E) g)" "\<lambda>v s g. if group_of E (ntbr v) = Some g then 1 else 0"
    "\<lambda>g. MinSize (ue_cp E) g + DeletionsCount (Id (ue_cp E) g) st"
  for E :: "'g unneeded_env" and st :: "('q, 'r) NodeDeletionTracker" and ts :: time
proof (unfold_locales, goal_cases)
  case (2 s v g)
  then have "admit_removal E st ts v s = (False, snd (admit_removal E st ts v s))" by (simp add: prod_eq_iff)
  from refused_removal [OF this] show ?case by simp
next
  case (3 s v g)
  then have adm: "admit_removal E st ts v s = (True, snd (admit_removal E st ts v s))" by (simp add: prod_eq_iff)
  show ?case by (rule admitted_removal [OF adm]) (use 3(1) in \<open>auto simp: inj_eq\<close>)
next
  case (4 s v g)
  then have adm: "admit_removal E st ts v s = (True, snd (admit_removal E st ts v s))" by (simp add: prod_eq_iff)
  show ?case by (rule admitted_removal [OF adm]) (use 4(3) in \<open>auto split: if_splits\<close>)
qed simp_all

definition limit_left :: "Tracker \<Rightarrow> nat \<times> string \<Rightarrow> int" where
  "limit_left t k = (if fst k < length (quotaStatuses t) then gget 0 (limitsLeft (quotaStatuses t ! fst k)) (snd k) else 0)"

definition removal_cost :: "'g unneeded_env \<Rightarrow> 'p unneeded_node \<Rightarrow> removal_state \<Rightarrow> nat \<times> string \<Rightarrow> int" where
  "removal_cost E v s k =
     (let t = snd s; node = ntbr_Node (ntbr v) in
      if fst k < length (quotaStatuses t) \<and> ghas (limitsLeft (quotaStatuses t ! fst k)) (snd k)
      then granted (quota (quotaStatuses t ! fst k)) (snd k) (grants_of (ue_quota E) (group_of E (ntbr v), node, 1) t) else 0)"

lemma limit_left_accounted:
  assumes "accounted t t' grants"
  shows "limit_left t' k = limit_left t k - (if fst k < length (quotaStatuses t) \<and> ghas (limitsLeft (quotaStatuses t ! fst k)) (snd k)
    then granted (quota (quotaStatuses t ! fst k)) (snd k) grants else 0)"
proof -
  have len: "length (quotaStatuses t') = length (quotaStatuses t)"
    using assms map_eq_imp_length_eq unfolding accounted_def by blast
  show ?thesis
  proof (cases "fst k < length (quotaStatuses t)")
    case True
    then have "map_of (limitsLeft (quotaStatuses t' ! fst k)) (snd k) =
        map_option (\<lambda>l. l - granted (quota (quotaStatuses t ! fst k)) (snd k) grants)
          (map_of (limitsLeft (quotaStatuses t ! fst k)) (snd k))"
      using assms unfolding accounted_def by blast
    then show ?thesis using True len by (auto simp: limit_left_def ghas_def gget_def split: option.splits)
  qed (simp add: limit_left_def len)
qed

lemma limit_left_nonneg: "tracker_ok B t \<Longrightarrow> 0 \<le> limit_left t k"
  by (auto simp: tracker_ok_def limit_left_def gget_def left_ok_def split: option.splits dest!: nth_mem)

lemma grants_nonneg:
  assumes "bounded_resources E B" and "tracker_ok B t" and "0 \<le> n"
  shows "0 \<le> granted q r (grants_of E (g, node, n) t)"
proof -
  obtain rr nc where total: "cache_totalNodeResources E node g (nodeCache t) = (rr, nc)" by fastforce
  have "resources_ok B delta" if "rr = Inr delta" for delta
    using cache_totalNodeResources_ok(2) [OF assms(1) _ total that] assms(2) by (simp add: tracker_ok_iff)
  then have "0 \<le> gget 0 delta r" if "rr = Inr delta" for delta
    using that by (force simp: resources_ok_def gget_def split: option.splits dest!: map_of_SomeD)
  then show ?thesis using assms(3) total by (auto simp: grants_of_def granted_def split: sum.splits)
qed

definition limits_inv :: "'g unneeded_env \<Rightarrow> int \<Rightarrow> removal_state \<Rightarrow> bool" where
  "limits_inv E B s \<longleftrightarrow> bounded_resources (ue_quota E) B \<and> B < 2 ^ 63 \<and> tracker_ok B (snd s)"

lemma removal_tracker:
  "snd (snd (admit_removal E st ts v s)) = snd s \<and> \<not> fst (admit_removal E st ts v s) \<or>
   (\<exists>g. group_of E (ntbr v) = Some g \<and>
     snd (snd (admit_removal E st ts v s)) = snd (ConsumeQuota (ue_quota E) (Some g) (ntbr_Node (ntbr v)) 1 (snd s)) \<and>
     (fst (admit_removal E st ts v s) \<or> grants_of (ue_quota E) (Some g, ntbr_Node (ntbr v), 1) (snd s) = []))"
  by (cases s) (auto simp: removal_simps group_of_def grants_of_def split: if_splits prod.splits option.splits sum.splits)

lemma limits_inv_step: "limits_inv E B s \<Longrightarrow> limits_inv E B (snd (admit_removal E st ts v s))"
  using removal_tracker [of E st ts v s] ConsumeQuota_step [of "ue_quota E" B "snd s" 1]
  by (auto simp: limits_inv_def)

interpretation limits: admission "admit_removal E st ts" "limits_inv E B" "\<lambda>s. limit_left (snd s)" "removal_cost E" "\<lambda>k. 0"
  for E :: "'g unneeded_env" and st :: "('q, 'r) NodeDeletionTracker" and ts :: time and B :: int
proof (unfold_locales, goal_cases)
  case (1 s v)
  then show ?case by (rule limits_inv_step)
next
  case (2 s v k)
  from removal_tracker [of E st ts v s] consider "snd (snd (admit_removal E st ts v s)) = snd s"
    | g where "snd (snd (admit_removal E st ts v s)) = snd (ConsumeQuota (ue_quota E) (Some g) (ntbr_Node (ntbr v)) 1 (snd s))"
        "grants_of (ue_quota E) (Some g, ntbr_Node (ntbr v), 1) (snd s) = []" using 2(2) by auto
  then show ?case
  proof cases
    case (2 g)
    have "accounted (snd s) (snd (ConsumeQuota (ue_quota E) (Some g) (ntbr_Node (ntbr v)) 1 (snd s))) []"
      using ConsumeQuota_step [of "ue_quota E" B "snd s" 1 "Some g" "ntbr_Node (ntbr v)"] 2 \<open>limits_inv E B s\<close>
      by (simp add: limits_inv_def)
    from limit_left_accounted [OF this] show ?thesis using 2 by simp
  qed simp
next
  case (3 s v k)
  then obtain g where g: "group_of E (ntbr v) = Some g"
    and t: "snd (snd (admit_removal E st ts v s)) = snd (ConsumeQuota (ue_quota E) (Some g) (ntbr_Node (ntbr v)) 1 (snd s))"
    using removal_tracker [of E st ts v s] by auto
  have "accounted (snd s) (snd (ConsumeQuota (ue_quota E) (Some g) (ntbr_Node (ntbr v)) 1 (snd s)))
      (grants_of (ue_quota E) (Some g, ntbr_Node (ntbr v), 1) (snd s))"
    using ConsumeQuota_step [of "ue_quota E" B "snd s" 1] 3(1) by (simp add: limits_inv_def)
  from limit_left_accounted [OF this] show ?case by (simp add: removal_cost_def g t Let_def)
next
  case (4 s v k)
  then show ?case using limits_inv_step [of E B s st ts v] limit_left_nonneg by (auto simp: limits_inv_def)
next
  case (5 s v k)
  then show ?case by (auto simp: removal_cost_def Let_def limits_inv_def intro: grants_nonneg)
qed

section \<open>The loop as a whole\<close>

abbreviation admit_removals :: "'g unneeded_env \<Rightarrow> ('q, 'r) NodeDeletionTracker \<Rightarrow> time \<Rightarrow> 'p unneeded_node list \<Rightarrow>
    removal_state \<Rightarrow> 'p unneeded_node list \<times> removal_state" where
  "admit_removals E st ts \<equiv> admission.admit_all (admit_removal E st ts)"

abbreviation removed_nodes :: "'g unneeded_env \<Rightarrow> ('q, 'r) NodeDeletionTracker \<Rightarrow> time \<Rightarrow> 'p unneeded_node list \<Rightarrow>
    removal_state \<Rightarrow> 'g \<Rightarrow> int" where
  "removed_nodes E st ts \<equiv> admission.spent (admit_removal E st ts) (\<lambda>v s g. if group_of E (ntbr v) = Some g then 1 else 0)"

lemma removable_loop_Cons:
  fixes loop :: "'p unneeded_node list \<Rightarrow> removal_state \<Rightarrow> 'p unneeded_node list \<times> 'b UnremovableNode list \<times> removal_state"
  assumes "loop = removable_loop E st ts"
  shows "fst (loop (v # vs) s) = (if fst (admit_removal E st ts v s) then [v] else []) @ fst (loop vs (snd (admit_removal E st ts v s)))"
    and "snd (snd (loop (v # vs) s)) = snd (snd (loop vs (snd (admit_removal E st ts v s))))"
  unfolding assms by (simp_all add: admit_removal_def split: prod.splits)

lemma removable_loop_admit:
  "fst (removable_loop E st ts vs s) = fst (admit_removals E st ts vs s)"
  "snd (snd (removable_loop E st ts vs s)) = snd (admit_removals E st ts vs s)"
  by (induction vs arbitrary: s) (simp_all add: removable_loop_Cons [OF refl] sizes.admit_all_Cons del: removable_loop.simps(2))

lemma spent_is_count:
  "removed_nodes E st ts vs s g = int (length (filter (\<lambda>v. group_of E (ntbr v) = Some g) (fst (admit_removals E st ts vs s))))"
proof (induction vs arbitrary: s)
  case (Cons v vs)
  then show ?case by simp
qed simp

lemma RemovableAt_admit:
  fixes un :: "'b UnremovableNode list"
  assumes "RemovableAt E st tracker ts n = (es, ds, un, tracker')"
  defines "s0 \<equiv> (GetNodeGroupSizeMap (ue_cp E), tracker)"
    and "vs \<equiv> map snd (fst (splitEmptyAndNonEmptyNodes n)) @ map snd (snd (splitEmptyAndNonEmptyNodes n))"
  shows "es @ ds = map ntbr (fst (admit_removals E st ts vs s0))" and "tracker' = snd (snd (admit_removals E st ts vs s0))"
proof -
  let ?A = "map snd (fst (splitEmptyAndNonEmptyNodes n))" and ?B = "map snd (snd (splitEmptyAndNonEmptyNodes n))"
  let ?loop = "removable_loop E st ts :: _ \<Rightarrow> _ \<Rightarrow> _ \<times> 'b UnremovableNode list \<times> _"
  have "es = map ntbr (fst (?loop ?A s0))"
    and "ds = map ntbr (fst (?loop ?B (snd (snd (?loop ?A s0)))))"
    and "tracker' = snd (snd (snd (?loop ?B (snd (snd (?loop ?A s0))))))"
    using assms by (simp_all add: RemovableAt_def s0_def split: prod.splits)
  then show "es @ ds = map ntbr (fst (admit_removals E st ts vs s0))" and "tracker' = snd (snd (admit_removals E st ts vs s0))"
    by (simp_all add: vs_def removable_loop_admit sizes.admit_all_append)
qed

lemma GetNodeGroupSizeMap_Some:
  assumes "map_of (GetNodeGroupSizeMap cp) k = Some sz"
  shows "\<exists>g\<in>set (NodeGroups cp). Id cp g = k \<and> TargetSize cp g = (sz, None)"
proof -
  have "map_of (foldl (\<lambda>m g. case TargetSize cp g of (sz, None) \<Rightarrow> gput (Id cp g) sz m | (_, Some err) \<Rightarrow> m) m gs) k = Some sz
      \<Longrightarrow> map_of m k = Some sz \<or> (\<exists>g\<in>set gs. Id cp g = k \<and> TargetSize cp g = (sz, None))" for m gs
    by (induction gs arbitrary: m) (fastforce split: prod.splits option.splits if_splits)+
  from this [of "[]" "NodeGroups cp"] show ?thesis using assms by (auto simp: GetNodeGroupSizeMap_def)
qed

lemma admitted_removal_size:
  assumes "fst (admit_removal E st ts v s)"
  shows "\<exists>g. group_of E (ntbr v) = Some g \<and> map_of (fst s) (Id (ue_cp E) g) \<noteq> None"
    and "map_of (fst (snd (admit_removal E st ts v s))) k \<noteq> None \<Longrightarrow> map_of (fst s) k \<noteq> None"
proof -
  have adm: "admit_removal E st ts v s = (True, snd (admit_removal E st ts v s))" using assms by (simp add: prod_eq_iff)
  show "\<exists>g. group_of E (ntbr v) = Some g \<and> map_of (fst s) (Id (ue_cp E) g) \<noteq> None"
    by (rule admitted_removal [OF adm]) simp
  show "map_of (fst s) k \<noteq> None" if "map_of (fst (snd (admit_removal E st ts v s))) k \<noteq> None"
    by (rule admitted_removal [OF adm]) (use that in \<open>auto split: if_splits\<close>)
qed

lemma size_found:
  assumes "v \<in> set (fst (admit_removals E st ts vs s))" and "group_of E (ntbr v) = Some g"
  shows "map_of (fst s) (Id (ue_cp E) g) \<noteq> None"
  using assms(1)
proof (induction vs arbitrary: s)
  case (Cons w vs)
  let ?s1 = "snd (admit_removal E st ts w s)"
  have dom: "map_of (fst s) k \<noteq> None" if "map_of (fst ?s1) k \<noteq> None" for k
  proof (cases "fst (admit_removal E st ts w s)")
    case False
    then have "admit_removal E st ts w s = (False, ?s1)" by (simp add: prod_eq_iff)
    from refused_removal [OF this] that show ?thesis by simp
  qed (rule admitted_removal_size(2) [OF _ that])
  show ?case
  proof (cases "fst (admit_removal E st ts w s) \<and> v = w")
    case True
    then show ?thesis using admitted_removal_size(1) [of E st ts w s] assms(2) by auto
  next
    case False
    then have "v \<in> set (fst (admit_removals E st ts vs ?s1))" using Cons.prems by (auto split: if_splits)
    then show ?thesis using Cons.IH dom by blast
  qed
qed simp

lemma removable_loop_partition:
  fixes loop :: "'p unneeded_node list \<times> 'b UnremovableNode list \<times> removal_state"
  assumes "loop = removable_loop E st ts vs s"
  shows "mset (map (ntbr_Node \<circ> ntbr) (fst loop)) + mset (map un_Node (fst (snd loop))) = mset (map (ntbr_Node \<circ> ntbr) vs) \<and>
    list_all (\<lambda>u. un_Reason u \<noteq> NoReason) (fst (snd loop))"
  using assms
proof (induction vs arbitrary: s loop)
  case (Cons v vs)
  obtain r s1 where r: "unremovableReason E st v ts s = (r, s1)" by (rule prod.exhaust)
  obtain xs un s2 where loop: "removable_loop E st ts vs s1 = (xs, un :: 'b UnremovableNode list, s2)" by (rule prod_cases3)
  show ?case using Cons.IH [OF loop [symmetric]] Cons.prems by (simp add: r loop)
qed simp

section \<open>Properties\<close>

lemma byName_Update:
  "map_of (byName (Update E nodes ts n)) name =
     (if \<exists>nn\<in>set nodes. Name (ntbr_Node nn) = name
      then Some (update_node E (\<lambda>_. None) ts n (last (filter (\<lambda>nn. Name (ntbr_Node nn) = name) nodes))) else None)"
  by (simp add: Update_def updateInternalState_def map_of_foldl_gput_id)

lemma since_lookup [simp]: "since (lookupAndSetRemovalThreshold E v) = since v"
  by (auto simp: lookupAndSetRemovalThreshold_def split: prod.splits option.splits sum.splits)

lemma since_Update:
  assumes "map_of (byName (Update E nodes ts n)) name = Some v"
  shows "since v = (case map_of (byName n) name of Some old \<Rightarrow> since old | None \<Rightarrow> ts)"
proof -
  let ?nn = "last (filter (\<lambda>nn. Name (ntbr_Node nn) = name) nodes)"
  have ex: "\<exists>nn\<in>set nodes. Name (ntbr_Node nn) = name" and v: "v = update_node E (\<lambda>_. None) ts n ?nn"
    using assms by (auto simp: byName_Update split: if_splits)
  have "?nn \<in> set (filter (\<lambda>nn. Name (ntbr_Node nn) = name) nodes)"
    using ex by (intro last_in_set) (auto simp: filter_empty_conv)
  then have "Name (ntbr_Node ?nn) = name" by simp
  then show ?thesis by (simp add: v update_node_def newNode_def split: option.splits)
qed

definition update_history :: "'p unneeded \<Rightarrow> ('g unneeded_env \<times> 'p NodeToBeRemoved list \<times> time) list \<Rightarrow> 'p unneeded" where
  "update_history n us = foldl (\<lambda>n (E, nodes, ts). Update E nodes ts n) n us"

text \<open>A cluster with one group of three nodes, minimal size one, and a minimum of four cores.\<close>

definition demo_unneeded_env :: "(node \<Rightarrow> string option \<times> cp_error option) \<Rightarrow> string unneeded_env" where
  "demo_unneeded_env answer = \<lparr>ue_quota = \<lparr>qe_provider = \<lparr>Id = (\<lambda>g. g), MinSize = (\<lambda>_. 1), MaxSize = (\<lambda>_. 10),
      TargetSize = (\<lambda>_. (3, None)), Autoprovisioned = (\<lambda>_. False), Nodes = (\<lambda>_. ([], None)), NodeGroups = [''a''],
      NodeGroupForNode = answer, HasInstance = (\<lambda>_. (True, None))\<rparr>,
      NodeCapacity = (\<lambda>_. [(''cpu'', 4)]), GetNodeResourceTargets = (\<lambda>_ _. Inr []), nodeFilter = None\<rparr>,
    GetScaleDownUnneededTime = (\<lambda>_. Inr 10), GetScaleDownUnreadyTime = (\<lambda>_. Inr 20)\<rparr>"

abbreviation demo_E :: "string unneeded_env" where
  "demo_E \<equiv> demo_unneeded_env (\<lambda>_. (Some ''a'', None))"

definition demo_ntbr :: "string \<Rightarrow> string NodeToBeRemoved" where
  "demo_ntbr name = \<lparr>ntbr_Node = demo_node name [], IsRisky = False, PodsToReschedule = [], DaemonSetPods = [], OnCompletionPods = []\<rparr>"

definition demo_min_tracker :: Tracker where
  "demo_min_tracker = \<lparr>quotaStatuses = [\<lparr>quota = \<lparr>Quota_ID = ''q'', AppliesTo = (\<lambda>_. True), Limits = [(''cpu'', 4)]\<rparr>,
     limitsLeft = [(''cpu'', 8)]\<rparr>], nodeCache = []\<rparr>"

definition demo_deletions :: "(unit, unit) NodeDeletionTracker" where
  "demo_deletions = NewNodeDeletionTracker 0"

lemma demo_min_tracker_ok: "bounded_resources (ue_quota demo_E) 4" "tracker_ok 4 demo_min_tracker"
  by (auto simp: bounded_resources_def demo_unneeded_env_def tracker_ok_def demo_min_tracker_def left_ok_def)

text \<open>
  C36. The time since when a node is unneeded is the time of the first update of the current
  uninterrupted run of updates that list the node, whatever the provider answers in between; and an
  update that does not list a node forgets it.
\<close>

theorem unneeded_since_first_update:
  assumes "\<not> unneeded_Contains name n" and "\<forall>(E, nodes, ts)\<in>set ((E1, nodes1, ts1) # us). name \<in> (Name \<circ> ntbr_Node) ` set nodes"
    and "name \<notin> (Name \<circ> ntbr_Node) ` set nodes2"
  shows "map_option since (map_of (byName (update_history n ((E1, nodes1, ts1) # us))) name) = Some ts1 \<and>
    \<not> unneeded_Contains name (Update E2 nodes2 ts2 (update_history n ((E1, nodes1, ts1) # us)))"
proof
  have keep: "\<exists>v. map_of (byName (Update E nodes ts n)) name = Some v" if "name \<in> (Name \<circ> ntbr_Node) ` set nodes" for E nodes ts n
    using that by (auto simp: byName_Update image_iff)
  have "map_option since (map_of (byName (update_history m us)) name) = Some t"
    if "map_option since (map_of (byName m) name) = Some t" "\<forall>(E, nodes, ts)\<in>set us. name \<in> (Name \<circ> ntbr_Node) ` set nodes" for m t
    using that unfolding update_history_def
  proof (induction us arbitrary: m)
    case (Cons u us)
    obtain E nodes ts where u: "u = (E, nodes, ts)" by (rule prod_cases3)
    obtain v where v: "map_of (byName (Update E nodes ts m)) name = Some v" using keep [of nodes E ts m] Cons.prems(2) u by auto
    then have "since v = t" using since_Update [OF v] Cons.prems(1) by auto
    then show ?case using Cons.IH [of "Update E nodes ts m"] Cons.prems(2) v u by simp
  qed simp
  moreover obtain v where v: "map_of (byName (Update E1 nodes1 ts1 n)) name = Some v"
    using keep [of nodes1 E1 ts1 n] assms(2) by auto
  moreover have "since v = ts1" using since_Update [OF v] assms(1) by (simp add: unneeded_Contains_def ghas_def)
  ultimately show "map_option since (map_of (byName (update_history n ((E1, nodes1, ts1) # us))) name) = Some ts1"
    using assms(2) by (simp add: update_history_def)
  show "\<not> unneeded_Contains name (Update E2 nodes2 ts2 (update_history n ((E1, nodes1, ts1) # us)))"
    using assms(3) by (auto simp: unneeded_Contains_def ghas_def byName_Update image_iff)
qed

theorem unneeded_since_first_update_witness:
  "map_option since (map_of (byName (update_history NewNodes [(demo_E, [demo_ntbr ''n''], 5), (demo_E, [demo_ntbr ''n''], 9)])) ''n'') = Some 5
   \<and> \<not> unneeded_Contains ''n'' (Update demo_E [] 11 (update_history NewNodes [(demo_E, [demo_ntbr ''n''], 5), (demo_E, [demo_ntbr ''n''], 9)]))"
  using unneeded_since_first_update [of "''n''" NewNodes demo_E "[demo_ntbr ''n'']" 5 "[(demo_E, [demo_ntbr ''n''], 9)]" "[]" demo_E 11]
  by (simp add: unneeded_Contains_def NewNodes_def ghas_def demo_ntbr_def demo_node_def)


definition demo_removable :: "string NodeToBeRemoved list \<times> string NodeToBeRemoved list \<times> string UnremovableNode list \<times> Tracker" where
  "demo_removable = RemovableAt demo_E demo_deletions demo_min_tracker 16
     (update_history NewNodes [(demo_E, map demo_ntbr [''n1'', ''n2'', ''n3''], 5)])"

lemma demo_removable_es:
  "map (Name \<circ> ntbr_Node) (fst demo_removable) = [''n1'', ''n2'']" "fst (snd demo_removable) = []"
  "map (\<lambda>u. (Name (un_Node u), un_Reason u)) (fst (snd (snd demo_removable))) = [(''n3'', NodeGroupMinSizeReached)]"
  by code_simp+




text \<open>
  A node whose group could not be determined at the last update has no threshold and is removable at
  once. If the provider fails in \<open>NodeGroupForNode\<close> while a node is first tracked and answers again by
  the time of \<open>RemovableAt\<close>, the node is returned at the very time of the update, however long the
  configured unneeded time of its group.
\<close>

theorem group_error_skips_unneeded_time:
  assumes "NodeGroupForNode (ue_cp E1) (ntbr_Node nn) = (g0, Some err)"
    and "NodeGroupForNode (ue_cp E2) (ntbr_Node nn) = (Some g, None)"
    and "\<not> HasNoScaleDownAnnotation (ntbr_Node nn)" and "PodsToReschedule nn = []"
    and "map_of (GetNodeGroupSizeMap (ue_cp E2)) (Id (ue_cp E2) g) = Some sz"
    and "MinSize (ue_cp E2) g < sz - DeletionsCount (Id (ue_cp E2) g) st"
    and "ConsumeQuota (ue_quota E2) (Some g) (ntbr_Node nn) 1 tracker = (Inr result, tracker')" and "\<not> Exceeded result"
  shows "RemovableAt E2 st tracker ts (Update E1 [nn] ts NewNodes) = ([nn], [], [] :: 'b UnremovableNode list, tracker')"
proof -
  let ?v = "\<lparr>ntbr = nn, since = ts, removalThreshold = 0, thresholdRetrievalFailed = False\<rparr>"
  have "lookupAndSetRemovalThreshold E1 ?v = ?v"
    using assms(1) by (cases g0) (simp_all add: lookupAndSetRemovalThreshold_def)
  then have "byName (Update E1 [nn] ts NewNodes) = [(Name (ntbr_Node nn), ?v)]"
    by (simp add: Update_def updateInternalState_def NewNodes_def update_node_def newNode_def)
  moreover have "unremovableReason E2 st ?v ts (GetNodeGroupSizeMap (ue_cp E2), tracker) =
      (NoReason, gput (Id (ue_cp E2) g) (sz - 1) (GetNodeGroupSizeMap (ue_cp E2)), tracker')"
    using assms by (simp add: unremovableReason_def verifyMinSize_def Let_def gget_def)
  ultimately show ?thesis using assms(4) by (simp add: RemovableAt_def splitEmptyAndNonEmptyNodes_def)
qed

theorem group_error_skips_unneeded_time_witness:
  "\<exists>tracker'. RemovableAt demo_E demo_deletions demo_min_tracker 5
      (Update (demo_unneeded_env (\<lambda>_. (None, Some (ProviderError ''timeout'')))) [demo_ntbr ''n''] 5 NewNodes) =
     ([demo_ntbr ''n''], [], [] :: string UnremovableNode list, tracker') \<and>
   GetScaleDownUnneededTime demo_E ''a'' = Inr 10"
proof -
  obtain rr tracker' where c: "ConsumeQuota (ue_quota demo_E) (Some ''a'') (ntbr_Node (demo_ntbr ''n'')) 1 demo_min_tracker = (rr, tracker')"
    by (rule prod.exhaust)
  have "map_sum (\<lambda>_. ()) Exceeded (fst (ConsumeQuota (ue_quota demo_E) (Some ''a'') (ntbr_Node (demo_ntbr ''n'')) 1 demo_min_tracker)) = Inr False"
    by code_simp
  then obtain result where result: "rr = Inr result" "\<not> Exceeded result" using c by (cases rr) auto
  let ?E1 = "demo_unneeded_env (\<lambda>_. (None, Some (ProviderError ''timeout'')))"
  have "RemovableAt demo_E demo_deletions demo_min_tracker 5 (Update ?E1 [demo_ntbr ''n''] 5 NewNodes) =
      ([demo_ntbr ''n''], [], [] :: string UnremovableNode list, tracker')"
  proof (rule group_error_skips_unneeded_time)
    show "NodeGroupForNode (ue_cp ?E1) (ntbr_Node (demo_ntbr ''n'')) = (None, Some (ProviderError ''timeout''))"
      and "NodeGroupForNode (ue_cp demo_E) (ntbr_Node (demo_ntbr ''n'')) = (Some ''a'', None)"
      by (simp_all add: demo_unneeded_env_def)
    show "\<not> HasNoScaleDownAnnotation (ntbr_Node (demo_ntbr ''n''))" "PodsToReschedule (demo_ntbr ''n'') = []"
      by (simp_all add: HasNoScaleDownAnnotation_def demo_ntbr_def demo_node_def)
    show "map_of (GetNodeGroupSizeMap (ue_cp demo_E)) (Id (ue_cp demo_E) ''a'') = Some 3"
      by (simp add: GetNodeGroupSizeMap_def demo_unneeded_env_def)
    show "MinSize (ue_cp demo_E) ''a'' < 3 - DeletionsCount (Id (ue_cp demo_E) ''a'') demo_deletions"
      by (simp add: demo_unneeded_env_def DeletionsCount_def demo_deletions_def NewNodeDeletionTracker_def)
  qed (use c result in simp_all)
  then show ?thesis by (simp add: demo_unneeded_env_def)
qed

end
