(* ===== verification/Balancing.thy ===== *)
theory Balancing
  imports Cloud_Provider "HOL-Library.Multiset"
begin

text \<open>
  Balancing a scale-up between similar node groups
  (src/pkg/processors/nodegroupset/balancing_processor.go, nodegroup_set_processor.go).

  The loop works on an array of groups sorted by size, with the indices \<open>startIndex\<close> (groups before it
  are full) and \<open>currentIndex\<close>. The model keeps the array as a list and both indices; an access out of
  range, which panics in the source, gives \<open>None\<close>. \<open>sort.Slice\<close> is not stable, so the order of groups
  of equal size is open: the sorting function is a parameter.
\<close>

section \<open>Model\<close>

record 'g ScaleUpInfo =
  su_Group :: 'g
  CurrentSize :: int
  NewSize :: int
  su_MaxSize :: int

datatype balance_error = ZeroGroups | NodeGroupSizeError cp_error | NoTemplate string

text \<open>The loop that reads the sizes: groups at their maximal size are left out.\<close>

fun collect_groups :: "'g cloud_provider \<Rightarrow> 'g list \<Rightarrow> 'g ScaleUpInfo list \<Rightarrow> int \<Rightarrow> balance_error + 'g ScaleUpInfo list \<times> int" where
  "collect_groups cp [] scaleUpInfos totalCapacity = Inr (scaleUpInfos, totalCapacity)"
| "collect_groups cp (ng # groups) scaleUpInfos totalCapacity =
     (case TargetSize cp ng of
        (_, Some err) \<Rightarrow> Inl (NodeGroupSizeError err)
      | (currentSize, None) \<Rightarrow>
          if currentSize = MaxSize cp ng then collect_groups cp groups scaleUpInfos totalCapacity
          else collect_groups cp groups
            (scaleUpInfos @ [\<lparr>su_Group = ng, CurrentSize = currentSize, NewSize = currentSize, su_MaxSize = MaxSize cp ng\<rparr>])
            (if MaxSize cp ng > currentSize then totalCapacity + (MaxSize cp ng - currentSize) else totalCapacity))"

text \<open>
  The balancing loop. Removing a full group swaps it with the group at \<open>startIndex\<close>; the pointer
  \<open>currentInfo\<close> then reads the slot at \<open>currentIndex\<close>, that is, the group swapped in.
\<close>

definition next_index :: "'g ScaleUpInfo list \<Rightarrow> nat \<Rightarrow> nat \<Rightarrow> nat" where
  "next_index xs startIndex currentIndex =
     (if int currentIndex < int (length xs) - 1 \<and> NewSize (xs ! currentIndex) > NewSize (xs ! (currentIndex + 1))
      then currentIndex + 1 else startIndex)"

function balance_loop :: "'g ScaleUpInfo list \<Rightarrow> nat \<Rightarrow> nat \<Rightarrow> int \<Rightarrow> 'g ScaleUpInfo list option" where
  "balance_loop xs startIndex currentIndex newNodes =
     (if newNodes > 0 then
        if currentIndex \<ge> length xs then None
        else if NewSize (xs ! currentIndex) < su_MaxSize (xs ! currentIndex) then
          (let xs' = xs[currentIndex := (xs ! currentIndex)\<lparr>NewSize := NewSize (xs ! currentIndex) + 1\<rparr>]
           in balance_loop xs' startIndex (next_index xs' startIndex currentIndex) (newNodes - 1))
        else if startIndex \<ge> length xs then None
        else (let xs' = xs[startIndex := xs ! currentIndex, currentIndex := xs ! startIndex]
              in balance_loop xs' (startIndex + 1) (next_index xs' (startIndex + 1) currentIndex) newNodes)
      else Some xs)"
  by pat_completeness auto
termination
  by (relation "measure (\<lambda>(xs, s, c, n). nat n + (length xs - s))") (auto simp: Let_def)

definition BalanceScaleUpBetweenGroups :: "('g ScaleUpInfo list \<Rightarrow> 'g ScaleUpInfo list) \<Rightarrow> 'g cloud_provider \<Rightarrow> 'g list \<Rightarrow> int \<Rightarrow>
    (balance_error + 'g ScaleUpInfo list) option" where
  "BalanceScaleUpBetweenGroups sort_slice cp groups newNodes =
     (if length groups = 0 then Some (Inl ZeroGroups)
      else case collect_groups cp groups [] 0 of
          Inl err \<Rightarrow> Some (Inl err)
        | Inr (scaleUpInfos, totalCapacity) \<Rightarrow>
            map_option (\<lambda>infos. Inr (filter (\<lambda>info. NewSize info \<noteq> CurrentSize info) infos))
              (balance_loop (sort_slice scaleUpInfos) 0 0 (if totalCapacity < newNodes then totalCapacity else newNodes)))"

text \<open>\<open>FindSimilarNodeGroups\<close>, for a given comparator of template node infos.\<close>

fun similar_groups :: "'g cloud_provider \<Rightarrow> ('i \<Rightarrow> 'i \<Rightarrow> bool) \<Rightarrow> (string, 'i) gmap \<Rightarrow> string \<Rightarrow> 'i \<Rightarrow> 'g list \<Rightarrow> 'g list" where
  "similar_groups cp comparator nodeInfosForGroups nodeGroupId nodeInfo [] = []"
| "similar_groups cp comparator nodeInfosForGroups nodeGroupId nodeInfo (ng # groups) =
     (let rest = similar_groups cp comparator nodeInfosForGroups nodeGroupId nodeInfo groups in
      if Id cp ng = nodeGroupId then rest
      else case map_of nodeInfosForGroups (Id cp ng) of
          None \<Rightarrow> rest
        | Some ngNodeInfo \<Rightarrow> if comparator nodeInfo ngNodeInfo then ng # rest else rest)"

definition FindSimilarNodeGroups :: "'g cloud_provider \<Rightarrow> ('i \<Rightarrow> 'i \<Rightarrow> bool) \<Rightarrow> 'g \<Rightarrow> (string, 'i) gmap \<Rightarrow> balance_error + 'g list" where
  "FindSimilarNodeGroups cp comparator nodeGroup nodeInfosForGroups =
     (case map_of nodeInfosForGroups (Id cp nodeGroup) of
        None \<Rightarrow> Inl (NoTemplate (Id cp nodeGroup))
      | Some nodeInfo \<Rightarrow> Inr (similar_groups cp comparator nodeInfosForGroups (Id cp nodeGroup) nodeInfo (NodeGroups cp)))"

section \<open>The loop invariant\<close>

definition full :: "'g ScaleUpInfo \<Rightarrow> bool" where
  "full x \<longleftrightarrow> \<not> NewSize x < su_MaxSize x"

definition free_capacity :: "'g ScaleUpInfo \<Rightarrow> int" where
  "free_capacity x = max 0 (su_MaxSize x - NewSize x)"

definition level :: "'g ScaleUpInfo list \<Rightarrow> nat \<Rightarrow> int" where
  "level xs c = NewSize (xs ! c)"

text \<open>
  Groups before \<open>s\<close> are full; those between \<open>s\<close> and \<open>c\<close> have one node more than the group at \<open>c\<close>; from \<open>c\<close> on
  the sizes are sorted; and no group that was given nodes is more than one above the level.
\<close>

definition balance_inv :: "'g ScaleUpInfo list \<Rightarrow> nat \<Rightarrow> nat \<Rightarrow> bool" where
  "balance_inv xs s c \<longleftrightarrow> s \<le> c \<and> (c < length xs \<or> s = length xs \<and> c = length xs) \<and>
     (\<forall>i<s. full (xs ! i)) \<and> (\<forall>i. s \<le> i \<longrightarrow> i < c \<longrightarrow> NewSize (xs ! i) = level xs c + 1) \<and>
     (\<forall>i j. c \<le> i \<longrightarrow> i \<le> j \<longrightarrow> j < length xs \<longrightarrow> NewSize (xs ! i) \<le> NewSize (xs ! j)) \<and>
     (c < length xs \<longrightarrow> (\<forall>x\<in>set xs. CurrentSize x < NewSize x \<longrightarrow> NewSize x \<le> level xs c + 1))"

text \<open>
  Moving on from \<open>c\<close>, once all groups from \<open>s\<close> to \<open>c\<close> have the size \<open>L + 1\<close> and those behind \<open>c\<close> are sorted
  and at least \<open>L\<close>.
\<close>

lemma next_index_inv:
  assumes "s \<le> c" and "c < length xs" and "\<forall>i<s. full (xs ! i)"
    and eq: "\<forall>i. s \<le> i \<longrightarrow> i \<le> c \<longrightarrow> NewSize (xs ! i) = L + 1"
    and srt: "\<forall>i j. c < i \<longrightarrow> i \<le> j \<longrightarrow> j < length xs \<longrightarrow> NewSize (xs ! i) \<le> NewSize (xs ! j)"
    and lo: "\<forall>i. c < i \<longrightarrow> i < length xs \<longrightarrow> L \<le> NewSize (xs ! i)"
    and grown: "\<forall>x\<in>set xs. CurrentSize x < NewSize x \<longrightarrow> NewSize x \<le> L + 1"
  shows "balance_inv xs s (next_index xs s c)"
proof (cases "int c < int (length xs) - 1 \<and> NewSize (xs ! c) > NewSize (xs ! (c + 1))")
  case True
  then have c1: "c + 1 < length xs" by linarith
  have "NewSize (xs ! (c + 1)) = L"
    using True eq [rule_format, of c] lo [rule_format, of "c + 1"] c1 assms(1) by simp
  then show ?thesis
    using True assms c1 unfolding balance_inv_def next_index_def level_def by (auto simp: less_Suc_eq_le)
next
  case False
  have above: "L + 1 \<le> NewSize (xs ! i)" if "c < i" "i < length xs" for i
  proof -
    have "L + 1 \<le> NewSize (xs ! (c + 1))"
      using False eq [rule_format, of c] that assms(1) by auto
    also have "\<dots> \<le> NewSize (xs ! i)" using srt [rule_format, of "c + 1" i] that by simp
    finally show ?thesis .
  qed
  have "NewSize (xs ! i) \<le> NewSize (xs ! j)" if "s \<le> i" "i \<le> j" "j < length xs" for i j
  proof (cases "c < i")
    case False
    then have "NewSize (xs ! i) = L + 1" using eq that by simp
    moreover have "L + 1 \<le> NewSize (xs ! j)" using above [of j] eq that by (cases "c < j") auto
    ultimately show ?thesis by simp
  qed (use srt that in auto)
  moreover have "NewSize (xs ! s) = L + 1" using eq assms(1) by simp
  ultimately show ?thesis
    using False assms(1-3) grown unfolding balance_inv_def next_index_def level_def by fastforce
qed

lemma inv_above_level:
  assumes "balance_inv xs s c" and "c < length xs" and "s \<le> i" and "i < length xs"
  shows "level xs c \<le> NewSize (xs ! i)"
  using assms unfolding balance_inv_def level_def by (cases "i < c") force+

lemma add_node_inv:
  assumes inv: "balance_inv xs s c" and c: "c < length xs" and "\<not> full (xs ! c)"
  defines "xs' \<equiv> xs[c := (xs ! c)\<lparr>NewSize := NewSize (xs ! c) + 1\<rparr>]"
  shows "balance_inv xs' s (next_index xs' s c)"
proof (rule next_index_inv)
  have nth: "xs' ! i = (if i = c then (xs ! c)\<lparr>NewSize := NewSize (xs ! c) + 1\<rparr> else xs ! i)" if "i < length xs" for i
    using that c by (simp add: xs'_def)
  show "s \<le> c" and "c < length xs'" using inv c by (simp_all add: balance_inv_def xs'_def)
  then show "\<forall>i<s. full (xs' ! i)" using inv c nth by (simp add: balance_inv_def)
  show "\<forall>i. s \<le> i \<longrightarrow> i \<le> c \<longrightarrow> NewSize (xs' ! i) = level xs c + 1"
    using inv c nth by (auto simp: balance_inv_def level_def le_less)
  show "\<forall>i j. c < i \<longrightarrow> i \<le> j \<longrightarrow> j < length xs' \<longrightarrow> NewSize (xs' ! i) \<le> NewSize (xs' ! j)"
    using inv nth by (auto simp: balance_inv_def xs'_def)
  show "\<forall>i. c < i \<longrightarrow> i < length xs' \<longrightarrow> level xs c \<le> NewSize (xs' ! i)"
    using inv_above_level [OF inv c] inv nth by (auto simp: balance_inv_def xs'_def)
  show "\<forall>x\<in>set xs'. CurrentSize x < NewSize x \<longrightarrow> NewSize x \<le> level xs c + 1"
  proof
    fix x
    assume "x \<in> set xs'"
    then have "x = (xs ! c)\<lparr>NewSize := NewSize (xs ! c) + 1\<rparr> \<or> x \<in> set xs"
      using set_update_subset_insert [of xs c] unfolding xs'_def by blast
    then show "CurrentSize x < NewSize x \<longrightarrow> NewSize x \<le> level xs c + 1"
      using inv c by (auto simp: balance_inv_def level_def)
  qed
qed

lemma remove_group_inv:
  assumes inv: "balance_inv xs s c" and c: "c < length xs" and full: "full (xs ! c)"
  defines "xs' \<equiv> xs[s := xs ! c, c := xs ! s]"
  shows "balance_inv xs' (s + 1) (next_index xs' (s + 1) c)"
proof (cases "s = c")
  case True
  then have same: "xs' = xs" by (simp add: xs'_def)
  have n: "next_index xs (c + 1) c = c + 1" by (simp add: next_index_def)
  have "level xs c \<le> level xs (c + 1)" if "c + 1 < length xs"
    using inv_above_level [OF inv c, of "c + 1"] inv that by (simp add: balance_inv_def level_def)
  then have "\<forall>x\<in>set xs. CurrentSize x < NewSize x \<longrightarrow> NewSize x \<le> level xs (c + 1) + 1" if "c + 1 < length xs"
    using inv c that unfolding balance_inv_def by fastforce
  then show ?thesis
    using inv c full unfolding same True n unfolding balance_inv_def by (auto simp: less_Suc_eq Suc_le_eq)
next
  case False
  have sc: "s < c" using False inv by (simp add: balance_inv_def)
  have nth: "xs' ! i = (if i = c then xs ! s else if i = s then xs ! c else xs ! i)" if "i < length xs" for i
    using that c sc by (simp add: xs'_def nth_list_update)
  have set: "set xs' = set xs" using c sc by (simp add: xs'_def set_swap)
  show ?thesis
  proof (rule next_index_inv)
    show "s + 1 \<le> c" and "c < length xs'" using sc c by (simp_all add: xs'_def)
    show "\<forall>i<s + 1. full (xs' ! i)" using inv c full sc nth by (auto simp: balance_inv_def less_Suc_eq)
    show "\<forall>i. s + 1 \<le> i \<longrightarrow> i \<le> c \<longrightarrow> NewSize (xs' ! i) = level xs c + 1"
      using inv c sc nth by (auto simp: balance_inv_def)
    show "\<forall>i j. c < i \<longrightarrow> i \<le> j \<longrightarrow> j < length xs' \<longrightarrow> NewSize (xs' ! i) \<le> NewSize (xs' ! j)"
      using inv sc nth by (auto simp: balance_inv_def xs'_def)
    show "\<forall>i. c < i \<longrightarrow> i < length xs' \<longrightarrow> level xs c \<le> NewSize (xs' ! i)"
      using inv_above_level [OF inv c] sc nth by (auto simp: xs'_def)
    show "\<forall>x\<in>set xs'. CurrentSize x < NewSize x \<longrightarrow> NewSize x \<le> level xs c + 1"
      using inv c unfolding set balance_inv_def by blast
  qed
qed

section \<open>Capacity and conservation\<close>

definition total_free :: "'g ScaleUpInfo list \<Rightarrow> int" where
  "total_free xs = sum_list (map free_capacity xs)"

definition total_new :: "'g ScaleUpInfo list \<Rightarrow> int" where
  "total_new xs = sum_list (map NewSize xs)"

text \<open>What the loop never changes of a group: all but the new size.\<close>

definition frame :: "'g ScaleUpInfo \<Rightarrow> 'g \<times> int \<times> int" where
  "frame x = (su_Group x, CurrentSize x, su_MaxSize x)"

definition sizes_ok :: "'g ScaleUpInfo \<Rightarrow> bool" where
  "sizes_ok x \<longleftrightarrow> CurrentSize x \<le> NewSize x \<and> NewSize x \<le> max (CurrentSize x) (su_MaxSize x)"

lemma sum_list_map_update:
  "c < length xs \<Longrightarrow> sum_list (map f (xs[c := y])) = sum_list (map f xs) + f y - (f (xs ! c) :: int)"
  by (induction xs arbitrary: c) (auto split: nat.splits)

lemma sum_list_map_swap:
  "i < length xs \<Longrightarrow> j < length xs \<Longrightarrow> sum_list (map f (xs[i := xs ! j, j := xs ! i])) = (sum_list (map f xs) :: int)"
  by (metis mset_map mset_swap sum_mset_sum_list)

lemma no_free_when_all_full: "\<forall>x\<in>set xs. full x \<Longrightarrow> total_free xs = 0"
  by (induction xs) (auto simp: total_free_def free_capacity_def full_def)

text \<open>The loop returns; it places all nodes, and the invariant holds at the end.\<close>

lemma balance_loop_correct:
  assumes "balance_inv xs s c" and "n \<le> total_free xs" and "\<forall>x\<in>set xs. sizes_ok x"
  shows "\<exists>ys s' c'. balance_loop xs s c n = Some ys \<and> balance_inv ys s' c' \<and> (\<forall>x\<in>set ys. sizes_ok x) \<and>
    total_new ys = total_new xs + max 0 n \<and> mset (map frame ys) = mset (map frame xs)"
  using assms
proof (induction xs s c n rule: balance_loop.induct)
  case (1 xs s c n)
  show ?case
  proof (cases "n > 0")
    case False
    then show ?thesis using "1.prems" by auto
  next
    case pos: True
    have c: "c < length xs"
    proof (rule ccontr)
      assume "\<not> c < length xs"
      then have "\<forall>x\<in>set xs. full x" using "1.prems"(1) by (auto simp: balance_inv_def in_set_conv_nth)
      then show False using no_free_when_all_full "1.prems"(2) pos by fastforce
    qed
    show ?thesis
    proof (cases "full (xs ! c)")
      case False
      define xs' where "xs' = xs[c := (xs ! c)\<lparr>NewSize := NewSize (xs ! c) + 1\<rparr>]"
      have "total_free xs' = total_free xs - 1" and "total_new xs' = total_new xs + 1"
        using c False unfolding xs'_def total_free_def total_new_def
        by (simp_all add: sum_list_map_update free_capacity_def full_def)
      moreover have "map frame xs' = map frame xs"
        using c by (simp add: xs'_def map_update frame_def list_update_same_conv)
      moreover have "\<forall>x\<in>set xs'. sizes_ok x"
        using c False "1.prems"(3) set_update_subset_insert [of xs c] nth_mem [OF c]
        unfolding xs'_def by (fastforce simp: sizes_ok_def full_def)
      ultimately show ?thesis
        using "1.IH"(1) [OF pos _ _ xs'_def] add_node_inv [OF "1.prems"(1) c False] "1.prems"(2) pos c False
        by (simp add: full_def xs'_def [symmetric] Let_def)
    next
      case True
      have s: "s < length xs" using "1.prems"(1) c by (simp add: balance_inv_def)
      define xs' where "xs' = xs[s := xs ! c, c := xs ! s]"
      have "total_free xs' = total_free xs" and "total_new xs' = total_new xs"
        using c s by (simp_all add: xs'_def total_free_def total_new_def sum_list_map_swap)
      moreover have "mset (map frame xs') = mset (map frame xs)"
        using c s by (simp add: xs'_def mset_map mset_swap)
      moreover have "set xs' = set xs" using c s by (simp add: xs'_def set_swap)
      ultimately show ?thesis
        using "1.IH"(2) [OF pos _ _ _ xs'_def] remove_group_inv [OF "1.prems"(1) c True] "1.prems"(2,3) pos c s True
        by (simp add: full_def xs'_def [symmetric] Let_def)
    qed
  qed
qed

section \<open>The whole operation\<close>

abbreviation size_of :: "'g cloud_provider \<Rightarrow> 'g \<Rightarrow> int" where
  "size_of cp g \<equiv> fst (TargetSize cp g)"

definition info_of :: "'g cloud_provider \<Rightarrow> 'g \<Rightarrow> 'g ScaleUpInfo" where
  "info_of cp g = \<lparr>su_Group = g, CurrentSize = size_of cp g, NewSize = size_of cp g, su_MaxSize = MaxSize cp g\<rparr>"

definition group_capacity :: "'g cloud_provider \<Rightarrow> 'g list \<Rightarrow> int" where
  "group_capacity cp groups = (\<Sum>g\<leftarrow>groups. max 0 (MaxSize cp g - size_of cp g))"

text \<open>The size of a group after the scale-up that the result describes.\<close>

definition size_after :: "'g cloud_provider \<Rightarrow> 'g ScaleUpInfo list \<Rightarrow> 'g \<Rightarrow> int" where
  "size_after cp result g = (case filter (\<lambda>x. su_Group x = g) result of [] \<Rightarrow> size_of cp g | x # _ \<Rightarrow> NewSize x)"

lemma collect_groups_spec:
  assumes "\<forall>g\<in>set groups. snd (TargetSize cp g) = None"
  shows "collect_groups cp groups infos cap =
    Inr (infos @ map (info_of cp) (filter (\<lambda>g. size_of cp g \<noteq> MaxSize cp g) groups), cap + group_capacity cp groups)"
  using assms
proof (induction groups arbitrary: infos cap)
  case (Cons g groups)
  obtain n where "TargetSize cp g = (n, None)" using Cons.prems by (cases "TargetSize cp g") auto
  then show ?case using Cons by (auto simp: info_of_def group_capacity_def)
qed (simp add: group_capacity_def)

lemma total_free_infos:
  "total_free (map (info_of cp) (filter (\<lambda>g. size_of cp g \<noteq> MaxSize cp g) groups)) = group_capacity cp groups"
  by (induction groups) (auto simp: total_free_def group_capacity_def free_capacity_def info_of_def)

lemma initial_inv:
  assumes "sorted (map CurrentSize xs)" and "\<forall>x\<in>set xs. NewSize x = CurrentSize x"
  shows "balance_inv xs 0 0"
proof -
  have eq: "map NewSize xs = map CurrentSize xs" using assms(2) by simp
  have "sorted (map NewSize xs)" unfolding eq by (rule assms(1))
  then show ?thesis using assms(2) by (auto simp: balance_inv_def sorted_iff_nth_mono)
qed

lemma inv_balanced:
  assumes "balance_inv ys s c" and "x \<in> set ys" and "CurrentSize x < NewSize x" and "y \<in> set ys" and "\<not> full y"
  shows "NewSize x \<le> NewSize y + 1"
proof -
  obtain i where i: "i < length ys" "y = ys ! i" using assms(4) by (auto simp: in_set_conv_nth)
  have "s \<le> i" using assms(1,5) i by (auto simp: balance_inv_def not_less [symmetric])
  moreover from this have c: "c < length ys" using assms(1) i by (auto simp: balance_inv_def)
  ultimately have "level ys c \<le> NewSize y" using inv_above_level [OF assms(1) c] i by simp
  moreover have "NewSize x \<le> level ys c + 1" using assms(1-3) c unfolding balance_inv_def by blast
  ultimately show ?thesis by simp
qed

lemma size_after_unique:
  assumes "distinct (map su_Group ys)" and "y \<in> set ys" and "CurrentSize y = size_of cp (su_Group y)"
  shows "size_after cp (filter (\<lambda>info. NewSize info \<noteq> CurrentSize info) ys) (su_Group y) = NewSize y"
proof -
  have "filter (\<lambda>x. su_Group x = su_Group y) ys = [y]"
    using assms(1,2) by (induction ys) (auto simp: filter_empty_conv image_iff)
  then have "filter (\<lambda>info. NewSize info \<noteq> CurrentSize info) (filter (\<lambda>x. su_Group x = su_Group y) ys) =
      filter (\<lambda>info. NewSize info \<noteq> CurrentSize info) [y]"
    by simp
  moreover have "filter (\<lambda>x. su_Group x = su_Group y) (filter (\<lambda>info. NewSize info \<noteq> CurrentSize info) ys) =
      filter (\<lambda>info. NewSize info \<noteq> CurrentSize info) (filter (\<lambda>x. su_Group x = su_Group y) ys)"
    by (simp add: conj_commute)
  ultimately have "filter (\<lambda>x. su_Group x = su_Group y) (filter (\<lambda>info. NewSize info \<noteq> CurrentSize info) ys) =
      filter (\<lambda>info. NewSize info \<noteq> CurrentSize info) [y]"
    by (rule trans [rotated])
  then show ?thesis using assms(3) by (simp add: size_after_def)
qed

lemma added_nodes:
  "(\<Sum>x\<leftarrow>filter (\<lambda>info. NewSize info \<noteq> CurrentSize info) ys. NewSize x - CurrentSize x) = total_new ys - sum_list (map CurrentSize ys)"
  by (induction ys) (auto simp: total_new_def)

lemma balance_result:
  fixes cp :: "'g cloud_provider"
  assumes "groups \<noteq> []" and "distinct groups" and sizes: "\<forall>g\<in>set groups. snd (TargetSize cp g) = None"
    and sort: "\<forall>xs. mset (sort_slice xs) = mset xs \<and> sorted (map CurrentSize (sort_slice xs))"
  shows "\<exists>result. BalanceScaleUpBetweenGroups sort_slice cp groups newNodes = Some (Inr result) \<and>
    distinct (map su_Group result) \<and>
    (\<Sum>x\<leftarrow>result. NewSize x - CurrentSize x) = max 0 (min newNodes (group_capacity cp groups)) \<and>
    (\<forall>x\<in>set result. su_Group x \<in> set groups \<and> CurrentSize x = size_of cp (su_Group x) \<and>
       CurrentSize x < NewSize x \<and> NewSize x \<le> MaxSize cp (su_Group x)) \<and>
    (\<forall>x\<in>set result. \<forall>g\<in>set groups. size_after cp result g < MaxSize cp g \<longrightarrow> NewSize x \<le> size_after cp result g + 1)"
proof -
  define gs where "gs = filter (\<lambda>g. size_of cp g \<noteq> MaxSize cp g) groups"
  define infos where "infos = map (info_of cp) gs"
  define n where "n = min newNodes (group_capacity cp groups)"
  define xs where "xs = sort_slice infos"
  have mset: "mset xs = mset infos" and srt: "sorted (map CurrentSize xs)" using sort by (simp_all add: xs_def)
  have set: "set xs = info_of cp ` set gs" using mset_eq_setD [OF mset] by (simp add: infos_def)
  have inv: "balance_inv xs 0 0" by (rule initial_inv [OF srt]) (simp add: set info_of_def)
  have "total_free xs = group_capacity cp groups"
    using total_free_infos [of cp groups] mset unfolding total_free_def infos_def gs_def
    by (metis mset_map sum_mset_sum_list)
  then have n: "n \<le> total_free xs" by (simp add: n_def)
  have ok: "\<forall>x\<in>set xs. sizes_ok x" by (simp add: set sizes_ok_def info_of_def)
  obtain ys s c where loop: "balance_loop xs 0 0 n = Some ys" and final: "balance_inv ys s c" "\<forall>x\<in>set ys. sizes_ok x"
    and total: "total_new ys = total_new xs + max 0 n" and frame: "mset (map frame ys) = mset (map frame xs)"
    using balance_loop_correct [OF inv n ok] by blast
  let ?result = "filter (\<lambda>info. NewSize info \<noteq> CurrentSize info) ys"
  have res: "BalanceScaleUpBetweenGroups sort_slice cp groups newNodes = Some (Inr ?result)"
    using assms(1) loop unfolding BalanceScaleUpBetweenGroups_def collect_groups_spec [OF sizes]
    by (auto simp: xs_def infos_def gs_def n_def min_def)
  have frames: "mset (map frame ys) = mset (map (\<lambda>g. (g, size_of cp g, MaxSize cp g)) gs)"
    using trans [OF frame, of "mset (map frame infos)"] mset
    by (simp add: infos_def frame_def info_of_def multiset.map_comp comp_def)
  have ys: "su_Group y \<in> set gs \<and> CurrentSize y = size_of cp (su_Group y) \<and> su_MaxSize y = MaxSize cp (su_Group y)" if "y \<in> set ys" for y
    using mset_eq_setD [OF frames] that by (force simp: frame_def)
  have "mset (map su_Group ys) = mset gs"
    using arg_cong [OF frames, of "image_mset fst"] by (simp add: frame_def multiset.map_comp comp_def)
  note perm = this
  have dist: "distinct (map su_Group ys)" using mset_eq_imp_distinct_iff [OF perm] assms(2) by (simp add: gs_def)
  have groups: "set (map su_Group ys) = set gs" by (rule mset_eq_setD [OF perm])
  have "sum_mset (image_mset (fst \<circ> snd) (mset (map frame ys))) = sum_mset (image_mset (fst \<circ> snd) (mset (map frame xs)))"
    unfolding frame ..
  then have "sum_list (map (fst \<circ> snd) (map frame ys)) = sum_list (map (fst \<circ> snd) (map frame xs))"
    by (simp only: sum_mset_sum_list flip: mset_map)
  moreover have "map NewSize xs = map CurrentSize xs" using set by (simp add: info_of_def)
  ultimately have "sum_list (map CurrentSize ys) = total_new xs"
    unfolding total_new_def by (simp only:) (simp add: comp_def frame_def)
  then have sum: "(\<Sum>x\<leftarrow>?result. NewSize x - CurrentSize x) = max 0 n" using total by (simp add: added_nodes)
  have each: "\<forall>x\<in>set ?result. su_Group x \<in> set groups \<and> CurrentSize x = size_of cp (su_Group x) \<and>
       CurrentSize x < NewSize x \<and> NewSize x \<le> MaxSize cp (su_Group x)"
    using ys final(2) by (fastforce simp: sizes_ok_def gs_def)
  have "NewSize x \<le> size_after cp ?result g + 1"
    if x: "x \<in> set ?result" and g: "g \<in> set groups" and room: "size_after cp ?result g < MaxSize cp g" for x g
  proof (cases "g \<in> set gs")
    case True
    then obtain y where y: "y \<in> set ys" "su_Group y = g" using groups [symmetric] by auto
    have after: "size_after cp ?result g = NewSize y"
      using size_after_unique [OF dist y(1), of cp] ys [OF y(1)] y(2) by blast
    have "\<not> full y" using ys [OF y(1)] y(2) room after by (simp add: full_def)
    moreover have "x \<in> set ys" using x by simp
    moreover have "CurrentSize x < NewSize x" using bspec [OF each x] by (elim conjE)
    ultimately show ?thesis unfolding after using inv_balanced [OF final(1) _ _ y(1), of x] by blast
  next
    case False
    have "filter (\<lambda>x. su_Group x = g) ?result = []" using False ys by (auto simp: filter_empty_conv)
    then show ?thesis using False g room by (simp add: size_after_def gs_def)
  qed
  moreover have "distinct (map su_Group ?result)" using dist by (induction ys) auto
  ultimately show ?thesis using res sum each unfolding n_def by blast
qed

section \<open>Properties\<close>

text \<open>
  C14. Balancing a scale-up returns for every set of groups whose sizes can be read: the loop ends and
  no index is out of range. It adds exactly the requested number of nodes, or as many as fit; no
  group exceeds its maximal size; and the result is balanced: a group that was given nodes ends up
  at most one node above any group that still has room. This holds for every sorting function.
\<close>

theorem scale_up_balanced:
  fixes cp :: "'g cloud_provider"
  assumes "groups \<noteq> []" and "distinct groups" and sizes: "\<forall>g\<in>set groups. snd (TargetSize cp g) = None"
    and sort: "\<forall>xs. mset (sort_slice xs) = mset xs \<and> sorted (map CurrentSize (sort_slice xs))"
  shows "\<exists>result. BalanceScaleUpBetweenGroups sort_slice cp groups newNodes = Some (Inr result) \<and>
    (\<Sum>x\<leftarrow>result. NewSize x - CurrentSize x) = max 0 (min newNodes (group_capacity cp groups)) \<and>
    (\<forall>x\<in>set result. su_Group x \<in> set groups \<and> CurrentSize x = size_of cp (su_Group x) \<and>
       CurrentSize x < NewSize x \<and> NewSize x \<le> MaxSize cp (su_Group x)) \<and>
    (\<forall>x\<in>set result. \<forall>g\<in>set groups. size_after cp result g < MaxSize cp g \<longrightarrow> NewSize x \<le> size_after cp result g + 1)"
  using balance_result [OF assms] by blast

text \<open>Three groups of sizes 1, 4 and 2, the last one with a maximal size of 3.\<close>

definition demo_balance_cp :: "string cloud_provider" where
  "demo_balance_cp = \<lparr>Id = (\<lambda>g. g), MinSize = (\<lambda>_. 0), MaxSize = (\<lambda>g. if g = ''c'' then 3 else 10),
     TargetSize = (\<lambda>g. (if g = ''a'' then 1 else if g = ''b'' then 4 else 2, None)), Autoprovisioned = (\<lambda>_. False),
     Nodes = (\<lambda>_. ([], None)), NodeGroups = [''a'', ''b'', ''c''], NodeGroupForNode = (\<lambda>_. (None, None)),
     HasInstance = (\<lambda>_. (True, None))\<rparr>"

theorem scale_up_balanced_witness:
  "\<exists>result. BalanceScaleUpBetweenGroups (sort_key CurrentSize) demo_balance_cp [''a'', ''b'', ''c''] 7 = Some (Inr result) \<and>
     (\<Sum>x\<leftarrow>result. NewSize x - CurrentSize x) = 7 \<and> size_after demo_balance_cp result ''c'' \<le> 3"
proof -
  obtain result where r: "BalanceScaleUpBetweenGroups (sort_key CurrentSize) demo_balance_cp [''a'', ''b'', ''c''] 7 = Some (Inr result)"
    and sum: "(\<Sum>x\<leftarrow>result. NewSize x - CurrentSize x) = max 0 (min 7 (group_capacity demo_balance_cp [''a'', ''b'', ''c'']))"
    and each: "\<forall>x\<in>set result. NewSize x \<le> MaxSize demo_balance_cp (su_Group x)"
    using scale_up_balanced [of "[''a'', ''b'', ''c'']" demo_balance_cp "sort_key CurrentSize" 7]
    by (auto simp: demo_balance_cp_def)
  have "group_capacity demo_balance_cp [''a'', ''b'', ''c''] = 16" by (simp add: group_capacity_def demo_balance_cp_def)
  moreover have "size_after demo_balance_cp result ''c'' \<le> 3"
    using each by (force simp: size_after_def demo_balance_cp_def split: list.splits dest: filter_eq_ConsD)
  ultimately show ?thesis using r sum by simp
qed

end
