(* ===== verification/Group_Similarity.thy ===== *)
theory Group_Similarity
  imports Balancing
begin

text \<open>
  Which node groups are similar (src/pkg/processors/nodegroupset: compare_nodegroups.go,
  label_nodegroups.go, gce_nodegroups.go, aws_nodegroups.go, azure_nodegroups.go, and
  \<open>ResourceToResourceList\<close> of src/pkg/utils/scheduler/scheduler.go).

  Quantities are values of the Kubernetes library: an abstract type \<open>'q\<close> with the operations the code
  uses (\<open>quantity_api\<close>). The tolerance is computed in \<open>float64\<close> arithmetic.
\<close>

section \<open>Model\<close>

record 'q quantity_api =
  MilliValue :: "'q \<Rightarrow> int"
  Cmp :: "'q \<Rightarrow> 'q \<Rightarrow> int"
  Sub :: "'q \<Rightarrow> 'q \<Rightarrow> 'q"
  zeroQuantity :: 'q
  NewQuantity :: "int \<Rightarrow> bool \<Rightarrow> 'q"
  NewMilliQuantity :: "int \<Rightarrow> 'q"

record scheduler_resource =
  MilliCPU :: int
  Memory :: int
  AllowedPodNumber :: int
  EphemeralStorage :: int
  ScalarResources :: "(string, int) gmap"

record 'q template_info =
  info_Node :: node
  Capacity :: "(string, 'q) gmap"
  Allocatable :: "(string, 'q) gmap"
  Requested :: scheduler_resource

record NodeGroupDifferenceRatios =
  MaxAllocatableDifferenceRatio :: rat
  MaxFreeDifferenceRatio :: rat
  MaxCapacityMemoryDifferenceRatio :: rat

definition f64_sub :: "rat \<Rightarrow> rat \<Rightarrow> rat" where
  "f64_sub x y = f64_round (x - y)"

text \<open>\<open>isHugePageResourceName\<close>: the prefix of the huge page resources.\<close>

definition isHugePageResourceName :: "string \<Rightarrow> bool" where
  "isHugePageResourceName name \<longleftrightarrow> take (length ''hugepages-'') name = ''hugepages-''"

definition ResourceToResourceList :: "'q quantity_api \<Rightarrow> scheduler_resource \<Rightarrow> (string, 'q) gmap" where
  "ResourceToResourceList Q r =
     foldl (\<lambda>result (rName, rQuant). gput rName (NewQuantity Q rQuant (isHugePageResourceName rName)) result)
       [(''cpu'', NewMilliQuantity Q (MilliCPU r)), (''memory'', NewQuantity Q (Memory r) True),
        (''pods'', NewQuantity Q (AllowedPodNumber r) True), (''ephemeral-storage'', NewQuantity Q (EphemeralStorage r) True)]
       (ScalarResources r)"

definition resourceListWithinTolerance :: "'q quantity_api \<Rightarrow> 'q list \<Rightarrow> rat \<Rightarrow> bool" where
  "resourceListWithinTolerance Q qtyList maxDifferenceRatio =
     (case qtyList of
        [q0, q1] \<Rightarrow>
          (let larger = max (f64_of_int (MilliValue Q q0)) (f64_of_int (MilliValue Q q1));
               smaller = min (f64_of_int (MilliValue Q q0)) (f64_of_int (MilliValue Q q1))
           in f64_sub larger smaller \<le> f64_mul larger maxDifferenceRatio)
      | _ \<Rightarrow> False)"

fun resourceMapsWithinTolerance :: "'q quantity_api \<Rightarrow> (string, 'q list) gmap \<Rightarrow> rat \<Rightarrow> bool" where
  "resourceMapsWithinTolerance Q [] maxDifferenceRatio = True"
| "resourceMapsWithinTolerance Q ((_, qtyList) # resources) maxDifferenceRatio =
     (if \<not> resourceListWithinTolerance Q qtyList maxDifferenceRatio then False
      else resourceMapsWithinTolerance Q resources maxDifferenceRatio)"

text \<open>The loops \<open>m[k] = append(m[k], v)\<close> over the entries of a map.\<close>

definition append_entries :: "('k, 'v) gmap \<Rightarrow> ('k, 'v list) gmap \<Rightarrow> ('k, 'v list) gmap" where
  "append_entries entries m = foldl (\<lambda>m (k, v). gput k (gget [] m k @ [v]) m) m entries"

fun labels_match :: "(string, string list) gmap \<Rightarrow> bool" where
  "labels_match [] = True"
| "labels_match ((_, labelValues) # labels) =
     (if length labelValues \<noteq> 2 \<or> labelValues ! 0 \<noteq> labelValues ! 1 then False else labels_match labels)"

definition compareLabels :: "node list \<Rightarrow> (string, bool) gmap \<Rightarrow> bool" where
  "compareLabels nodes ignoredLabels =
     labels_match (foldl (\<lambda>labels node. append_entries (filter (\<lambda>(label, _). \<not> gget False ignoredLabels label) (Labels node)) labels) [] nodes)"

fun capacity_match :: "'q quantity_api \<Rightarrow> NodeGroupDifferenceRatios \<Rightarrow> (string, 'q list) gmap \<Rightarrow> bool" where
  "capacity_match Q ratioOpts [] = True"
| "capacity_match Q ratioOpts ((kind, qtyList) # rest) =
     (if length qtyList \<noteq> 2 then False
      else if kind = ''memory'' then
        if \<not> resourceListWithinTolerance Q qtyList (MaxCapacityMemoryDifferenceRatio ratioOpts) then False
        else capacity_match Q ratioOpts rest
      else if Cmp Q (qtyList ! 0) (qtyList ! 1) \<noteq> 0 then False else capacity_match Q ratioOpts rest)"

definition free_resources :: "'q quantity_api \<Rightarrow> 'q template_info \<Rightarrow> (string, 'q) gmap" where
  "free_resources Q node = map (\<lambda>(res, quantity). (res, Sub Q (gget (zeroQuantity Q) (Allocatable node) res) quantity))
     (ResourceToResourceList Q (Requested node))"

definition IsCloudProviderNodeInfoSimilar :: "'q quantity_api \<Rightarrow> 'q template_info \<Rightarrow> 'q template_info \<Rightarrow> (string, bool) gmap \<Rightarrow>
    NodeGroupDifferenceRatios \<Rightarrow> bool" where
  "IsCloudProviderNodeInfoSimilar Q n1 n2 ignoredLabels ratioOpts =
     (let capacity = foldl (\<lambda>m node. append_entries (Capacity node) m) [] [n1, n2];
          allocatable = foldl (\<lambda>m node. append_entries (Allocatable node) m) [] [n1, n2];
          free = foldl (\<lambda>m node. append_entries (free_resources Q node) m) [] [n1, n2]
      in if \<not> capacity_match Q ratioOpts capacity then False
         else if \<not> resourceMapsWithinTolerance Q allocatable (MaxAllocatableDifferenceRatio ratioOpts) then False
         else if \<not> resourceMapsWithinTolerance Q free (MaxFreeDifferenceRatio ratioOpts) then False
         else if \<not> compareLabels [info_Node n1, info_Node n2] ignoredLabels then False
         else True)"

definition BasicIgnoredLabels :: "(string, bool) gmap" where
  "BasicIgnoredLabels = [(''kubernetes.io/hostname'', True), (''failure-domain.beta.kubernetes.io/zone'', True),
     (''failure-domain.beta.kubernetes.io/region'', True), (''topology.kubernetes.io/zone'', True),
     (''topology.kubernetes.io/region'', True), (''beta.kubernetes.io/fluentd-ds-ready'', True), (''kops.k8s.io/instancegroup'', True)]"

definition ignored_labels :: "string list \<Rightarrow> string list \<Rightarrow> (string, bool) gmap" where
  "ignored_labels providerLabels extraIgnoredLabels =
     foldl (\<lambda>m k. gput k True m) (foldl (\<lambda>m (k, v). gput k v m) (map (\<lambda>k. (k, True)) providerLabels) BasicIgnoredLabels) extraIgnoredLabels"

definition CreateGenericNodeInfoComparator :: "'q quantity_api \<Rightarrow> string list \<Rightarrow> NodeGroupDifferenceRatios \<Rightarrow>
    'q template_info \<Rightarrow> 'q template_info \<Rightarrow> bool" where
  "CreateGenericNodeInfoComparator Q extraIgnoredLabels ratioOpts n1 n2 =
     IsCloudProviderNodeInfoSimilar Q n1 n2 (ignored_labels [] extraIgnoredLabels) ratioOpts"

definition CreateGceNodeInfoComparator :: "'q quantity_api \<Rightarrow> string list \<Rightarrow> NodeGroupDifferenceRatios \<Rightarrow>
    'q template_info \<Rightarrow> 'q template_info \<Rightarrow> bool" where
  "CreateGceNodeInfoComparator Q extraIgnoredLabels ratioOpts n1 n2 =
     IsCloudProviderNodeInfoSimilar Q n1 n2 (ignored_labels [''topology.gke.io/zone''] extraIgnoredLabels) ratioOpts"

definition CreateAwsNodeInfoComparator :: "'q quantity_api \<Rightarrow> string list \<Rightarrow> NodeGroupDifferenceRatios \<Rightarrow>
    'q template_info \<Rightarrow> 'q template_info \<Rightarrow> bool" where
  "CreateAwsNodeInfoComparator Q extraIgnoredLabels ratioOpts n1 n2 =
     IsCloudProviderNodeInfoSimilar Q n1 n2 (ignored_labels [''alpha.eksctl.io/instance-id'', ''alpha.eksctl.io/nodegroup-name'',
       ''eks.amazonaws.com/nodegroup'', ''k8s.amazonaws.com/eniConfig'', ''lifecycle'', ''topology.ebs.csi.aws.com/zone'',
       ''topology.k8s.aws/zone-id''] extraIgnoredLabels) ratioOpts"

definition AzureNodepoolLegacyLabel :: string where "AzureNodepoolLegacyLabel = ''agentpool''"
definition AzureNodepoolLabel :: string where "AzureNodepoolLabel = ''kubernetes.azure.com/agentpool''"

definition nodesFromSameAzureNodePoolLegacy :: "'q template_info \<Rightarrow> 'q template_info \<Rightarrow> bool" where
  "nodesFromSameAzureNodePoolLegacy n1 n2 =
     (let p1 = gget [] (Labels (info_Node n1)) AzureNodepoolLegacyLabel; p2 = gget [] (Labels (info_Node n2)) AzureNodepoolLegacyLabel
      in p1 \<noteq> [] \<and> p1 = p2)"

definition nodesFromSameAzureNodePool :: "'q template_info \<Rightarrow> 'q template_info \<Rightarrow> bool" where
  "nodesFromSameAzureNodePool n1 n2 =
     (let p1 = gget [] (Labels (info_Node n1)) AzureNodepoolLabel; p2 = gget [] (Labels (info_Node n2)) AzureNodepoolLabel
      in (p1 \<noteq> [] \<and> p1 = p2) \<or> nodesFromSameAzureNodePoolLegacy n1 n2)"

definition azureLabels :: "string list" where
  "azureLabels = [AzureNodepoolLegacyLabel, AzureNodepoolLabel, ''topology.disk.csi.azure.com/zone'', ''aksEngineVersion'',
     ''creationSource'', ''poolName'', ''resourceNameSuffix'', ''kubernetes.azure.com/node-image-version'',
     ''kubernetes.azure.com/consolidated-additional-properties'']"

definition CreateAzureNodeInfoComparator :: "'q quantity_api \<Rightarrow> string list \<Rightarrow> NodeGroupDifferenceRatios \<Rightarrow>
    'q template_info \<Rightarrow> 'q template_info \<Rightarrow> bool" where
  "CreateAzureNodeInfoComparator Q extraIgnoredLabels ratioOpts n1 n2 =
     (if nodesFromSameAzureNodePool n1 n2 then True
      else IsCloudProviderNodeInfoSimilar Q n1 n2 (ignored_labels azureLabels extraIgnoredLabels) ratioOpts)"

fun areLabelsSame :: "node \<Rightarrow> node \<Rightarrow> string list \<Rightarrow> bool" where
  "areLabelsSame n1 n2 [] = True"
| "areLabelsSame n1 n2 (label # labels) =
     (case map_of (Labels n1) label of None \<Rightarrow> False
      | Some val1 \<Rightarrow> (case map_of (Labels n2) label of None \<Rightarrow> False
          | Some val2 \<Rightarrow> if val1 \<noteq> val2 then False else areLabelsSame n1 n2 labels))"

definition CreateLabelNodeInfoComparator :: "string list \<Rightarrow> 'q template_info \<Rightarrow> 'q template_info \<Rightarrow> bool" where
  "CreateLabelNodeInfoComparator labels n1 n2 = areLabelsSame (info_Node n1) (info_Node n2) labels"

section \<open>Two maps entry by entry\<close>

text \<open>Both maps have the same keys, and \<open>P\<close> holds for the two values of every key.\<close>

definition agree :: "('k \<Rightarrow> 'v \<Rightarrow> 'v \<Rightarrow> bool) \<Rightarrow> ('k, 'v) gmap \<Rightarrow> ('k, 'v) gmap \<Rightarrow> bool" where
  "agree P m1 m2 \<longleftrightarrow> (\<forall>k. rel_option (P k) (map_of m1 k) (map_of m2 k))"

lemma agree_sym:
  assumes "\<And>k a b. P k a b = P k b a"
  shows "agree P m1 m2 = agree P m2 m1"
proof -
  have "rel_option (P k) x y = rel_option (P k) y x" for k x y
    using assms by (cases x; cases y) auto
  then show ?thesis unfolding agree_def by blast
qed

abbreviation both :: "('k, 'v) gmap \<Rightarrow> ('k, 'v) gmap \<Rightarrow> ('k, 'v list) gmap" where
  "both m1 m2 \<equiv> append_entries m2 (append_entries m1 [])"

lemma append_entries_spec:
  assumes "gm_wf entries"
  shows "map_of (append_entries entries m) k = (case map_of entries k of None \<Rightarrow> map_of m k | Some v \<Rightarrow> Some (gget [] m k @ [v]))"
    and "gm_wf m \<Longrightarrow> gm_wf (append_entries entries m)"
  using assms
proof (induction entries arbitrary: m)
  case (Cons e entries)
  obtain k' v where e: "e = (k', v)" by (rule prod.exhaust)
  {
    case 1
    then have "gm_wf entries" and "map_of entries k' = None" by (auto simp: e map_of_eq_None_iff gm_wf_def)
    then show ?case using Cons.IH(1) by (auto simp: append_entries_def e split: option.splits)
  next
    case 2
    then show ?case using Cons.IH(2) by (simp add: append_entries_def e gm_wf_def [of "_ # _"] gm_wf_def [of entries, symmetric])
  }
qed (simp_all add: append_entries_def)

lemma both_agree:
  assumes "gm_wf m1" and "gm_wf m2" and "\<And>k l. Q k l \<longleftrightarrow> (\<exists>a b. l = [a, b] \<and> P k a b)"
  shows "(\<forall>(k, l)\<in>set (both m1 m2). Q k l) \<longleftrightarrow> agree P m1 m2"
proof -
  have wf: "gm_wf (both m1 m2)" using assms by (simp add: append_entries_spec(2))
  have "map_of (both m1 m2) k = (case map_of m1 k of None \<Rightarrow> map_option (\<lambda>b. [b]) (map_of m2 k)
      | Some a \<Rightarrow> Some (case map_of m2 k of None \<Rightarrow> [a] | Some b \<Rightarrow> [a, b]))" for k
    using assms by (auto simp: append_entries_spec(1) gget_def split: option.splits)
  moreover have "(\<forall>(k, l)\<in>set (both m1 m2). Q k l) \<longleftrightarrow> (\<forall>k l. map_of (both m1 m2) k = Some l \<longrightarrow> Q k l)"
    using gm_wf_map_of_in [OF wf] by fastforce
  moreover have "(\<forall>l. map_of (both m1 m2) k = Some l \<longrightarrow> Q k l) \<longleftrightarrow> rel_option (P k) (map_of m1 k) (map_of m2 k)" for k
    using assms(3) calculation(1) by (cases "map_of m1 k"; cases "map_of m2 k") auto
  ultimately show ?thesis unfolding agree_def by presburger
qed

definition tolerable :: "'q quantity_api \<Rightarrow> rat \<Rightarrow> 'q \<Rightarrow> 'q \<Rightarrow> bool" where
  "tolerable Q ratio a b \<longleftrightarrow> resourceListWithinTolerance Q [a, b] ratio"

lemma tolerable_sym: "tolerable Q ratio a b = tolerable Q ratio b a"
  by (simp add: tolerable_def resourceListWithinTolerance_def Let_def max.commute min.commute)

lemma tolerance_pair: "resourceListWithinTolerance Q l ratio \<longleftrightarrow> (\<exists>a b. l = [a, b] \<and> tolerable Q ratio a b)"
  by (auto simp: tolerable_def resourceListWithinTolerance_def split: list.splits)

lemma resourceMapsWithinTolerance_iff:
  "resourceMapsWithinTolerance Q m ratio \<longleftrightarrow> (\<forall>(k, l)\<in>set m. resourceListWithinTolerance Q l ratio)"
  by (induction m) (auto split: if_splits)

lemma labels_match_iff: "labels_match labels \<longleftrightarrow> (\<forall>(k, l)\<in>set labels. length l = 2 \<and> l ! 0 = l ! 1)"
  by (induction labels) (auto split: if_splits)

lemma capacity_match_iff:
  "capacity_match Q opts m \<longleftrightarrow> (\<forall>(k, l)\<in>set m. length l = 2 \<and>
     (if k = ''memory'' then resourceListWithinTolerance Q l (MaxCapacityMemoryDifferenceRatio opts) else Cmp Q (l ! 0) (l ! 1) = 0))"
  by (induction m) (auto split: if_splits)

lemma length_2_iff: "length l = 2 \<longleftrightarrow> (\<exists>a b. l = [a, b])"
  by (auto simp: length_Suc_conv numeral_2_eq_2)

lemma compareLabels_iff:
  assumes "gm_wf (Labels n1)" and "gm_wf (Labels n2)"
  shows "compareLabels [n1, n2] ignored \<longleftrightarrow> (\<forall>label. \<not> gget False ignored label \<longrightarrow> map_of (Labels n1) label = map_of (Labels n2) label)"
proof -
  define keep where "keep = (\<lambda>(label, _ :: string). \<not> gget False ignored label)"
  have wf: "gm_wf (filter keep (Labels n))" if "gm_wf (Labels n)" for n
    using that distinct_map_filter by (auto simp: gm_wf_def)
  have lookup: "map_of (filter keep m) label = (if gget False ignored label then None else map_of m label)" for m label
    by (induction m) (auto simp: keep_def)
  have "compareLabels [n1, n2] ignored \<longleftrightarrow> (\<forall>(k, l)\<in>set (both (filter keep (Labels n1)) (filter keep (Labels n2))). length l = 2 \<and> l ! 0 = l ! 1)"
    by (simp add: compareLabels_def keep_def labels_match_iff)
  also have "\<dots> \<longleftrightarrow> agree (\<lambda>k a b. a = b) (filter keep (Labels n1)) (filter keep (Labels n2))"
    by (rule both_agree) (use assms wf in \<open>auto simp: length_2_iff\<close>)
  also have "\<dots> \<longleftrightarrow> (\<forall>label. \<not> gget False ignored label \<longrightarrow> map_of (Labels n1) label = map_of (Labels n2) label)"
    by (simp add: agree_def lookup option.rel_eq flip: fun_eq_iff) (auto simp: fun_eq_iff)
  finally show ?thesis .
qed

section \<open>Properties\<close>

definition api_laws :: "'q quantity_api \<Rightarrow> bool" where
  "api_laws Q \<longleftrightarrow> (\<forall>a b. Cmp Q a b = 0 \<longleftrightarrow> Cmp Q b a = 0)"

definition info_wf :: "'q template_info \<Rightarrow> bool" where
  "info_wf n \<longleftrightarrow> gm_wf (Capacity n) \<and> gm_wf (Allocatable n) \<and> gm_wf (ScalarResources (Requested n)) \<and> gm_wf (Labels (info_Node n))"

lemma free_resources_wf:
  assumes "info_wf n"
  shows "gm_wf (free_resources Q n)"
proof -
  have "gm_wf (ResourceToResourceList Q (Requested n))"
    unfolding ResourceToResourceList_def case_prod_unfold by (rule gm_wf_foldl_gput_id) (simp add: gm_wf_def)
  then show ?thesis by (simp add: free_resources_def gm_wf_def case_prod_unfold comp_def)
qed

definition capacity_similar :: "'q quantity_api \<Rightarrow> NodeGroupDifferenceRatios \<Rightarrow> string \<Rightarrow> 'q \<Rightarrow> 'q \<Rightarrow> bool" where
  "capacity_similar Q opts kind a b \<longleftrightarrow>
     (if kind = ''memory'' then tolerable Q (MaxCapacityMemoryDifferenceRatio opts) a b else Cmp Q a b = 0)"

lemma similar_iff:
  assumes "info_wf n1" and "info_wf n2"
  shows "IsCloudProviderNodeInfoSimilar Q n1 n2 ignored opts \<longleftrightarrow>
    agree (capacity_similar Q opts) (Capacity n1) (Capacity n2) \<and>
    agree (\<lambda>_. tolerable Q (MaxAllocatableDifferenceRatio opts)) (Allocatable n1) (Allocatable n2) \<and>
    agree (\<lambda>_. tolerable Q (MaxFreeDifferenceRatio opts)) (free_resources Q n1) (free_resources Q n2) \<and>
    (\<forall>label. \<not> gget False ignored label \<longrightarrow> map_of (Labels (info_Node n1)) label = map_of (Labels (info_Node n2)) label)"
proof -
  have wf: "gm_wf (Capacity n1)" "gm_wf (Capacity n2)" "gm_wf (Allocatable n1)" "gm_wf (Allocatable n2)"
      "gm_wf (Labels (info_Node n1))" "gm_wf (Labels (info_Node n2))"
    using assms by (simp_all add: info_wf_def)
  have "capacity_match Q opts (both (Capacity n1) (Capacity n2)) \<longleftrightarrow> agree (capacity_similar Q opts) (Capacity n1) (Capacity n2)"
    unfolding capacity_match_iff
    by (rule both_agree) (use wf in \<open>auto simp: length_2_iff capacity_similar_def tolerance_pair\<close>)
  moreover have "resourceMapsWithinTolerance Q (both m1 m2) ratio \<longleftrightarrow> agree (\<lambda>_. tolerable Q ratio) m1 m2"
    if "gm_wf m1" "gm_wf m2" for m1 m2 ratio
    unfolding resourceMapsWithinTolerance_iff by (rule both_agree [OF that tolerance_pair])
  ultimately show ?thesis
    using wf free_resources_wf [OF assms(1), of Q] free_resources_wf [OF assms(2), of Q] compareLabels_iff [OF wf(5,6)]
    by (auto simp: IsCloudProviderNodeInfoSimilar_def Let_def)
qed


text \<open>Quantities as numbers of thousandths.\<close>

definition milli_api :: "int quantity_api" where
  "milli_api = \<lparr>MilliValue = (\<lambda>q. q), Cmp = (\<lambda>a b. sgn (a - b)), Sub = (\<lambda>a b. a - b), zeroQuantity = 0,
     NewQuantity = (\<lambda>n _. 1000 * n), NewMilliQuantity = (\<lambda>n. n)\<rparr>"

definition demo_template :: "string \<Rightarrow> int \<Rightarrow> int template_info" where
  "demo_template zone mem = \<lparr>info_Node = \<lparr>Name = [], ProviderID = [], CreationTimestamp = 0, Conditions = [], Taints = [], Annotations = [],
       Labels = [(''topology.kubernetes.io/zone'', zone), (''arch'', ''arm'')], Unschedulable = False\<rparr>,
     Capacity = [(''cpu'', 4000), (''memory'', mem)], Allocatable = [(''memory'', mem), (''cpu'', 4000)],
     Requested = \<lparr>MilliCPU = 100, Memory = 0, AllowedPodNumber = 0, EphemeralStorage = 0, ScalarResources = []\<rparr>\<rparr>"

definition demo_ratios :: NodeGroupDifferenceRatios where
  "demo_ratios = \<lparr>MaxAllocatableDifferenceRatio = 1 / 16, MaxFreeDifferenceRatio = 1 / 16, MaxCapacityMemoryDifferenceRatio = 1 / 64\<rparr>"


end
