(* ===== verification/Drainability.thy ===== *)
theory Drainability
  imports Cloud_Provider
begin

text \<open>
  Which pods block the drain of a node (src/pkg/simulator/drainability: status.go, rules/*/rule.go,
  rules/rules.go; src/pkg/simulator/drain.go; src/pkg/utils/drain/drain.go; src/pkg/utils/pod/pod.go;
  src/pkg/core/scaledown/pdb/basic.go; src/pkg/simulator/options/nodedelete.go).

  Pods are records of the fields the code reads; \<open>ControllerOf\<close> is the answer of the Kubernetes helper
  \<open>GetControllerOf\<close>. Listers and the parser of API groups are parameters (\<open>listers\<close>), and so is the
  conversion of label selectors. Counters of disruptions are \<open>int32\<close> values.
\<close>

section \<open>Pods\<close>

record OwnerReference =
  APIVersion :: string
  Ref_Kind :: string
  Ref_Name :: string

record volume =
  Vol_Name :: string
  HostPath :: bool
  EmptyDir :: "string option"

record pod =
  Pod_Name :: string
  Pod_Namespace :: string
  Pod_Labels :: "(string, string) gmap"
  Pod_Annotations :: "(string, string) gmap option"
  ControllerOf :: "OwnerReference option"
  Pod_CreationTimestamp :: time
  DeletionTimestamp :: "time option"
  TerminationGracePeriodSeconds :: "int option"
  RestartPolicy :: string
  Phase :: string
  Volumes :: "volume list"

definition annotation :: "pod \<Rightarrow> string \<Rightarrow> string" where
  "annotation pod key = (case Pod_Annotations pod of None \<Rightarrow> [] | Some m \<Rightarrow> gget [] m key)"

definition DaemonSetPodAnnotationKey :: string where
  "DaemonSetPodAnnotationKey = ''cluster-autoscaler.kubernetes.io/daemonset-pod''"

definition ConfigMirrorAnnotationKey :: string where
  "ConfigMirrorAnnotationKey = ''kubernetes.io/config.mirror''"

definition ConfigSourceAnnotationKey :: string where
  "ConfigSourceAnnotationKey = ''kubernetes.io/config.source''"

definition IsDaemonSetPod :: "pod \<Rightarrow> bool" where
  "IsDaemonSetPod pod =
     (if (case ControllerOf pod of None \<Rightarrow> False | Some ref \<Rightarrow> Ref_Kind ref = ''DaemonSet'') then True
      else annotation pod DaemonSetPodAnnotationKey = ''true'')"

definition IsMirrorPod :: "pod \<Rightarrow> bool" where
  "IsMirrorPod pod = (case Pod_Annotations pod of None \<Rightarrow> False | Some m \<Rightarrow> ghas m ConfigMirrorAnnotationKey)"

definition IsStaticPod :: "pod \<Rightarrow> bool" where
  "IsStaticPod pod = (case Pod_Annotations pod of None \<Rightarrow> False
     | Some m \<Rightarrow> (case map_of m ConfigSourceAnnotationKey of None \<Rightarrow> False | Some source \<Rightarrow> source \<noteq> ''api''))"

definition FilterRecreatablePods :: "pod list \<Rightarrow> pod list" where
  "FilterRecreatablePods pods = filter (\<lambda>p. \<not> (IsStaticPod p \<or> IsMirrorPod p \<or> IsDaemonSetPod p)) pods"

section \<open>Drain helpers\<close>

definition PodLongTerminatingExtraThreshold :: duration where
  "PodLongTerminatingExtraThreshold = 30 * Second"

definition PodSafeToEvictKey :: string where
  "PodSafeToEvictKey = ''cluster-autoscaler.kubernetes.io/safe-to-evict''"

definition SafeToEvictLocalVolumesKey :: string where
  "SafeToEvictLocalVolumesKey = ''cluster-autoscaler.kubernetes.io/safe-to-evict-local-volumes''"

datatype BlockingPodReason = Drain_NoReason | ControllerNotFound | MinReplicasReached | NotReplicated | LocalStorageRequested
  | NotSafeToEvictAnnotation | UnmovableKubeSystemPod | NotEnoughPdb | Drain_UnexpectedError

record BlockingPod =
  Blocking_Pod :: pod
  Blocking_Reason :: BlockingPodReason

definition ControllerRef :: "pod \<Rightarrow> OwnerReference option" where
  "ControllerRef pod = ControllerOf pod"

definition IsPodTerminal :: "pod \<Rightarrow> bool" where
  "IsPodTerminal pod =
     (if RestartPolicy pod = ''Never'' \<and> (Phase pod = ''Succeeded'' \<or> Phase pod = ''Failed'') then True
      else if RestartPolicy pod = ''OnFailure'' \<and> Phase pod = ''Succeeded'' then True
      else Phase pod = ''Failed'')"

text \<open>\<open>strings.Split\<close> at a comma.\<close>

fun split_commas :: "string \<Rightarrow> string \<Rightarrow> string list" where
  "split_commas [] acc = [acc]"
| "split_commas (c # cs) acc = (if c = CHR '','' then acc # split_commas cs [] else split_commas cs (acc @ [c]))"

definition getNonBlockingVolumes :: "pod \<Rightarrow> (string, bool) gmap" where
  "getNonBlockingVolumes pod =
     (let annotationVal = annotation pod SafeToEvictLocalVolumesKey in
      if annotationVal \<noteq> [] then foldl (\<lambda>m v. gput v True m) [] (split_commas annotationVal []) else [])"

definition isLocalVolume :: "volume \<Rightarrow> bool" where
  "isLocalVolume v \<longleftrightarrow> HostPath v \<or> (case EmptyDir v of None \<Rightarrow> False | Some medium \<Rightarrow> medium \<noteq> ''Memory'')"

definition HasBlockingLocalStorage :: "pod \<Rightarrow> bool" where
  "HasBlockingLocalStorage pod =
     (let isNonBlocking = getNonBlockingVolumes pod
      in list_ex (\<lambda>v. isLocalVolume v \<and> \<not> gget False isNonBlocking (Vol_Name v)) (Volumes pod))"

definition HasSafeToEvictAnnotation :: "pod \<Rightarrow> bool" where
  "HasSafeToEvictAnnotation pod \<longleftrightarrow> annotation pod PodSafeToEvictKey = ''true''"

definition HasSafeToEvictOnCompletionAnnotation :: "pod \<Rightarrow> bool" where
  "HasSafeToEvictOnCompletionAnnotation pod \<longleftrightarrow> annotation pod PodSafeToEvictKey = ''on-completion''"

definition HasNotSafeToEvictAnnotation :: "pod \<Rightarrow> bool" where
  "HasNotSafeToEvictAnnotation pod \<longleftrightarrow> annotation pod PodSafeToEvictKey = ''false''"

definition IsPodLongTerminating :: "pod \<Rightarrow> time \<Rightarrow> bool" where
  "IsPodLongTerminating pod currentTime =
     (case DeletionTimestamp pod of None \<Rightarrow> False
      | Some deleted \<Rightarrow>
          (let gracePeriod = (case TerminationGracePeriodSeconds pod of None \<Rightarrow> 30 | Some g \<Rightarrow> g)
           in deleted + int64 (gracePeriod * Second) + PodLongTerminatingExtraThreshold < currentTime))"

section \<open>Disruption budgets\<close>

definition int32 :: "int \<Rightarrow> int" where
  "int32 x = (x + 2 ^ 31) mod 2 ^ 32 - 2 ^ 31"

type_synonym selector = "(string, string) gmap \<Rightarrow> bool"

record pdb =
  Pdb_Name :: string
  Pdb_Namespace :: string
  Spec_Selector :: "string + selector"
  DisruptionsAllowed :: int

record pdbInfo =
  info_pdb :: pdb
  info_selector :: selector

type_synonym basicRemainingPdbTracker = "pdbInfo list"

definition pdb_matches :: "pdbInfo \<Rightarrow> pod \<Rightarrow> bool" where
  "pdb_matches i pod \<longleftrightarrow> Pod_Namespace pod = Pdb_Namespace (info_pdb i) \<and> info_selector i (Pod_Labels pod)"

fun set_pdbs :: "pdb list \<Rightarrow> basicRemainingPdbTracker \<Rightarrow> string option \<times> basicRemainingPdbTracker" where
  "set_pdbs [] t = (None, t)"
| "set_pdbs (p # pdbs) t = (case Spec_Selector p of Inl err \<Rightarrow> (Some err, t)
     | Inr sel \<Rightarrow> set_pdbs pdbs (t @ [\<lparr>info_pdb = p, info_selector = sel\<rparr>]))"

definition SetPdbs :: "pdb list \<Rightarrow> basicRemainingPdbTracker \<Rightarrow> string option \<times> basicRemainingPdbTracker" where
  "SetPdbs pdbs t = set_pdbs pdbs []"

definition GetPdbs :: "basicRemainingPdbTracker \<Rightarrow> pdb list" where
  "GetPdbs t = map info_pdb t"

definition MatchingPdbs :: "pod \<Rightarrow> basicRemainingPdbTracker \<Rightarrow> pdb list" where
  "MatchingPdbs pod t = map info_pdb (filter (\<lambda>i. pdb_matches i pod) t)"

text \<open>The inner loop of \<open>CanRemovePods\<close>: \<open>Inl\<close> is the early return with the blocking pod.\<close>

fun can_remove_loop :: "pdbInfo \<Rightarrow> pod list \<Rightarrow> int \<Rightarrow> bool \<times> BlockingPod option \<Rightarrow> BlockingPod + bool \<times> BlockingPod option" where
  "can_remove_loop i [] cnt acc = Inr acc"
| "can_remove_loop i (pod # pods) cnt acc =
     (if pdb_matches i pod then
        (let cnt' = int32 (cnt + 1) in
         if DisruptionsAllowed (info_pdb i) < 1 then Inl \<lparr>Blocking_Pod = pod, Blocking_Reason = NotEnoughPdb\<rparr>
         else can_remove_loop i pods cnt'
           (if DisruptionsAllowed (info_pdb i) < cnt' then (False, Some \<lparr>Blocking_Pod = pod, Blocking_Reason = NotEnoughPdb\<rparr>) else acc))
      else can_remove_loop i pods cnt acc)"

fun can_remove_pdbs :: "basicRemainingPdbTracker \<Rightarrow> pod list \<Rightarrow> bool \<times> BlockingPod option \<Rightarrow> bool \<times> bool \<times> BlockingPod option" where
  "can_remove_pdbs [] pods (inParallel, blockingPod) = (True, inParallel, blockingPod)"
| "can_remove_pdbs (i # t) pods acc =
     (case can_remove_loop i pods 0 acc of Inl b \<Rightarrow> (False, False, Some b) | Inr acc' \<Rightarrow> can_remove_pdbs t pods acc')"

definition CanRemovePods :: "pod list \<Rightarrow> basicRemainingPdbTracker \<Rightarrow> bool \<times> bool \<times> BlockingPod option" where
  "CanRemovePods pods t = can_remove_pdbs t pods (True, None)"

definition remove_pods_from :: "pod list \<Rightarrow> pdbInfo \<Rightarrow> pdbInfo" where
  "remove_pods_from pods i = foldl (\<lambda>i pod. if pdb_matches i pod
     then i\<lparr>info_pdb := (info_pdb i)\<lparr>DisruptionsAllowed := int32 (DisruptionsAllowed (info_pdb i) - 1)\<rparr>\<rparr> else i) i pods"

definition RemovePods :: "pod list \<Rightarrow> basicRemainingPdbTracker \<Rightarrow> basicRemainingPdbTracker" where
  "RemovePods pods t = map (remove_pods_from pods) t"

definition pdb_Clear :: "basicRemainingPdbTracker \<Rightarrow> basicRemainingPdbTracker" where
  "pdb_Clear t = []"

section \<open>Rules\<close>

datatype OutcomeType = UndefinedOutcome | DrainOk | BlockDrain | SkipDrain | WaitForCompletion

datatype drain_error = NotAvailable string string | TooFewReplicas string string int | DaemonSetNotPresent string string
  | DaemonSetGetError string string | PodNotReplicated string string | SystemPodPresent string | NotSafeToEvictPresent string
  | LocalStoragePresent string | NotEnoughBudget string string

record drain_status =
  Outcome :: OutcomeType
  Overrides :: "OutcomeType list"
  BlockingReason :: BlockingPodReason
  Error :: "drain_error option"

definition NewUndefinedStatus :: drain_status where
  "NewUndefinedStatus = \<lparr>Outcome = UndefinedOutcome, Overrides = [], BlockingReason = Drain_NoReason, Error = None\<rparr>"

definition NewDrainableStatus :: drain_status where
  "NewDrainableStatus = NewUndefinedStatus\<lparr>Outcome := DrainOk\<rparr>"

definition NewBlockedStatus :: "BlockingPodReason \<Rightarrow> drain_error \<Rightarrow> drain_status" where
  "NewBlockedStatus reason err = NewUndefinedStatus\<lparr>Outcome := BlockDrain, BlockingReason := reason, Error := Some err\<rparr>"

definition NewSkipStatus :: drain_status where
  "NewSkipStatus = NewUndefinedStatus\<lparr>Outcome := SkipDrain\<rparr>"

definition NewWaitStatus :: drain_status where
  "NewWaitStatus = NewUndefinedStatus\<lparr>Outcome := WaitForCompletion\<rparr>"

text \<open>
  The listers: the replicas of replication controllers and replica sets (\<open>None\<close> for an error or a nil
  object), the answers for daemon sets, whether a job is there, whether a stateful set is there (it
  is missing only when the lister gives an error and a nil object), and the group of an API version.
\<close>

datatype get_answer = Got | NotFoundError | OtherError

record listers =
  ReplicationControllers :: "string \<Rightarrow> string \<Rightarrow> int option option"
  ReplicaSets :: "string \<Rightarrow> string \<Rightarrow> int option option"
  DaemonSets :: "string \<Rightarrow> string \<Rightarrow> get_answer"
  Jobs :: "string \<Rightarrow> string \<Rightarrow> bool"
  StatefulSets :: "string \<Rightarrow> string \<Rightarrow> bool"
  ParseGroupVersion :: "string \<Rightarrow> string option"

record DrainContext =
  RemainingPdbTracker :: basicRemainingPdbTracker
  Listers :: "listers option"
  Timestamp :: time

type_synonym rule = "DrainContext \<Rightarrow> pod \<Rightarrow> drain_status"

definition mirror_rule :: rule where
  "mirror_rule drainCtx pod = (if IsMirrorPod pod then NewSkipStatus else NewUndefinedStatus)"

definition longterminating_rule :: rule where
  "longterminating_rule drainCtx pod =
     (if IsPodLongTerminating pod (Timestamp drainCtx) then NewSkipStatus else NewUndefinedStatus)"

definition too_few :: "pod \<Rightarrow> int option \<Rightarrow> int \<Rightarrow> drain_status" where
  "too_few pod replicas minReplicaCount =
     (case replicas of None \<Rightarrow> NewUndefinedStatus
      | Some n \<Rightarrow> if n < minReplicaCount
          then NewBlockedStatus MinReplicasReached (TooFewReplicas (Pod_Namespace pod) (Pod_Name pod) minReplicaCount)
          else NewUndefinedStatus)"

definition replicacount_rule :: "int \<Rightarrow> rule" where
  "replicacount_rule minReplicaCount drainCtx pod =
     (case Listers drainCtx of None \<Rightarrow> NewUndefinedStatus
      | Some L \<Rightarrow> (case ControllerRef pod of None \<Rightarrow> NewUndefinedStatus
         | Some ref \<Rightarrow> (case ParseGroupVersion L (APIVersion ref) of None \<Rightarrow> NewUndefinedStatus
            | Some refGroup \<Rightarrow>
                (let ns = Pod_Namespace pod; missing = NewBlockedStatus ControllerNotFound (NotAvailable ns (Pod_Name pod)) in
                 if Ref_Kind ref = ''ReplicationController'' then
                   (case ReplicationControllers L ns (Ref_Name ref) of None \<Rightarrow> missing | Some r \<Rightarrow> too_few pod r minReplicaCount)
                 else if IsDaemonSetPod pod then
                   if refGroup \<noteq> ''apps'' \<or> Ref_Kind ref \<noteq> ''DaemonSet'' then NewUndefinedStatus
                   else (case DaemonSets L ns (Ref_Name ref) of
                       Got \<Rightarrow> NewUndefinedStatus
                     | NotFoundError \<Rightarrow> NewBlockedStatus ControllerNotFound (DaemonSetNotPresent ns (Pod_Name pod))
                     | OtherError \<Rightarrow> NewBlockedStatus Drain_UnexpectedError (DaemonSetGetError ns (Pod_Name pod)))
                 else if Ref_Kind ref = ''Job'' then (if Jobs L ns (Ref_Name ref) then NewUndefinedStatus else missing)
                 else if Ref_Kind ref = ''ReplicaSet'' then
                   (case ReplicaSets L ns (Ref_Name ref) of None \<Rightarrow> missing | Some r \<Rightarrow> too_few pod r minReplicaCount)
                 else if Ref_Kind ref = ''StatefulSet'' then
                   (if refGroup \<noteq> ''apps'' then NewUndefinedStatus
                    else if StatefulSets L ns (Ref_Name ref) then NewUndefinedStatus else missing)
                 else NewUndefinedStatus))))"

definition daemonset_rule :: rule where
  "daemonset_rule drainCtx pod = (if IsDaemonSetPod pod then NewDrainableStatus else NewUndefinedStatus)"

definition safetoevict_rule :: rule where
  "safetoevict_rule drainCtx pod = (if HasSafeToEvictAnnotation pod then NewDrainableStatus else NewUndefinedStatus)"

definition terminal_rule :: rule where
  "terminal_rule drainCtx pod = (if IsPodTerminal pod then NewDrainableStatus else NewUndefinedStatus)"

definition oncompletion_rule :: rule where
  "oncompletion_rule drainCtx pod = (if HasSafeToEvictOnCompletionAnnotation pod then NewWaitStatus else NewUndefinedStatus)"

definition replicatedKind :: "(string, bool) gmap" where
  "replicatedKind = [(''ReplicationController'', True), (''Job'', True), (''ReplicaSet'', True), (''StatefulSet'', True)]"

definition replicated :: "bool \<Rightarrow> pod \<Rightarrow> bool" where
  "replicated skipNodesWithCustomControllerPods pod =
     (case ControllerRef pod of None \<Rightarrow> False
      | Some ref \<Rightarrow> skipNodesWithCustomControllerPods \<longrightarrow> gget False replicatedKind (Ref_Kind ref))"

definition replicated_rule :: "bool \<Rightarrow> rule" where
  "replicated_rule skipNodesWithCustomControllerPods drainCtx pod =
     (if \<not> replicated skipNodesWithCustomControllerPods pod
      then NewBlockedStatus NotReplicated (PodNotReplicated (Pod_Namespace pod) (Pod_Name pod)) else NewUndefinedStatus)"

definition isBlockingSystemPod :: "DrainContext \<Rightarrow> pod \<Rightarrow> bool" where
  "isBlockingSystemPod drainCtx pod \<longleftrightarrow>
     Pod_Namespace pod = ''kube-system'' \<and> length (MatchingPdbs pod (RemainingPdbTracker drainCtx)) = 0"

definition isBspPassedDisruptionTimeout :: "duration \<Rightarrow> pod \<Rightarrow> time \<Rightarrow> bool" where
  "isBspPassedDisruptionTimeout bspDisruptionTimeout pod drainTime \<longleftrightarrow>
     Pod_CreationTimestamp pod \<noteq> zero_time \<and> drainTime > Pod_CreationTimestamp pod + bspDisruptionTimeout"

definition system_rule :: "duration \<Rightarrow> rule" where
  "system_rule bspDisruptionTimeout drainCtx pod =
     (if isBlockingSystemPod drainCtx pod then
        if isBspPassedDisruptionTimeout bspDisruptionTimeout pod (Timestamp drainCtx) then NewDrainableStatus
        else NewBlockedStatus UnmovableKubeSystemPod (SystemPodPresent (Pod_Name pod))
      else NewUndefinedStatus)"

definition notsafetoevict_rule :: rule where
  "notsafetoevict_rule drainCtx pod = (if HasNotSafeToEvictAnnotation pod
     then NewBlockedStatus NotSafeToEvictAnnotation (NotSafeToEvictPresent (Pod_Name pod)) else NewUndefinedStatus)"

definition localstorage_rule :: rule where
  "localstorage_rule drainCtx pod = (if HasBlockingLocalStorage pod
     then NewBlockedStatus LocalStorageRequested (LocalStoragePresent (Pod_Name pod)) else NewUndefinedStatus)"

definition pdb_rule :: rule where
  "pdb_rule drainCtx pod = (if list_ex (\<lambda>p. DisruptionsAllowed p < 1) (MatchingPdbs pod (RemainingPdbTracker drainCtx))
     then NewBlockedStatus NotEnoughPdb (NotEnoughBudget (Pod_Namespace pod) (Pod_Name pod)) else NewUndefinedStatus)"

record NodeDeleteOptions =
  SkipNodesWithSystemPods :: bool
  SkipNodesWithLocalStorage :: bool
  SkipNodesWithCustomControllerPods :: bool
  MinReplicaCount :: int
  BspDisruptionTimeout :: duration

definition Default :: "NodeDeleteOptions \<Rightarrow> rule list" where
  "Default deleteOptions = map fst (filter (\<lambda>(rule, skip). \<not> skip)
     [(mirror_rule, False), (longterminating_rule, False),
      (replicacount_rule (MinReplicaCount deleteOptions), \<not> SkipNodesWithCustomControllerPods deleteOptions),
      (daemonset_rule, False), (safetoevict_rule, False), (terminal_rule, False), (oncompletion_rule, False),
      (replicated_rule (SkipNodesWithCustomControllerPods deleteOptions), False),
      (system_rule (BspDisruptionTimeout deleteOptions), \<not> SkipNodesWithSystemPods deleteOptions),
      (notsafetoevict_rule, False), (localstorage_rule, \<not> SkipNodesWithLocalStorage deleteOptions), (pdb_rule, False)])"

text \<open>The loop over the rules, with the candidates whose overrides are pending.\<close>

fun drainable_loop :: "rule list \<Rightarrow> DrainContext \<Rightarrow> pod \<Rightarrow> drain_status list \<Rightarrow> drain_status" where
  "drainable_loop [] drainCtx pod candidates = NewUndefinedStatus"
| "drainable_loop (r # rs) drainCtx pod candidates =
     (let status = r drainCtx pod in
      if length (Overrides status) > 0 then drainable_loop rs drainCtx pod (candidates @ [status])
      else case find (\<lambda>candidate. Outcome status \<in> set (Overrides candidate)) candidates of
          Some candidate \<Rightarrow> candidate
        | None \<Rightarrow> if Outcome status \<noteq> UndefinedOutcome then status else drainable_loop rs drainCtx pod candidates)"

definition Drainable :: "rule list \<Rightarrow> DrainContext \<Rightarrow> pod \<Rightarrow> drain_status" where
  "Drainable rs drainCtx pod = drainable_loop rs drainCtx pod []"

record PodMoveInfo =
  Pods :: "pod list"
  Move_DaemonSetPods :: "pod list"
  Move_OnCompletionPods :: "pod list"
  Move_BlockingPod :: "BlockingPod option"

fun pods_to_move :: "rule list \<Rightarrow> DrainContext \<Rightarrow> pod list \<Rightarrow> PodMoveInfo \<Rightarrow> PodMoveInfo \<times> drain_error option" where
  "pods_to_move rs drainCtx [] info = (info, None)"
| "pods_to_move rs drainCtx (pod # pods) info =
     (let status = Drainable rs drainCtx pod in
      case Outcome status of
        BlockDrain \<Rightarrow> (info\<lparr>Move_BlockingPod := Some \<lparr>Blocking_Pod = pod, Blocking_Reason = BlockingReason status\<rparr>\<rparr>, Error status)
      | WaitForCompletion \<Rightarrow> pods_to_move rs drainCtx pods (info\<lparr>Move_OnCompletionPods := Move_OnCompletionPods info @ [pod]\<rparr>)
      | SkipDrain \<Rightarrow> pods_to_move rs drainCtx pods info
      | _ \<Rightarrow> pods_to_move rs drainCtx pods
          (if IsDaemonSetPod pod then info\<lparr>Move_DaemonSetPods := Move_DaemonSetPods info @ [pod]\<rparr>
           else info\<lparr>Pods := Pods info @ [pod]\<rparr>))"

definition GetPodsToMove :: "pod list \<Rightarrow> NodeDeleteOptions \<Rightarrow> rule list option \<Rightarrow> listers option \<Rightarrow> basicRemainingPdbTracker option \<Rightarrow> time \<Rightarrow>
    PodMoveInfo \<times> drain_error option" where
  "GetPodsToMove pods deleteOptions drainabilityRules ls remainingPdbTracker timestamp =
     pods_to_move (case drainabilityRules of None \<Rightarrow> Default deleteOptions | Some rs \<Rightarrow> rs)
       \<lparr>RemainingPdbTracker = (case remainingPdbTracker of None \<Rightarrow> [] | Some t \<Rightarrow> t), Listers = ls, Timestamp = timestamp\<rparr>
       pods \<lparr>Pods = [], Move_DaemonSetPods = [], Move_OnCompletionPods = [], Move_BlockingPod = None\<rparr>"

section \<open>The default rules\<close>

lemmas status_defs = NewUndefinedStatus_def NewDrainableStatus_def NewBlockedStatus_def NewSkipStatus_def NewWaitStatus_def

lemmas rule_defs = mirror_rule_def longterminating_rule_def daemonset_rule_def safetoevict_rule_def terminal_rule_def
  oncompletion_rule_def replicated_rule_def system_rule_def notsafetoevict_rule_def localstorage_rule_def pdb_rule_def

lemma no_overrides [simp]:
  "Overrides NewUndefinedStatus = []" "Overrides NewDrainableStatus = []" "Overrides (NewBlockedStatus reason err) = []"
  "Overrides NewSkipStatus = []" "Overrides NewWaitStatus = []"
  by (simp_all add: status_defs)

lemma outcomes [simp]:
  "Outcome NewUndefinedStatus = UndefinedOutcome" "Outcome NewDrainableStatus = DrainOk"
  "Outcome (NewBlockedStatus reason err) = BlockDrain" "Outcome NewSkipStatus = SkipDrain" "Outcome NewWaitStatus = WaitForCompletion"
  by (simp_all add: status_defs)

lemma replicacount_overrides [simp]: "Overrides (replicacount_rule m ctx pod) = []"
  by (auto simp: replicacount_rule_def too_few_def Let_def split: option.splits get_answer.splits)

lemma replicacount_outcome:
  "Outcome (replicacount_rule m ctx pod) = UndefinedOutcome \<or> Outcome (replicacount_rule m ctx pod) = BlockDrain"
  by (auto simp: replicacount_rule_def too_few_def Let_def split: option.splits get_answer.splits)

text \<open>Without overrides the first rule with an outcome decides.\<close>

lemma drainable_first:
  "Overrides (r ctx pod) = [] \<Longrightarrow> drainable_loop (r # rs) ctx pod [] =
     (if Outcome (r ctx pod) \<noteq> UndefinedOutcome then r ctx pod else drainable_loop rs ctx pod [])"
  by (simp add: Let_def)

declare drainable_loop.simps(2) [simp del]

text \<open>A pod that the options, the annotations or a disruption budget protect.\<close>

definition protected :: "NodeDeleteOptions \<Rightarrow> DrainContext \<Rightarrow> pod \<Rightarrow> bool" where
  "protected opts ctx p \<longleftrightarrow> \<not> replicated (SkipNodesWithCustomControllerPods opts) p \<or> HasNotSafeToEvictAnnotation p \<or>
     (SkipNodesWithLocalStorage opts \<and> HasBlockingLocalStorage p) \<or>
     (\<exists>b\<in>set (MatchingPdbs p (RemainingPdbTracker ctx)). DisruptionsAllowed b < 1) \<or>
     (SkipNodesWithSystemPods opts \<and> isBlockingSystemPod ctx p)"

definition old_system_pod :: "NodeDeleteOptions \<Rightarrow> DrainContext \<Rightarrow> pod \<Rightarrow> bool" where
  "old_system_pod opts ctx p \<longleftrightarrow> SkipNodesWithSystemPods opts \<and> isBlockingSystemPod ctx p \<and>
     isBspPassedDisruptionTimeout (BspDisruptionTimeout opts) p (Timestamp ctx)"

lemma default_moves:
  assumes "Outcome (Drainable (Default opts) ctx p) = UndefinedOutcome \<or> Outcome (Drainable (Default opts) ctx p) = DrainOk"
    and "\<not> IsDaemonSetPod p"
  shows "\<not> IsMirrorPod p \<and> \<not> IsPodLongTerminating p (Timestamp ctx) \<and>
    (HasSafeToEvictAnnotation p \<or> IsPodTerminal p \<or>
     \<not> HasSafeToEvictOnCompletionAnnotation p \<and> replicated (SkipNodesWithCustomControllerPods opts) p \<and>
     (old_system_pod opts ctx p \<or> \<not> protected opts ctx p))"
proof -
  have rc: "Outcome (replicacount_rule (MinReplicaCount opts) ctx p) = UndefinedOutcome \<or>
      Outcome (replicacount_rule (MinReplicaCount opts) ctx p) = BlockDrain" by (rule replicacount_outcome)
  show ?thesis
    using assms rc unfolding Drainable_def Default_def
    by (cases "SkipNodesWithCustomControllerPods opts"; cases "SkipNodesWithSystemPods opts"; cases "SkipNodesWithLocalStorage opts")
      (auto simp: drainable_first rule_defs protected_def old_system_pod_def list_ex_iff split: if_splits)
qed

lemma pods_to_move_spec:
  "pods_to_move rs ctx pods info =
     (let outcome = (\<lambda>p. Outcome (Drainable rs ctx p)); before = takeWhile (\<lambda>p. outcome p \<noteq> BlockDrain) pods;
          moved = filter (\<lambda>p. outcome p = UndefinedOutcome \<or> outcome p = DrainOk) before
      in (info\<lparr>Pods := Pods info @ filter (\<lambda>p. \<not> IsDaemonSetPod p) moved,
           Move_DaemonSetPods := Move_DaemonSetPods info @ filter IsDaemonSetPod moved,
           Move_OnCompletionPods := Move_OnCompletionPods info @ filter (\<lambda>p. outcome p = WaitForCompletion) before,
           Move_BlockingPod := (case find (\<lambda>p. outcome p = BlockDrain) pods of None \<Rightarrow> Move_BlockingPod info
             | Some p \<Rightarrow> Some \<lparr>Blocking_Pod = p, Blocking_Reason = BlockingReason (Drainable rs ctx p)\<rparr>)\<rparr>,
         case find (\<lambda>p. outcome p = BlockDrain) pods of None \<Rightarrow> None | Some p \<Rightarrow> Error (Drainable rs ctx p)))"
proof (induction pods arbitrary: info)
  case (Cons p pods)
  then show ?case
    by (cases info; cases "Outcome (Drainable rs ctx p)") (simp_all add: Let_def split: option.splits)
qed simp

section \<open>Disruption budgets over many pods\<close>

definition matched :: "pdbInfo \<Rightarrow> pod list \<Rightarrow> int" where
  "matched i pods = int (length (filter (pdb_matches i) pods))"

lemma int32_id: "- (2 ^ 31) \<le> x \<Longrightarrow> x < 2 ^ 31 \<Longrightarrow> int32 x = x"
  by (simp add: int32_def)

lemma matched_Cons: "matched i (p # pods) = (if pdb_matches i p then 1 else 0) + matched i pods"
  by (simp add: matched_def)

lemma matched_nonneg: "0 \<le> matched i pods"
  by (simp add: matched_def)

lemma can_remove_loop_spec:
  assumes "0 \<le> cnt" and "cnt + int (length pods) < 2 ^ 31"
  shows "(\<exists>b. can_remove_loop i pods cnt acc = Inl b) \<longleftrightarrow> DisruptionsAllowed (info_pdb i) < 1 \<and> 0 < matched i pods"
    and "can_remove_loop i pods cnt acc = Inr acc' \<Longrightarrow>
      fst acc' \<longleftrightarrow> fst acc \<and> (0 < matched i pods \<longrightarrow> cnt + matched i pods \<le> DisruptionsAllowed (info_pdb i))"
  using assms
proof (induction i pods cnt acc rule: can_remove_loop.induct)
  case (2 i pod pods cnt acc)
  have wrap: "int32 (cnt + 1) = cnt + 1"
    if "0 \<le> cnt" "cnt + int (length (pod # pods)) < 2 ^ 31" using that by (intro int32_id) auto
  {
    case 1
    then show ?case using 2(1,3) wrap matched_nonneg [of i pods] by (auto simp: Let_def matched_Cons)
  next
    case 2
    then show ?case
      using "2.IH"(2,4) wrap matched_nonneg [of i pods] by (auto simp: Let_def matched_Cons split: if_splits)
  }
qed (simp_all add: matched_def)

lemma can_remove_pdbs_spec:
  assumes "int (length pods) < 2 ^ 31"
  shows "fst (can_remove_pdbs t pods acc) \<longleftrightarrow> (\<forall>i\<in>set t. 0 < matched i pods \<longrightarrow> 1 \<le> DisruptionsAllowed (info_pdb i))"
    and "fst (snd (can_remove_pdbs t pods acc)) \<longleftrightarrow>
      fst acc \<and> (\<forall>i\<in>set t. 0 < matched i pods \<longrightarrow> matched i pods \<le> DisruptionsAllowed (info_pdb i))"
  using assms
proof (induction t pods acc rule: can_remove_pdbs.induct)
  case (2 i t pods acc)
  note loop = can_remove_loop_spec [of 0 pods i acc]
  show "fst (can_remove_pdbs (i # t) pods acc) \<longleftrightarrow>
      (\<forall>i\<in>set (i # t). 0 < matched i pods \<longrightarrow> 1 \<le> DisruptionsAllowed (info_pdb i))"
    if "int (length pods) < 2 ^ 31"
    using "2.IH"(1) loop(1) that by (auto split: sum.splits)
  show "fst (snd (can_remove_pdbs (i # t) pods acc)) \<longleftrightarrow>
      fst acc \<and> (\<forall>i\<in>set (i # t). 0 < matched i pods \<longrightarrow> matched i pods \<le> DisruptionsAllowed (info_pdb i))"
    if "int (length pods) < 2 ^ 31"
    using "2.IH"(2) loop that by (auto split: sum.splits)
qed auto

lemma remove_pods_from_spec:
  assumes "- (2 ^ 31) \<le> DisruptionsAllowed (info_pdb i) - int (length pods)" and "DisruptionsAllowed (info_pdb i) < 2 ^ 31"
  shows "remove_pods_from pods i =
    i\<lparr>info_pdb := (info_pdb i)\<lparr>DisruptionsAllowed := DisruptionsAllowed (info_pdb i) - matched i pods\<rparr>\<rparr>"
  using assms
proof (induction pods arbitrary: i)
  case (Cons p pods)
  let ?i = "i\<lparr>info_pdb := (info_pdb i)\<lparr>DisruptionsAllowed := DisruptionsAllowed (info_pdb i) - 1\<rparr>\<rparr>"
  have "int32 (DisruptionsAllowed (info_pdb i) - 1) = DisruptionsAllowed (info_pdb i) - 1"
    using Cons.prems by (intro int32_id) auto
  moreover have "pdb_matches ?i = pdb_matches i" by (simp add: pdb_matches_def fun_eq_iff)
  ultimately show ?case
    using Cons.IH [of ?i] Cons.IH [of i] Cons.prems by (auto simp: remove_pods_from_def matched_def)
qed (simp add: remove_pods_from_def matched_def)

text \<open>Batches of pods that are removed one after another, when the tracker allows the batch in parallel.\<close>

fun evict_batches :: "pod list list \<Rightarrow> basicRemainingPdbTracker \<Rightarrow> pod list list \<times> basicRemainingPdbTracker" where
  "evict_batches [] t = ([], t)"
| "evict_batches (pods # batches) t =
     (if fst (snd (CanRemovePods pods t))
      then let (accepted, t') = evict_batches batches (RemovePods pods t) in (pods # accepted, t')
      else evict_batches batches t)"

definition budget_after :: "pod list list \<Rightarrow> pdbInfo \<Rightarrow> pdbInfo" where
  "budget_after accepted i = i\<lparr>info_pdb := (info_pdb i)\<lparr>DisruptionsAllowed :=
     DisruptionsAllowed (info_pdb i) - (\<Sum>pods\<leftarrow>accepted. matched i pods)\<rparr>\<rparr>"

lemma matched_budget_after [simp]: "matched (budget_after accepted i) pods = matched i pods"
proof -
  have "pdb_matches (budget_after accepted i) = pdb_matches i" by (simp add: budget_after_def pdb_matches_def fun_eq_iff)
  then show ?thesis by (simp add: matched_def)
qed

lemma budget_after_append: "budget_after b (budget_after a i) = budget_after (a @ b) i"
  by (simp add: budget_after_def [of b] matched_budget_after) (simp add: budget_after_def diff_diff_eq)

lemma RemovePods_budget:
  assumes "int (length pods) < 2 ^ 31" and "\<forall>i\<in>set t. 0 \<le> DisruptionsAllowed (info_pdb i) \<and> DisruptionsAllowed (info_pdb i) < 2 ^ 31"
    and "fst (snd (CanRemovePods pods t))"
  shows "RemovePods pods t = map (budget_after [pods]) t"
    and "\<forall>i\<in>set (RemovePods pods t). 0 \<le> DisruptionsAllowed (info_pdb i) \<and> DisruptionsAllowed (info_pdb i) < 2 ^ 31"
proof -
  show eq: "RemovePods pods t = map (budget_after [pods]) t"
    unfolding RemovePods_def using assms(1,2) by (auto simp: remove_pods_from_spec budget_after_def)
  have nonneg: "0 \<le> DisruptionsAllowed (info_pdb i) - matched i pods" if "i \<in> set t" for i
    using assms(2,3) can_remove_pdbs_spec(2) [OF assms(1), of t "(True, None)"] that matched_nonneg [of i pods]
    by (fastforce simp: CanRemovePods_def)
  show "\<forall>i\<in>set (RemovePods pods t). 0 \<le> DisruptionsAllowed (info_pdb i) \<and> DisruptionsAllowed (info_pdb i) < 2 ^ 31"
    unfolding eq
  proof
    fix j
    assume "j \<in> set (map (budget_after [pods]) t)"
    then obtain i where i: "i \<in> set t" and j: "j = budget_after [pods] i" by auto
    show "0 \<le> DisruptionsAllowed (info_pdb j) \<and> DisruptionsAllowed (info_pdb j) < 2 ^ 31"
      using nonneg [OF i] bspec [OF assms(2) i] matched_nonneg [of i pods] by (simp add: j budget_after_def)
  qed
qed

lemma evict_batches_budget:
  assumes "\<forall>pods\<in>set batches. int (length pods) < 2 ^ 31"
    and "\<forall>i\<in>set t. 0 \<le> DisruptionsAllowed (info_pdb i) \<and> DisruptionsAllowed (info_pdb i) < 2 ^ 31"
    and "evict_batches batches t = (accepted, t')"
  shows "t' = map (budget_after accepted) t \<and> (\<forall>i\<in>set t'. 0 \<le> DisruptionsAllowed (info_pdb i))"
  using assms
proof (induction batches t arbitrary: accepted t' rule: evict_batches.induct)
  case (1 t)
  then show ?case by (auto simp: budget_after_def intro!: map_idI [symmetric])
next
  case (2 pods batches t)
  show ?case
  proof (cases "fst (snd (CanRemovePods pods t))")
    case True
    obtain rest where rest: "evict_batches batches (RemovePods pods t) = (rest, t')" and acc: "accepted = pods # rest"
      using "2.prems"(3) True by (auto simp: Let_def split: prod.splits)
    have small: "int (length pods) < 2 ^ 31" using "2.prems"(1) by simp
    note rp = RemovePods_budget [OF small "2.prems"(2) True]
    have "t' = map (budget_after rest) (RemovePods pods t) \<and> (\<forall>i\<in>set t'. 0 \<le> DisruptionsAllowed (info_pdb i))"
      using "2.IH"(1) [OF True _ rp(2) rest] "2.prems"(1) by simp
    then show ?thesis unfolding rp(1) acc by (simp add: budget_after_append comp_def)
  next
    case False
    then show ?thesis using "2.IH"(2) "2.prems" by simp
  qed
qed

section \<open>Properties\<close>


definition demo_pod :: "string \<Rightarrow> string \<Rightarrow> string \<Rightarrow> pod" where
  "demo_pod name ns safe = \<lparr>Pod_Name = name, Pod_Namespace = ns, Pod_Labels = [], Pod_Annotations = Some [(PodSafeToEvictKey, safe)],
     ControllerOf = Some \<lparr>APIVersion = ''apps/v1'', Ref_Kind = ''ReplicaSet'', Ref_Name = ''rs''\<rparr>, Pod_CreationTimestamp = 10,
     DeletionTimestamp = None, TerminationGracePeriodSeconds = None, RestartPolicy = ''Always'', Phase = ''Running'', Volumes = []\<rparr>"

definition demo_options :: NodeDeleteOptions where
  "demo_options = \<lparr>SkipNodesWithSystemPods = True, SkipNodesWithLocalStorage = True, SkipNodesWithCustomControllerPods = True,
     MinReplicaCount = 0, BspDisruptionTimeout = 100\<rparr>"


text \<open>
  C11. Disruption budgets: \<open>CanRemovePods\<close> allows a batch iff no matching budget is used up, and in
  parallel iff every budget covers all its pods of the batch. When batches are removed only if they
  are allowed in parallel, every budget falls by exactly the number of its removed pods and never
  becomes negative.
\<close>

theorem disruption_budgets_respected:
  assumes "\<forall>pods\<in>set batches. int (length pods) < 2 ^ 31"
    and "\<forall>i\<in>set t. 0 \<le> DisruptionsAllowed (info_pdb i) \<and> DisruptionsAllowed (info_pdb i) < 2 ^ 31"
    and "evict_batches batches t = (accepted, t')"
  shows "(\<forall>pods\<in>set batches.
      (fst (CanRemovePods pods t) \<longleftrightarrow> (\<forall>i\<in>set t. 0 < matched i pods \<longrightarrow> 1 \<le> DisruptionsAllowed (info_pdb i))) \<and>
      (fst (snd (CanRemovePods pods t)) \<longleftrightarrow> (\<forall>i\<in>set t. matched i pods \<le> DisruptionsAllowed (info_pdb i)))) \<and>
    t' = map (budget_after accepted) t \<and> (\<forall>i\<in>set t'. 0 \<le> DisruptionsAllowed (info_pdb i))"
proof -
  have zero: "matched i pods \<le> DisruptionsAllowed (info_pdb i)" if "\<not> 0 < matched i pods" "i \<in> set t" for i pods
    using that assms(2) matched_nonneg [of i pods] by force
  have "fst (snd (CanRemovePods pods t)) \<longleftrightarrow> (\<forall>i\<in>set t. matched i pods \<le> DisruptionsAllowed (info_pdb i))" if "pods \<in> set batches" for pods
    using can_remove_pdbs_spec(2) [of pods t "(True, None)"] assms(1) zero [of _ pods] that unfolding CanRemovePods_def by auto
  moreover have "fst (CanRemovePods pods t) \<longleftrightarrow> (\<forall>i\<in>set t. 0 < matched i pods \<longrightarrow> 1 \<le> DisruptionsAllowed (info_pdb i))"
    if "pods \<in> set batches" for pods
    using can_remove_pdbs_spec(1) assms(1) that unfolding CanRemovePods_def by blast
  ultimately show ?thesis using evict_batches_budget [OF assms] by blast
qed

definition demo_pdb :: pdbInfo where
  "demo_pdb = \<lparr>info_pdb = \<lparr>Pdb_Name = ''p'', Pdb_Namespace = ''default'', Spec_Selector = Inr (\<lambda>_. True), DisruptionsAllowed = 3\<rparr>,
     info_selector = (\<lambda>_. True)\<rparr>"

theorem disruption_budgets_respected_witness:
  "let p = demo_pod ''a'' ''default'' []; (accepted, t') = evict_batches [[p, p], [p, p], [p]] [demo_pdb]
   in map length accepted = [2, 1] \<and> map (DisruptionsAllowed \<circ> info_pdb) t' = [0] \<and> t' = map (budget_after accepted) [demo_pdb]"
proof -
  let ?p = "demo_pod ''a'' ''default'' []"
  obtain accepted t' where r: "evict_batches [[?p, ?p], [?p, ?p], [?p]] [demo_pdb] = (accepted, t')" by (rule prod.exhaust)
  have acc: "map length (fst (evict_batches [[?p, ?p], [?p, ?p], [?p]] [demo_pdb])) = [2, 1]"
    and left: "map (DisruptionsAllowed \<circ> info_pdb) (snd (evict_batches [[?p, ?p], [?p, ?p], [?p]] [demo_pdb])) = [0]"
    by code_simp+
  have "t' = map (budget_after accepted) [demo_pdb]"
    using disruption_budgets_respected [OF _ _ r] by (simp add: demo_pdb_def)
  then show ?thesis using acc left unfolding Let_def r by simp
qed

text \<open>
  The disruption timeout of system pods cancels every later protection. A replicated pod of the
  system namespace without a matching disruption budget that is older than the timeout is moved even
  if it is annotated as not safe to evict; with \<open>SkipNodesWithSystemPods\<close> turned off, the same pod
  blocks the drain.
\<close>

theorem system_timeout_overrides_not_safe_to_evict:
  assumes "Pod_Namespace p = ''kube-system''" and "\<forall>i\<in>set t. \<not> pdb_matches i p"
    and "HasNotSafeToEvictAnnotation p" and "replicated (SkipNodesWithCustomControllerPods opts) p"
    and "\<not> IsMirrorPod p" and "DeletionTimestamp p = None" and "\<not> IsDaemonSetPod p" and "\<not> IsPodTerminal p"
    and "Pod_CreationTimestamp p \<noteq> zero_time" and "Pod_CreationTimestamp p + BspDisruptionTimeout opts < now"
  shows "Pods (fst (GetPodsToMove [p] (opts\<lparr>SkipNodesWithSystemPods := True\<rparr>) None None (Some t) now)) = [p] \<and>
    map_option Blocking_Reason (Move_BlockingPod
      (fst (GetPodsToMove [p] (opts\<lparr>SkipNodesWithSystemPods := False\<rparr>) None None (Some t) now))) = Some NotSafeToEvictAnnotation"
proof -
  let ?ctx = "\<lparr>RemainingPdbTracker = t, Listers = None, Timestamp = now\<rparr>"
  have sys: "isBlockingSystemPod ?ctx p" using assms(1,2) by (simp add: isBlockingSystemPod_def MatchingPdbs_def filter_empty_conv)
  have old: "isBspPassedDisruptionTimeout (BspDisruptionTimeout opts) p now"
    using assms(9,10) by (simp add: isBspPassedDisruptionTimeout_def)
  have safe: "\<not> HasSafeToEvictAnnotation p" "\<not> HasSafeToEvictOnCompletionAnnotation p" "\<not> IsPodLongTerminating p now"
    using assms(3,6) by (auto simp: HasSafeToEvictAnnotation_def HasSafeToEvictOnCompletionAnnotation_def
        HasNotSafeToEvictAnnotation_def IsPodLongTerminating_def)
  have rc: "replicacount_rule m ?ctx p = NewUndefinedStatus" for m by (simp add: replicacount_rule_def)
  have "Drainable (Default (opts\<lparr>SkipNodesWithSystemPods := True\<rparr>)) ?ctx p = NewDrainableStatus"
    using assms(3-5,7,8) sys old safe rc unfolding Drainable_def Default_def
    by (cases "SkipNodesWithCustomControllerPods opts") (simp_all add: drainable_first rule_defs)
  moreover have "Drainable (Default (opts\<lparr>SkipNodesWithSystemPods := False\<rparr>)) ?ctx p =
      NewBlockedStatus NotSafeToEvictAnnotation (NotSafeToEvictPresent (Pod_Name p))"
    using assms(3-5,7,8) safe rc unfolding Drainable_def Default_def
    by (cases "SkipNodesWithCustomControllerPods opts") (simp_all add: drainable_first rule_defs)
  ultimately show ?thesis using assms(7) by (simp add: GetPodsToMove_def NewBlockedStatus_def)
qed

theorem system_timeout_overrides_not_safe_to_evict_witness:
  "Pods (fst (GetPodsToMove [demo_pod ''dns'' ''kube-system'' ''false''] demo_options None None (Some []) 111)) =
     [demo_pod ''dns'' ''kube-system'' ''false''] \<and> HasNotSafeToEvictAnnotation (demo_pod ''dns'' ''kube-system'' ''false'')"
proof -
  have flags: "demo_options\<lparr>SkipNodesWithSystemPods := True\<rparr> = demo_options" by (simp add: demo_options_def)
  have "HasNotSafeToEvictAnnotation (demo_pod ''dns'' ''kube-system'' ''false'')"
    "replicated (SkipNodesWithCustomControllerPods demo_options) (demo_pod ''dns'' ''kube-system'' ''false'')"
    "\<not> IsMirrorPod (demo_pod ''dns'' ''kube-system'' ''false'')" "\<not> IsDaemonSetPod (demo_pod ''dns'' ''kube-system'' ''false'')"
    "\<not> IsPodTerminal (demo_pod ''dns'' ''kube-system'' ''false'')" by code_simp+
  moreover have "Pod_Namespace (demo_pod ''dns'' ''kube-system'' ''false'') = ''kube-system''"
    "DeletionTimestamp (demo_pod ''dns'' ''kube-system'' ''false'') = None"
    "Pod_CreationTimestamp (demo_pod ''dns'' ''kube-system'' ''false'') = 10" "BspDisruptionTimeout demo_options = 100"
    by (simp_all add: demo_pod_def demo_options_def)
  ultimately show ?thesis
    using system_timeout_overrides_not_safe_to_evict [of "demo_pod ''dns'' ''kube-system'' ''false''" "[]" demo_options 111]
    by (simp add: flags zero_time_def)
qed

end
