(* ===== verification/Pod_Groups.thy ===== *)
theory Pod_Groups
  imports Drainability Quota_Tracker "HOL-Library.Multiset"
begin

text \<open>
  Equivalence groups of unschedulable pods (src/pkg/core/scaleup/equivalence/groups.go, with the
  comparison of pod specs in src/pkg/utils/utils.go), and the bookkeeping of the orchestrator on these
  groups (src/pkg/core/scaleup/orchestrator/orchestrator.go, skippedreasons.go, rejectedreasons.go).

  Pods are pointers into a store, because comparing two pods writes to them: \<open>sanitizePodSpec\<close> receives the
  spec by value, but the container arrays of the copy are those of the pod. The generic comparison
  \<open>Semantic.DeepEqual\<close> of the Kubernetes libraries is a parameter on sanitized specs, and the fields of
  specs that the code does not mention are one value of an abstract type.
\<close>

section \<open>Pod specs\<close>

record 'r spec_volume =
  sv_Name :: string
  Projected :: bool
  sv_rest :: 'r

record 'r volume_mount =
  vm_Name :: string
  vm_rest :: 'r

record 'r container =
  Env :: "'r list"
  VolumeMounts :: "'r volume_mount list"
  c_rest :: 'r

record 'r pod_spec =
  Spec_Volumes :: "'r spec_volume list"
  Containers :: "'r container list"
  InitContainers :: "'r container list"
  Hostname :: string
  spec_rest :: 'r

text \<open>
  A pod in the store: the fields of \<open>pod\<close>, its labels (\<open>None\<close> for a nil map), the UID of its controller
  and its spec.
\<close>

record 'r pod_object =
  obj_pod :: pod
  obj_Labels :: "(string, string) gmap option"
  Controller_UID :: string
  Spec :: "'r pod_spec"

type_synonym ('p, 'r) pod_store = "'p \<Rightarrow> 'r pod_object"

definition drop_mounts :: "(string, bool) gmap \<Rightarrow> 'r container \<Rightarrow> 'r container" where
  "drop_mounts projectedVolumeNames c =
     c\<lparr>VolumeMounts := filter (\<lambda>mount. \<not> gget False projectedVolumeNames (vm_Name mount)) (VolumeMounts c)\<rparr>"

definition dropProjectedVolumesAndMounts :: "'r pod_spec \<Rightarrow> 'r pod_spec" where
  "dropProjectedVolumesAndMounts podSpec =
     (let projectedVolumeNames = foldl (\<lambda>m v. if \<not> Projected v then m else gput (sv_Name v) True m) [] (Spec_Volumes podSpec)
      in podSpec\<lparr>Spec_Volumes := filter (\<lambda>v. \<not> Projected v) (Spec_Volumes podSpec),
           Containers := map (drop_mounts projectedVolumeNames) (Containers podSpec),
           InitContainers := map (drop_mounts projectedVolumeNames) (InitContainers podSpec)\<rparr>)"

definition dropHostname :: "'r pod_spec \<Rightarrow> 'r pod_spec" where
  "dropHostname podSpec = podSpec\<lparr>Hostname := []\<rparr>"

definition dropEnv :: "'r pod_spec \<Rightarrow> 'r pod_spec" where
  "dropEnv podSpec = podSpec\<lparr>Containers := map (\<lambda>c. c\<lparr>Env := []\<rparr>) (Containers podSpec),
     InitContainers := map (\<lambda>c. c\<lparr>Env := []\<rparr>) (InitContainers podSpec)\<rparr>"

text \<open>The sanitized copy; its container arrays are also those of the pod it was copied from.\<close>

definition sanitizePodSpec :: "'r pod_spec \<Rightarrow> 'r pod_spec" where
  "sanitizePodSpec podSpec = dropEnv (dropHostname (dropProjectedVolumesAndMounts podSpec))"

definition sanitize_pod :: "'p \<Rightarrow> ('p, 'r) pod_store \<Rightarrow> 'r pod_spec \<times> ('p, 'r) pod_store" where
  "sanitize_pod p h =
     (let copy = sanitizePodSpec (Spec (h p))
      in (copy, h(p := (h p)\<lparr>Spec := (Spec (h p))\<lparr>Containers := Containers copy, InitContainers := InitContainers copy\<rparr>\<rparr>)))"

definition PodSpecSemanticallyEqual :: "('r pod_spec \<Rightarrow> 'r pod_spec \<Rightarrow> bool) \<Rightarrow> 'p \<Rightarrow> 'p \<Rightarrow> ('p, 'r) pod_store \<Rightarrow>
    bool \<times> ('p, 'r) pod_store" where
  "PodSpecSemanticallyEqual DeepEqual p1 p2 h =
     (let (p1Spec, h1) = sanitize_pod p1 h; (p2Spec, h2) = sanitize_pod p2 h1 in (DeepEqual p1Spec p2Spec, h2))"

section \<open>Grouping\<close>

record 'p equivalenceGroup =
  eg_id :: nat
  representant :: 'p

record 'p grouping =
  podEquivalenceGroups :: "(nat, 'p list) gmap"
  equivalenceGroupsByController :: "(string, 'p equivalenceGroup list) gmap"
  nextGroupId :: nat

definition maxEquivalenceGroupsByController :: nat where
  "maxEquivalenceGroupsByController = 10"

text \<open>\<open>reflect.DeepEqual\<close> on label maps.\<close>

definition labels_equal :: "(string, string) gmap option \<Rightarrow> (string, string) gmap option \<Rightarrow> bool" where
  "labels_equal a b = (case (a, b) of (None, None) \<Rightarrow> True
     | (Some m, Some m') \<Rightarrow> length m = length m' \<and> list_all (\<lambda>(k, v). map_of m' k = Some v) m
     | _ \<Rightarrow> False)"

fun match :: "('r pod_spec \<Rightarrow> 'r pod_spec \<Rightarrow> bool) \<Rightarrow> 'p equivalenceGroup list \<Rightarrow> 'p \<Rightarrow> ('p, 'r) pod_store \<Rightarrow>
    nat option \<times> ('p, 'r) pod_store" where
  "match DeepEqual [] pod h = (None, h)"
| "match DeepEqual (g # egs) pod h =
     (if labels_equal (obj_Labels (h pod)) (obj_Labels (h (representant g))) then
        (let (same, h1) = PodSpecSemanticallyEqual DeepEqual pod (representant g) h
         in if same then (Some (eg_id g), h1) else match DeepEqual egs pod h1)
      else match DeepEqual egs pod h)"

definition group_pod :: "('r pod_spec \<Rightarrow> 'r pod_spec \<Rightarrow> bool) \<Rightarrow> 'p \<Rightarrow> 'p grouping \<times> ('p, 'r) pod_store \<Rightarrow>
    'p grouping \<times> ('p, 'r) pod_store" where
  "group_pod DeepEqual pod = (\<lambda>(st, h).
     let gid = nextGroupId st in
     if ControllerRef (obj_pod (h pod)) = None \<or> IsDaemonSetPod (obj_pod (h pod)) then
       (st\<lparr>podEquivalenceGroups := gput gid [pod] (podEquivalenceGroups st), nextGroupId := gid + 1\<rparr>, h)
     else (let uid = Controller_UID (h pod); egs = gget [] (equivalenceGroupsByController st) uid in
       case match DeepEqual egs pod h of
         (Some k, h1) \<Rightarrow>
           (st\<lparr>podEquivalenceGroups := gput k (gget [] (podEquivalenceGroups st) k @ [pod]) (podEquivalenceGroups st)\<rparr>, h1)
       | (None, h1) \<Rightarrow>
           (st\<lparr>equivalenceGroupsByController :=
                 (if length egs < maxEquivalenceGroupsByController
                  then gput uid (egs @ [\<lparr>eg_id = gid, representant = pod\<rparr>]) (equivalenceGroupsByController st)
                  else equivalenceGroupsByController st),
               podEquivalenceGroups := gput gid (gget [] (podEquivalenceGroups st) gid @ [pod]) (podEquivalenceGroups st),
               nextGroupId := gid + 1\<rparr>, h1)))"

definition groupPodsBySchedulingProperties :: "('r pod_spec \<Rightarrow> 'r pod_spec \<Rightarrow> bool) \<Rightarrow> 'p list \<Rightarrow> ('p, 'r) pod_store \<Rightarrow>
    (nat, 'p list) gmap \<times> ('p, 'r) pod_store" where
  "groupPodsBySchedulingProperties DeepEqual pods h =
     (let (st, h') = fold (group_pod DeepEqual) pods
        (\<lparr>podEquivalenceGroups = [], equivalenceGroupsByController = [], nextGroupId = 0\<rparr>, h)
      in (podEquivalenceGroups st, h'))"

text \<open>Why a node group was skipped or rejected; \<open>SchedulingError\<close> is the error of the predicate checker.\<close>

datatype reasons = SkippedReasons "string list" | RejectedReasons "string list"
  | MaxResourceLimitReached "string list" "string list" | SchedulingError "string list"

fun Reasons :: "reasons \<Rightarrow> string list" where
  "Reasons (SkippedReasons messages) = messages"
| "Reasons (RejectedReasons messages) = messages"
| "Reasons (MaxResourceLimitReached messages resources) = messages"
| "Reasons (SchedulingError messages) = messages"

record 'p PodGroup =
  Pods :: "'p list"
  SchedulingErrors :: "(string, reasons) gmap"
  SchedulableGroups :: "string list"
  Schedulable :: bool

definition BuildPodGroups :: "('r pod_spec \<Rightarrow> 'r pod_spec \<Rightarrow> bool) \<Rightarrow> 'p list \<Rightarrow> ('p, 'r) pod_store \<Rightarrow>
    'p PodGroup list \<times> ('p, 'r) pod_store" where
  "BuildPodGroups DeepEqual pods h =
     (let (groups, h') = groupPodsBySchedulingProperties DeepEqual pods h
      in (map (\<lambda>(_, ps). \<lparr>Pods = ps, SchedulingErrors = [], SchedulableGroups = [], Schedulable = False\<rparr>) groups, h'))"


definition Clone :: "'p PodGroup \<Rightarrow> 'p PodGroup" where
  "Clone eg = \<lparr>Pods = Pods eg, SchedulingErrors = foldl (\<lambda>m (k, v). gput k v m) [] (SchedulingErrors eg),
     SchedulableGroups = SchedulableGroups eg, Schedulable = Schedulable eg\<rparr>"

section \<open>Reasons\<close>

definition NewSkippedReasons :: "string \<Rightarrow> reasons" where "NewSkippedReasons m = SkippedReasons [m]"
definition NewRejectedReasons :: "string \<Rightarrow> reasons" where "NewRejectedReasons m = RejectedReasons [m]"

definition BackoffReason :: reasons where "BackoffReason = NewSkippedReasons ''in backoff after failed scale-up''"
definition MaxLimitReachedReason :: reasons where "MaxLimitReachedReason = NewSkippedReasons ''max node group size reached''"
definition NotReadyReason :: reasons where "NotReadyReason = NewSkippedReasons ''not ready for scale-up''"

definition AllOrNothingReason :: reasons where
  "AllOrNothingReason = NewRejectedReasons ''not all pods would fit and scale-up is using all-or-nothing strategy''"

definition ExpansionOptionsFilteredOutReason :: reasons where
  "ExpansionOptionsFilteredOutReason = NewRejectedReasons ''expansion options filtered out and no longer considered''"

definition ScaleUpExecutionErrorReason :: reasons where
  "ScaleUpExecutionErrorReason = NewRejectedReasons ''scale-up execution failed''"

text \<open>
  \<open>strings.Join\<close>, and the messages of exceeded quotas; \<open>quote\<close> is the \<open>%q\<close> verb. The resources are a set in
  the source and listed here in the order of their last occurrence.
\<close>

fun join :: "string \<Rightarrow> string list \<Rightarrow> string" where
  "join sep [] = []"
| "join sep [x] = x"
| "join sep (x # xs) = x @ sep @ join sep xs"

definition NewMaxResourceLimitReached :: "(string \<Rightarrow> string) \<Rightarrow> ExceededQuota list \<Rightarrow> reasons" where
  "NewMaxResourceLimitReached quote exceededQuotas =
     MaxResourceLimitReached
       (map (\<lambda>q. ''exceeded quota: '' @ quote (Exceeded_ID q) @ '', resources: '' @ join '', '' (ExceededResources q)) exceededQuotas)
       (remdups (concat (map ExceededResources exceededQuotas)))"

section \<open>Bookkeeping of the orchestrator\<close>

text \<open>\<open>slices.Index\<close> followed by an assignment at, or the deletion of, that index.\<close>

fun replace_first :: "'a \<Rightarrow> 'a \<Rightarrow> 'a list \<Rightarrow> 'a list" where
  "replace_first old new [] = []"
| "replace_first old new (x # xs) = (if x = old then new # xs else x # replace_first old new xs)"

definition patchPodEquivalenceGroupsId :: "'p PodGroup list \<Rightarrow> string \<Rightarrow> string \<Rightarrow> 'p PodGroup list" where
  "patchPodEquivalenceGroupsId egs oldId newId =
     (if oldId = newId then egs
      else map (\<lambda>eg. let eg1 = eg\<lparr>SchedulableGroups := replace_first oldId newId (SchedulableGroups eg)\<rparr> in
        case map_of (SchedulingErrors eg1) oldId of
          None \<Rightarrow> eg1
        | Some err \<Rightarrow> eg1\<lparr>SchedulingErrors := gdel oldId (gput newId err (SchedulingErrors eg1))\<rparr>) egs)"

definition deletePodEquivalenceGroupsId :: "'p PodGroup list \<Rightarrow> string \<Rightarrow> 'p PodGroup list" where
  "deletePodEquivalenceGroupsId egs i =
     map (\<lambda>eg. eg\<lparr>SchedulableGroups := remove1 i (SchedulableGroups eg), SchedulingErrors := gdel i (SchedulingErrors eg)\<rparr>) egs"

definition markAllGroupsAsUnschedulable :: "'p PodGroup list \<Rightarrow> reasons \<Rightarrow> 'p PodGroup list" where
  "markAllGroupsAsUnschedulable egs reason =
     map (\<lambda>eg. if Schedulable eg then
         eg\<lparr>SchedulingErrors := foldl (\<lambda>m sg. gput sg reason m) (SchedulingErrors eg) (SchedulableGroups eg), Schedulable := False\<rparr>
       else eg) egs"

definition markFailedGroupsAsUnschedulable :: "'p PodGroup list \<Rightarrow> (string, bool) gmap \<Rightarrow> reasons \<Rightarrow> 'p PodGroup list" where
  "markFailedGroupsAsUnschedulable egs failedGroups reason =
     map (\<lambda>eg. if \<not> Schedulable eg \<or> length (SchedulableGroups eg) = 0 then eg
       else (let (allFailed, errs) = foldl (\<lambda>(allFailed, m) sg.
                   if \<not> gget False failedGroups sg then (False, m) else (allFailed, gput sg reason m))
                 (True, SchedulingErrors eg) (SchedulableGroups eg)
             in eg\<lparr>SchedulingErrors := errs, Schedulable := (if allFailed then False else Schedulable eg)\<rparr>)) egs"

definition GetPodsAwaitingEvaluation :: "'p PodGroup list \<Rightarrow> string \<Rightarrow> 'p list" where
  "GetPodsAwaitingEvaluation egs bestOption =
     concat (map Pods (filter (\<lambda>eg. Schedulable eg \<and> ghas (SchedulingErrors eg) bestOption) egs))"

record 'p NoScaleUpInfo =
  NoScaleUp_Pod :: 'p
  RejectedNodeGroups :: "(string, reasons) gmap"
  SkippedNodeGroups :: "(string, reasons) gmap"

definition findSkippedNodeGroupsSatisfyingPodPredicates :: "'p PodGroup \<Rightarrow> (string, reasons) gmap \<Rightarrow> (string, reasons) gmap" where
  "findSkippedNodeGroupsSatisfyingPodPredicates eg skipped =
     foldl (\<lambda>m (i, skipReason). if \<not> ghas (SchedulingErrors eg) i then gput i skipReason m else m) [] skipped"

text \<open>\<open>PodEquivalenceGroup\<close> of the estimator is its list of pods; \<open>Exemplar\<close> is nil for an empty group.\<close>

type_synonym 'p PodEquivalenceGroup = "'p list"

definition Exemplar :: "'p PodEquivalenceGroup \<Rightarrow> 'p option" where
  "Exemplar pods = (if length pods = 0 then None else Some (pods ! 0))"

fun all_found :: "('p option, bool) gmap \<Rightarrow> 'p PodEquivalenceGroup list \<Rightarrow> bool" where
  "all_found schedulableSamplePods [] = True"
| "all_found schedulableSamplePods (podGroup # podGroups) =
     (if \<not> ghas schedulableSamplePods (Exemplar podGroup) then False else all_found schedulableSamplePods podGroups)"

definition matchingSchedulablePodGroups :: "'p PodEquivalenceGroup list \<Rightarrow> 'p PodEquivalenceGroup list \<Rightarrow> bool" where
  "matchingSchedulablePodGroups podGroups similarPodGroups =
     all_found (foldl (\<lambda>m podGroup. gput (Exemplar podGroup) True m) [] similarPodGroups) podGroups"

section \<open>Comparing pods\<close>

text \<open>
  \<open>same_shape\<close>: two stores whose pods differ at most in what the sanitized copies drop.
\<close>

definition same_shape :: "('p, 'r) pod_store \<Rightarrow> ('p, 'r) pod_store \<Rightarrow> bool" where
  "same_shape h h' \<longleftrightarrow> (\<forall>p. obj_pod (h' p) = obj_pod (h p) \<and> obj_Labels (h' p) = obj_Labels (h p) \<and>
     Controller_UID (h' p) = Controller_UID (h p) \<and> Spec_Volumes (Spec (h' p)) = Spec_Volumes (Spec (h p)) \<and>
     sanitizePodSpec (Spec (h' p)) = sanitizePodSpec (Spec (h p)))"

lemma same_shape_refl [simp]: "same_shape h h"
  by (simp add: same_shape_def)

lemma same_shape_trans: "same_shape h h1 \<Longrightarrow> same_shape h1 h2 \<Longrightarrow> same_shape h h2"
  by (simp add: same_shape_def)

lemma drop_mounts_idem: "drop_mounts ns (c\<lparr>Env := e\<rparr>) = (drop_mounts ns c)\<lparr>Env := e\<rparr>" "drop_mounts ns (drop_mounts ns c) = drop_mounts ns c"
  by (simp_all add: drop_mounts_def)

lemma sanitize_idem:
  "sanitizePodSpec (spec\<lparr>Containers := Containers (sanitizePodSpec spec), InitContainers := InitContainers (sanitizePodSpec spec)\<rparr>) =
     sanitizePodSpec spec"
  by (simp add: sanitizePodSpec_def dropEnv_def dropHostname_def dropProjectedVolumesAndMounts_def Let_def drop_mounts_idem)

lemma sanitize_pod_spec:
  "fst (sanitize_pod p h) = sanitizePodSpec (Spec (h p))" "same_shape h (snd (sanitize_pod p h))"
  by (simp_all add: sanitize_pod_def Let_def same_shape_def sanitize_idem)

lemma PodSpecSemanticallyEqual_spec:
  "fst (PodSpecSemanticallyEqual DeepEqual p q h) = DeepEqual (sanitizePodSpec (Spec (h p))) (sanitizePodSpec (Spec (h q)))"
  "same_shape h (snd (PodSpecSemanticallyEqual DeepEqual p q h))"
proof -
  obtain s1 h1 where 1: "sanitize_pod p h = (s1, h1)" by (rule prod.exhaust)
  obtain s2 h2 where 2: "sanitize_pod q h1 = (s2, h2)" by (rule prod.exhaust)
  have s: "same_shape h h1" "same_shape h1 h2" "s1 = sanitizePodSpec (Spec (h p))" "s2 = sanitizePodSpec (Spec (h1 q))"
    using sanitize_pod_spec [where p = p and h = h] sanitize_pod_spec [where p = q and h = h1] 1 2 by simp_all
  then show "same_shape h (snd (PodSpecSemanticallyEqual DeepEqual p q h))"
    using same_shape_trans by (simp add: PodSpecSemanticallyEqual_def 1 2) blast
  show "fst (PodSpecSemanticallyEqual DeepEqual p q h) = DeepEqual (sanitizePodSpec (Spec (h p))) (sanitizePodSpec (Spec (h q)))"
    using s by (simp add: PodSpecSemanticallyEqual_def 1 2 same_shape_def)
qed

text \<open>Equivalent pods: the labels agree and so do the sanitized specs.\<close>

definition equivalent :: "('r pod_spec \<Rightarrow> 'r pod_spec \<Rightarrow> bool) \<Rightarrow> ('p, 'r) pod_store \<Rightarrow> 'p \<Rightarrow> 'p \<Rightarrow> bool" where
  "equivalent DeepEqual h pod rep \<longleftrightarrow> labels_equal (obj_Labels (h pod)) (obj_Labels (h rep)) \<and>
     DeepEqual (sanitizePodSpec (Spec (h pod))) (sanitizePodSpec (Spec (h rep)))"

lemma equivalent_same_shape: "same_shape h h' \<Longrightarrow> equivalent DeepEqual h' = equivalent DeepEqual h"
  by (intro ext) (simp add: same_shape_def equivalent_def)

lemma match_spec:
  "fst (match DeepEqual egs pod h) = map_option eg_id (find (\<lambda>g. equivalent DeepEqual h pod (representant g)) egs) \<and>
     same_shape h (snd (match DeepEqual egs pod h))"
proof (induction egs arbitrary: h)
  case (Cons g egs)
  obtain same h1 where c: "PodSpecSemanticallyEqual DeepEqual pod (representant g) h = (same, h1)" by (rule prod.exhaust)
  have 1: "same = DeepEqual (sanitizePodSpec (Spec (h pod))) (sanitizePodSpec (Spec (h (representant g))))" "same_shape h h1"
    using PodSpecSemanticallyEqual_spec [where DeepEqual = DeepEqual and p = pod and q = "representant g" and h = h] c by simp_all
  show ?case
    using Cons.IH [of h] Cons.IH [of h1] 1 same_shape_trans [OF 1(2), of "snd (match DeepEqual egs pod h1)"]
      equivalent_same_shape [OF 1(2), of DeepEqual]
    by (auto simp: c equivalent_def)
qed simp


section \<open>Grouping partitions the pods\<close>

lemma mset_concat_gput:
  "gm_wf m \<Longrightarrow> mset (concat (map snd (gput k v m))) + mset (gget [] m k) = mset (concat (map snd m)) + mset v"
proof (induction m)
  case (Cons e m)
  then show ?case
    by (cases e) (auto simp: gget_def map_of_eq_None_iff split: option.splits)
qed simp

text \<open>Pods that may share a group: they have a controller and are not daemon set pods.\<close>

definition owned :: "('p, 'r) pod_store \<Rightarrow> 'p \<Rightarrow> bool" where
  "owned h p \<longleftrightarrow> ControllerRef (obj_pod (h p)) \<noteq> None \<and> \<not> IsDaemonSetPod (obj_pod (h p))"

definition group_ok :: "('r pod_spec \<Rightarrow> 'r pod_spec \<Rightarrow> bool) \<Rightarrow> ('p, 'r) pod_store \<Rightarrow> 'p list \<Rightarrow> bool" where
  "group_ok DeepEqual h ps \<longleftrightarrow> ps \<noteq> [] \<and> (\<forall>p\<in>set (tl ps). owned h p \<and> owned h (hd ps) \<and>
     Controller_UID (h p) = Controller_UID (h (hd ps)) \<and> equivalent DeepEqual h p (hd ps))"

definition grouping_inv :: "('r pod_spec \<Rightarrow> 'r pod_spec \<Rightarrow> bool) \<Rightarrow> ('p, 'r) pod_store \<Rightarrow> 'p list \<Rightarrow>
    'p grouping \<times> ('p, 'r) pod_store \<Rightarrow> bool" where
  "grouping_inv DeepEqual h pods = (\<lambda>(st, h').
     gm_wf (podEquivalenceGroups st) \<and> same_shape h h' \<and>
     (\<forall>k ps. map_of (podEquivalenceGroups st) k = Some ps \<longrightarrow> k < nextGroupId st \<and> group_ok DeepEqual h ps) \<and>
     mset (concat (map snd (podEquivalenceGroups st))) = mset pods \<and>
     (\<forall>uid. \<forall>g\<in>set (gget [] (equivalenceGroupsByController st) uid). \<exists>ps. map_of (podEquivalenceGroups st) (eg_id g) = Some ps \<and>
        hd ps = representant g \<and> owned h (representant g) \<and> Controller_UID (h (representant g)) = uid))"

lemma grouping_inv_representant:
  assumes "grouping_inv DeepEqual h pods (st, h')" and "g \<in> set (gget [] (equivalenceGroupsByController st) uid)"
  shows "\<exists>ps. map_of (podEquivalenceGroups st) (eg_id g) = Some ps \<and> hd ps = representant g \<and> owned h (representant g) \<and>
    Controller_UID (h (representant g)) = uid"
  using assms unfolding grouping_inv_def prod.case by blast

lemma group_ok_singleton: "group_ok DeepEqual h [p]"
  by (simp add: group_ok_def)

lemma group_ok_snoc:
  assumes "group_ok DeepEqual h ps" and "owned h p" and "owned h (hd ps)"
    and "Controller_UID (h p) = Controller_UID (h (hd ps))" and "equivalent DeepEqual h p (hd ps)"
  shows "group_ok DeepEqual h (ps @ [p])"
  using assms by (cases ps) (auto simp: group_ok_def)

lemma grouping_inv_fresh:
  assumes "grouping_inv DeepEqual h pods (st, h')" and "same_shape h h''"
    and ctl: "\<And>uid g. g \<in> set (gget [] ctl uid) \<Longrightarrow> g \<in> set (gget [] (equivalenceGroupsByController st) uid) \<or>
      eg_id g = nextGroupId st \<and> representant g = p \<and> owned h p \<and> Controller_UID (h p) = uid"
  shows "grouping_inv DeepEqual h (pods @ [p])
     (st\<lparr>equivalenceGroupsByController := ctl, podEquivalenceGroups := gput (nextGroupId st) [p] (podEquivalenceGroups st),
        nextGroupId := nextGroupId st + 1\<rparr>, h'')"
proof -
  let ?m = "podEquivalenceGroups st"
  have fresh: "map_of ?m (nextGroupId st) = None"
    using assms(1) by (cases "map_of ?m (nextGroupId st)") (auto simp: grouping_inv_def)
  have "mset (concat (map snd (gput (nextGroupId st) [p] ?m))) = mset (pods @ [p])"
    using mset_concat_gput [of ?m "nextGroupId st" "[p]"] assms(1) fresh by (simp add: grouping_inv_def gget_def)
  moreover have "\<exists>ps. map_of (gput (nextGroupId st) [p] ?m) (eg_id g) = Some ps \<and> hd ps = representant g \<and>
      owned h (representant g) \<and> Controller_UID (h (representant g)) = uid"
    if "g \<in> set (gget [] ctl uid)" for uid g
  proof (cases "g \<in> set (gget [] (equivalenceGroupsByController st) uid)")
    case True
    then obtain ps where "map_of ?m (eg_id g) = Some ps" and "hd ps = representant g \<and>
      owned h (representant g) \<and> Controller_UID (h (representant g)) = uid"
      using grouping_inv_representant [OF assms(1)] by blast
    moreover from this have "eg_id g \<noteq> nextGroupId st" using fresh by auto
    ultimately show ?thesis by auto
  qed (use ctl [OF that] in auto)
  ultimately show ?thesis
    using assms(1,2) by (auto simp: grouping_inv_def group_ok_singleton intro: less_SucI)
qed

lemma grouping_inv_append:
  assumes inv: "grouping_inv DeepEqual h pods (st, h')" and "same_shape h h''" and "owned h p"
    and g: "g \<in> set (gget [] (equivalenceGroupsByController st) (Controller_UID (h p)))" and eq: "equivalent DeepEqual h p (representant g)"
  shows "grouping_inv DeepEqual h (pods @ [p])
     (st\<lparr>podEquivalenceGroups := gput (eg_id g) (gget [] (podEquivalenceGroups st) (eg_id g) @ [p]) (podEquivalenceGroups st)\<rparr>, h'')"
proof -
  let ?m = "podEquivalenceGroups st"
  obtain ps where ps: "map_of ?m (eg_id g) = Some ps" "hd ps = representant g" "owned h (representant g)"
      "Controller_UID (h (representant g)) = Controller_UID (h p)"
    using grouping_inv_representant [OF inv g] by blast
  have ok: "group_ok DeepEqual h ps" "eg_id g < nextGroupId st" using inv ps(1) by (auto simp: grouping_inv_def)
  have "group_ok DeepEqual h (ps @ [p])" by (rule group_ok_snoc [OF ok(1)]) (use assms ps in simp_all)
  moreover have "hd (ps @ [p]) = hd ps" using ok(1) by (simp add: group_ok_def)
  moreover have "mset (concat (map snd (gput (eg_id g) (gget [] ?m (eg_id g) @ [p]) ?m))) = mset (pods @ [p])"
    using mset_concat_gput [of ?m "eg_id g" "gget [] ?m (eg_id g) @ [p]"] inv by (simp add: grouping_inv_def)
  moreover have "gget [] ?m (eg_id g) = ps" using ps(1) by (simp add: gget_def)
  ultimately show ?thesis using inv assms(2) ok(2) ps(1)
    unfolding grouping_inv_def by (auto simp del: mset_append mset_concat) (metis option.inject)
qed

lemma group_pod_inv:
  assumes inv: "grouping_inv DeepEqual h pods (st, h')"
  shows "grouping_inv DeepEqual h (pods @ [p]) (group_pod DeepEqual p (st, h'))"
proof -
  have shape: "same_shape h h'" using inv by (simp add: grouping_inv_def)
  then have same: "obj_pod (h' p) = obj_pod (h p)" "Controller_UID (h' p) = Controller_UID (h p)"
    by (simp_all add: same_shape_def)
  let ?ctl = "equivalenceGroupsByController st"
  show ?thesis
  proof (cases "owned h p")
    case False
    have "group_pod DeepEqual p (st, h') = (st\<lparr>equivalenceGroupsByController := ?ctl,
        podEquivalenceGroups := gput (nextGroupId st) [p] (podEquivalenceGroups st), nextGroupId := nextGroupId st + 1\<rparr>, h')"
      using False by (auto simp: group_pod_def owned_def same Let_def)
    then show ?thesis using grouping_inv_fresh [OF inv shape, of ?ctl p] by simp
  next
    case True
    let ?egs = "gget [] ?ctl (Controller_UID (h p))"
    obtain r h1 where m: "match DeepEqual ?egs p h' = (r, h1)" by (rule prod.exhaust)
    have r: "r = map_option eg_id (find (\<lambda>g. equivalent DeepEqual h p (representant g)) ?egs)" and h1: "same_shape h h1"
      using match_spec [of DeepEqual ?egs p h'] m same_shape_trans [OF shape] by (simp_all add: equivalent_same_shape [OF shape])
    have step: "group_pod DeepEqual p (st, h') = (case (r, h1) of
         (Some k, h1) \<Rightarrow> (st\<lparr>podEquivalenceGroups := gput k (gget [] (podEquivalenceGroups st) k @ [p]) (podEquivalenceGroups st)\<rparr>, h1)
       | (None, h1) \<Rightarrow> (st\<lparr>equivalenceGroupsByController :=
                 (if length ?egs < maxEquivalenceGroupsByController
                  then gput (Controller_UID (h p)) (?egs @ [\<lparr>eg_id = nextGroupId st, representant = p\<rparr>]) ?ctl else ?ctl),
               podEquivalenceGroups := gput (nextGroupId st) (gget [] (podEquivalenceGroups st) (nextGroupId st) @ [p]) (podEquivalenceGroups st),
               nextGroupId := nextGroupId st + 1\<rparr>, h1))"
    proof -
      have "\<not> (ControllerRef (obj_pod (h p)) = None \<or> IsDaemonSetPod (obj_pod (h p)))" using True by (simp add: owned_def)
      then show ?thesis by (simp only: group_pod_def prod.case Let_def same m if_False)
    qed
    show ?thesis
    proof (cases "find (\<lambda>g. equivalent DeepEqual h p (representant g)) ?egs")
      case None
      have "map_of (podEquivalenceGroups st) (nextGroupId st) = None"
        using inv by (cases "map_of (podEquivalenceGroups st) (nextGroupId st)") (auto simp: grouping_inv_def)
      then have old: "gget [] (podEquivalenceGroups st) (nextGroupId st) = []" by (simp add: gget_def)
      have "r = None" using None r by simp
      then show ?thesis unfolding step prod.case option.case old append_Nil
        by simp (intro conjI impI grouping_inv_fresh [OF inv h1, simplified] grouping_inv_fresh [OF inv h1, where ctl = ?ctl, simplified];
          use True in \<open>auto split: if_splits\<close>)
    next
      case (Some g)
      then have "g \<in> set ?egs" "equivalent DeepEqual h p (representant g)" by (auto simp: find_Some_iff)
      then show ?thesis unfolding step using Some r grouping_inv_append [OF inv h1 True] by simp
    qed
  qed
qed

lemma grouping_fold:
  assumes "grouping_inv DeepEqual h done s"
  shows "grouping_inv DeepEqual h (done @ pods) (fold (group_pod DeepEqual) pods s)"
  using assms
proof (induction pods arbitrary: "done" s)
  case (Cons p pods)
  obtain st h' where s: "s = (st, h')" by (rule prod.exhaust)
  have "grouping_inv DeepEqual h (done @ [p]) (group_pod DeepEqual p s)"
    using Cons.prems unfolding s by (rule group_pod_inv)
  from Cons.IH [OF this] show ?case by simp
qed simp


lemma BuildPodGroups_inv:
  fixes h :: "('p, 'r) pod_store"
  assumes "BuildPodGroups DeepEqual pods h = (groups, h')"
  shows "\<exists>m :: (nat, 'p list) gmap. groups = map (\<lambda>(_, ps). \<lparr>Pods = ps, SchedulingErrors = [], SchedulableGroups = [], Schedulable = False\<rparr>) m \<and>
    gm_wf m \<and> same_shape h h' \<and> (\<forall>e\<in>set m. group_ok DeepEqual h (snd e)) \<and> mset (concat (map snd m)) = mset pods"
proof -
  define s0 :: "'p grouping" where "s0 = \<lparr>podEquivalenceGroups = [], equivalenceGroupsByController = [], nextGroupId = 0\<rparr>"
  obtain st h1 where f: "fold (group_pod DeepEqual) pods (s0, h) = (st, h1)" by (rule prod.exhaust)
  have "grouping_inv DeepEqual h [] (s0, h)" by (simp add: grouping_inv_def s0_def)
  from grouping_fold [OF this, of pods] have inv: "grouping_inv DeepEqual h pods (st, h1)" by (simp add: f)
  have g: "groups = map (\<lambda>(_, ps). \<lparr>Pods = ps, SchedulingErrors = [], SchedulableGroups = [], Schedulable = False\<rparr>) (podEquivalenceGroups st)"
    and h1: "h1 = h'"
    using assms f by (simp_all add: BuildPodGroups_def groupPodsBySchedulingProperties_def s0_def)
  have "\<forall>e\<in>set (podEquivalenceGroups st). group_ok DeepEqual h (snd e)"
    using inv by (auto simp: grouping_inv_def gm_wf_map_of_in)
  then show ?thesis using inv g h1 by (intro exI [of _ "podEquivalenceGroups st"]) (simp add: grouping_inv_def)
qed

text \<open>Grouping erases the environment of every container of the pods it compares.\<close>

definition no_environment :: "'r pod_spec \<Rightarrow> bool" where
  "no_environment spec \<longleftrightarrow> list_all (\<lambda>c. Env c = []) (Containers spec @ InitContainers spec)"

lemma sanitize_pod_erases: "no_environment (Spec (snd (sanitize_pod p h) p))"
  by (simp add: sanitize_pod_def Let_def no_environment_def sanitizePodSpec_def dropEnv_def list.pred_map comp_def list.pred_True)

lemma sanitize_pod_keeps: "no_environment (Spec (h q)) \<Longrightarrow> no_environment (Spec (snd (sanitize_pod p h) q))"
  using sanitize_pod_erases [of p h] by (cases "p = q") (auto simp: sanitize_pod_def Let_def)

lemma PodSpecSemanticallyEqual_erases:
  defines "after D p q h \<equiv> snd (PodSpecSemanticallyEqual D p q h)"
  shows "no_environment (Spec (after D p q h p))" and "no_environment (Spec (after D p q h q))"
    and "no_environment (Spec (h x)) \<Longrightarrow> no_environment (Spec (after D p q h x))"
  using sanitize_pod_erases [of p h] sanitize_pod_erases [of q "snd (sanitize_pod p h)"]
    sanitize_pod_keeps [of "snd (sanitize_pod p h)" _ q] sanitize_pod_keeps [of h _ p]
  by (auto simp: after_def PodSpecSemanticallyEqual_def split: prod.splits)

lemma match_keeps_erased: "no_environment (Spec (h x)) \<Longrightarrow> no_environment (Spec (snd (match D egs p h) x))"
proof (induction egs arbitrary: h)
  case (Cons g egs)
  then show ?case using PodSpecSemanticallyEqual_erases(3) [of h x D p "representant g"]
    by (auto split: prod.splits)
qed simp

section \<open>Properties\<close>

text \<open>
  C30. Grouping loses no pod: the groups partition the pods. A group of more than one pod holds pods of
  one controller, none of them a daemon set pod, whose labels and sanitized specs agree with those of
  the first pod, the sample that stands for the group in all simulations. The comparison reads the pods
  as they were before: writing to the store in between does not change its outcome.
\<close>

theorem pod_groups_partition:
  fixes h :: "('p, 'r) pod_store"
  assumes "BuildPodGroups DeepEqual pods h = (groups, h')"
  shows "mset (concat (map Pods groups)) = mset pods \<and>
    list_all (\<lambda>eg. Pods eg \<noteq> [] \<and> \<not> Schedulable eg \<and> SchedulingErrors eg = [] \<and>
      list_all (\<lambda>p. owned h p \<and> owned h (hd (Pods eg)) \<and> Controller_UID (h p) = Controller_UID (h (hd (Pods eg))) \<and>
        equivalent DeepEqual h p (hd (Pods eg))) (tl (Pods eg))) groups \<and>
    same_shape h h'"
proof -
  obtain m :: "(nat, 'p list) gmap" where g: "groups = map (\<lambda>(_, ps). \<lparr>Pods = ps, SchedulingErrors = [], SchedulableGroups = [], Schedulable = False\<rparr>) m"
    and m: "same_shape h h'" "\<forall>e\<in>set m. group_ok DeepEqual h (snd e)" "mset (concat (map snd m)) = mset pods"
    using BuildPodGroups_inv [OF assms] by (elim exE conjE) (rule that)
  have "map Pods groups = map snd m" by (auto simp: g)
  moreover have "list_all (\<lambda>e. group_ok DeepEqual h (snd e)) m" using m(2) by (simp add: list_all_iff)
  ultimately show ?thesis using m by (simp add: g list.pred_map comp_def case_prod_unfold group_ok_def list_all_iff)
qed

definition demo_object :: "string \<Rightarrow> string \<Rightarrow> nat \<Rightarrow> nat pod_object" where
  "demo_object uid app cpu = \<lparr>obj_pod = \<lparr>Pod_Name = [], Pod_Namespace = [], Pod_Labels = [], Pod_Annotations = None,
       ControllerOf = Some \<lparr>APIVersion = ''apps/v1'', Ref_Kind = ''ReplicaSet'', Ref_Name = uid\<rparr>, Pod_CreationTimestamp = 0,
       DeletionTimestamp = None, TerminationGracePeriodSeconds = None, RestartPolicy = ''Always'', Phase = ''Pending'', Volumes = []\<rparr>,
     obj_Labels = Some [(''app'', app)], Controller_UID = uid,
     Spec = \<lparr>Spec_Volumes = [], Containers = [\<lparr>Env = [7], VolumeMounts = [], c_rest = cpu\<rparr>], InitContainers = [], Hostname = [], spec_rest = 0\<rparr>\<rparr>"

definition demo_store :: "(nat, nat) pod_store" where
  "demo_store p = (if p = 0 then demo_object ''rs'' ''web'' 1 else if p = 1 then demo_object ''rs'' ''web'' 2 else demo_object ''rs'' ''web'' 1)"

lemma demo_groups:
  "fst (BuildPodGroups (=) [0, 1, 2] demo_store) =
     [\<lparr>Pods = [0, 2], SchedulingErrors = [], SchedulableGroups = [], Schedulable = False\<rparr>,
      \<lparr>Pods = [1], SchedulingErrors = [], SchedulableGroups = [], Schedulable = False\<rparr>]"
  by code_simp

theorem pod_groups_partition_witness:
  "mset (concat (map Pods (fst (BuildPodGroups (=) [0, 1, 2] demo_store)))) = mset [0, 1, 2] \<and>
   length (fst (BuildPodGroups (=) [0, 1, 2] demo_store)) = 2 \<and>
   Spec_Volumes (Spec (snd (BuildPodGroups (=) [0, 1, 2] demo_store) 0)) = []"
proof -
  obtain groups h' where b: "BuildPodGroups (=) [0, 1, 2] demo_store = (groups, h')" by (rule prod.exhaust)
  from pod_groups_partition [OF b] have "mset (concat (map Pods groups)) = mset [0, 1, 2]" "same_shape demo_store h'" by blast+
  moreover have "Spec_Volumes (Spec (h' 0)) = Spec_Volumes (Spec (demo_store 0))" using calculation(2) unfolding same_shape_def by blast
  moreover have "Spec_Volumes (Spec (demo_store 0)) = []" by (simp add: demo_store_def demo_object_def)
  moreover have "length groups = 2" using demo_groups b by simp
  ultimately show ?thesis by (simp add: b del: One_nat_def)
qed


lemma group_pod_keeps_erased: "no_environment (Spec (snd s x)) \<Longrightarrow> no_environment (Spec (snd (group_pod D p s) x))"
  using match_keeps_erased [of "snd s" x D _ p]
  by (auto simp: group_pod_def Let_def split: prod.splits option.splits) (metis snd_conv)+

lemma fold_group_pod_keeps_erased:
  "no_environment (Spec (snd s x)) \<Longrightarrow> no_environment (Spec (snd (fold (group_pod D) pods s) x))"
proof (induction pods arbitrary: s)
  case (Cons p pods)
  from group_pod_keeps_erased [OF Cons.prems] show ?case unfolding fold_simps by (rule Cons.IH)
qed simp

text \<open>
  Grouping writes to the pods. When two pods of one controller have the same labels, the environment
  of all containers of both pods is gone from the store afterwards, although the comparison is meant to
  work on copies: the copies share the container arrays with the pods.
\<close>

theorem grouping_erases_environment:
  assumes "owned h p" and "owned h q" and "Controller_UID (h q) = Controller_UID (h p)"
    and "labels_equal (obj_Labels (h q)) (obj_Labels (h p))"
  shows "no_environment (Spec (snd (BuildPodGroups DeepEqual (p # q # pods) h) p)) \<and>
    no_environment (Spec (snd (BuildPodGroups DeepEqual (p # q # pods) h) q))"
proof -
  define s0 :: "'a grouping" where "s0 = \<lparr>podEquivalenceGroups = [], equivalenceGroupsByController = [], nextGroupId = 0\<rparr>"
  have own: "ControllerRef (obj_pod (h p)) \<noteq> None" "\<not> IsDaemonSetPod (obj_pod (h p))"
      "ControllerRef (obj_pod (h q)) \<noteq> None" "\<not> IsDaemonSetPod (obj_pod (h q))"
    using assms by (simp_all add: owned_def)
  define s1 where "s1 = s0\<lparr>podEquivalenceGroups := [(0, [p])],
    equivalenceGroupsByController := [(Controller_UID (h p), [\<lparr>eg_id = 0, representant = p\<rparr>])], nextGroupId := 1\<rparr>"
  have 1: "group_pod DeepEqual p (s0, h) = (s1, h)"
    using own by (auto simp: group_pod_def s0_def s1_def Let_def gget_def maxEquivalenceGroupsByController_def)
  define c where "c = PodSpecSemanticallyEqual DeepEqual q p h"
  have "snd (match DeepEqual [\<lparr>eg_id = 0, representant = p\<rparr>] q h) = snd c"
    using assms(4) by (simp add: c_def split: prod.splits)
  then have 2: "snd (group_pod DeepEqual q (s1, h)) = snd c"
    using own assms(3) by (auto simp: group_pod_def s1_def s0_def Let_def gget_def split: prod.splits option.splits)
  have "snd (BuildPodGroups DeepEqual (p # q # pods) h) = snd (fold (group_pod DeepEqual) pods (group_pod DeepEqual q (s1, h)))"
    using 1 by (simp add: BuildPodGroups_def groupPodsBySchedulingProperties_def s0_def split: prod.splits)
  then show ?thesis
    using PodSpecSemanticallyEqual_erases(1,2) [where D = DeepEqual and p = q and q = p and h = h]
      fold_group_pod_keeps_erased [of "group_pod DeepEqual q (s1, h)" _ DeepEqual pods] 2 by (simp add: c_def)
qed

theorem grouping_erases_environment_witness:
  "\<not> no_environment (Spec (demo_store 0)) \<and>
   no_environment (Spec (snd (BuildPodGroups (\<lambda>_ _. False) [0, 1] demo_store) 0))"
proof -
  have "owned demo_store 0" "owned demo_store 1" "Controller_UID (demo_store 1) = Controller_UID (demo_store 0)"
      "labels_equal (obj_Labels (demo_store 1)) (obj_Labels (demo_store 0))"
    by code_simp+
  from grouping_erases_environment [OF this, of "\<lambda>_ _. False" "[]"]
  have "no_environment (Spec (snd (BuildPodGroups (\<lambda>_ _. False) [0, 1] demo_store) 0))" by (rule conjunct1)
  moreover have "\<not> no_environment (Spec (demo_store 0))" by code_simp
  ultimately show ?thesis by (intro conjI)
qed

end
