(* ===== verification/Autoscaler_Errors.thy ===== *)
theory Autoscaler_Errors
  imports Cloud_Provider "HOL-Library.List_Lexorder" "HOL-Library.Char_ord" "HOL-Library.Product_Lexorder"
begin

text \<open>
  Errors of the autoscaler (src/pkg/utils/errors/errors.go). An error is either foreign (\<open>PlainError\<close>, with
  the identity of the pointer and its text) or a value of \<open>autoscalerErrorImpl\<close>, which may wrap another
  error; Go compares the latter field by field, as equality of the datatype does. \<open>quote\<close> is the \<open>%q\<close> verb.
\<close>

datatype go_error = PlainError nat string | autoscalerErrorImpl string "go_error option" string

definition CloudProviderError :: string where "CloudProviderError = ''cloudProviderError''"
definition InternalError :: string where "InternalError = ''internalError''"
definition TransientError :: string where "TransientError = ''transientError''"

fun Error :: "go_error \<Rightarrow> string" where
  "Error (PlainError _ text) = text"
| "Error (autoscalerErrorImpl _ wrapped msg) = msg @ (case wrapped of None \<Rightarrow> [] | Some e \<Rightarrow> Error e)"

fun Type :: "go_error \<Rightarrow> string" where
  "Type (autoscalerErrorImpl errorType _ _) = errorType"
| "Type (PlainError _ _) = []"

definition NewAutoscalerError :: "string \<Rightarrow> string \<Rightarrow> go_error" where
  "NewAutoscalerError errorType msg = autoscalerErrorImpl errorType None msg"

text \<open>A foreign error is wrapped, an autoscaler error is returned as it is.\<close>

fun ToAutoscalerError :: "string \<Rightarrow> go_error \<Rightarrow> go_error" where
  "ToAutoscalerError defaultType (autoscalerErrorImpl t w m) = autoscalerErrorImpl t w m"
| "ToAutoscalerError defaultType (PlainError i text) = autoscalerErrorImpl defaultType (Some (PlainError i text)) []"

definition AddPrefix :: "string \<Rightarrow> go_error \<Rightarrow> go_error" where
  "AddPrefix msg e = autoscalerErrorImpl (Type e) (Some e) msg"

text \<open>
  \<open>formatMessageFromErrors\<close>: the loop over the sorted errors keeps the set of errors already written.
\<close>

fun format_errors :: "(string \<Rightarrow> string) \<Rightarrow> bool \<Rightarrow> go_error list \<Rightarrow> (go_error, bool) gmap \<Rightarrow> string" where
  "format_errors quote printErrorTypes [] formattedErrs = []"
| "format_errors quote printErrorTypes (err # errs) formattedErrs =
     (if ghas formattedErrs err then format_errors quote printErrorTypes errs formattedErrs
      else (let formattedErrs = gput err True formattedErrs;
                message = (if printErrorTypes then ''['' @ Type err @ ''] '' @ Error err else Error err)
            in (if length formattedErrs > 2 then '', '' else []) @ quote message @ format_errors quote printErrorTypes errs formattedErrs))"

definition formatMessageFromErrors :: "(string \<Rightarrow> string) \<Rightarrow> go_error list \<Rightarrow> bool \<Rightarrow> string" where
  "formatMessageFromErrors quote errs printErrorTypes =
     Error (errs ! 0) @ '' ...and other errors: ['' @ format_errors quote printErrorTypes errs [(errs ! 0, True)] @ '']''"

text \<open>
  \<open>sort.Slice\<close> is not stable: the order of errors with the same type and text is a parameter (\<open>tie\<close>,
  a permutation applied before the stable sort).
\<close>

definition Combine :: "(string \<Rightarrow> string) \<Rightarrow> (go_error list \<Rightarrow> go_error list) \<Rightarrow> go_error list \<Rightarrow> go_error option" where
  "Combine quote tie errs =
     (if length errs = 0 then None
      else if length errs = 1 then Some (errs ! 0)
      else (let uniqueTypes = remdups (map Type errs); uniqueMessages = remdups (map Error errs)
            in if length uniqueTypes = 1 \<and> length uniqueMessages = 1 then Some (errs ! 0)
               else (let errs = sort_key (\<lambda>e. (Type e, Error e)) (tie errs)
                     in Some (NewAutoscalerError (Type (errs ! 0)) (formatMessageFromErrors quote errs (length uniqueTypes > 1))))))"

text \<open>Errors of other components.\<close>

definition ErrNotImplemented_value :: go_error where
  "ErrNotImplemented_value = NewAutoscalerError InternalError ''Not implemented''"

fun cp_error_text :: "cp_error \<Rightarrow> string" where
  "cp_error_text ErrNotImplemented = ''Not implemented''"
| "cp_error_text (ProviderError text) = text"

lemma Type_AddPrefix [simp]: "Type (AddPrefix msg e) = Type e"
  by (simp add: AddPrefix_def)

lemma Error_AddPrefix [simp]: "Error (AddPrefix msg e) = msg @ Error e"
  by (simp add: AddPrefix_def)

lemma ToAutoscalerError_text [simp]: "Error (ToAutoscalerError t e) = Error e"
  by (cases e) auto

text \<open>
  Combining errors returns an error whenever there is one, and its type is one of theirs: the least.
\<close>

lemma Combine_None_iff: "Combine quote tie errs = None \<longleftrightarrow> errs = []"
  by (simp add: Combine_def Let_def)

lemma Combine_cases:
  assumes "Combine quote tie errs = Some e"
  shows "errs \<noteq> [] \<and> (e = errs ! 0 \<or> Type e = Type (sort_key (\<lambda>e. (Type e, Error e)) (tie errs) ! 0))"
  using assms by (simp add: Combine_def Let_def NewAutoscalerError_def split: if_splits) auto

lemma Combine_type:
  assumes "Combine quote tie errs = Some e" and "\<forall>xs. set (tie xs) = set xs"
  shows "Type e \<in> Type ` set errs"
proof -
  define s where "s = sort_key (\<lambda>e. (Type e, Error e)) (tie errs)"
  have e: "errs \<noteq> []" "e = errs ! 0 \<or> Type e = Type (s ! 0)" using Combine_cases [OF assms(1)] by (simp_all add: s_def)
  have set: "set s = set errs" using assms(2) by (simp add: s_def)
  then have "s \<noteq> []" using e(1) by auto
  then have "s ! 0 \<in> set errs" unfolding set [symmetric] by simp
  moreover have "errs ! 0 \<in> set errs" using e(1) by simp
  ultimately show ?thesis using e(2) by auto
qed

end
