(* ===== verification/Scale_Up_Plan.thy ===== *)
theory Scale_Up_Plan
  imports Cluster_State Pod_Groups Autoscaler_Errors Balancing "HOL-Library.Monad_Syntax"
begin

text \<open>
  Planning a scale-up (src/pkg/core/scaleup/orchestrator/orchestrator.go): which node groups are considered,
  what each of them would need, which option is taken, how many nodes the limits leave, and how they are
  spread over similar node groups.

  What the orchestrator calls and does not own is the record \<open>su_env\<close>: the services of the cluster state
  registry with the cloud provider, whose answers may depend on the calls made so far (\<open>answers\<close>); the
  answers of the forked snapshot, which \<open>Revert\<close> restores after every simulation; the estimator, the
  expander, the binpacking limiter and the node group manager, which are interfaces of the source. A nil
  pointer dereference or an index out of range is \<open>None\<close>. Events, metrics and logs are left out.
\<close>

section \<open>Data\<close>

datatype 'g call = Call_IncreaseSize 'g int | Call_AtomicIncreaseSize 'g int | Call_CreateNodeGroup 'g

record AutoscalingOptions =
  MaxNodesTotal :: int
  BalanceSimilarNodeGroups :: bool
  ParallelScaleUp :: bool
  AsyncNodeGroupsEnabled :: bool
  ScaleUpSimulationForSkippedNodeGroupsEnabled :: bool

record ('g, 'p) Option =
  Option_NodeGroup :: 'g
  SimilarNodeGroups :: "'g list"
  NodeCount :: int
  Option_Pods :: "'p list"

record 'g CreateNodeGroupResult =
  MainCreatedNodeGroup :: 'g
  ExtraCreatedNodeGroups :: "'g list"

definition AllCreatedNodeGroups :: "'g CreateNodeGroupResult \<Rightarrow> 'g list" where
  "AllCreatedNodeGroups r = MainCreatedNodeGroup r # ExtraCreatedNodeGroups r"

datatype ScaleUpResult = ScaleUpSuccessful | ScaleUpError_result | ScaleUpNoOptionsAvailable | ScaleUpNotNeeded
  | ScaleUpNotTried | ScaleUpInCooldown | ScaleUpLimitedByMaxNodesTotal

record ('g, 'p) ScaleUpStatus =
  Result :: ScaleUpResult
  ScaleUpError :: "go_error option"
  ScaleUpInfos :: "'g ScaleUpInfo list"
  PodsTriggeredScaleUp :: "'p list"
  PodsRemainUnschedulable :: "'p NoScaleUpInfo list"
  PodsAwaitEvaluation :: "'p list"
  CreateNodeGroupResults :: "'g CreateNodeGroupResult list"
  ConsideredNodeGroups :: "'g list"
  FailedCreationNodeGroups :: "'g list"
  FailedResizeNodeGroups :: "'g list"

definition zero_ScaleUpStatus :: "('g, 'p) ScaleUpStatus" where
  "zero_ScaleUpStatus = \<lparr>Result = ScaleUpSuccessful, ScaleUpError = None, ScaleUpInfos = [], PodsTriggeredScaleUp = [],
     PodsRemainUnschedulable = [], PodsAwaitEvaluation = [], CreateNodeGroupResults = [], ConsideredNodeGroups = [],
     FailedCreationNodeGroups = [], FailedResizeNodeGroups = []\<rparr>"

definition WasSuccessful :: "('g, 'p) ScaleUpStatus \<Rightarrow> bool" where
  "WasSuccessful s \<longleftrightarrow> Result s = ScaleUpSuccessful"

definition UpdateScaleUpError :: "('g, 'p) ScaleUpStatus \<Rightarrow> go_error \<Rightarrow> ('g, 'p) ScaleUpStatus \<times> go_error option" where
  "UpdateScaleUpError s err = (s\<lparr>ScaleUpError := Some err, Result := ScaleUpError_result\<rparr>, Some err)"

text \<open>
  The environment. \<open>'i\<close> are template node infos, \<open>'p\<close> pods. \<open>GetOptions\<close> is what the group's options say about
  \<open>ZeroOrMaxNodeScaling\<close> (\<open>None\<close>: nil options); an error is only logged.
\<close>

record ('g, 'i, 'p) su_env =
  options :: AutoscalingOptions
  answers :: "'g call list \<Rightarrow> 'g csr_env"
  Exist :: "'g call list \<Rightarrow> 'g \<Rightarrow> bool"
  GetOptions :: "'g \<Rightarrow> bool option"
  quota_services :: "'g quota_env"
  quota_provider :: quotas_provider
  info_node :: "'i \<Rightarrow> node"
  similar_infos :: "'i \<Rightarrow> 'i \<Rightarrow> bool"
  sort_infos :: "'g ScaleUpInfo list \<Rightarrow> 'g ScaleUpInfo list"
  AddNodeInfo_fails :: "'i \<Rightarrow> bool"
  CheckPredicates :: "'i \<Rightarrow> 'p \<Rightarrow> reasons option"
  Estimate :: "'g list \<Rightarrow> int \<Rightarrow> 'p PodEquivalenceGroup list \<Rightarrow> 'i \<Rightarrow> 'g \<Rightarrow> int \<times> 'p list"
  BestOption :: "('g, 'p) Option list \<Rightarrow> (string, 'i) gmap \<Rightarrow> ('g, 'p) Option option"
  StopBinpacking :: "string list \<Rightarrow> ('g, 'p) Option list \<Rightarrow> bool"
  NodeGroupListProcessor :: "('g list \<Rightarrow> (string, 'i) gmap \<Rightarrow> 'p list \<Rightarrow> go_error + 'g list \<times> (string, 'i) gmap) option"
  CreateGroup :: "bool \<Rightarrow> 'g call list \<Rightarrow> 'g \<Rightarrow> go_error + 'g CreateNodeGroupResult"
  SanitizedTemplate :: "'g \<Rightarrow> go_error + 'i"
  IncreaseSize :: "'g call list \<Rightarrow> 'g \<Rightarrow> int \<Rightarrow> go_error option"
  AtomicIncreaseSize :: "'g call list \<Rightarrow> 'g \<Rightarrow> int \<Rightarrow> go_error option"
  Now :: "'g call list \<Rightarrow> time"
  quote :: "string \<Rightarrow> string"

abbreviation provider :: "('g, 'i, 'p) su_env \<Rightarrow> 'g call list \<Rightarrow> 'g cloud_provider" where
  "provider U calls \<equiv> cloudProvider (answers U calls)"

definition quotas_at :: "('g, 'i, 'p) su_env \<Rightarrow> 'g call list \<Rightarrow> 'g quota_env" where
  "quotas_at U calls = (quota_services U)\<lparr>qe_provider := provider U calls\<rparr>"

definition zero_or_max :: "('g, 'i, 'p) su_env \<Rightarrow> 'g \<Rightarrow> bool" where
  "zero_or_max U nodeGroup = (case GetOptions U nodeGroup of None \<Rightarrow> False | Some b \<Rightarrow> b)"

text \<open>The texts of quota and balancing errors.\<close>

fun quota_error_value :: "(string \<Rightarrow> string) \<Rightarrow> quota_error \<Rightarrow> go_error" where
  "quota_error_value q ErrNegativeDelta = PlainError 0 ''negative nodeDelta received''"
| "quota_error_value q (CustomResourcesError text) = PlainError 0 (''failed to get custom resources: '' @ text)"
| "quota_error_value q (NodeGroupError name err) =
     PlainError 0 (''failed to get node group for node '' @ q name @ '': '' @ cp_error_text err)"
| "quota_error_value q (LimiterError ErrNotImplemented) = ErrNotImplemented_value"
| "quota_error_value q (LimiterError (ProviderError text)) = PlainError 0 text"

fun balance_error_value :: "balance_error \<Rightarrow> go_error" where
  "balance_error_value ZeroGroups = NewAutoscalerError InternalError ''Can't balance scale up between 0 groups''"
| "balance_error_value (NodeGroupSizeError err) = NewAutoscalerError CloudProviderError (''failed to get node group size: '' @ cp_error_text err)"
| "balance_error_value (NoTemplate i) = NewAutoscalerError InternalError (''failed to find template node for node group '' @ i)"

section \<open>Which groups may grow\<close>

definition IsNodeGroupReadyToScaleUp :: "('g, 'i, 'p) su_env \<Rightarrow> 'g call list \<Rightarrow> 'g \<Rightarrow> time \<Rightarrow> 'g ClusterStateRegistry \<Rightarrow> reasons option" where
  "IsNodeGroupReadyToScaleUp U calls nodeGroup now csr =
     (if \<not> Exist U calls nodeGroup then None
      else (let scaleUpSafety = NodeGroupScaleUpSafety (answers U calls) nodeGroup now csr in
        if \<not> SafeToScale scaleUpSafety then
          if \<not> Healthy scaleUpSafety then Some NotReadyReason else Some BackoffReason
        else None))"

definition IsNodeGroupResourceExceeded :: "('g, 'i, 'p) su_env \<Rightarrow> 'g call list \<Rightarrow> 'g \<Rightarrow> 'i \<Rightarrow> int \<Rightarrow> Tracker \<Rightarrow>
    reasons option \<times> Tracker" where
  "IsNodeGroupResourceExceeded U calls nodeGroup nodeInfo numNodes tracker =
     (case CheckQuota (quotas_at U calls) (Some nodeGroup) (info_node U nodeInfo) numNodes tracker of
        (Inl err, t) \<Rightarrow> (Some NotReadyReason, t)
      | (Inr checkResult, t) \<Rightarrow>
          if Exceeded checkResult then (Some (NewMaxResourceLimitReached (quote U) (ExceededQuotas checkResult)), t) else (None, t))"

fun filterValidScaleUpNodeGroups :: "('g, 'i, 'p) su_env \<Rightarrow> 'g call list \<Rightarrow> (string, 'i) gmap \<Rightarrow> int \<Rightarrow> time \<Rightarrow> 'g ClusterStateRegistry \<Rightarrow>
    'g list \<Rightarrow> 'g list \<Rightarrow> (string, reasons) gmap \<Rightarrow> Tracker \<Rightarrow> 'g list \<times> (string, reasons) gmap \<times> Tracker" where
  "filterValidScaleUpNodeGroups U calls nodeInfos currentNodeCount now csr [] valid skipped tracker = (valid, skipped, tracker)"
| "filterValidScaleUpNodeGroups U calls nodeInfos currentNodeCount now csr (nodeGroup # nodeGroups) valid skipped tracker =
     (let gid = Id (provider U calls) nodeGroup;
          skip = (\<lambda>reason t. filterValidScaleUpNodeGroups U calls nodeInfos currentNodeCount now csr nodeGroups valid (gput gid reason skipped) t) in
      case IsNodeGroupReadyToScaleUp U calls nodeGroup now csr of
        Some skipReason \<Rightarrow> skip skipReason tracker
      | None \<Rightarrow> (case TargetSize (provider U calls) nodeGroup of
          (_, Some err) \<Rightarrow> skip NotReadyReason tracker
        | (currentTargetSize, None) \<Rightarrow>
            if currentTargetSize \<ge> MaxSize (provider U calls) nodeGroup then skip MaxLimitReachedReason tracker
            else (let numNodes = (if zero_or_max U nodeGroup then MaxSize (provider U calls) nodeGroup - currentTargetSize else 1) in
              if zero_or_max U nodeGroup \<and> MaxNodesTotal (options U) \<noteq> 0 \<and> currentNodeCount + numNodes > MaxNodesTotal (options U)
              then skip (NewSkippedReasons ''atomic scale-up exceeds cluster node count limit'') tracker
              else case map_of nodeInfos gid of
                  None \<Rightarrow> skip NotReadyReason tracker
                | Some nodeInfo \<Rightarrow> (case IsNodeGroupResourceExceeded U calls nodeGroup nodeInfo numNodes tracker of
                    (Some skipReason, t) \<Rightarrow> skip skipReason t
                  | (None, t) \<Rightarrow> filterValidScaleUpNodeGroups U calls nodeInfos currentNodeCount now csr nodeGroups
                      (valid @ [nodeGroup]) skipped t))))"

definition UpcomingNodes :: "('g, 'i, 'p) su_env \<Rightarrow> 'g call list \<Rightarrow> (string, 'i) gmap \<Rightarrow> 'g ClusterStateRegistry \<Rightarrow> go_error + 'i list" where
  "UpcomingNodes U calls nodeInfos csr =
     foldl (\<lambda>res (gid, numberOfNodes). case res of Inl err \<Rightarrow> Inl err
       | Inr upcomingNodes \<Rightarrow> (case map_of nodeInfos gid of
           None \<Rightarrow> Inl (NewAutoscalerError InternalError (''failed to find template node for node group '' @ gid))
         | Some nodeTemplate \<Rightarrow> Inr (upcomingNodes @ replicate (nat numberOfNodes) nodeTemplate)))
       (Inr []) (fst (GetUpcomingNodes (answers U calls) (Now U calls) csr))"


section \<open>What a group would need\<close>

text \<open>
  \<open>SchedulablePodGroups\<close>: the pod groups whose sample pod passes the predicates on a new node of the group.
  An empty group has no sample pod (index out of range).
\<close>

fun schedulable_loop :: "('g, 'i, 'p) su_env \<Rightarrow> 'i \<Rightarrow> string \<Rightarrow> 'p PodGroup list \<Rightarrow> ('p PodEquivalenceGroup list \<times> 'p PodGroup list) option" where
  "schedulable_loop U nodeInfo gid [] = Some ([], [])"
| "schedulable_loop U nodeInfo gid (eg # egs) =
     (case Pods eg of
        [] \<Rightarrow> None
      | samplePod # _ \<Rightarrow> map_option (\<lambda>(schedulable, egs').
          (case CheckPredicates U nodeInfo samplePod of
             None \<Rightarrow> (Pods eg # schedulable, eg\<lparr>Schedulable := True, SchedulableGroups := SchedulableGroups eg @ [gid]\<rparr> # egs')
           | Some err \<Rightarrow> (schedulable, eg\<lparr>SchedulingErrors := gput gid err (SchedulingErrors eg)\<rparr> # egs')))
          (schedulable_loop U nodeInfo gid egs))"

definition SchedulablePodGroups :: "('g, 'i, 'p) su_env \<Rightarrow> 'g call list \<Rightarrow> 'g \<Rightarrow> 'i \<Rightarrow> 'p PodGroup list \<Rightarrow>
    ('p PodEquivalenceGroup list \<times> 'p PodGroup list) option" where
  "SchedulablePodGroups U calls nodeGroup nodeInfo egs =
     (if AddNodeInfo_fails U nodeInfo then Some ([], egs) else schedulable_loop U nodeInfo (Id (provider U calls) nodeGroup) egs)"

definition ComputeSimilarNodeGroups :: "('g, 'i, 'p) su_env \<Rightarrow> 'g call list \<Rightarrow> 'g \<Rightarrow> (string, 'i) gmap \<Rightarrow>
    (string, 'p PodEquivalenceGroup list) gmap \<Rightarrow> time \<Rightarrow> 'g ClusterStateRegistry \<Rightarrow> 'g list" where
  "ComputeSimilarNodeGroups U calls nodeGroup nodeInfos schedulablePodGroups now csr =
     (if \<not> BalanceSimilarNodeGroups (options U) then []
      else if zero_or_max U nodeGroup then []
      else case map_of schedulablePodGroups (Id (provider U calls) nodeGroup) of
          None \<Rightarrow> []
        | Some podGroups \<Rightarrow>
            if length podGroups = 0 then []
            else (case FindSimilarNodeGroups (provider U calls) (similar_infos U) nodeGroup nodeInfos of
                Inl err \<Rightarrow> []
              | Inr similarNodeGroups \<Rightarrow> filter (\<lambda>ng.
                  if Exist U calls ng \<and> \<not> SafeToScale (NodeGroupScaleUpSafety (answers U calls) ng now csr) then False
                  else case map_of schedulablePodGroups (Id (provider U calls) ng) of
                      None \<Rightarrow> False
                    | Some similarPodGroups \<Rightarrow> matchingSchedulablePodGroups podGroups similarPodGroups) similarNodeGroups))"

text \<open>The template of a considered group exists (\<open>filterValidScaleUpNodeGroups\<close>); a nil template is \<open>None\<close>.\<close>

definition ComputeExpansionOption :: "('g, 'i, 'p) su_env \<Rightarrow> 'g call list \<Rightarrow> 'g \<Rightarrow> (string, 'p PodEquivalenceGroup list) gmap \<Rightarrow>
    (string, 'i) gmap \<Rightarrow> int \<Rightarrow> time \<Rightarrow> bool \<Rightarrow> 'g ClusterStateRegistry \<Rightarrow> ('g, 'p) Option option" where
  "ComputeExpansionOption U calls nodeGroup schedulablePodGroups nodeInfos currentNodeCount now allOrNothing csr =
     (let option = \<lparr>Option_NodeGroup = nodeGroup, SimilarNodeGroups = [], NodeCount = 0, Option_Pods = []\<rparr>;
          podGroups = gget [] schedulablePodGroups (Id (provider U calls) nodeGroup) in
      if length podGroups = 0 then Some option
      else map_option (\<lambda>nodeInfo.
        let similar = ComputeSimilarNodeGroups U calls nodeGroup nodeInfos schedulablePodGroups now csr;
            (nodeCount, pods) = Estimate U similar currentNodeCount podGroups nodeInfo nodeGroup;
            option = option\<lparr>SimilarNodeGroups := similar, NodeCount := nodeCount, Option_Pods := pods\<rparr> in
        if zero_or_max U nodeGroup then
          (let option = (if allOrNothing \<and> NodeCount option > MaxSize (provider U calls) nodeGroup
                         then option\<lparr>Option_Pods := [], NodeCount := 0\<rparr> else option)
           in if NodeCount option > 0 then option\<lparr>NodeCount := MaxSize (provider U calls) nodeGroup\<rparr> else option)
        else option) (map_of nodeInfos (Id (provider U calls) nodeGroup)))"

section \<open>Pods that remain\<close>

fun simulate_skipped :: "('g, 'i, 'p) su_env \<Rightarrow> 'g call list \<Rightarrow> (string, reasons) gmap \<Rightarrow> (string, 'i) gmap \<Rightarrow> 'g list \<Rightarrow> 'p PodGroup list \<Rightarrow>
    'p PodGroup list option" where
  "simulate_skipped U calls skipped nodeInfos [] egs = Some egs"
| "simulate_skipped U calls skipped nodeInfos (nodeGroup # nodeGroups) egs =
     (let gid = Id (provider U calls) nodeGroup in
      if \<not> ghas skipped gid then simulate_skipped U calls skipped nodeInfos nodeGroups egs
      else case map_of nodeInfos gid of
          None \<Rightarrow> simulate_skipped U calls skipped nodeInfos nodeGroups egs
        | Some nodeInfo \<Rightarrow> Option.bind (SchedulablePodGroups U calls nodeGroup nodeInfo egs)
            (\<lambda>(_, egs'). simulate_skipped U calls skipped nodeInfos nodeGroups egs'))"

definition getRemainingPodsConsideringSkippedNodeGroups :: "('g, 'i, 'p) su_env \<Rightarrow> 'g call list \<Rightarrow> 'p PodGroup list \<Rightarrow> 'g list \<Rightarrow>
    (string, reasons) gmap \<Rightarrow> (string, 'i) gmap \<Rightarrow> 'p NoScaleUpInfo list option" where
  "getRemainingPodsConsideringSkippedNodeGroups U calls egs nodeGroups skipped nodeInfos =
     map_option (\<lambda>egs'. concat (map (\<lambda>eg. map (\<lambda>pod. \<lparr>NoScaleUp_Pod = pod, RejectedNodeGroups = SchedulingErrors eg,
         SkippedNodeGroups = findSkippedNodeGroupsSatisfyingPodPredicates eg skipped\<rparr>) (Pods eg)) egs'))
       (simulate_skipped U calls skipped nodeInfos nodeGroups egs)"

definition GetRemainingPods :: "('g, 'i, 'p) su_env \<Rightarrow> 'g call list \<Rightarrow> 'p PodGroup list \<Rightarrow> 'g list \<Rightarrow> (string, reasons) gmap \<Rightarrow>
    (string, 'i) gmap \<Rightarrow> 'p NoScaleUpInfo list option" where
  "GetRemainingPods U calls egs nodeGroups skipped nodeInfos =
     (let unschedulable = filter (\<lambda>eg. \<not> Schedulable eg) egs in
      if \<not> ScaleUpSimulationForSkippedNodeGroupsEnabled (options U) then
        Some (concat (map (\<lambda>eg. map (\<lambda>pod. \<lparr>NoScaleUp_Pod = pod, RejectedNodeGroups = SchedulingErrors eg,
          SkippedNodeGroups = skipped\<rparr>) (Pods eg)) unschedulable))
      else getRemainingPodsConsideringSkippedNodeGroups U calls (map Clone unschedulable) nodeGroups skipped nodeInfos)"

section \<open>Limits\<close>

definition GetCappedNewNodeCount :: "('g, 'i, 'p) su_env \<Rightarrow> int \<Rightarrow> int \<Rightarrow> int \<times> go_error option" where
  "GetCappedNewNodeCount U newNodeCount currentNodeCount =
     (let maxNodesTotal = MaxNodesTotal (options U) in
      if maxNodesTotal > 0 \<and> newNodeCount + currentNodeCount > maxNodesTotal then
        (let newNodeCount = maxNodesTotal - currentNodeCount in
         if newNodeCount < 1 then (newNodeCount, Some (NewAutoscalerError TransientError ''max node total count already reached''))
         else (newNodeCount, None))
      else (newNodeCount, None))"

definition applyLimits :: "('g, 'i, 'p) su_env \<Rightarrow> 'g call list \<Rightarrow> int \<Rightarrow> 'g \<Rightarrow> (string, 'i) gmap \<Rightarrow> Tracker \<Rightarrow> (go_error + int) \<times> Tracker" where
  "applyLimits U calls newNodes nodeGroup nodeInfos tracker =
     (case map_of nodeInfos (Id (provider U calls) nodeGroup) of
        None \<Rightarrow> (Inl (NewAutoscalerError CloudProviderError ''No node info for best expansion option!''), tracker)
      | Some nodeInfo \<Rightarrow>
          (case CheckQuota (quotas_at U calls) (Some nodeGroup) (info_node U nodeInfo) newNodes tracker of
             (Inl err, t) \<Rightarrow> (Inl (AddPrefix ''failed to check resource quotas: ''
                (ToAutoscalerError InternalError (quota_error_value (quote U) err))), t)
           | (Inr checkResult, t) \<Rightarrow> (Inr (AllowedDelta checkResult), t)))"

fun cap_loop :: "('g, 'i, 'p) su_env \<Rightarrow> 'g call list \<Rightarrow> (string, 'i) gmap \<Rightarrow> 'g ScaleUpInfo list \<Rightarrow> Tracker \<Rightarrow> 'g ScaleUpInfo list \<times> Tracker" where
  "cap_loop U calls nodeInfos [] tracker = ([], tracker)"
| "cap_loop U calls nodeInfos (sui # infos) tracker =
     (let delta = NewSize sui - CurrentSize sui;
          keep = (\<lambda>sui t. let (infos', t') = cap_loop U calls nodeInfos infos t in (sui # infos', t')) in
      if delta \<le> 0 then keep sui tracker
      else case map_of nodeInfos (Id (provider U calls) (su_Group sui)) of
          None \<Rightarrow> keep sui tracker
        | Some nodeInfo \<Rightarrow>
            (case CheckQuota (quotas_at U calls) (Some (su_Group sui)) (info_node U nodeInfo) delta tracker of
               (Inl err, t) \<Rightarrow> keep sui t
             | (Inr checkResult, t) \<Rightarrow>
                 (let allowedDelta = AllowedDelta checkResult;
                      sui = (if allowedDelta < delta then sui\<lparr>NewSize := CurrentSize sui + allowedDelta\<rparr> else sui);
                      t' = (if allowedDelta > 0
                            then snd (ConsumeQuota (quotas_at U calls) (Some (su_Group sui)) (info_node U nodeInfo) allowedDelta t) else t)
                  in keep sui t')))"

definition capScaleUpsByQuota :: "('g, 'i, 'p) su_env \<Rightarrow> 'g call list \<Rightarrow> 'g ScaleUpInfo list \<Rightarrow> (string, 'i) gmap \<Rightarrow> Tracker \<Rightarrow>
    'g ScaleUpInfo list \<times> Tracker" where
  "capScaleUpsByQuota U calls scaleUpInfos nodeInfos tracker =
     (let (infos, t) = cap_loop U calls nodeInfos scaleUpInfos tracker in (filter (\<lambda>sui. NewSize sui \<noteq> CurrentSize sui) infos, t))"

text \<open>Similar groups that exceed their quota, or have no template, are left out.\<close>

fun quota_valid_groups :: "('g, 'i, 'p) su_env \<Rightarrow> 'g call list \<Rightarrow> (string, 'i) gmap \<Rightarrow> 'g list \<Rightarrow> Tracker \<Rightarrow> 'g list \<times> Tracker" where
  "quota_valid_groups U calls nodeInfos [] tracker = ([], tracker)"
| "quota_valid_groups U calls nodeInfos (ng # groups) tracker =
     (case map_of nodeInfos (Id (provider U calls) ng) of
        None \<Rightarrow> quota_valid_groups U calls nodeInfos groups tracker
      | Some nodeInfo \<Rightarrow>
          (case IsNodeGroupResourceExceeded U calls ng nodeInfo 1 tracker of
             (Some skipReason, t) \<Rightarrow> quota_valid_groups U calls nodeInfos groups t
           | (None, t) \<Rightarrow> (let (gs, t') = quota_valid_groups U calls nodeInfos groups t in (ng # gs, t'))))"

definition balanceScaleUps :: "('g, 'i, 'p) su_env \<Rightarrow> 'g call list \<Rightarrow> time \<Rightarrow> 'g \<Rightarrow> int \<Rightarrow> (string, 'i) gmap \<Rightarrow>
    (string, 'p PodEquivalenceGroup list) gmap \<Rightarrow> 'g ClusterStateRegistry \<Rightarrow> Tracker \<Rightarrow> ((go_error + 'g ScaleUpInfo list) \<times> Tracker) option" where
  "balanceScaleUps U calls now nodeGroup newNodes nodeInfos schedulablePodGroups csr tracker =
     (let similarNodeGroups = ComputeSimilarNodeGroups U calls nodeGroup nodeInfos schedulablePodGroups now csr;
          (quotaValidGroups, t) = quota_valid_groups U calls nodeInfos similarNodeGroups tracker in
      map_option (\<lambda>res. case res of
          Inl err \<Rightarrow> (Inl (balance_error_value err), t)
        | Inr scaleUpInfos \<Rightarrow> (let (infos, t') = capScaleUpsByQuota U calls scaleUpInfos nodeInfos t in (Inr infos, t')))
        (BalanceScaleUpBetweenGroups (sort_infos U) (provider U calls) (nodeGroup # quotaValidGroups) newNodes))"


section \<open>Creating a node group\<close>

text \<open>What the operation changes: pod groups, templates, schedulable pods, quotas, the registry and the provider.\<close>

record ('g, 'i, 'p) su_state =
  st_egs :: "'p PodGroup list"
  st_infos :: "(string, 'i) gmap"
  st_schedulable :: "(string, 'p PodEquivalenceGroup list) gmap"
  st_tracker :: Tracker
  st_csr :: "'g ClusterStateRegistry"
  st_calls :: "'g call list"

type_synonym ('g, 'p) outcome = "('g, 'p) ScaleUpStatus \<times> go_error option"

fun extra_groups :: "('g, 'i, 'p) su_env \<Rightarrow> 'g list \<Rightarrow> ('g, 'i, 'p) su_state \<Rightarrow> ('g, 'i, 'p) su_state option" where
  "extra_groups U [] st = Some st"
| "extra_groups U (nodeGroup # groups) st =
     (case SanitizedTemplate U nodeGroup of
        Inl aErr \<Rightarrow> extra_groups U groups st
      | Inr nodeInfo \<Rightarrow> do {
          let gid = Id (provider U (st_calls st)) nodeGroup;
          (schedulable, egs) \<leftarrow> SchedulablePodGroups U (st_calls st) nodeGroup nodeInfo (st_egs st);
          extra_groups U groups (st\<lparr>st_infos := gput gid nodeInfo (st_infos st), st_egs := egs,
            st_schedulable := gput gid schedulable (st_schedulable st)\<rparr>)
        })"

text \<open>
  The template of the initial option exists: \<open>applyLimits\<close> has read it. The result carries the initial option
  with its node group replaced by the created one.
\<close>

definition processCreateNodeGroupResult :: "('g, 'i, 'p) su_env \<Rightarrow> ('g, 'p) Option \<Rightarrow> string \<Rightarrow> go_error + 'g CreateNodeGroupResult \<Rightarrow>
    ('g, 'i, 'p) su_state \<Rightarrow> ((('g, 'p) outcome + 'g CreateNodeGroupResult list) \<times> ('g, 'p) Option \<times> ('g, 'i, 'p) su_state) option" where
  "processCreateNodeGroupResult U initialOption initialOptionId result st =
     (case result of
        Inl aErr \<Rightarrow> Some (Inl (UpdateScaleUpError (zero_ScaleUpStatus\<lparr>FailedCreationNodeGroups := [Option_NodeGroup initialOption],
            PodsTriggeredScaleUp := Option_Pods initialOption\<rparr>) aErr), initialOption, st)
      | Inr res \<Rightarrow> do {
          let main = MainCreatedNodeGroup res;
          let newId = Id (provider U (st_calls st)) main;
          fallback \<leftarrow> map_of (st_infos st) initialOptionId;
          let template = SanitizedTemplate U main;
          let nodeInfo = (case template of Inl _ \<Rightarrow> fallback | Inr info \<Rightarrow> info);
          let st1 = st\<lparr>st_infos := gput newId nodeInfo (st_infos st),
            st_schedulable := gput newId (gget [] (st_schedulable st) initialOptionId) (st_schedulable st)\<rparr>;
          st2 \<leftarrow> (if \<not> isl template \<and> length (ExtraCreatedNodeGroups res) > 0 then do {
              (schedulable, egs) \<leftarrow> SchedulablePodGroups U (st_calls st) main nodeInfo (deletePodEquivalenceGroupsId (st_egs st1) initialOptionId);
              Some (st1\<lparr>st_egs := egs, st_schedulable := gput newId schedulable (st_schedulable st1)\<rparr>)
            } else Some (st1\<lparr>st_egs := patchPodEquivalenceGroupsId (st_egs st1) initialOptionId newId\<rparr>));
          let st3 = (if initialOptionId \<noteq> newId then
              st2\<lparr>st_infos := gdel initialOptionId (st_infos st2), st_schedulable := gdel initialOptionId (st_schedulable st2)\<rparr>
            else st2);
          st4 \<leftarrow> extra_groups U (ExtraCreatedNodeGroups res) st3;
          Some (Inr [res], initialOption\<lparr>Option_NodeGroup := main\<rparr>,
            st4\<lparr>st_csr := Recalculate (answers U (st_calls st4)) (st_csr st4)\<rparr>)
        })"

text \<open>\<open>CreateNodeGroup\<close> and \<open>CreateNodeGroupAsync\<close> (\<open>async\<close>).\<close>

definition CreateNodeGroup :: "('g, 'i, 'p) su_env \<Rightarrow> bool \<Rightarrow> ('g, 'p) Option \<Rightarrow> ('g, 'i, 'p) su_state \<Rightarrow>
    ((('g, 'p) outcome + 'g CreateNodeGroupResult list) \<times> ('g, 'p) Option \<times> ('g, 'i, 'p) su_state) option" where
  "CreateNodeGroup U async initialOption st =
     (let oldId = Id (provider U (st_calls st)) (Option_NodeGroup initialOption);
          res = CreateGroup U async (st_calls st) (Option_NodeGroup initialOption)
      in processCreateNodeGroupResult U initialOption oldId res
           (st\<lparr>st_calls := st_calls st @ [Call_CreateNodeGroup (Option_NodeGroup initialOption)]\<rparr>))"

definition appendCreatedNodeGroups :: "'g cloud_provider \<Rightarrow> 'g list \<Rightarrow> string \<Rightarrow> 'g CreateNodeGroupResult list \<Rightarrow> 'g list" where
  "appendCreatedNodeGroups cp nodeGroups bestOptionNodeGroupId results =
     nodeGroups @ filter (\<lambda>ng. Id cp ng \<noteq> bestOptionNodeGroupId) (concat (map AllCreatedNodeGroups results))"

section \<open>The plan\<close>

record ('g, 'p) scaleUpCtx =
  validNodeGroups :: "'g list"
  ctx_nodes :: "node list"
  unschedulablePods :: "'p list"
  allOrNothing :: bool
  ctx_now :: time
  ctx_nodeGroups :: "'g list"
  skippedNodeGroups :: "(string, reasons) gmap"

record ('g, 'p) scaleUpPlan =
  scaleUpInfos :: "'g ScaleUpInfo list"
  createNodeGroupResults :: "'g CreateNodeGroupResult list"
  bestOption :: "('g, 'p) Option"
  plan_nodeGroups :: "'g list"

definition noOptionsAvailableStatus :: "('g, 'i, 'p) su_env \<Rightarrow> ('g, 'p) scaleUpCtx \<Rightarrow> ('g, 'i, 'p) su_state \<Rightarrow> ('g, 'p) ScaleUpStatus option" where
  "noOptionsAvailableStatus U args st = do {
     remaining \<leftarrow> GetRemainingPods U (st_calls st) (st_egs st) (ctx_nodeGroups args) (skippedNodeGroups args) (st_infos st);
     Some (zero_ScaleUpStatus\<lparr>Result := ScaleUpNoOptionsAvailable, PodsRemainUnschedulable := remaining,
       ConsideredNodeGroups := ctx_nodeGroups args\<rparr>)
   }"

definition no_options :: "('g, 'i, 'p) su_env \<Rightarrow> ('g, 'p) scaleUpCtx \<Rightarrow> ('g, 'i, 'p) su_state \<Rightarrow>
    ((('g, 'p) scaleUpPlan + ('g, 'p) outcome) \<times> ('g, 'i, 'p) su_state) option" where
  "no_options U args st = map_option (\<lambda>s. (Inr (s, None), st)) (noOptionsAvailableStatus U args st)"

definition abortAllOrNothing :: "('g, 'i, 'p) su_env \<Rightarrow> ('g, 'p) scaleUpCtx \<Rightarrow> ('g, 'i, 'p) su_state \<Rightarrow>
    ((('g, 'p) scaleUpPlan + ('g, 'p) outcome) \<times> ('g, 'i, 'p) su_state) option" where
  "abortAllOrNothing U args st =
     no_options U args (st\<lparr>st_egs := markAllGroupsAsUnschedulable (st_egs st) AllOrNothingReason\<rparr>)"

text \<open>An error: every pod group is marked and the error goes into the status.\<close>

definition plan_error :: "('g, 'i, 'p) su_env \<Rightarrow> ('g, 'p) scaleUpCtx \<Rightarrow> ('g, 'p) ScaleUpStatus \<Rightarrow> go_error \<Rightarrow> ('g, 'i, 'p) su_state \<Rightarrow>
    ((('g, 'p) scaleUpPlan + ('g, 'p) outcome) \<times> ('g, 'i, 'p) su_state) option" where
  "plan_error U args status aErr st = do {
     let st = st\<lparr>st_egs := markAllGroupsAsUnschedulable (st_egs st) ScaleUpExecutionErrorReason\<rparr>;
     remaining \<leftarrow> GetRemainingPods U (st_calls st) (st_egs st) (ctx_nodeGroups args) (skippedNodeGroups args) (st_infos st);
     Some (Inr (UpdateScaleUpError (status\<lparr>PodsRemainUnschedulable := remaining\<rparr>) aErr), st)
   }"

fun schedule_groups :: "('g, 'i, 'p) su_env \<Rightarrow> 'g list \<Rightarrow> ('g, 'i, 'p) su_state \<Rightarrow> ('g, 'i, 'p) su_state option" where
  "schedule_groups U [] st = Some st"
| "schedule_groups U (nodeGroup # groups) st = do {
     let gid = Id (provider U (st_calls st)) nodeGroup;
     nodeInfo \<leftarrow> map_of (st_infos st) gid;
     (schedulable, egs) \<leftarrow> SchedulablePodGroups U (st_calls st) nodeGroup nodeInfo (st_egs st);
     schedule_groups U groups (st\<lparr>st_egs := egs, st_schedulable := gput gid schedulable (st_schedulable st)\<rparr>)
   }"

text \<open>The loop over the groups; \<open>processed\<close> are the ids reported to the binpacking limiter, the skipped groups first.\<close>

fun expansion_options :: "('g, 'i, 'p) su_env \<Rightarrow> ('g, 'p) scaleUpCtx \<Rightarrow> ('g, 'i, 'p) su_state \<Rightarrow> string list \<Rightarrow> 'g list \<Rightarrow>
    ('g, 'p) Option list \<Rightarrow> ('g, 'p) Option list option" where
  "expansion_options U args st processed [] opts = Some opts"
| "expansion_options U args st processed (nodeGroup # groups) opts = do {
     option \<leftarrow> ComputeExpansionOption U (st_calls st) nodeGroup (st_schedulable st) (st_infos st) (int (length (ctx_nodes args)))
       (ctx_now args) (allOrNothing args) (st_csr st);
     let processed = processed @ [Id (provider U (st_calls st)) nodeGroup];
     let opts = (if length (Option_Pods option) = 0 \<or> NodeCount option = 0 then opts
       else if allOrNothing args \<and> length (Option_Pods option) < length (unschedulablePods args) then opts
       else opts @ [option]);
     if StopBinpacking U processed opts then Some opts else expansion_options U args st processed groups opts
   }"

definition total_capacity :: "'g ScaleUpInfo list \<Rightarrow> int" where
  "total_capacity infos = foldl (\<lambda>totalCapacity sui. totalCapacity + (NewSize sui - CurrentSize sui)) 0 infos"

text \<open>The last part: spreading the nodes over similar groups, and the check of all-or-nothing requests.\<close>

definition balance_plan :: "('g, 'i, 'p) su_env \<Rightarrow> ('g, 'p) scaleUpCtx \<Rightarrow> ('g, 'p) Option \<Rightarrow> int \<Rightarrow> 'g CreateNodeGroupResult list \<Rightarrow>
    ('g, 'i, 'p) su_state \<Rightarrow> ((('g, 'p) scaleUpPlan + ('g, 'p) outcome) \<times> ('g, 'i, 'p) su_state) option" where
  "balance_plan U args best newNodes results st = do {
     (res, t) \<leftarrow> balanceScaleUps U (st_calls st) (ctx_now args) (Option_NodeGroup best) newNodes (st_infos st) (st_schedulable st)
       (st_csr st) (st_tracker st);
     let st = st\<lparr>st_tracker := t\<rparr>;
     case res of
       Inl aErr \<Rightarrow> plan_error U args (zero_ScaleUpStatus\<lparr>CreateNodeGroupResults := results, PodsTriggeredScaleUp := Option_Pods best\<rparr>) aErr st
     | Inr infos \<Rightarrow>
         if total_capacity infos < newNodes \<and> allOrNothing args then abortAllOrNothing U args st
         else Some (Inl \<lparr>scaleUpInfos = infos, createNodeGroupResults = results, bestOption = best,
                plan_nodeGroups = ctx_nodeGroups args\<rparr>, st)
   }"

text \<open>The part after the choice of an option: limits and, where needed, the creation of the group.\<close>

definition plan_option :: "('g, 'i, 'p) su_env \<Rightarrow> ('g, 'p) scaleUpCtx \<Rightarrow> ('g, 'p) Option \<Rightarrow> ('g, 'i, 'p) su_state \<Rightarrow>
    ((('g, 'p) scaleUpPlan + ('g, 'p) outcome) \<times> ('g, 'i, 'p) su_state) option" where
  "plan_option U args best st =
     (let ng = Option_NodeGroup best; triggered = zero_ScaleUpStatus\<lparr>PodsTriggeredScaleUp := Option_Pods best\<rparr> in
      case GetCappedNewNodeCount U (NodeCount best) (int (length (ctx_nodes args))) of
        (_, Some aErr) \<Rightarrow> plan_error U args triggered aErr st
      | (newNodes, None) \<Rightarrow>
          (case applyLimits U (st_calls st) newNodes ng (st_infos st) (st_tracker st) of
             (Inl aErr, t) \<Rightarrow> plan_error U args triggered aErr (st\<lparr>st_tracker := t\<rparr>)
           | (Inr newNodes, t) \<Rightarrow>
               (let st = st\<lparr>st_tracker := t\<rparr> in
                if newNodes < NodeCount best \<and> allOrNothing args then abortAllOrNothing U args st
                else if \<not> Exist U (st_calls st) ng \<and> \<not> IsUpcoming (answers U (st_calls st)) ng then
                  if allOrNothing args \<and> MaxSize (provider U (st_calls st)) ng < newNodes then abortAllOrNothing U args st
                  else do {
                    let oldId = Id (provider U (st_calls st)) ng;
                    (res, best, st) \<leftarrow> CreateNodeGroup U (AsyncNodeGroupsEnabled (options U)) best st;
                    case res of
                      Inl outcome \<Rightarrow> Some (Inr outcome, st)
                    | Inr results \<Rightarrow> balance_plan U (args\<lparr>ctx_nodeGroups :=
                        appendCreatedNodeGroups (provider U (st_calls st)) (ctx_nodeGroups args) oldId results\<rparr>) best newNodes results st
                  }
                else balance_plan U args best newNodes [] st)))"

definition prepareScaleUp :: "('g, 'i, 'p) su_env \<Rightarrow> ('g, 'p) scaleUpCtx \<Rightarrow> ('g, 'i, 'p) su_state \<Rightarrow>
    ((('g, 'p) scaleUpPlan + ('g, 'p) outcome) \<times> ('g, 'i, 'p) su_state) option" where
  "prepareScaleUp U args st0 = do {
     st \<leftarrow> schedule_groups U (validNodeGroups args) (st0\<lparr>st_schedulable := []\<rparr>);
     opts \<leftarrow> expansion_options U args st (map fst (skippedNodeGroups args)) (validNodeGroups args) [];
     if length opts = 0 then no_options U args st
     else case BestOption U opts (st_infos st) of
         None \<Rightarrow> no_options U args (st\<lparr>st_egs := markAllGroupsAsUnschedulable (st_egs st) ExpansionOptionsFilteredOutReason\<rparr>)
       | Some best \<Rightarrow>
           if NodeCount best \<le> 0 then
             no_options U args (st\<lparr>st_egs := markAllGroupsAsUnschedulable (st_egs st) ExpansionOptionsFilteredOutReason\<rparr>)
           else plan_option U args best st
   }"


section \<open>Quotas during a scale-up\<close>

definition no_resource_errors :: "'g quota_env \<Rightarrow> bool" where
  "no_resource_errors E \<longleftrightarrow> (\<forall>node g. \<exists>ts. GetNodeResourceTargets E node g = Inr ts)"

lemma quotas_at_env [simp]:
  "bounded_resources (quotas_at U calls) B \<longleftrightarrow> bounded_resources (quota_services U) B"
  "no_resource_errors (quotas_at U calls) \<longleftrightarrow> no_resource_errors (quota_services U)"
  "qe_provider (quotas_at U calls) = provider U calls"
  by (simp_all add: quotas_at_def bounded_resources_def no_resource_errors_def)

text \<open>Reading the resources of a group enters them into the cache, and cached entries stay.\<close>

lemma cache_read:
  assumes "no_resource_errors E"
  shows "\<exists>delta nc'. cache_totalNodeResources E node (Some g) nc = (Inr delta, nc') \<and>
    map_of nc' (Id (qe_provider E) g) = Some delta \<and> map_of nc \<subseteq>\<^sub>m map_of nc'"
proof -
  obtain ts where "GetNodeResourceTargets E node (Some g) = Inr ts" using assms by (auto simp: no_resource_errors_def)
  then show ?thesis
    by (auto simp: cache_totalNodeResources_def totalNodeResources_def GetNodeCoresAndMemory_def map_le_def split: option.splits)
qed

lemma CheckQuota_ok:
  assumes "bounded_resources E B" and "no_resource_errors E" and "tracker_ok B t" and "0 \<le> n" and "n * B < 2 ^ 63"
  obtains delta nc where "CheckQuota E (Some g) node n t =
      (Inr (checkQuota delta (matchingQuotaStatuses node (quotaStatuses t)) n), t\<lparr>nodeCache := nc\<rparr>)"
    and "resources_ok B delta" and "tracker_ok B (t\<lparr>nodeCache := nc\<rparr>)"
    and "map_of nc (Id (qe_provider E) g) = Some delta" and "map_of (nodeCache t) \<subseteq>\<^sub>m map_of nc"
proof -
  obtain delta nc where c: "cache_totalNodeResources E node (Some g) (nodeCache t) = (Inr delta, nc)"
    and d: "map_of nc (Id (qe_provider E) g) = Some delta" "map_of (nodeCache t) \<subseteq>\<^sub>m map_of nc"
    using cache_read [OF assms(2)] by blast
  have "cache_ok B (nodeCache t)" using assms(3) by (simp add: tracker_ok_iff)
  note ok = cache_totalNodeResources_ok [OF assms(1) this c]
  show thesis
    using that [of delta nc] assms(3,4) c d ok(1) ok(2) [OF refl] by (simp add: CheckQuota_def tracker_ok_iff)
qed

text \<open>Consuming what a check has allowed succeeds.\<close>

lemma ConsumeQuota_allowed:
  assumes "resources_ok B delta" and "tracker_ok B t" and "0 \<le> n" and "n * B < 2 ^ 63"
    and "map_of (nodeCache t) (Id (qe_provider E) g) = Some delta"
    and a: "a = AllowedDelta (checkQuota delta (matchingQuotaStatuses node (quotaStatuses t)) n)" and "1 \<le> B"
  shows "0 \<le> a" and "a \<le> n" and "grants_of E (Some g, node, a) t = [(node, delta, a)]"
    and "nodeCache (snd (ConsumeQuota E (Some g) node a t)) = nodeCache t"
proof -
  let ?qs = "matchingQuotaStatuses node (quotaStatuses t)"
  have ok: "\<forall>qs\<in>set ?qs. left_ok (limitsLeft qs)" using assms(2) by (auto simp: tracker_ok_def matchingQuotaStatuses_def)
  note exact = checkQuota_exact [OF assms(1,3,4) ok, folded a]
  show 0: "0 \<le> a" by (rule exact(2))
  show n: "a \<le> n" using exact(1) [of a] by simp
  have fits: "fits delta ?qs a" using exact(1) [of a] by simp
  have "a * B < 2 ^ 63" using n 0 assms(4,7) mult_right_mono [of a n B] by linarith
  note exact' = checkQuota_exact [OF assms(1) 0 this ok]
  have hit: "cache_totalNodeResources E node (Some g) (nodeCache t) = (Inr delta, nodeCache t)"
    using assms(5) by (simp add: cache_totalNodeResources_def)
  show "grants_of E (Some g, node, a) t = [(node, delta, a)]"
    using 0 exact'(3,4) fits by (auto simp: grants_of_def ConsumeQuota_def hit Let_def)
  show "nodeCache (snd (ConsumeQuota E (Some g) node a t)) = nodeCache t"
    using 0 by (simp add: ConsumeQuota_def hit Let_def)
qed

text \<open>What the plan takes: per group the template node, the resources the tracker knows and the number of nodes.\<close>

definition plan_grants :: "('g, 'i, 'p) su_env \<Rightarrow> 'g call list \<Rightarrow> (string, 'i) gmap \<Rightarrow> nodeResourcesCache \<Rightarrow> 'g ScaleUpInfo list \<Rightarrow>
    (node \<times> resourceList \<times> int) list" where
  "plan_grants U calls nodeInfos cache infos =
     map (\<lambda>x. let gid = Id (provider U calls) (su_Group x)
       in (info_node U (the (map_of nodeInfos gid)), gget [] cache gid, NewSize x - CurrentSize x)) infos"

abbreviation changed :: "'g ScaleUpInfo list \<Rightarrow> 'g ScaleUpInfo list" where
  "changed infos \<equiv> filter (\<lambda>x. NewSize x \<noteq> CurrentSize x) infos"

definition capped :: "'g ScaleUpInfo \<Rightarrow> 'g ScaleUpInfo \<Rightarrow> bool" where
  "capped x y \<longleftrightarrow> su_Group y = su_Group x \<and> CurrentSize y = CurrentSize x \<and> su_MaxSize y = su_MaxSize x \<and>
     CurrentSize x \<le> NewSize y \<and> NewSize y \<le> NewSize x"


lemma cap_step:
  assumes "bounded_resources (quota_services U) B" and "no_resource_errors (quota_services U)" and "tracker_ok B t"
    and "CurrentSize x \<le> NewSize x" and "(NewSize x - CurrentSize x) * B < 2 ^ 63"
    and info: "map_of nodeInfos (Id (provider U calls) (su_Group x)) = Some i"
  obtains y t1 where "cap_loop U calls nodeInfos (x # xs) t =
      (let (ys, t') = cap_loop U calls nodeInfos xs t1 in (y # ys, t'))"
    and "capped x y" and "tracker_ok B t1" and "map_of (nodeCache t) \<subseteq>\<^sub>m map_of (nodeCache t1)"
    and "\<And>nc. map_of (nodeCache t1) \<subseteq>\<^sub>m map_of nc \<Longrightarrow> accounted t t1 (plan_grants U calls nodeInfos nc (changed [y]))"
proof (cases "NewSize x - CurrentSize x \<le> 0")
  case True
  then have "NewSize x = CurrentSize x" using assms(4) by simp
  then show thesis using that [of t x] assms(3) True by (simp add: capped_def plan_grants_def accounted_refl)
next
  case False
  define E where "E = quotas_at U calls"
  define node where "node = info_node U i"
  define n where "n = NewSize x - CurrentSize x"
  have n: "0 \<le> n" "n * B < 2 ^ 63" using False assms(5) by (simp_all add: n_def)
  have env: "bounded_resources E B" "no_resource_errors E" using assms(1,2) by (simp_all add: E_def)
  obtain delta nc where check: "CheckQuota E (Some (su_Group x)) node n t =
      (Inr (checkQuota delta (matchingQuotaStatuses node (quotaStatuses t)) n), t\<lparr>nodeCache := nc\<rparr>)"
    and d: "resources_ok B delta" "tracker_ok B (t\<lparr>nodeCache := nc\<rparr>)"
      "map_of nc (Id (qe_provider E) (su_Group x)) = Some delta" "map_of (nodeCache t) \<subseteq>\<^sub>m map_of nc"
    by (rule CheckQuota_ok [OF env assms(3) n])
  define t0 where "t0 = t\<lparr>nodeCache := nc\<rparr>"
  define a where "a = AllowedDelta (checkQuota delta (matchingQuotaStatuses node (quotaStatuses t)) n)"
  have B: "1 \<le> B" using assms(1) by (simp add: bounded_resources_def)
  have a: "a = AllowedDelta (checkQuota delta (matchingQuotaStatuses node (quotaStatuses t0)) n)" by (simp add: a_def t0_def)
  have hit: "map_of (nodeCache t0) (Id (qe_provider E) (su_Group x)) = Some delta" using d(3) by (simp add: t0_def)
  note take = ConsumeQuota_allowed [OF d(1) d(2) [folded t0_def] n hit a B]
  define y where "y = (if a < n then x\<lparr>NewSize := CurrentSize x + a\<rparr> else x)"
  define t1 where "t1 = (if a > 0 then snd (ConsumeQuota E (Some (su_Group x)) node a t0) else t0)"
  have aB: "a * B < 2 ^ 63" using take(1,2) n(2) B mult_right_mono [of a n B] by linarith
  have y: "su_Group y = su_Group x" "CurrentSize y = CurrentSize x" "su_MaxSize y = su_MaxSize x" "NewSize y = CurrentSize x + a"
    using take(2) by (auto simp: y_def n_def)
  have step: "tracker_ok B t1 \<and> accounted t0 t1 (if a > 0 then [(node, delta, a)] else [])"
    using ConsumeQuota_step [OF env(1) d(2) [folded t0_def] aB, of "Some (su_Group x)" node] take(3) d(2)
    by (simp add: t1_def t0_def accounted_refl)
  have cache: "nodeCache t1 = nc" using take(4) by (simp add: t1_def t0_def)
  have loop: "cap_loop U calls nodeInfos (x # xs) t = (let (ys, t') = cap_loop U calls nodeInfos xs t1 in (y # ys, t'))"
    using False info check unfolding y_def t1_def t0_def n_def a_def node_def E_def by (simp add: Let_def)
  have cap: "capped x y" using y take(1,2) by (simp add: capped_def n_def)
  have acc: "accounted t t1 (plan_grants U calls nodeInfos nc' (changed [y]))" if le: "map_of (nodeCache t1) \<subseteq>\<^sub>m map_of nc'" for nc'
  proof -
    have "map_of nc' (Id (provider U calls) (su_Group x)) = Some delta"
      using d(3) le by (auto simp: map_le_def cache E_def dom_def)
    then have "plan_grants U calls nodeInfos nc' (changed [y]) = (if a > 0 then [(node, delta, a)] else [])"
      using take(1) info by (auto simp: plan_grants_def y gget_def node_def)
    moreover have "accounted t t0 []" by (simp add: t0_def accounted_refl)
    ultimately show ?thesis using accounted_trans [of t t0 "[]" t1] step by simp
  qed
  show thesis using that [OF loop cap _ _ acc] step d(4) cache by simp
qed

lemma plan_grants_append:
  "plan_grants U calls nodeInfos nc (xs @ ys) = plan_grants U calls nodeInfos nc xs @ plan_grants U calls nodeInfos nc ys"
  by (simp add: plan_grants_def)

lemma cap_loop_correct:
  assumes "bounded_resources (quota_services U) B" and "no_resource_errors (quota_services U)" and "tracker_ok B t"
    and "\<forall>x\<in>set xs. CurrentSize x \<le> NewSize x \<and> (NewSize x - CurrentSize x) * B < 2 ^ 63 \<and>
       ghas nodeInfos (Id (provider U calls) (su_Group x))"
    and "cap_loop U calls nodeInfos xs t = (ys, t')"
  shows "list_all2 capped xs ys \<and> tracker_ok B t' \<and> map_of (nodeCache t) \<subseteq>\<^sub>m map_of (nodeCache t') \<and>
    (\<forall>nc. map_of (nodeCache t') \<subseteq>\<^sub>m map_of nc \<longrightarrow> accounted t t' (plan_grants U calls nodeInfos nc (changed ys)))"
  using assms(3-5)
proof (induction xs arbitrary: t ys)
  case Nil
  then show ?case by (simp add: plan_grants_def accounted_refl)
next
  case (Cons x xs)
  have x: "CurrentSize x \<le> NewSize x" "(NewSize x - CurrentSize x) * B < 2 ^ 63" "ghas nodeInfos (Id (provider U calls) (su_Group x))"
    using Cons.prems(2) by simp_all
  obtain i where i: "map_of nodeInfos (Id (provider U calls) (su_Group x)) = Some i" using x(3) by (auto simp: ghas_def)
  obtain y t1 where loop: "cap_loop U calls nodeInfos (x # xs) t = (let (ys, t') = cap_loop U calls nodeInfos xs t1 in (y # ys, t'))"
    and y: "capped x y" "tracker_ok B t1" "map_of (nodeCache t) \<subseteq>\<^sub>m map_of (nodeCache t1)"
    and acc: "\<And>nc. map_of (nodeCache t1) \<subseteq>\<^sub>m map_of nc \<Longrightarrow> accounted t t1 (plan_grants U calls nodeInfos nc (changed [y]))"
    using cap_step [OF assms(1,2) Cons.prems(1) x(1,2) i] by blast
  obtain zs where zs: "cap_loop U calls nodeInfos xs t1 = (zs, t')" "ys = y # zs"
    using Cons.prems(3) unfolding loop by (auto split: prod.splits)
  have IH: "list_all2 capped xs zs \<and> tracker_ok B t' \<and> map_of (nodeCache t1) \<subseteq>\<^sub>m map_of (nodeCache t') \<and>
    (\<forall>nc. map_of (nodeCache t') \<subseteq>\<^sub>m map_of nc \<longrightarrow> accounted t1 t' (plan_grants U calls nodeInfos nc (changed zs)))"
    using Cons.IH [OF y(2) _ zs(1)] Cons.prems(2) by simp
  have "accounted t t' (plan_grants U calls nodeInfos nc (changed ys))" if le: "map_of (nodeCache t') \<subseteq>\<^sub>m map_of nc" for nc
  proof -
    have "map_of (nodeCache t1) \<subseteq>\<^sub>m map_of nc" using IH le map_le_trans by blast
    from accounted_trans [OF acc [OF this]] IH le
    have "accounted t t' (plan_grants U calls nodeInfos nc (changed [y]) @ plan_grants U calls nodeInfos nc (changed zs))" by blast
    then show ?thesis unfolding zs(2) plan_grants_append [symmetric] by (simp only: filter_append [symmetric] append_Cons append_Nil)
  qed
  then show ?case using IH y zs(2) map_le_trans by blast
qed


lemma IsNodeGroupResourceExceeded_frame:
  assumes "bounded_resources (quota_services U) B" and "no_resource_errors (quota_services U)" and "tracker_ok B t"
    and "0 \<le> n" and "n * B < 2 ^ 63" and "IsNodeGroupResourceExceeded U calls ng i n t = (r, t')"
  shows "tracker_ok B t' \<and> quotaStatuses t' = quotaStatuses t"
proof -
  have env: "bounded_resources (quotas_at U calls) B" "no_resource_errors (quotas_at U calls)" using assms(1,2) by simp_all
  obtain delta nc where "CheckQuota (quotas_at U calls) (Some ng) (info_node U i) n t =
      (Inr (checkQuota delta (matchingQuotaStatuses (info_node U i) (quotaStatuses t)) n), t\<lparr>nodeCache := nc\<rparr>)"
    and "tracker_ok B (t\<lparr>nodeCache := nc\<rparr>)"
    by (rule CheckQuota_ok [OF env assms(3-5)])
  then show ?thesis using assms(6) by (auto simp: IsNodeGroupResourceExceeded_def split: if_splits)
qed

lemma quota_valid_groups_correct:
  assumes "bounded_resources (quota_services U) B" and "no_resource_errors (quota_services U)" and "tracker_ok B t"
    and "B < 2 ^ 63" and "distinct groups" and "quota_valid_groups U calls nodeInfos groups t = (gs, t')"
  shows "distinct gs \<and> set gs \<subseteq> set groups \<and> (\<forall>g\<in>set gs. ghas nodeInfos (Id (provider U calls) g)) \<and>
    tracker_ok B t' \<and> quotaStatuses t' = quotaStatuses t"
  using assms(3,5,6)
proof (induction groups arbitrary: t gs t')
  case (Cons ng groups)
  show ?case
  proof (cases "map_of nodeInfos (Id (provider U calls) ng)")
    case None
    then have rest: "quota_valid_groups U calls nodeInfos groups t = (gs, t')" using Cons.prems(3) by simp
    have "distinct groups" using Cons.prems(2) by simp
    from Cons.IH [OF Cons.prems(1) this rest] show ?thesis by auto
  next
    case (Some i)
    obtain r t1 where r: "IsNodeGroupResourceExceeded U calls ng i 1 t = (r, t1)" by (rule prod.exhaust)
    have t1: "tracker_ok B t1" "quotaStatuses t1 = quotaStatuses t"
      using IsNodeGroupResourceExceeded_frame [OF assms(1,2) Cons.prems(1) _ _ r] assms(4) by simp_all
    obtain gs1 t2 where rest: "quota_valid_groups U calls nodeInfos groups t1 = (gs1, t2)" by (rule prod.exhaust)
    have "distinct groups" "ng \<notin> set groups" using Cons.prems(2) by simp_all
    with Cons.IH [OF t1(1) _ rest] have IH: "distinct gs1 \<and> set gs1 \<subseteq> set groups \<and>
      (\<forall>g\<in>set gs1. ghas nodeInfos (Id (provider U calls) g)) \<and> tracker_ok B t2 \<and> quotaStatuses t2 = quotaStatuses t"
      using t1(2) by simp
    have "gs = (if r = None then ng # gs1 else gs1) \<and> t' = t2"
      using Cons.prems(3) Some r rest by (cases r) simp_all
    then show ?thesis using IH \<open>ng \<notin> set groups\<close> Some by (auto simp: ghas_def)
  qed
qed simp

text \<open>Similar groups are groups of the provider other than the given one.\<close>

lemma similar_groups_correct:
  assumes "distinct (map (Id cp) groups)"
  shows "distinct (similar_groups cp comparator infos gid info groups) \<and>
    set (similar_groups cp comparator infos gid info groups) \<subseteq> set groups \<and>
    (\<forall>g\<in>set (similar_groups cp comparator infos gid info groups). Id cp g \<noteq> gid)"
  using assms
  by (induction cp comparator infos gid info groups rule: similar_groups.induct) (auto simp: Let_def split: option.splits)

lemma ComputeSimilarNodeGroups_correct:
  assumes "unique_ids (provider U calls)" and gs_def: "gs = ComputeSimilarNodeGroups U calls ng nodeInfos schedulable now csr"
  shows "distinct gs \<and> set gs \<subseteq> set (NodeGroups (provider U calls)) \<and> ng \<notin> set gs"
proof -
  let ?s = "\<lambda>info. similar_groups (provider U calls) (similar_infos U) nodeInfos (Id (provider U calls) ng) info (NodeGroups (provider U calls))"
  have s: "distinct (?s info)" "set (?s info) \<subseteq> set (NodeGroups (provider U calls))" "ng \<notin> set (?s info)" for info
    using similar_groups_correct [OF assms(1) [unfolded unique_ids_def], of "similar_infos U" nodeInfos "Id (provider U calls) ng" info]
    by blast+
  show ?thesis
  proof (cases "\<exists>info P. gs = filter P (?s info)")
    case True
    then obtain info P where gs: "gs = filter P (?s info)" by blast
    have "set gs \<subseteq> set (?s info)" and "distinct gs" using s(1) [of info] by (simp_all add: gs)
    then show ?thesis using s(2,3) [of info] by blast
  next
    case False
    then have "gs = []"
      by (auto simp: gs_def ComputeSimilarNodeGroups_def FindSimilarNodeGroups_def split: if_splits option.splits sum.splits)
    then show ?thesis by simp
  qed
qed

lemma collect_groups_readable:
  "collect_groups cp groups xs c = Inr r \<Longrightarrow> \<forall>g\<in>set groups. snd (TargetSize cp g) = None"
  by (induction cp groups xs c rule: collect_groups.induct) (auto split: prod.splits option.splits if_splits)

lemma total_capacity_sum: "total_capacity infos = (\<Sum>x\<leftarrow>infos. NewSize x - CurrentSize x)"
proof -
  have "foldl (\<lambda>c x. c + (NewSize x - CurrentSize x)) c infos = c + (\<Sum>x\<leftarrow>infos. NewSize x - CurrentSize x)" for c
    by (induction infos arbitrary: c) simp_all
  then show ?thesis by (simp add: total_capacity_def)
qed

lemma capped_totals:
  assumes "list_all2 capped xs ys"
  shows "total_capacity (changed ys) \<le> (\<Sum>x\<leftarrow>xs. NewSize x - CurrentSize x)" and "map su_Group ys = map su_Group xs"
  using assms by (induction rule: list_all2_induct) (auto simp: capped_def total_capacity_sum)


section \<open>Correctness of the plan\<close>

definition sort_ok :: "('g, 'i, 'p) su_env \<Rightarrow> bool" where
  "sort_ok U \<longleftrightarrow> (\<forall>xs. mset (sort_infos U xs) = mset xs \<and> sorted (map CurrentSize (sort_infos U xs)))"

text \<open>\<open>resizes\<close>: every entry grows a group from its present size to at most its maximal size, no group twice.\<close>

definition resizes :: "'g cloud_provider \<Rightarrow> 'g ScaleUpInfo list \<Rightarrow> bool" where
  "resizes cp infos \<longleftrightarrow> distinct (map su_Group infos) \<and> (\<forall>x\<in>set infos. CurrentSize x = size_of cp (su_Group x) \<and>
     CurrentSize x < NewSize x \<and> NewSize x \<le> MaxSize cp (su_Group x))"

lemma balance_some:
  assumes "BalanceScaleUpBetweenGroups sort_slice cp groups n = Some (Inr infos)"
    and "distinct groups" and "\<forall>xs. mset (sort_slice xs) = mset xs \<and> sorted (map CurrentSize (sort_slice xs))"
  shows "resizes cp infos \<and> su_Group ` set infos \<subseteq> set groups \<and>
    (\<Sum>x\<leftarrow>infos. NewSize x - CurrentSize x) \<le> max 0 n"
proof -
  have "groups \<noteq> []" using assms(1) by (auto simp: BalanceScaleUpBetweenGroups_def)
  moreover have "\<forall>g\<in>set groups. snd (TargetSize cp g) = None"
    using assms(1) collect_groups_readable [of cp groups "[]" 0]
    by (auto simp: BalanceScaleUpBetweenGroups_def split: if_splits sum.splits)
  ultimately obtain result where r: "BalanceScaleUpBetweenGroups sort_slice cp groups n = Some (Inr result)"
      "distinct (map su_Group result)" "(\<Sum>x\<leftarrow>result. NewSize x - CurrentSize x) = max 0 (min n (group_capacity cp groups))"
      "\<forall>x\<in>set result. su_Group x \<in> set groups \<and> CurrentSize x = size_of cp (su_Group x) \<and>
       CurrentSize x < NewSize x \<and> NewSize x \<le> MaxSize cp (su_Group x)"
    using balance_result [of groups cp sort_slice n] assms(2,3) by blast
  have eq: "result = infos" using r(1) assms(1) by simp
  have "resizes cp infos" using r(2,4) unfolding resizes_def eq by blast
  moreover have "su_Group ` set infos \<subseteq> set groups" using r(4) unfolding eq by blast
  moreover have "(\<Sum>x\<leftarrow>infos. NewSize x - CurrentSize x) \<le> max 0 n" using r(3) unfolding eq by linarith
  ultimately show ?thesis by blast
qed

lemma list_all2_memD: "list_all2 P xs ys \<Longrightarrow> y \<in> set ys \<Longrightarrow> \<exists>x\<in>set xs. P x y"
  by (induction rule: list_all2_induct) auto

lemma capped_resizes:
  assumes "list_all2 capped xs ys" and "resizes cp xs"
  shows "resizes cp (changed ys)"
proof -
  have "distinct (map su_Group ys)" unfolding capped_totals(2) [OF assms(1)] using assms(2) by (simp add: resizes_def)
  then have "distinct (map su_Group (changed ys))" by (induction ys) auto
  moreover have "CurrentSize y = size_of cp (su_Group y) \<and> CurrentSize y < NewSize y \<and> NewSize y \<le> MaxSize cp (su_Group y)"
    if y: "y \<in> set (changed ys)" for y
  proof -
    obtain x where "x \<in> set xs" "capped x y" using list_all2_memD [OF assms(1)] y by auto
    moreover from this have "CurrentSize x = size_of cp (su_Group x) \<and> NewSize x \<le> MaxSize cp (su_Group x)"
      using assms(2) unfolding resizes_def by blast
    ultimately show ?thesis using y by (auto simp: capped_def)
  qed
  ultimately show ?thesis unfolding resizes_def by blast
qed

lemma member_le_sum_list: "x \<in> set xs \<Longrightarrow> \<forall>y\<in>set xs. 0 \<le> f y \<Longrightarrow> f x \<le> (\<Sum>y\<leftarrow>xs. f y :: int)"
proof (induction xs)
  case (Cons z zs)
  then have "0 \<le> (\<Sum>y\<leftarrow>zs. f y)" by (intro sum_list_nonneg) auto
  then show ?case using Cons by auto
qed simp

definition in_plan_bounds :: "('g, 'i, 'p) su_env \<Rightarrow> int \<Rightarrow> bool" where
  "in_plan_bounds U B \<longleftrightarrow> bounded_resources (quota_services U) B \<and> no_resource_errors (quota_services U) \<and> sort_ok U"

lemma balanceScaleUps_correct:
  assumes env: "in_plan_bounds U B" and ids: "unique_ids (provider U calls)" and ok: "tracker_ok B t"
    and n: "1 \<le> k" "n \<le> k" "k * B < 2 ^ 63" and main: "ghas nodeInfos (Id (provider U calls) ng)"
    and res: "balanceScaleUps U calls now ng n nodeInfos schedulable csr t = Some (Inr infos, t')"
  shows "resizes (provider U calls) infos \<and> total_capacity infos \<le> max 0 n \<and> tracker_ok B t' \<and>
    accounted t t' (plan_grants U calls nodeInfos (nodeCache t') infos) \<and>
    (\<forall>g\<in>su_Group ` set infos. ghas nodeInfos (Id (provider U calls) g))"
proof -
  have B: "1 \<le> B" "bounded_resources (quota_services U) B" "no_resource_errors (quota_services U)"
    using env by (simp_all add: in_plan_bounds_def bounded_resources_def)
  have "B \<le> k * B" using B(1) n(1) by simp
  then have B63: "B < 2 ^ 63" using n(3) by linarith
  define gs where "gs = ComputeSimilarNodeGroups U calls ng nodeInfos schedulable now csr"
  have gs: "distinct gs" "ng \<notin> set gs" using ComputeSimilarNodeGroups_correct [OF ids gs_def] by simp_all
  obtain vs t1 where v: "quota_valid_groups U calls nodeInfos gs t = (vs, t1)" by (rule prod.exhaust)
  have vs: "distinct vs" "set vs \<subseteq> set gs" "\<forall>g\<in>set vs. ghas nodeInfos (Id (provider U calls) g)" "tracker_ok B t1"
      "quotaStatuses t1 = quotaStatuses t"
    using quota_valid_groups_correct [OF B(2,3) ok B63 gs(1) v] by simp_all
  obtain r where r: "BalanceScaleUpBetweenGroups (sort_infos U) (provider U calls) (ng # vs) n = Some r"
    using res by (auto simp: balanceScaleUps_def v simp flip: gs_def)
  then obtain xs where b: "BalanceScaleUpBetweenGroups (sort_infos U) (provider U calls) (ng # vs) n = Some (Inr xs)"
    using res by (cases r) (auto simp: balanceScaleUps_def v simp flip: gs_def)
  obtain ys where c: "cap_loop U calls nodeInfos xs t1 = (ys, t')" and infos: "infos = changed ys"
    using res b by (auto simp: balanceScaleUps_def v capScaleUpsByQuota_def simp flip: gs_def split: prod.splits)
  have "distinct (ng # vs)" using vs gs(2) by auto
  then have xs: "resizes (provider U calls) xs" "su_Group ` set xs \<subseteq> set (ng # vs)" "(\<Sum>x\<leftarrow>xs. NewSize x - CurrentSize x) \<le> max 0 n"
    using balance_some [OF b] env by (simp_all add: in_plan_bounds_def sort_ok_def)
  have grow: "\<forall>x\<in>set xs. 0 \<le> NewSize x - CurrentSize x" using xs(1) by (auto simp: resizes_def)
  have "\<forall>x\<in>set xs. CurrentSize x \<le> NewSize x \<and> (NewSize x - CurrentSize x) * B < 2 ^ 63 \<and> ghas nodeInfos (Id (provider U calls) (su_Group x))"
  proof
    fix x assume x: "x \<in> set xs"
    have "NewSize x - CurrentSize x \<le> k" using member_le_sum_list [OF x grow] xs(3) n by linarith
    then have "(NewSize x - CurrentSize x) * B \<le> k * B" using B(1) by (intro mult_right_mono) auto
    moreover have "su_Group x \<in> set (ng # vs)" using xs(2) x by blast
    ultimately show "CurrentSize x \<le> NewSize x \<and> (NewSize x - CurrentSize x) * B < 2 ^ 63 \<and> ghas nodeInfos (Id (provider U calls) (su_Group x))"
      using bspec [OF grow x] n(3) main vs(3) by auto
  qed
  note cap = cap_loop_correct [OF B(2,3) vs(4) this c]
  have "total_capacity infos \<le> max 0 n" using capped_totals(1) cap xs(3) infos by fastforce
  moreover have "accounted t t1 []" using vs(5) by (simp add: accounted_def option.map_ident)
  then have "accounted t t' (plan_grants U calls nodeInfos (nodeCache t') infos)"
    using cap accounted_trans [of t t1 "[]" t'] infos by auto
  moreover have "\<forall>g\<in>su_Group ` set infos. ghas nodeInfos (Id (provider U calls) g)"
  proof
    fix g assume "g \<in> su_Group ` set infos"
    then have "g \<in> set (map su_Group ys)" using infos by auto
    moreover have "map su_Group ys = map su_Group xs" using cap capped_totals(2) by blast
    ultimately show "ghas nodeInfos (Id (provider U calls) g)" using xs(2) vs(3) main by force
  qed
  ultimately show ?thesis using cap capped_resizes [OF _ xs(1)] infos by blast
qed

text \<open>Every limit has room for what was granted.\<close>

definition within_limits :: "Tracker \<Rightarrow> (node \<times> resourceList \<times> int) list \<Rightarrow> bool" where
  "within_limits t grants \<longleftrightarrow> (\<forall>qs\<in>set (quotaStatuses t). \<forall>r l. map_of (limitsLeft qs) r = Some l \<longrightarrow> granted (quota qs) r grants \<le> l)"

lemma accounted_within:
  assumes "accounted t t' grants" and "tracker_ok B t'"
  shows "within_limits t grants"
  unfolding within_limits_def
proof (intro ballI allI impI)
  fix qs r l assume qs: "qs \<in> set (quotaStatuses t)" and l: "map_of (limitsLeft qs) r = Some l"
  obtain i where i: "i < length (quotaStatuses t)" "qs = quotaStatuses t ! i" using qs by (auto simp: in_set_conv_nth)
  have len: "length (quotaStatuses t') = length (quotaStatuses t)"
    using assms(1) map_eq_imp_length_eq unfolding accounted_def by blast
  have "map_of (limitsLeft (quotaStatuses t' ! i)) r = Some (l - granted (quota qs) r grants)"
    using assms(1) i l unfolding accounted_def by auto
  moreover have "left_ok (limitsLeft (quotaStatuses t' ! i))" using assms(2) i(1) len by (simp add: tracker_ok_def)
  ultimately show "granted (quota qs) r grants \<le> l" unfolding left_ok_def by fastforce
qed


lemma schedule_groups_frame:
  "schedule_groups U groups st = Some st' \<Longrightarrow>
     st_tracker st' = st_tracker st \<and> st_calls st' = st_calls st \<and> st_infos st' = st_infos st \<and> st_csr st' = st_csr st"
proof (induction groups arbitrary: st)
  case (Cons g groups)
  then show ?case by (fastforce simp: Let_def bind_eq_Some_conv)
qed simp

lemma extra_groups_frame:
  "extra_groups U groups st = Some st' \<Longrightarrow> st_tracker st' = st_tracker st \<and> st_calls st' = st_calls st \<and> st_csr st' = st_csr st \<and>
     (\<forall>i. ghas (st_infos st) i \<longrightarrow> ghas (st_infos st') i)"
proof (induction groups arbitrary: st)
  case (Cons g groups)
  then show ?case by (fastforce simp: Let_def bind_eq_Some_conv split: sum.splits)
qed simp

lemma processCreate_steps:
  fixes U :: "('g, 'i, 'p) su_env"
  assumes "processCreateNodeGroupResult U best oldId (Inr res) st0 = Some (Inr results, best', st')"
    and newId: "newId = Id (provider U (st_calls st0)) (MainCreatedNodeGroup res)"
  obtains info :: 'i and st1 st2 st4 :: "('g, 'i, 'p) su_state" where "st_tracker st1 = st_tracker st0" "st_calls st1 = st_calls st0"
      "st_csr st1 = st_csr st0" "st_infos st1 = gput newId info (st_infos st0)"
    and "st_tracker st2 = st_tracker st1 \<and> st_calls st2 = st_calls st1 \<and> st_csr st2 = st_csr st1 \<and> st_infos st2 = st_infos st1"
    and "extra_groups U (ExtraCreatedNodeGroups res) (if oldId \<noteq> newId then
        st2\<lparr>st_infos := gdel oldId (st_infos st2), st_schedulable := gdel oldId (st_schedulable st2)\<rparr> else st2) = Some st4"
    and "best' = best\<lparr>Option_NodeGroup := MainCreatedNodeGroup res\<rparr>" and "st' = st4\<lparr>st_csr := Recalculate (answers U (st_calls st4)) (st_csr st4)\<rparr>"
proof -
  define template where "template = SanitizedTemplate U (MainCreatedNodeGroup res)"
  define info where "info fallback = (case template of Inl _ \<Rightarrow> fallback | Inr info \<Rightarrow> info)" for fallback
  define st1 where "st1 fallback = st0\<lparr>st_infos := gput newId (info fallback) (st_infos st0),
            st_schedulable := gput newId (gget [] (st_schedulable st0) oldId) (st_schedulable st0)\<rparr>" for fallback
  define step2 where "step2 fallback = (if \<not> isl template \<and> length (ExtraCreatedNodeGroups res) > 0 then do {
              (schedulable, egs) \<leftarrow> SchedulablePodGroups U (st_calls st0) (MainCreatedNodeGroup res) (info fallback)
                 (deletePodEquivalenceGroupsId (st_egs (st1 fallback)) oldId);
              Some ((st1 fallback)\<lparr>st_egs := egs, st_schedulable := gput newId schedulable (st_schedulable (st1 fallback))\<rparr>)
            } else Some ((st1 fallback)\<lparr>st_egs := patchPodEquivalenceGroupsId (st_egs (st1 fallback)) oldId newId\<rparr>))" for fallback
  obtain fallback st2 st4 where st2: "step2 fallback = Some st2"
    and rest: "extra_groups U (ExtraCreatedNodeGroups res) (if oldId \<noteq> newId then
        st2\<lparr>st_infos := gdel oldId (st_infos st2), st_schedulable := gdel oldId (st_schedulable st2)\<rparr> else st2) = Some st4"
      "best' = best\<lparr>Option_NodeGroup := MainCreatedNodeGroup res\<rparr>" "st' = st4\<lparr>st_csr := Recalculate (answers U (st_calls st4)) (st_csr st4)\<rparr>"
    using assms(1) unfolding processCreateNodeGroupResult_def Let_def sum.case newId [symmetric] template_def [symmetric]
      info_def [symmetric] st1_def [symmetric] step2_def [symmetric] bind_eq_Some_conv
    by blast
  have "st_tracker st2 = st_tracker (st1 fallback) \<and> st_calls st2 = st_calls (st1 fallback) \<and> st_csr st2 = st_csr (st1 fallback) \<and> st_infos st2 = st_infos (st1 fallback)"
    using st2 by (auto simp: step2_def bind_eq_Some_conv split: if_splits)
  then show thesis using rest by (intro that [of "st1 fallback" "info fallback" st2 st4]) (simp_all add: st1_def)
qed

lemma CreateNodeGroup_frame:
  fixes U :: "('g, 'i, 'p) su_env"
  assumes "CreateNodeGroup U async best st = Some (Inr results, best', st')"
  shows "st_tracker st' = st_tracker st \<and> st_calls st' = st_calls st @ [Call_CreateNodeGroup (Option_NodeGroup best)] \<and>
    NodeCount best' = NodeCount best \<and> ghas (st_infos st') (Id (provider U (st_calls st')) (Option_NodeGroup best')) \<and>
    (\<exists>E. st_csr st' = Recalculate E (st_csr st))"
proof -
  define oldId where "oldId = Id (provider U (st_calls st)) (Option_NodeGroup best)"
  define st0 where "st0 = st\<lparr>st_calls := st_calls st @ [Call_CreateNodeGroup (Option_NodeGroup best)]\<rparr>"
  obtain res where p: "processCreateNodeGroupResult U best oldId (Inr res) st0 = Some (Inr results, best', st')"
    using assms by (auto simp: CreateNodeGroup_def Let_def processCreateNodeGroupResult_def oldId_def st0_def split: sum.splits)
  define newId where "newId = Id (provider U (st_calls st0)) (MainCreatedNodeGroup res)"
  obtain info :: 'i and st1 st2 st4 :: "('g, 'i, 'p) su_state" where st1: "st_tracker st1 = st_tracker st0" "st_calls st1 = st_calls st0"
      "st_csr st1 = st_csr st0" "st_infos st1 = gput newId info (st_infos st0)"
    and st2: "st_tracker st2 = st_tracker st1 \<and> st_calls st2 = st_calls st1 \<and> st_csr st2 = st_csr st1 \<and> st_infos st2 = st_infos st1"
    and st4: "extra_groups U (ExtraCreatedNodeGroups res) (if oldId \<noteq> newId then
        st2\<lparr>st_infos := gdel oldId (st_infos st2), st_schedulable := gdel oldId (st_schedulable st2)\<rparr> else st2) = Some st4"
    and out: "best' = best\<lparr>Option_NodeGroup := MainCreatedNodeGroup res\<rparr>" "st' = st4\<lparr>st_csr := Recalculate (answers U (st_calls st4)) (st_csr st4)\<rparr>"
    by (rule processCreate_steps [OF p newId_def])
  define st3 where "st3 = (if oldId \<noteq> newId then
        st2\<lparr>st_infos := gdel oldId (st_infos st2), st_schedulable := gdel oldId (st_schedulable st2)\<rparr> else st2)"
  note st4 = st4 [folded st3_def]
  have st3: "st_tracker st3 = st_tracker st0" "st_calls st3 = st_calls st0" "st_csr st3 = st_csr st0" "ghas (st_infos st3) newId"
    using st1 st2 by (auto simp: st3_def)
  show ?thesis using extra_groups_frame [OF st4] st3 out by (auto simp: st0_def newId_def)
qed

lemma no_options_no_plan: "no_options U args st \<noteq> Some (Inl plan, st')"
  by (simp add: no_options_def)

lemma abort_no_plan: "abortAllOrNothing U args st \<noteq> Some (Inl plan, st')"
  by (simp add: abortAllOrNothing_def no_options_def)

lemma plan_error_no_plan: "plan_error U args status err st \<noteq> Some (Inl plan, st')"
  by (auto simp: plan_error_def Let_def bind_eq_Some_conv)

lemmas no_plan = no_options_no_plan abort_no_plan plan_error_no_plan

lemma balance_plan_plan:
  assumes "balance_plan U args best n results st = Some (Inl plan, st')"
  shows "balanceScaleUps U (st_calls st) (ctx_now args) (Option_NodeGroup best) n (st_infos st) (st_schedulable st) (st_csr st) (st_tracker st) =
      Some (Inr (scaleUpInfos plan), st_tracker st') \<and> st' = st\<lparr>st_tracker := st_tracker st'\<rparr> \<and> bestOption plan = best \<and>
    (allOrNothing args \<longrightarrow> n \<le> total_capacity (scaleUpInfos plan))"
proof -
  define b where "b = balanceScaleUps U (st_calls st) (ctx_now args) (Option_NodeGroup best) n (st_infos st) (st_schedulable st) (st_csr st) (st_tracker st)"
  obtain res t where b: "b = Some (res, t)"
    using assms by (auto simp: balance_plan_def bind_eq_Some_conv simp flip: b_def)
  show ?thesis
  proof (cases res)
    case (Inl err)
    then show ?thesis using assms b by (simp add: balance_plan_def Let_def no_plan flip: b_def)
  next
    case (Inr infos)
    then show ?thesis using assms b by (auto simp: balance_plan_def Let_def no_plan simp flip: b_def split: if_splits)
  qed
qed

text \<open>What a plan guarantees, relative to the number of nodes and the tracker before it.\<close>

definition plan_ok :: "('g, 'i, 'p) su_env \<Rightarrow> ('g, 'p) scaleUpCtx \<Rightarrow> Tracker \<Rightarrow> ('g, 'p) scaleUpPlan \<Rightarrow> ('g, 'i, 'p) su_state \<Rightarrow> bool" where
  "plan_ok U args t plan st \<longleftrightarrow>
     (let infos = scaleUpInfos plan; total = total_capacity infos; maxTotal = MaxNodesTotal (options U) in
      resizes (provider U (st_calls st)) infos \<and> (\<forall>g\<in>su_Group ` set infos. ghas (st_infos st) (Id (provider U (st_calls st)) g)) \<and>
      total \<le> NodeCount (bestOption plan) \<and>
      (maxTotal > 0 \<longrightarrow> int (length (ctx_nodes args)) + total \<le> maxTotal) \<and>
      (allOrNothing args \<longrightarrow> total = NodeCount (bestOption plan)) \<and>
      within_limits t (plan_grants U (st_calls st) (st_infos st) (nodeCache (st_tracker st)) infos))"

lemma balance_plan_ok:
  assumes env: "in_plan_bounds U B" "unique_ids (provider U (st_calls st))" "tracker_ok B (st_tracker st)"
    and stat: "quotaStatuses (st_tracker st) = quotaStatuses t"
    and n: "n \<le> NodeCount best" "1 \<le> NodeCount best" "NodeCount best * B < 2 ^ 63" and "allOrNothing args \<longrightarrow> NodeCount best \<le> n"
    and cap: "MaxNodesTotal (options U) > 0 \<longrightarrow> int (length (ctx_nodes args)) + max 0 n \<le> MaxNodesTotal (options U)"
    and main: "ghas (st_infos st) (Id (provider U (st_calls st)) (Option_NodeGroup best))"
    and plan: "balance_plan U args best n results st = Some (Inl plan, st')"
  shows "plan_ok U args t plan st'"
proof -
  note p = balance_plan_plan [OF plan]
  note b = balanceScaleUps_correct [OF env(1,2,3) n(2,1,3) main conjunct1 [OF p]]
  obtain t1 where st': "st' = st\<lparr>st_tracker := t1\<rparr>" using p by blast
  then have frame: "st_calls st' = st_calls st" "st_infos st' = st_infos st" by simp_all
  have "within_limits (st_tracker st) (plan_grants U (st_calls st) (st_infos st) (nodeCache (st_tracker st')) (scaleUpInfos plan))"
    using b accounted_within by blast
  moreover have "within_limits (st_tracker st) = within_limits t" by (simp add: within_limits_def stat fun_eq_iff)
  moreover have "total_capacity (scaleUpInfos plan) \<le> max 0 n" "resizes (provider U (st_calls st)) (scaleUpInfos plan)"
      "\<forall>g\<in>su_Group ` set (scaleUpInfos plan). ghas (st_infos st) (Id (provider U (st_calls st)) g)"
    using b by blast+
  moreover have "bestOption plan = best" "allOrNothing args \<longrightarrow> n \<le> total_capacity (scaleUpInfos plan)" using p by blast+
  ultimately show ?thesis using n assms(8) cap unfolding plan_ok_def Let_def frame by (intro conjI impI) auto
qed


lemma GetCapped_spec:
  assumes "GetCappedNewNodeCount U n c = (m, None)" and "1 \<le> n"
  shows "m \<le> n \<and> 1 \<le> m \<and> (MaxNodesTotal (options U) > 0 \<longrightarrow> m + c \<le> MaxNodesTotal (options U))"
  using assms by (auto simp: GetCappedNewNodeCount_def Let_def split: if_splits)

lemma applyLimits_spec:
  assumes env: "in_plan_bounds U B" and ok: "tracker_ok B t" and n: "1 \<le> n" "n * B < 2 ^ 63"
    and res: "applyLimits U calls n ng nodeInfos t = (Inr m, t')"
  shows "0 \<le> m \<and> m \<le> n \<and> tracker_ok B t' \<and> quotaStatuses t' = quotaStatuses t \<and> ghas nodeInfos (Id (provider U calls) ng)"
proof -
  obtain i where i: "map_of nodeInfos (Id (provider U calls) ng) = Some i" using res by (auto simp: applyLimits_def split: option.splits)
  have q: "bounded_resources (quotas_at U calls) B" "no_resource_errors (quotas_at U calls)"
    using env by (simp_all add: in_plan_bounds_def)
  have B: "1 \<le> B" using env by (simp add: in_plan_bounds_def bounded_resources_def)
  have n0: "0 \<le> n" using n by simp
  obtain delta nc where c: "CheckQuota (quotas_at U calls) (Some ng) (info_node U i) n t =
      (Inr (checkQuota delta (matchingQuotaStatuses (info_node U i) (quotaStatuses t)) n), t\<lparr>nodeCache := nc\<rparr>)"
    and d: "resources_ok B delta" "tracker_ok B (t\<lparr>nodeCache := nc\<rparr>)"
      "map_of nc (Id (qe_provider (quotas_at U calls)) ng) = Some delta"
    by (rule CheckQuota_ok [OF q ok n0 n(2)])
  have m: "m = AllowedDelta (checkQuota delta (matchingQuotaStatuses (info_node U i) (quotaStatuses (t\<lparr>nodeCache := nc\<rparr>))) n)"
    and t': "t' = t\<lparr>nodeCache := nc\<rparr>"
    using res i c by (auto simp: applyLimits_def)
  have hit: "map_of (nodeCache (t\<lparr>nodeCache := nc\<rparr>)) (Id (qe_provider (quotas_at U calls)) ng) = Some delta" using d(3) by simp
  have "0 \<le> m" "m \<le> n" using ConsumeQuota_allowed(1,2) [OF d(1,2) n0 n(2) hit m B] by simp_all
  then show ?thesis using d(2) t' i by (simp add: ghas_def)
qed

lemma plan_option_ok:
  assumes env: "in_plan_bounds U B" and ids: "\<And>calls. unique_ids (provider U calls)" and ok: "tracker_ok B (st_tracker st)"
    and n: "1 \<le> NodeCount best" and plan: "plan_option U args best st = Some (Inl plan, st')"
    and same: "NodeCount best * B < 2 ^ 63"
  shows "plan_ok U args (st_tracker st) plan st'"
proof -
  obtain m err where m: "GetCappedNewNodeCount U (NodeCount best) (int (length (ctx_nodes args))) = (m, err)" by (rule prod.exhaust)
  then have "err = None" using plan by (cases err) (auto simp: plan_option_def no_plan)
  with m have cap: "m \<le> NodeCount best" "1 \<le> m" "MaxNodesTotal (options U) > 0 \<longrightarrow> m + int (length (ctx_nodes args)) \<le> MaxNodesTotal (options U)"
    using GetCapped_spec [of U "NodeCount best" "int (length (ctx_nodes args))" m] n by simp_all
  obtain r t where r: "applyLimits U (st_calls st) m (Option_NodeGroup best) (st_infos st) (st_tracker st) = (r, t)" by (rule prod.exhaust)
  then obtain m' where m': "r = Inr m'" using plan m \<open>err = None\<close> by (cases r) (auto simp: plan_option_def no_plan)
  have "1 \<le> B" using env by (simp add: in_plan_bounds_def bounded_resources_def)
  then have "m * B \<le> NodeCount best * B" using cap(1) by simp
  then have mB: "m * B < 2 ^ 63" using same by linarith
  have lim: "0 \<le> m'" "m' \<le> m" "tracker_ok B t" "quotaStatuses t = quotaStatuses (st_tracker st)"
      "ghas (st_infos st) (Id (provider U (st_calls st)) (Option_NodeGroup best))"
    using applyLimits_spec [OF env ok cap(2) mB, of "st_calls st" "Option_NodeGroup best" "st_infos st" m' t] r m' by simp_all
  define st1 where "st1 = st\<lparr>st_tracker := t\<rparr>"
  have bound: "m' \<le> NodeCount best" "MaxNodesTotal (options U) > 0 \<longrightarrow> int (length (ctx_nodes args)) + max 0 m' \<le> MaxNodesTotal (options U)"
    using lim(1,2) cap by auto
  let ?ng = "Option_NodeGroup best"
  have step: "plan_option U args best st = (if m' < NodeCount best \<and> allOrNothing args then abortAllOrNothing U args st1
      else if \<not> Exist U (st_calls st) ?ng \<and> \<not> IsUpcoming (answers U (st_calls st)) ?ng then
        if allOrNothing args \<and> MaxSize (provider U (st_calls st)) ?ng < m' then abortAllOrNothing U args st1
        else Option.bind (CreateNodeGroup U (AsyncNodeGroupsEnabled (options U)) best st1) (\<lambda>(res, best', st2). case res of
            Inl outcome \<Rightarrow> Some (Inr outcome, st2)
          | Inr results \<Rightarrow> balance_plan U (args\<lparr>ctx_nodeGroups := appendCreatedNodeGroups (provider U (st_calls st2)) (ctx_nodeGroups args)
              (Id (provider U (st_calls st)) ?ng) results\<rparr>) best' m' results st2)
      else balance_plan U args best m' [] st1)"
    using m r m' \<open>err = None\<close> by (simp add: plan_option_def Let_def st1_def)
  have cont: "\<not> (m' < NodeCount best \<and> allOrNothing args)" using plan step by (auto simp: no_plan)
  then have full: "allOrNothing args \<longrightarrow> NodeCount best \<le> m'" by auto
  show ?thesis
  proof (cases "\<not> Exist U (st_calls st) (Option_NodeGroup best) \<and> \<not> IsUpcoming (answers U (st_calls st)) (Option_NodeGroup best)")
    case False
    have "balance_plan U args best m' [] st1 = Some (Inl plan, st')"
      using plan unfolding step if_not_P [OF cont] if_not_P [OF False] .
    then show ?thesis
      using balance_plan_ok [OF env _ _ _ bound(1) n same, of st1 "st_tracker st" args] ids lim bound(2) full by (simp add: st1_def)
  next
    case True
    have "Option.bind (CreateNodeGroup U (AsyncNodeGroupsEnabled (options U)) best st1) (\<lambda>(res, best', st2). case res of
            Inl outcome \<Rightarrow> Some (Inr outcome, st2)
          | Inr results \<Rightarrow> balance_plan U (args\<lparr>ctx_nodeGroups := appendCreatedNodeGroups (provider U (st_calls st2)) (ctx_nodeGroups args)
              (Id (provider U (st_calls st)) ?ng) results\<rparr>) best' m' results st2) = Some (Inl plan, st')"
      using plan unfolding step if_not_P [OF cont] if_P [OF True] by (simp add: no_plan split: if_splits)
    then obtain res best' st2 where c: "CreateNodeGroup U (AsyncNodeGroupsEnabled (options U)) best st1 = Some (res, best', st2)"
      and rest: "(case res of Inl outcome \<Rightarrow> Some (Inr outcome, st2)
          | Inr results \<Rightarrow> balance_plan U (args\<lparr>ctx_nodeGroups := appendCreatedNodeGroups (provider U (st_calls st2)) (ctx_nodeGroups args)
              (Id (provider U (st_calls st)) ?ng) results\<rparr>) best' m' results st2) = Some (Inl plan, st')"
      by (auto simp: bind_eq_Some_conv)
    then obtain results where create: "CreateNodeGroup U (AsyncNodeGroupsEnabled (options U)) best st1 = Some (Inr results, best', st2)"
      and bal: "balance_plan U (args\<lparr>ctx_nodeGroups := appendCreatedNodeGroups (provider U (st_calls st2)) (ctx_nodeGroups args)
        (Id (provider U (st_calls st)) ?ng) results\<rparr>) best' m' results st2 = Some (Inl plan, st')"
      by (cases res) auto
    note f = CreateNodeGroup_frame [OF create]
    have "plan_ok U (args\<lparr>ctx_nodeGroups := appendCreatedNodeGroups (provider U (st_calls st2)) (ctx_nodeGroups args)
        (Id (provider U (st_calls st)) (Option_NodeGroup best)) results\<rparr>) (st_tracker st) plan st'"
      by (rule balance_plan_ok [OF env ids _ _ _ _ _ _ _ _ bal])
        (use f lim bound full n same in \<open>auto simp: st1_def\<close>)
    then show ?thesis by (simp add: plan_ok_def Let_def)
  qed
qed


lemma plan_within_limits:
  fixes U :: "('g, 'i, 'p) su_env"
  assumes "in_plan_bounds U B" and "\<And>calls. unique_ids (provider U calls)" and "tracker_ok B (st_tracker st)"
    and "\<And>opts infos best. BestOption U opts infos = Some best \<Longrightarrow> NodeCount best * B < 2 ^ 63"
    and "prepareScaleUp U args st = Some (Inl plan, st')"
  shows "plan_ok U args (st_tracker st) plan st'"
proof -
  obtain st1 opts best where st1: "schedule_groups U (validNodeGroups args) (st\<lparr>st_schedulable := []\<rparr>) = Some st1"
    and best: "BestOption U opts (st_infos st1) = Some best" "1 \<le> NodeCount best" "plan_option U args best st1 = Some (Inl plan, st')"
    using assms(5) by (auto simp: prepareScaleUp_def bind_eq_Some_conv no_plan split: if_splits option.splits)
  have t: "st_tracker st1 = st_tracker st" using schedule_groups_frame [OF st1] by simp
  show ?thesis
    using plan_option_ok [OF assms(1,2) _ best(2,3) assms(4) [OF best(1)]] assms(3) unfolding t .
qed

section \<open>Properties\<close>

text \<open>
  C4. A scale-up plan keeps all limits at once. Whatever option the expander takes, whether or not the
  group has to be created first: every group of the plan appears once, has a template and grows from its present size
  to at most its maximal size; the plan adds no more nodes than the option asks for and keeps the
  cluster-wide maximum of nodes; every resource quota has room for what the plan adds, summed over
  all groups; and an all-or-nothing request is planned completely.
\<close>

theorem scale_up_plan_within_limits:
  fixes U :: "('g, 'i, 'p) su_env"
  assumes "in_plan_bounds U B" and "\<And>calls. unique_ids (provider U calls)" and "tracker_ok B (st_tracker st)"
    and "\<And>opts infos best. BestOption U opts infos = Some best \<Longrightarrow> NodeCount best * B < 2 ^ 63"
    and "prepareScaleUp U args st = Some (Inl plan, st')"
  shows "plan_ok U args (st_tracker st) plan st'"
  by (rule plan_within_limits [OF assms])

text \<open>
  Two groups of one node each that are being created; five nodes are asked for, the quota of 11 cores
  left has room for two nodes of 4 cores.
\<close>

definition demo_services :: "nat csr_env" where
  "demo_services = \<lparr>cloudProvider = qe_provider demo_quota_env, IsUpcoming = (\<lambda>_. True), GetMaxNodeProvisionTime = (\<lambda>_. Inr 1),
     GetMaxNodeStartupTime = (\<lambda>_. Inr 1), has_template = (\<lambda>_. False), DecreaseTargetSize = (\<lambda>_ _. None), range_codes = (\<lambda>xs. xs)\<rparr>"

definition demo_su_env :: "(nat, node, nat) su_env" where
  "demo_su_env = \<lparr>options = \<lparr>MaxNodesTotal = 20, BalanceSimilarNodeGroups = True, ParallelScaleUp = False, AsyncNodeGroupsEnabled = False,
       ScaleUpSimulationForSkippedNodeGroupsEnabled = False\<rparr>,
     answers = (\<lambda>_. demo_services), Exist = (\<lambda>_ _. False), GetOptions = (\<lambda>_. None), quota_services = demo_quota_env,
     quota_provider = Inr [demo_quota], info_node = (\<lambda>n. n), similar_infos = (\<lambda>_ _. True), sort_infos = sort_key CurrentSize,
     AddNodeInfo_fails = (\<lambda>_. False), CheckPredicates = (\<lambda>_ _. None), Estimate = (\<lambda>_ _ groups _ _. (5, concat groups)),
     BestOption = (\<lambda>opts _. if NodeCount (opts ! 0) \<le> 5 then Some (opts ! 0) else None), StopBinpacking = (\<lambda>_ _. False),
     NodeGroupListProcessor = None, CreateGroup = (\<lambda>_ _ _. Inl (PlainError 0 [])), SanitizedTemplate = (\<lambda>_. Inl (PlainError 0 [])),
     IncreaseSize = (\<lambda>_ _ _. None), AtomicIncreaseSize = (\<lambda>_ _ _. Some ErrNotImplemented_value), Now = (\<lambda>_. 0), quote = (\<lambda>s. s)\<rparr>"

definition demo_su_args :: "(nat, nat) scaleUpCtx" where
  "demo_su_args = \<lparr>validNodeGroups = [0, 1], ctx_nodes = [demo_quota_node], unschedulablePods = [0], allOrNothing = False, ctx_now = 0,
     ctx_nodeGroups = [0, 1], skippedNodeGroups = []\<rparr>"

definition demo_su_state :: "(nat, node, nat) su_state" where
  "demo_su_state = \<lparr>st_egs = [\<lparr>Pods = [0], SchedulingErrors = [], SchedulableGroups = [], Schedulable = False\<rparr>],
     st_infos = [(''a'', demo_quota_node), (''b'', demo_quota_node)], st_schedulable = [], st_tracker = demo_tracker,
     st_csr = NewClusterStateRegistry \<lparr>MaxTotalUnreadyPercentage = 0, OkTotalUnreadyCount = 0\<rparr>
       (NewExponentialBackoff 1 1 1 (\<lambda>_. [])) [], st_calls = []\<rparr>"

lemma demo_env_ok:
  "in_plan_bounds demo_su_env 16" "unique_ids (provider demo_su_env calls)" "tracker_ok 16 (st_tracker demo_su_state)"
  using demo_bounded
  by (simp_all add: in_plan_bounds_def no_resource_errors_def sort_ok_def unique_ids_def demo_su_env_def demo_services_def demo_quota_env_def
      tracker_ok_def demo_su_state_def demo_tracker_def left_ok_def resources_ok_def gm_wf_def)


lemma demo_best_bounded:
  "BestOption demo_su_env opts infos = Some best \<Longrightarrow> NodeCount best * 16 < 2 ^ 63"
  by (auto simp: demo_su_env_def split: if_splits)

lemma demo_plan:
  "case prepareScaleUp demo_su_env demo_su_args demo_su_state of
     Some (Inl plan, st') \<Rightarrow> map (\<lambda>x. (su_Group x, CurrentSize x, NewSize x)) (scaleUpInfos plan) = [(0, 1, 2), (1, 1, 2)]
   | _ \<Rightarrow> False"
  by code_simp

theorem scale_up_plan_within_limits_witness:
  "\<exists>plan st'. prepareScaleUp demo_su_env demo_su_args demo_su_state = Some (Inl plan, st') \<and>
     total_capacity (scaleUpInfos plan) = 2 \<and> plan_ok demo_su_env demo_su_args demo_tracker plan st'"
proof -
  obtain plan st' where p: "prepareScaleUp demo_su_env demo_su_args demo_su_state = Some (Inl plan, st')"
    and infos: "map (\<lambda>x. (su_Group x, CurrentSize x, NewSize x)) (scaleUpInfos plan) = [(0, 1, 2), (1, 1, 2)]"
    using demo_plan by (fastforce split: option.splits prod.splits sum.splits)
  have "plan_ok demo_su_env demo_su_args (st_tracker demo_su_state) plan st'"
    by (rule scale_up_plan_within_limits [OF demo_env_ok(1,2,3) demo_best_bounded p])
  moreover have "total_capacity (scaleUpInfos plan) = 2"
    using infos by (auto simp: total_capacity_sum map_eq_Cons_conv)
  ultimately show ?thesis using p by (auto simp: demo_su_state_def)
qed

end
