(* ===== verification/Scale_Up_Execution.thy ===== *)
theory Scale_Up_Execution
  imports Scale_Up_Plan
begin

text \<open>
  Executing a scale-up plan (src/pkg/core/scaleup/orchestrator/executor.go): one call to the provider per node
  group, its registration with the observers, one group after the other or one goroutine per group.

  The state is the registry with the history of calls to the provider (\<open>world\<close>). Goroutines are threads that
  a schedule interleaves at the calls to the provider, the notification (which the notifier serialises with its
  mutex) and the write to the channel of errors. \<open>tie\<close> is the order \<open>sort.Slice\<close> gives equal errors. Events,
  metrics and logs are left out.
\<close>

type_synonym 'g world = "'g ClusterStateRegistry \<times> 'g call list"

section \<open>One group\<close>

definition increase_of :: "'g ScaleUpInfo \<Rightarrow> int" where
  "increase_of info = NewSize info - CurrentSize info"

definition increaseSize :: "('g, 'i, 'p) su_env \<Rightarrow> 'g \<Rightarrow> int \<Rightarrow> bool \<Rightarrow> 'g call list \<Rightarrow> go_error option \<times> 'g call list" where
  "increaseSize U nodeGroup increase atomic calls =
     (if atomic then
        (let err = AtomicIncreaseSize U calls nodeGroup increase; calls = calls @ [Call_AtomicIncreaseSize nodeGroup increase] in
         if err \<noteq> Some ErrNotImplemented_value then (err, calls)
         else (IncreaseSize U calls nodeGroup increase, calls @ [Call_IncreaseSize nodeGroup increase]))
      else (IncreaseSize U calls nodeGroup increase, calls @ [Call_IncreaseSize nodeGroup increase]))"

text \<open>The part of \<open>executeScaleUp\<close> after the call to the provider.\<close>

definition register_scale_up :: "('g, 'i, 'p) su_env \<Rightarrow> 'g ScaleUpInfo \<Rightarrow> time \<Rightarrow> go_error option \<Rightarrow> 'g world \<Rightarrow> go_error option \<times> 'g world" where
  "register_scale_up U info now result w =
     (let (csr, calls) = w; nodeGroup = su_Group info; increase = increase_of info in
      case result of
        Some err \<Rightarrow>
          (let aerr = AddPrefix ''failed to increase node group size: '' (ToAutoscalerError CloudProviderError err) in
           (Some aerr, notifier_RegisterFailedScaleUp (answers U calls) nodeGroup increase
              \<lparr>ErrorClass = OtherErrorClass, ErrorCode = Type aerr, ErrorMessage = Error aerr\<rparr> now csr, calls))
      | None \<Rightarrow>
          if increase < 0 then
            (Some (NewAutoscalerError InternalError (''increase in number of nodes cannot be negative, got: '' @ Sprint_int increase)), w)
          else if \<not> Exist U calls nodeGroup \<and> IsUpcoming (answers U calls) nodeGroup then (None, w)
          else (None, notifier_RegisterScaleUp (answers U calls) nodeGroup increase (Now U calls) csr, calls))"

definition executeScaleUp :: "('g, 'i, 'p) su_env \<Rightarrow> 'g ScaleUpInfo \<Rightarrow> time \<Rightarrow> bool \<Rightarrow> 'g world \<Rightarrow> go_error option \<times> 'g world" where
  "executeScaleUp U info now atomic w =
     (let (result, calls) = increaseSize U (su_Group info) (increase_of info) atomic (snd w)
      in register_scale_up U info now result (fst w, calls))"

section \<open>One group after the other\<close>

fun executeScaleUpsSync :: "('g, 'i, 'p) su_env \<Rightarrow> (string, 'i) gmap \<Rightarrow> time \<Rightarrow> bool \<Rightarrow> 'g ScaleUpInfo list \<Rightarrow> 'g world \<Rightarrow>
    (go_error option \<times> 'g list) \<times> 'g world" where
  "executeScaleUpsSync U nodeInfos now atomic [] w = ((None, []), w)"
| "executeScaleUpsSync U nodeInfos now atomic (info # infos) w =
     (if \<not> ghas nodeInfos (Id (provider U (snd w)) (su_Group info)) then executeScaleUpsSync U nodeInfos now atomic infos w
      else case executeScaleUp U info now atomic w of
          (Some aErr, w') \<Rightarrow> ((Some aErr, [su_Group info]), w')
        | (None, w') \<Rightarrow> executeScaleUpsSync U nodeInfos now atomic infos w')"

section \<open>One goroutine per group\<close>

fun unique_loop :: "('g \<Rightarrow> string) \<Rightarrow> (string, bool) gmap \<Rightarrow> 'g ScaleUpInfo list \<Rightarrow> go_error option" where
  "unique_loop ident uniqueGroups [] = None"
| "unique_loop ident uniqueGroups (info # infos) =
     (if gget False uniqueGroups (ident (su_Group info)) then
        Some (NewAutoscalerError InternalError (''assertion failure: detected group double scaling: '' @ ident (su_Group info)))
      else unique_loop ident (gput (ident (su_Group info)) True uniqueGroups) infos)"

definition checkUniqueNodeGroups :: "('g \<Rightarrow> string) \<Rightarrow> 'g ScaleUpInfo list \<Rightarrow> go_error option" where
  "checkUniqueNodeGroups ident infos = unique_loop ident [] infos"

definition extractNodeGroups :: "'g ScaleUpInfo list \<Rightarrow> 'g list" where
  "extractNodeGroups infos = map su_Group infos"

datatype thread = Waiting | TriedAtomic | Increased "go_error option" | Failing go_error | Finished

record 'g par_state =
  threads :: "thread list"
  par_world :: "'g world"
  errResults :: "(go_error \<times> 'g ScaleUpInfo) list"

definition thread_step :: "('g, 'i, 'p) su_env \<Rightarrow> (string, 'i) gmap \<Rightarrow> time \<Rightarrow> bool \<Rightarrow> 'g ScaleUpInfo \<Rightarrow> thread \<Rightarrow> 'g world \<Rightarrow>
    thread \<times> 'g world \<times> go_error option" where
  "thread_step U nodeInfos now atomic info th w =
     (let (csr, calls) = w; nodeGroup = su_Group info; increase = increase_of info;
          plain = (Increased (IncreaseSize U calls nodeGroup increase), (csr, calls @ [Call_IncreaseSize nodeGroup increase]), None) in
      case th of
        Waiting \<Rightarrow>
          if \<not> ghas nodeInfos (Id (provider U calls) nodeGroup) then (Finished, w, None)
          else if atomic then
            (let err = AtomicIncreaseSize U calls nodeGroup increase
             in (if err \<noteq> Some ErrNotImplemented_value then Increased err else TriedAtomic,
                 (csr, calls @ [Call_AtomicIncreaseSize nodeGroup increase]), None))
          else plain
      | TriedAtomic \<Rightarrow> plain
      | Increased result \<Rightarrow>
          (case register_scale_up U info now result w of
             (None, w') \<Rightarrow> (Finished, w', None)
           | (Some aErr, w') \<Rightarrow> (Failing aErr, w', None))
      | Failing aErr \<Rightarrow> (Finished, w, Some aErr)
      | Finished \<Rightarrow> (Finished, w, None))"

definition par_step :: "('g, 'i, 'p) su_env \<Rightarrow> (string, 'i) gmap \<Rightarrow> time \<Rightarrow> bool \<Rightarrow> 'g ScaleUpInfo list \<Rightarrow> nat \<Rightarrow> 'g par_state \<Rightarrow> 'g par_state" where
  "par_step U nodeInfos now atomic infos i s =
     (if i < length infos then
        (let (th, w, sent) = thread_step U nodeInfos now atomic (infos ! i) (threads s ! i) (par_world s)
         in \<lparr>threads = (threads s)[i := th], par_world = w,
             errResults = errResults s @ (case sent of None \<Rightarrow> [] | Some aErr \<Rightarrow> [(aErr, infos ! i)])\<rparr>)
      else s)"

definition par_run :: "('g, 'i, 'p) su_env \<Rightarrow> (string, 'i) gmap \<Rightarrow> time \<Rightarrow> bool \<Rightarrow> 'g ScaleUpInfo list \<Rightarrow> nat list \<Rightarrow> 'g par_state \<Rightarrow> 'g par_state" where
  "par_run U nodeInfos now atomic infos schedule s = fold (par_step U nodeInfos now atomic infos) schedule s"

text \<open>\<open>None\<close>: some goroutine has not finished, \<open>wg.Wait\<close> has not returned.\<close>

definition executeScaleUpsParallel :: "('g, 'i, 'p) su_env \<Rightarrow> (go_error list \<Rightarrow> go_error list) \<Rightarrow> nat list \<Rightarrow> (string, 'i) gmap \<Rightarrow> time \<Rightarrow> bool \<Rightarrow>
    'g ScaleUpInfo list \<Rightarrow> 'g world \<Rightarrow> ((go_error option \<times> 'g list) \<times> 'g world) option" where
  "executeScaleUpsParallel U tie schedule nodeInfos now atomic infos w =
     (case checkUniqueNodeGroups (Id (provider U (snd w))) infos of
        Some err \<Rightarrow> Some ((Some err, extractNodeGroups infos), w)
      | None \<Rightarrow>
          (let s = par_run U nodeInfos now atomic infos schedule
                 \<lparr>threads = replicate (length infos) Waiting, par_world = w, errResults = []\<rparr>;
               results = errResults s in
           if list_all (\<lambda>th. th = Finished) (threads s) then
             Some (if length results > 0 then (Combine (quote U) tie (map fst results), map (\<lambda>r. su_Group (snd r)) results) else (None, []),
                   par_world s)
           else None))"

definition ExecuteScaleUps :: "('g, 'i, 'p) su_env \<Rightarrow> (go_error list \<Rightarrow> go_error list) \<Rightarrow> nat list \<Rightarrow> (string, 'i) gmap \<Rightarrow> time \<Rightarrow> bool \<Rightarrow>
    'g ScaleUpInfo list \<Rightarrow> 'g world \<Rightarrow> ((go_error option \<times> 'g list) \<times> 'g world) option" where
  "ExecuteScaleUps U tie schedule nodeInfos now atomic infos w =
     (if ParallelScaleUp (options U) then executeScaleUpsParallel U tie schedule nodeInfos now atomic infos w
      else Some (executeScaleUpsSync U nodeInfos now atomic infos w))"

section \<open>The whole operation\<close>

definition buildFailedGroupsMap :: "('g, 'i, 'p) su_env \<Rightarrow> 'g call list \<Rightarrow> 'g list \<Rightarrow> 'g ScaleUpInfo list \<Rightarrow> (string, bool) gmap" where
  "buildFailedGroupsMap U calls failedNodeGroups infos =
     (let ident = Id (provider U calls); failed = foldl (\<lambda>m ng. gput (ident ng) True m) [] failedNodeGroups in
      if \<not> ParallelScaleUp (options U) \<and> length failedNodeGroups = 1 then
        (case dropWhile (\<lambda>sui. ident (su_Group sui) \<noteq> ident (failedNodeGroups ! 0)) infos of
           [] \<Rightarrow> failed
         | _ # rest \<Rightarrow> foldl (\<lambda>m sui. gput (ident (su_Group sui)) True m) failed rest)
      else failed)"

text \<open>
  \<open>ScaleUp\<close>. The pod groups, the templates and the provider's answers are those of the environment; the
  quotas tracker is built from the nodes of the cluster. \<open>InitBinpacking\<close> and \<open>MarkProcessed\<close> belong to the
  limiter, which sees the processed groups as an argument (\<open>StopBinpacking\<close>).
\<close>

definition early_error :: "('g, 'i, 'p) su_env \<Rightarrow> 'g list \<Rightarrow> (string, 'i) gmap \<Rightarrow> go_error \<Rightarrow> ('g, 'i, 'p) su_state \<Rightarrow>
    (('g, 'p) outcome \<times> ('g, 'i, 'p) su_state) option" where
  "early_error U nodeGroups nodeInfos err st = do {
     let st = st\<lparr>st_egs := markAllGroupsAsUnschedulable (st_egs st) ScaleUpExecutionErrorReason\<rparr>;
     remaining \<leftarrow> GetRemainingPods U (st_calls st) (st_egs st) nodeGroups [] nodeInfos;
     Some (UpdateScaleUpError (zero_ScaleUpStatus\<lparr>PodsRemainUnschedulable := remaining\<rparr>) err, st)
   }"

definition finishScaleUp :: "('g, 'i, 'p) su_env \<Rightarrow> ('g, 'p) scaleUpCtx \<Rightarrow> ('g, 'p) scaleUpPlan \<Rightarrow> go_error option \<Rightarrow> 'g list \<Rightarrow>
    ('g, 'i, 'p) su_state \<Rightarrow> (('g, 'p) outcome \<times> ('g, 'i, 'p) su_state) option" where
  "finishScaleUp U args plan result failedNodeGroups st =
     (case result of
        Some aErr \<Rightarrow> do {
          let failedGroupsMap = buildFailedGroupsMap U (st_calls st) failedNodeGroups (scaleUpInfos plan);
          let st = st\<lparr>st_egs := markFailedGroupsAsUnschedulable (st_egs st) failedGroupsMap ScaleUpExecutionErrorReason\<rparr>;
          remaining \<leftarrow> GetRemainingPods U (st_calls st) (st_egs st) (plan_nodeGroups plan) (skippedNodeGroups args) (st_infos st);
          Some (UpdateScaleUpError (zero_ScaleUpStatus\<lparr>CreateNodeGroupResults := createNodeGroupResults plan,
            FailedResizeNodeGroups := failedNodeGroups, PodsTriggeredScaleUp := Option_Pods (bestOption plan),
            PodsRemainUnschedulable := remaining\<rparr>) aErr, st)
        }
      | None \<Rightarrow> do {
          let st = st\<lparr>st_csr := Recalculate (answers U (st_calls st)) (st_csr st)\<rparr>;
          remaining \<leftarrow> GetRemainingPods U (st_calls st) (st_egs st) (plan_nodeGroups plan) (skippedNodeGroups args) (st_infos st);
          Some ((zero_ScaleUpStatus\<lparr>Result := ScaleUpSuccessful, ScaleUpInfos := scaleUpInfos plan, PodsRemainUnschedulable := remaining,
            ConsideredNodeGroups := plan_nodeGroups plan, CreateNodeGroupResults := createNodeGroupResults plan,
            PodsTriggeredScaleUp := Option_Pods (bestOption plan), PodsAwaitEvaluation :=
              GetPodsAwaitingEvaluation (st_egs st) (Id (provider U (st_calls st)) (Option_NodeGroup (bestOption plan)))\<rparr>, None), st)
        })"

definition executePlan :: "('g, 'i, 'p) su_env \<Rightarrow> (go_error list \<Rightarrow> go_error list) \<Rightarrow> nat list \<Rightarrow> ('g, 'p) scaleUpCtx \<Rightarrow> ('g, 'p) scaleUpPlan \<Rightarrow>
    ('g, 'i, 'p) su_state \<Rightarrow> (('g, 'p) outcome \<times> ('g, 'i, 'p) su_state) option" where
  "executePlan U tie schedule args plan st = do {
     ((result, failedNodeGroups), csr, calls) \<leftarrow>
       ExecuteScaleUps U tie schedule (st_infos st) (ctx_now args) (allOrNothing args) (scaleUpInfos plan) (st_csr st, st_calls st);
     finishScaleUp U args plan result failedNodeGroups (st\<lparr>st_csr := csr, st_calls := calls\<rparr>)
   }"


text \<open>
  \<open>ScaleUp\<close> of an initialised orchestrator: pod groups, node groups and templates (through the list processor),
  a fresh quotas tracker, the plan and its execution.
\<close>

definition scaleUp_planned :: "('g, 'i, 'p) su_env \<Rightarrow> (go_error list \<Rightarrow> go_error list) \<Rightarrow> nat list \<Rightarrow> 'g list \<Rightarrow> 'p list \<Rightarrow> node list \<Rightarrow> bool \<Rightarrow>
    ('g, 'i, 'p) su_state \<Rightarrow> (('g, 'p) outcome \<times> ('g, 'i, 'p) su_state) option" where
  "scaleUp_planned U tie schedule nodeGroups pods nodes all_pods st =
     (let now = Now U (st_calls st);
          (valid, skipped, t) = filterValidScaleUpNodeGroups U (st_calls st) (st_infos st) (int (length nodes)) now (st_csr st)
             nodeGroups [] [] (st_tracker st);
          args = \<lparr>validNodeGroups = valid, ctx_nodes = nodes, unschedulablePods = pods, allOrNothing = all_pods, ctx_now = now,
             ctx_nodeGroups = nodeGroups, skippedNodeGroups = skipped\<rparr> in
      Option.bind (prepareScaleUp U args (st\<lparr>st_tracker := t\<rparr>)) (\<lambda>(res, st1). case res of
          Inr outcome \<Rightarrow> Some (outcome, st1)
        | Inl plan \<Rightarrow> executePlan U tie schedule args plan st1))"

definition ScaleUp :: "('g, 'i, 'p) su_env \<Rightarrow> (go_error list \<Rightarrow> go_error list) \<Rightarrow> nat list \<Rightarrow> ('r pod_spec \<Rightarrow> 'r pod_spec \<Rightarrow> bool) \<Rightarrow> bool \<Rightarrow>
    'p list \<Rightarrow> ('p, 'r) pod_store \<Rightarrow> node list \<Rightarrow> (string, 'i) gmap \<Rightarrow> bool \<Rightarrow> 'g world \<Rightarrow>
    (('g, 'p) outcome \<times> ('g, 'i, 'p) su_state) option" where
  "ScaleUp U tie schedule DeepEqual initialized pods h nodes nodeInfos all_pods w =
     (let (csr, calls) = w; egs = fst (BuildPodGroups DeepEqual pods h); nodeGroups = NodeGroups (provider U calls);
          st = \<lparr>st_egs = egs, st_infos = nodeInfos, st_schedulable = [], st_tracker = \<lparr>quotaStatuses = [], nodeCache = []\<rparr>, st_csr = csr,
            st_calls = calls\<rparr> in
      if \<not> initialized then
        Some (UpdateScaleUpError zero_ScaleUpStatus (NewAutoscalerError InternalError ''ScaleUpOrchestrator is not initialized''), st)
      else case UpcomingNodes U calls nodeInfos csr of
          Inl aErr \<Rightarrow> early_error U nodeGroups nodeInfos (AddPrefix ''could not get upcoming nodes: '' aErr) st
        | Inr upcomingNodes \<Rightarrow>
            (case (case NodeGroupListProcessor U of None \<Rightarrow> Inr (nodeGroups, nodeInfos) | Some process \<Rightarrow> process nodeGroups nodeInfos pods) of
               Inl err \<Rightarrow> early_error U [] [] (ToAutoscalerError InternalError err) st
             | Inr (nodeGroups, nodeInfos) \<Rightarrow>
                 (case NewMaxQuotasTracker (quotas_at U calls) (quota_provider U) nodes of
                    Inl err \<Rightarrow> early_error U nodeGroups nodeInfos (AddPrefix ''could not create quotas tracker: ''
                      (ToAutoscalerError InternalError (quota_error_value (quote U) err))) (st\<lparr>st_infos := nodeInfos\<rparr>)
                  | Inr tracker \<Rightarrow> scaleUp_planned U tie schedule nodeGroups pods nodes all_pods
                      (st\<lparr>st_infos := nodeInfos, st_tracker := tracker\<rparr>))))"

section \<open>Groups below their minimal size\<close>

fun minSize_loop :: "('g, 'i, 'p) su_env \<Rightarrow> 'g call list \<Rightarrow> (string, 'i) gmap \<Rightarrow> time \<Rightarrow> 'g ClusterStateRegistry \<Rightarrow> 'g list \<Rightarrow> Tracker \<Rightarrow>
    'g ScaleUpInfo list" where
  "minSize_loop U calls nodeInfos now csr [] tracker = []"
| "minSize_loop U calls nodeInfos now csr (ng # nodeGroups) tracker =
     (let skip = minSize_loop U calls nodeInfos now csr nodeGroups; cp = provider U calls in
      if \<not> Exist U calls ng then skip tracker
      else case TargetSize cp ng of
          (_, Some err) \<Rightarrow> skip tracker
        | (targetSize, None) \<Rightarrow>
            if targetSize \<ge> MinSize cp ng then skip tracker
            else if IsNodeGroupReadyToScaleUp U calls ng now csr \<noteq> None then skip tracker
            else case map_of nodeInfos (Id cp ng) of
                None \<Rightarrow> skip tracker
              | Some nodeInfo \<Rightarrow>
                  (case IsNodeGroupResourceExceeded U calls ng nodeInfo 1 tracker of
                     (Some skipReason, t) \<Rightarrow> skip t
                   | (None, t) \<Rightarrow>
                       (case CheckQuota (quotas_at U calls) (Some ng) (info_node U nodeInfo) (MinSize cp ng - targetSize) t of
                          (Inl err, t) \<Rightarrow> skip t
                        | (Inr checkResult, t) \<Rightarrow>
                            (case GetCappedNewNodeCount U (AllowedDelta checkResult) targetSize of
                               (_, Some err) \<Rightarrow> skip t
                             | (newNodeCount, None) \<Rightarrow>
                                 \<lparr>su_Group = ng, CurrentSize = targetSize, NewSize = targetSize + newNodeCount,
                                   su_MaxSize = MaxSize cp ng\<rparr> # skip t))))"

definition ScaleUpToNodeGroupMinSize :: "('g, 'i, 'p) su_env \<Rightarrow> (go_error list \<Rightarrow> go_error list) \<Rightarrow> nat list \<Rightarrow> bool \<Rightarrow> node list \<Rightarrow>
    (string, 'i) gmap \<Rightarrow> 'g world \<Rightarrow> (('g, 'p) outcome \<times> 'g world) option" where
  "ScaleUpToNodeGroupMinSize U tie schedule initialized nodes nodeInfos w =
     (let (csr, calls) = w; now = Now U calls; nodeGroups = NodeGroups (provider U calls) in
      if \<not> initialized then
        Some (UpdateScaleUpError zero_ScaleUpStatus (NewAutoscalerError InternalError ''ScaleUpOrchestrator is not initialized''), w)
      else case NewMaxQuotasTracker (quotas_at U calls) (quota_provider U) nodes of
          Inl err \<Rightarrow> Some (UpdateScaleUpError zero_ScaleUpStatus (AddPrefix ''could not create quotas tracker: ''
              (ToAutoscalerError InternalError (quota_error_value (quote U) err))), w)
        | Inr tracker \<Rightarrow>
            (let infos = minSize_loop U calls nodeInfos now csr nodeGroups tracker in
             if length infos = 0 then Some ((zero_ScaleUpStatus\<lparr>Result := ScaleUpNotNeeded\<rparr>, None), w)
             else Option.bind (ExecuteScaleUps U tie schedule nodeInfos now False infos w) (\<lambda>((result, failedNodeGroups), csr, calls).
               case result of
                 Some aErr \<Rightarrow> Some (UpdateScaleUpError (zero_ScaleUpStatus\<lparr>FailedResizeNodeGroups := failedNodeGroups\<rparr>) aErr, csr, calls)
               | None \<Rightarrow> Some ((zero_ScaleUpStatus\<lparr>Result := ScaleUpSuccessful, ScaleUpInfos := infos, ConsideredNodeGroups := nodeGroups\<rparr>, None),
                   Recalculate (answers U calls) csr, calls))))"

end
