(* ===== verification/Scale_Up_Execution_Props.thy ===== *)
theory Scale_Up_Execution_Props
  imports Cluster_State_Props Scale_Up_Execution
begin

text \<open>
  Correctness of executing a scale-up plan: what is asked of the provider, which requests the registry holds
  afterwards, which groups are backed off and reported, for both modes and every interleaving; and that the
  goroutines of the parallel mode finish.
\<close>

section \<open>What one group does on its own\<close>

fun call_group :: "'g call \<Rightarrow> 'g" where
  "call_group (Call_IncreaseSize g n) = g"
| "call_group (Call_AtomicIncreaseSize g n) = g"
| "call_group (Call_CreateNodeGroup g) = g"

definition group_calls :: "'g \<Rightarrow> 'g call list \<Rightarrow> 'g call list" where
  "group_calls g calls = filter (\<lambda>c. call_group c = g) calls"

lemma group_calls_append [simp]: "group_calls g (xs @ ys) = group_calls g xs @ group_calls g ys"
  by (simp add: group_calls_def)

text \<open>
  What the executor relies on: the answers for a group depend on the calls made for this group only, ids and
  templates stay, and the provision time of every group is known.
\<close>

definition steady :: "('g, 'i, 'p) su_env \<Rightarrow> bool" where
  "steady U \<longleftrightarrow>
     (\<forall>calls g n. IncreaseSize U calls g n = IncreaseSize U (group_calls g calls) g n \<and>
        AtomicIncreaseSize U calls g n = AtomicIncreaseSize U (group_calls g calls) g n) \<and>
     (\<forall>calls g. Exist U calls g = Exist U (group_calls g calls) g \<and>
        IsUpcoming (answers U calls) g = IsUpcoming (answers U (group_calls g calls)) g) \<and>
     (\<forall>calls. Id (provider U calls) = Id (provider U []) \<and> has_template (answers U calls) = has_template (answers U []) \<and>
        (\<forall>g. \<not> isl (GetMaxNodeProvisionTime (answers U calls) g)))"

definition made_calls :: "('g, 'i, 'p) su_env \<Rightarrow> bool \<Rightarrow> 'g call list \<Rightarrow> 'g ScaleUpInfo \<Rightarrow> 'g call list" where
  "made_calls U atomic calls info =
     (let g = su_Group info; n = increase_of info in
      if atomic then Call_AtomicIncreaseSize g n #
        (if AtomicIncreaseSize U calls g n = Some ErrNotImplemented_value then [Call_IncreaseSize g n] else [])
      else [Call_IncreaseSize g n])"

definition own_result :: "('g, 'i, 'p) su_env \<Rightarrow> bool \<Rightarrow> 'g call list \<Rightarrow> 'g ScaleUpInfo \<Rightarrow> go_error option" where
  "own_result U atomic calls info = fst (increaseSize U (su_Group info) (increase_of info) atomic calls)"

definition own_error :: "('g, 'i, 'p) su_env \<Rightarrow> bool \<Rightarrow> 'g call list \<Rightarrow> 'g ScaleUpInfo \<Rightarrow> go_error option" where
  "own_error U atomic calls info =
     (case own_result U atomic calls info of
        Some err \<Rightarrow> Some (AddPrefix ''failed to increase node group size: '' (ToAutoscalerError CloudProviderError err))
      | None \<Rightarrow> if increase_of info < 0
          then Some (NewAutoscalerError InternalError (''increase in number of nodes cannot be negative, got: '' @ Sprint_int (increase_of info)))
          else None)"

definition registered :: "('g, 'i, 'p) su_env \<Rightarrow> bool \<Rightarrow> 'g call list \<Rightarrow> 'g ScaleUpInfo \<Rightarrow> bool" where
  "registered U atomic calls info \<longleftrightarrow> own_error U atomic calls info = None \<and>
     (let calls' = calls @ made_calls U atomic calls info
      in Exist U calls' (su_Group info) \<or> \<not> IsUpcoming (answers U calls') (su_Group info))"

lemma increaseSize_calls: "snd (increaseSize U (su_Group info) (increase_of info) atomic calls) = calls @ made_calls U atomic calls info"
  by (simp add: increaseSize_def made_calls_def Let_def)

lemma group_calls_made [simp]:
  "group_calls (su_Group info) (made_calls U atomic calls info) = made_calls U atomic calls info"
  "g \<noteq> su_Group info \<Longrightarrow> group_calls g (made_calls U atomic calls info) = []"
  by (simp_all add: group_calls_def made_calls_def Let_def)

lemma steadyD:
  assumes "steady U"
  shows "group_calls g c = group_calls g c' \<Longrightarrow> IncreaseSize U c g n = IncreaseSize U c' g n"
    "group_calls g c = group_calls g c' \<Longrightarrow> AtomicIncreaseSize U c g n = AtomicIncreaseSize U c' g n"
    "group_calls g c = group_calls g c' \<Longrightarrow> Exist U c g = Exist U c' g"
    "group_calls g c = group_calls g c' \<Longrightarrow> IsUpcoming (answers U c) g = IsUpcoming (answers U c') g"
    "Id (provider U c) = Id (provider U [])" "has_template (answers U c) = has_template (answers U [])"
    "\<exists>d. GetMaxNodeProvisionTime (answers U c) g = Inr d"
  using assms unfolding steady_def by (metis, metis, metis, metis, metis, metis, metis Inr_Inl_False sum.collapse(2))

text \<open>The outcome of a group depends on the calls made for it only.\<close>

lemma own_cong:
  assumes "steady U" and "group_calls (su_Group info) c = group_calls (su_Group info) c'"
  shows "made_calls U atomic c info = made_calls U atomic c' info" "own_result U atomic c info = own_result U atomic c' info"
    "own_error U atomic c info = own_error U atomic c' info" "registered U atomic c info = registered U atomic c' info"
proof -
  note s = steadyD [OF assms(1)]
  show m: "made_calls U atomic c info = made_calls U atomic c' info"
    using s(2) [OF assms(2)] by (simp add: made_calls_def Let_def)
  have app: "group_calls (su_Group info) (c @ xs) = group_calls (su_Group info) (c' @ xs)" for xs using assms(2) by simp
  show r: "own_result U atomic c info = own_result U atomic c' info"
    using s(1) [OF assms(2)] s(1) [OF app] s(2) [OF assms(2)] by (simp add: own_result_def increaseSize_def Let_def)
  show e: "own_error U atomic c info = own_error U atomic c' info" by (simp add: own_error_def r)
  show "registered U atomic c info = registered U atomic c' info"
    using s(3) [OF app] s(4) [OF app] by (simp add: registered_def e m Let_def)
qed

section \<open>Registration\<close>

text \<open>The registry is one of the observers, once.\<close>

definition notified :: "'g ClusterStateRegistry \<Rightarrow> bool" where
  "notified csr \<longleftrightarrow> count_list (observers csr) Obs_ClusterState = 1"

definition core :: "'g ClusterStateRegistry \<Rightarrow> (string, 'g ScaleUpRequest) gmap \<times> 'g exponentialBackoff \<times> observer list" where
  "core csr = (scaleUpRequests csr, csr_backoff csr, observers csr)"

lemma core_fold:
  assumes "\<And>x c. x \<noteq> Obs_ClusterState \<Longrightarrow> core (f x c) = core c" and "\<And>x c c'. core c = core c' \<Longrightarrow> core (f x c) = core (f x c')"
  shows "count_list os Obs_ClusterState = 0 \<Longrightarrow> core (fold f os c) = core c"
    "count_list os Obs_ClusterState = 1 \<Longrightarrow> core (fold f os c) = core (f Obs_ClusterState c)"
proof -
  show none: "count_list os Obs_ClusterState = 0 \<Longrightarrow> core (fold f os c) = core c" for os c
    by (induction os arbitrary: c) (auto simp: assms(1) split: if_splits)
  have cong: "core c = core c' \<Longrightarrow> core (fold f os c) = core (fold f os c')" for os c c'
  proof (induction os arbitrary: c c')
    case (Cons x os)
    show ?case using Cons.IH [OF assms(2) [OF Cons.prems]] by simp
  qed simp
  show "count_list os Obs_ClusterState = 1 \<Longrightarrow> core (fold f os c) = core (f Obs_ClusterState c)"
  proof (induction os arbitrary: c)
    case (Cons x os)
    show ?case
    proof (cases "x = Obs_ClusterState")
      case True
      then show ?thesis using Cons.prems none by simp
    next
      case False
      have "core (fold f os (f x c)) = core (fold f os c)" by (rule cong) (rule assms(1) [OF False])
      then show ?thesis using Cons False by simp
    qed
  qed simp
qed

lemma core_RegisterScaleUp: "core c = core c' \<Longrightarrow> core (RegisterScaleUp E g d t c) = core (RegisterScaleUp E g d t c')"
  by (auto simp: RegisterScaleUp_def registerOrUpdateScaleUpNoLock_def core_def Let_def split: sum.splits option.splits)

lemma core_RegisterFailedScaleUp:
  "core c = core c' \<Longrightarrow> core (RegisterFailedScaleUp E g d e t c) = core (RegisterFailedScaleUp E g d e t c')"
  by (auto simp: RegisterFailedScaleUp_def backoffNodeGroup_def core_def)

lemma core_emit [simp]: "core (emit e c) = core c"
  by (simp add: core_def emit_def)

lemma core_notifier:
  assumes "notified csr"
  shows "core (notifier_RegisterScaleUp E g d t csr) = core (RegisterScaleUp E g d t csr)"
    "core (notifier_RegisterFailedScaleUp E g d e t csr) = core (RegisterFailedScaleUp E g d e t csr)"
proof -
  have n: "count_list (observers csr) Obs_ClusterState = 1" using assms by (simp add: notified_def)
  let ?f = "\<lambda>obs csr. case obs of Obs_ClusterState \<Rightarrow> RegisterScaleUp E g d t csr | Obs_ScaleUpFailures \<Rightarrow> csr
       | Obs_Other \<Rightarrow> emit (Notify_ScaleUp g d t) csr"
  have "core (fold ?f (observers csr) csr) = core (?f Obs_ClusterState csr)"
    by (rule core_fold(2) [OF _ _ n]) (auto intro: core_RegisterScaleUp split: observer.splits)
  then show "core (notifier_RegisterScaleUp E g d t csr) = core (RegisterScaleUp E g d t csr)"
    by (simp add: notifier_RegisterScaleUp_def)
  have "core (fold (notify_observer E g d e t) (observers csr) csr) = core (notify_observer E g d e t Obs_ClusterState csr)"
    by (rule core_fold(2) [OF _ _ n])
      (auto simp: notify_observer_def intro: core_RegisterFailedScaleUp split: observer.splits, simp_all add: core_def)
  then show "core (notifier_RegisterFailedScaleUp E g d e t csr) = core (RegisterFailedScaleUp E g d e t csr)"
    by (simp add: notifier_RegisterFailedScaleUp_def notify_observer_def)
qed


lemma core_cong:
  assumes "core c = core c'"
  shows "requested c = requested c'" "csr_inv ident c = csr_inv ident c'" "notified c = notified c'" "csr_backoff c = csr_backoff c'"
  using assms by (simp_all add: core_def requested_def csr_inv_def notified_def fun_eq_iff)

lemma requested_RegisterScaleUp:
  assumes "csr_inv ident csr" and "Id (cloudProvider E) = ident" and "GetMaxNodeProvisionTime E g = Inr d" and "0 \<le> delta"
  shows "requested (RegisterScaleUp E g delta t csr) k = requested csr k + (if k = ident g then delta else 0)"
proof (cases "map_of (scaleUpRequests csr) (ident g)")
  case None
  then show ?thesis using assms
    by (simp add: RegisterScaleUp_def registerOrUpdateScaleUpNoLock_def requested_def)
next
  case (Some r)
  have "0 < Increase r" using assms(1) Some reqs_ok_lookup [of ident "scaleUpRequests csr"] by (auto simp: csr_inv_def req_ok_def)
  then show ?thesis using assms Some
    by (simp add: RegisterScaleUp_def registerOrUpdateScaleUpNoLock_def requested_def Let_def)
qed

lemma RegisterScaleUp_frame [simp]:
  "csr_backoff (RegisterScaleUp E g delta t csr) = csr_backoff csr" "notified (RegisterScaleUp E g delta t csr) = notified csr"
  by (auto simp: RegisterScaleUp_def registerOrUpdateScaleUpNoLock_def Let_def notified_def split: sum.splits option.splits)

lemma RegisterFailedScaleUp_frame [simp]:
  "requested (RegisterFailedScaleUp E g delta e t csr) = requested csr" "notified (RegisterFailedScaleUp E g delta e t csr) = notified csr"
  by (simp_all add: RegisterFailedScaleUp_def backoffNodeGroup_def notified_def requested_def fun_eq_iff)

lemma backoff_RegisterFailedScaleUp:
  assumes "csr_inv ident csr" and "Id (cloudProvider E) = ident" and "c' = RegisterFailedScaleUp E g delta e t csr"
  shows "has_template E (ident g) \<Longrightarrow> IsBackedOff (BackoffStatus g t (csr_backoff c'))"
    "IsBackedOff (BackoffStatus g' t (csr_backoff csr)) \<Longrightarrow> IsBackedOff (BackoffStatus g' t (csr_backoff c'))"
    "ident g' \<noteq> ident g \<Longrightarrow> BackoffStatus g' t' (csr_backoff c') = BackoffStatus g' t' (csr_backoff csr)"
proof -
  let ?b = "csr_backoff csr"
  have inv: "backoff_inv ?b" and key: "nodeGroupKey ?b = ident" using assms(1) by (simp_all add: csr_inv_def)
  have c': "csr_backoff c' = (if has_template E (ident g) then snd (Backoff g e t ?b) else ?b)"
    using assms(2,3) by (simp add: RegisterFailedScaleUp_def backoffNodeGroup_def)
  show "has_template E (ident g) \<Longrightarrow> IsBackedOff (BackoffStatus g t (csr_backoff c'))"
    using exp_backoff.backed_off_after [OF inv, of g g t e] by (simp add: c')
  show "IsBackedOff (BackoffStatus g' t ?b) \<Longrightarrow> IsBackedOff (BackoffStatus g' t (csr_backoff c'))"
    using exp_backoff.backed_off_kept [OF inv, of g' t "[(g, e)]"] by (simp add: c')
  show "ident g' \<noteq> ident g \<Longrightarrow> BackoffStatus g' t' (csr_backoff c') = BackoffStatus g' t' ?b"
    using exp_backoff.status_backoff_other [OF inv, of g' g] by (simp add: c' key)
qed

text \<open>The registry after the registration of one group, whose own calls have been made.\<close>

abbreviation ident_of :: "('g, 'i, 'p) su_env \<Rightarrow> 'g \<Rightarrow> string" where
  "ident_of U \<equiv> Id (provider U [])"

definition registry_ok :: "('g, 'i, 'p) su_env \<Rightarrow> 'g ClusterStateRegistry \<Rightarrow> bool" where
  "registry_ok U csr \<longleftrightarrow> csr_inv (ident_of U) csr \<and> notified csr"

definition registers :: "('g, 'i, 'p) su_env \<Rightarrow> time \<Rightarrow> bool \<Rightarrow> 'g call list \<Rightarrow> 'g ScaleUpInfo \<Rightarrow> 'g ClusterStateRegistry \<Rightarrow>
    'g ClusterStateRegistry \<Rightarrow> bool" where
  "registers U now atomic calls info csr csr' \<longleftrightarrow> registry_ok U csr' \<and>
     (\<forall>k. requested csr' k = requested csr k +
        (if k = ident_of U (su_Group info) \<and> registered U atomic calls info then increase_of info else 0)) \<and>
     (own_result U atomic calls info \<noteq> None \<and> has_template (answers U []) (ident_of U (su_Group info)) \<longrightarrow>
        IsBackedOff (BackoffStatus (su_Group info) now (csr_backoff csr'))) \<and>
     (\<forall>g. IsBackedOff (BackoffStatus g now (csr_backoff csr)) \<longrightarrow> IsBackedOff (BackoffStatus g now (csr_backoff csr'))) \<and>
     (\<forall>g t. ident_of U g \<noteq> ident_of U (su_Group info) \<or> own_result U atomic calls info = None \<longrightarrow>
        BackoffStatus g t (csr_backoff csr') = BackoffStatus g t (csr_backoff csr))"

lemma registers_same: "registry_ok U csr \<Longrightarrow> \<not> registered U atomic calls info \<Longrightarrow> own_result U atomic calls info = None \<Longrightarrow>
    registers U now atomic calls info csr csr"
  by (simp add: registers_def)

lemma register_scale_up_spec:
  assumes "steady U" and "registry_ok U csr"
    and "group_calls (su_Group info) c = group_calls (su_Group info) (calls @ made_calls U atomic calls info)"
    and "register_scale_up U info now (own_result U atomic calls info) (csr, c) = (err, csr', c')"
  shows "err = own_error U atomic calls info \<and> c' = c \<and> registers U now atomic calls info csr csr'"
proof -
  let ?g = "su_Group info" and ?calls = "calls @ made_calls U atomic calls info"
  have inv: "csr_inv (ident_of U) csr" "notified csr" using assms(2) by (simp_all add: registry_ok_def)
  note s = steadyD [OF assms(1)]
  have same: "Exist U c ?g = Exist U ?calls ?g" "IsUpcoming (answers U c) ?g = IsUpcoming (answers U ?calls) ?g"
    using s(3) [OF assms(3)] s(4) [OF assms(3)] by simp_all
  have env: "Id (cloudProvider (answers U c)) = ident_of U" "has_template (answers U c) = has_template (answers U [])"
    using s(5,6) [of c] by simp_all
  show ?thesis
  proof (cases "own_result U atomic calls info")
    case (Some e)
    define aerr where "aerr = AddPrefix ''failed to increase node group size: '' (ToAutoscalerError CloudProviderError e)"
    define i where "i = \<lparr>ErrorClass = OtherErrorClass, ErrorCode = Type aerr, ErrorMessage = Error aerr\<rparr>"
    define r where "r = RegisterFailedScaleUp (answers U c) ?g (increase_of info) i now csr"
    have csr': "csr' = notifier_RegisterFailedScaleUp (answers U c) ?g (increase_of info) i now csr" and rest: "err = Some aerr" "c' = c"
      using assms(4) Some by (auto simp: register_scale_up_def Let_def aerr_def i_def)
    then have core: "core csr' = core r" using core_notifier(2) [OF inv(2)] by (simp add: r_def)
    note b = backoff_RegisterFailedScaleUp [OF inv(1) env(1) r_def]
    have "csr_inv (ident_of U) r" using inv(1) by (simp add: r_def RegisterFailedScaleUp_def csr_inv_backoffNodeGroup)
    moreover have "\<not> registered U atomic calls info" using Some by (simp add: registered_def own_error_def)
    ultimately have "registers U now atomic calls info csr r"
      using b inv env(2) Some by (auto simp: registers_def registry_ok_def r_def)
    then show ?thesis using rest Some core_cong [OF core]
      by (simp add: own_error_def aerr_def registers_def registry_ok_def)
  next
    case None
    show ?thesis
    proof (cases "registered U atomic calls info")
      case False
      then have "err = own_error U atomic calls info \<and> c' = c \<and> csr' = csr"
        using assms(4) None same by (auto simp: register_scale_up_def registered_def own_error_def Let_def split: if_splits)
      then show ?thesis using registers_same [OF assms(2) False None] by simp
    next
      case True
      then have pos: "0 \<le> increase_of info" using None by (auto simp: registered_def own_error_def split: if_splits)
      define r where "r = RegisterScaleUp (answers U c) ?g (increase_of info) (Now U c) csr"
      have csr': "csr' = notifier_RegisterScaleUp (answers U c) ?g (increase_of info) (Now U c) csr" "err = None" "c' = c"
        using assms(4) None same True pos by (auto simp: register_scale_up_def registered_def Let_def split: if_splits)
      then have core: "core csr' = core r" using core_notifier(1) [OF inv(2)] by (simp add: r_def)
      obtain d where d: "GetMaxNodeProvisionTime (answers U c) ?g = Inr d" using s(7) by blast
      have "csr_inv (ident_of U) r"
        using csr_inv_register [OF inv(1) env(1)] by (simp add: r_def RegisterScaleUp_def)
      then have "registers U now atomic calls info csr r"
        using requested_RegisterScaleUp [OF inv(1) env(1) d pos] None True inv
        by (auto simp: registers_def registry_ok_def r_def)
      then show ?thesis using csr' None pos core_cong [OF core]
        by (simp add: own_error_def registers_def registry_ok_def)
    qed
  qed
qed

lemma executeScaleUp_spec:
  assumes "steady U" and "registry_ok U csr" and "executeScaleUp U info now atomic (csr, calls) = (err, csr', calls')"
  shows "err = own_error U atomic calls info \<and> calls' = calls @ made_calls U atomic calls info \<and> registers U now atomic calls info csr csr'"
proof -
  have split: "increaseSize U (su_Group info) (increase_of info) atomic calls = (own_result U atomic calls info, calls @ made_calls U atomic calls info)"
    by (simp add: own_result_def increaseSize_calls [symmetric])
  show ?thesis using register_scale_up_spec [OF assms(1,2), of info "calls @ made_calls U atomic calls info" calls atomic now err csr' calls'] assms(3)
    by (simp add: executeScaleUp_def split)
qed


section \<open>A list of groups\<close>

text \<open>
  The groups of \<open>executed\<close>, and no others, have been resized: each made its own calls, its request is registered
  when its call succeeded and the group exists already, and the groups whose call failed are backed off.
\<close>

definition carried_out :: "('g, 'i, 'p) su_env \<Rightarrow> time \<Rightarrow> bool \<Rightarrow> 'g ScaleUpInfo list \<Rightarrow> 'g world \<Rightarrow> 'g world \<Rightarrow> bool" where
  "carried_out U now atomic executed w w' \<longleftrightarrow> (let (csr, calls) = w; (csr', calls') = w' in
     (\<forall>info\<in>set executed.
        group_calls (su_Group info) calls' = group_calls (su_Group info) calls @ made_calls U atomic calls info \<and>
        requested csr' (ident_of U (su_Group info)) = requested csr (ident_of U (su_Group info)) +
          (if registered U atomic calls info then increase_of info else 0) \<and>
        (own_result U atomic calls info \<noteq> None \<and> has_template (answers U []) (ident_of U (su_Group info)) \<longrightarrow>
          IsBackedOff (BackoffStatus (su_Group info) now (csr_backoff csr')))) \<and>
     (\<forall>g. g \<notin> su_Group ` set executed \<longrightarrow> group_calls g calls' = group_calls g calls) \<and>
     (\<forall>k. k \<notin> ident_of U ` su_Group ` set executed \<longrightarrow> requested csr' k = requested csr k) \<and>
     (\<forall>g t. (\<forall>info\<in>set executed. ident_of U (su_Group info) = ident_of U g \<longrightarrow> own_result U atomic calls info = None) \<longrightarrow>
        BackoffStatus g t (csr_backoff csr') = BackoffStatus g t (csr_backoff csr)) \<and>
     (\<forall>g. IsBackedOff (BackoffStatus g now (csr_backoff csr)) \<longrightarrow> IsBackedOff (BackoffStatus g now (csr_backoff csr'))))"

definition distinct_groups :: "('g, 'i, 'p) su_env \<Rightarrow> 'g ScaleUpInfo list \<Rightarrow> bool" where
  "distinct_groups U infos \<longleftrightarrow> distinct (map (\<lambda>info. ident_of U (su_Group info)) infos)"

lemma distinct_groups_head:
  "distinct_groups U (info # infos) \<Longrightarrow> x \<in> set infos \<Longrightarrow> ident_of U (su_Group x) \<noteq> ident_of U (su_Group info)"
  by (auto simp: distinct_groups_def image_iff)

lemma distinct_groups_filter_take:
  assumes "distinct_groups U (info # infos)"
  shows "distinct_groups U (info # filter P (take k infos))"
proof -
  have "distinct (map (\<lambda>info. ident_of U (su_Group info)) (take k infos))"
    using assms unfolding distinct_groups_def by (simp add: take_map [symmetric] del: take_map)
  then show ?thesis using assms by (auto simp: distinct_groups_def distinct_map_filter dest: in_set_takeD)
qed

lemma carried_out_Nil: "carried_out U now atomic [] w w"
  by (simp add: carried_out_def split_beta)

lemma carried_out_Cons:
  assumes "steady U" and "distinct_groups U (info # infos)" and "registers U now atomic calls info csr csr1"
    and "carried_out U now atomic infos (csr1, calls @ made_calls U atomic calls info) w'"
  shows "carried_out U now atomic (info # infos) (csr, calls) w'"
proof -
  obtain csr' calls' where w': "w' = (csr', calls')" by force
  let ?g = "su_Group info" and ?calls = "calls @ made_calls U atomic calls info"
  have diff: "ident_of U (su_Group x) \<noteq> ident_of U ?g \<and> su_Group x \<noteq> ?g" if "x \<in> set infos" for x
    using distinct_groups_head [OF assms(2) that] by metis
  then have g: "?g \<notin> su_Group ` set infos" "ident_of U ?g \<notin> ident_of U ` su_Group ` set infos" by force+
  have same: "group_calls (su_Group x) ?calls = group_calls (su_Group x) calls" if "x \<in> set infos" for x
    using diff [OF that] by simp
  note own = own_cong [OF assms(1) same]
  note r = assms(3) [unfolded registers_def]
  note c = assms(4) [unfolded carried_out_def w' Let_def prod.case]
  have req1: "requested csr1 k = requested csr k + (if k = ident_of U ?g \<and> registered U atomic calls info then increase_of info else 0)" for k
    using r by blast
  have head: "group_calls ?g calls' = group_calls ?g calls @ made_calls U atomic calls info"
      "requested csr' (ident_of U ?g) = requested csr (ident_of U ?g) + (if registered U atomic calls info then increase_of info else 0)"
      "own_result U atomic calls info \<noteq> None \<and> has_template (answers U []) (ident_of U ?g) \<longrightarrow> IsBackedOff (BackoffStatus ?g now (csr_backoff csr'))"
    using c g req1 r by auto
  have tail: "group_calls (su_Group x) calls' = group_calls (su_Group x) calls @ made_calls U atomic calls x \<and>
      requested csr' (ident_of U (su_Group x)) = requested csr (ident_of U (su_Group x)) + (if registered U atomic calls x then increase_of x else 0) \<and>
      (own_result U atomic calls x \<noteq> None \<and> has_template (answers U []) (ident_of U (su_Group x)) \<longrightarrow>
        IsBackedOff (BackoffStatus (su_Group x) now (csr_backoff csr')))" if x: "x \<in> set infos" for x
    using conjunct1 [OF c, rule_format, OF x] own [OF x] diff [OF x] req1 same [OF x] by simp
  have status: "BackoffStatus g t (csr_backoff csr') = BackoffStatus g t (csr_backoff csr)"
    if "\<forall>x\<in>set (info # infos). ident_of U (su_Group x) = ident_of U g \<longrightarrow> own_result U atomic calls x = None" for g t
  proof -
    have "BackoffStatus g t (csr_backoff csr1) = BackoffStatus g t (csr_backoff csr)" using r that by (metis list.set_intros(1))
    moreover have "BackoffStatus g t (csr_backoff csr') = BackoffStatus g t (csr_backoff csr1)" using c that own(2) by auto
    ultimately show ?thesis by simp
  qed
  show ?thesis unfolding carried_out_def w' Let_def prod.case
  proof (intro conjI)
    show "\<forall>x\<in>set (info # infos). group_calls (su_Group x) calls' = group_calls (su_Group x) calls @ made_calls U atomic calls x \<and>
        requested csr' (ident_of U (su_Group x)) = requested csr (ident_of U (su_Group x)) + (if registered U atomic calls x then increase_of x else 0) \<and>
        (own_result U atomic calls x \<noteq> None \<and> has_template (answers U []) (ident_of U (su_Group x)) \<longrightarrow>
          IsBackedOff (BackoffStatus (su_Group x) now (csr_backoff csr')))"
      using head tail by simp
    show "\<forall>g. g \<notin> su_Group ` set (info # infos) \<longrightarrow> group_calls g calls' = group_calls g calls" using c by simp
    show "\<forall>k. k \<notin> ident_of U ` su_Group ` set (info # infos) \<longrightarrow> requested csr' k = requested csr k" using c req1 by simp
  qed (use status c r in blast)+
qed

lemma ids_distinct_groups: "distinct_groups U (x # infos) \<Longrightarrow> distinct_groups U infos"
  by (simp add: distinct_groups_def)

lemma executeScaleUpsSync_spec:
  assumes "steady U" and "registry_ok U (fst w)" and "distinct_groups U infos"
    and "executeScaleUpsSync U nodeInfos now atomic infos w = ((err, failed), w')"
  defines "has \<equiv> (\<lambda>info. ghas nodeInfos (ident_of U (su_Group info)))"
  shows "\<exists>k \<le> length infos. carried_out U now atomic (filter has (take k infos)) w w' \<and>
    failed = (case err of None \<Rightarrow> [] | Some e \<Rightarrow> [su_Group (infos ! (k - 1))]) \<and> (err = None \<longrightarrow> k = length infos) \<and>
    (err \<noteq> None \<longrightarrow> 0 < k \<and> has (infos ! (k - 1)) \<and> own_error U atomic (snd w) (infos ! (k - 1)) = err) \<and>
    (\<forall>i < k. err = None \<or> i \<noteq> k - 1 \<longrightarrow> has (infos ! i) \<longrightarrow> own_error U atomic (snd w) (infos ! i) = None)"
  using assms(2,3,4)
proof (induction infos arbitrary: w)
  case Nil
  then show ?case by (auto simp: carried_out_Nil)
next
  case (Cons info infos)
  obtain csr calls where w: "w = (csr, calls)" by force
  have id: "Id (provider U calls) = ident_of U" using steadyD(5) [OF assms(1)] by simp
  note d = ids_distinct_groups [OF Cons.prems(2)]
  show ?case
  proof (cases "has info")
    case False
    then have "executeScaleUpsSync U nodeInfos now atomic infos w = ((err, failed), w')"
      using Cons.prems(3) w id by (simp add: has_def)
    from Cons.IH [OF Cons.prems(1) d this] obtain k where k: "k \<le> length infos" "carried_out U now atomic (filter has (take k infos)) w w'"
      "failed = (case err of None \<Rightarrow> [] | Some e \<Rightarrow> [su_Group (infos ! (k - 1))])" "err = None \<longrightarrow> k = length infos"
      "err \<noteq> None \<longrightarrow> 0 < k \<and> has (infos ! (k - 1)) \<and> own_error U atomic (snd w) (infos ! (k - 1)) = err"
      "\<forall>i < k. err = None \<or> i \<noteq> k - 1 \<longrightarrow> has (infos ! i) \<longrightarrow> own_error U atomic (snd w) (infos ! i) = None" by blast
    then show ?thesis using False
      by (intro exI [of _ "Suc k"]) (auto simp: nth_Cons' less_Suc_eq_0_disj split: option.splits)
  next
    case True
    obtain e csr1 calls1 where ex: "executeScaleUp U info now atomic w = (e, csr1, calls1)" by (metis prod.exhaust)
    have x: "e = own_error U atomic calls info" "calls1 = calls @ made_calls U atomic calls info" "registers U now atomic calls info csr csr1"
      using executeScaleUp_spec [OF assms(1) _ ex [unfolded w]] Cons.prems(1) w by simp_all
    show ?thesis
    proof (cases e)
      case (Some ae)
      have "distinct_groups U [info]" by (simp add: distinct_groups_def)
      then have "carried_out U now atomic [info] w (csr1, calls1)"
        unfolding w by (rule carried_out_Cons [OF assms(1) _ x(3)]) (simp add: x(2) carried_out_Nil)
      moreover have "err = Some ae" "failed = [su_Group info]" "w' = (csr1, calls1)"
        using Cons.prems(3) True Some ex w id by (simp_all add: has_def)
      ultimately show ?thesis using True Some x(1) w by (intro exI [of _ 1]) auto
    next
      case None
      then have run: "executeScaleUpsSync U nodeInfos now atomic infos (csr1, calls1) = ((err, failed), w')"
        using Cons.prems(3) True ex w id by (simp add: has_def)
      have "registry_ok U (fst (csr1, calls1))" using x(3) by (simp add: registers_def)
      from Cons.IH [OF this d run] obtain k where k: "k \<le> length infos"
        and c: "carried_out U now atomic (filter has (take k infos)) (csr1, calls1) w'"
        and f: "failed = (case err of None \<Rightarrow> [] | Some e \<Rightarrow> [su_Group (infos ! (k - 1))])" "err = None \<longrightarrow> k = length infos"
        "err \<noteq> None \<longrightarrow> 0 < k \<and> has (infos ! (k - 1)) \<and> own_error U atomic calls1 (infos ! (k - 1)) = err"
        "\<forall>i < k. err = None \<or> i \<noteq> k - 1 \<longrightarrow> has (infos ! i) \<longrightarrow> own_error U atomic calls1 (infos ! i) = None" by auto
      have sub: "distinct_groups U (info # filter has (take k infos))"
        by (rule distinct_groups_filter_take [OF Cons.prems(2)])
      have "carried_out U now atomic (info # filter has (take k infos)) w w'"
        unfolding w by (rule carried_out_Cons [OF assms(1) sub x(3)]) (use c x(2) in simp)
      moreover have "own_error U atomic calls1 (infos ! i) = own_error U atomic calls (infos ! i)" if "i < length infos" for i
      proof (rule own_cong(3) [OF assms(1)])
        have "su_Group (infos ! i) \<noteq> su_Group info" using distinct_groups_head [OF Cons.prems(2) nth_mem [OF that]] by metis
        then show "group_calls (su_Group (infos ! i)) calls1 = group_calls (su_Group (infos ! i)) calls" by (simp add: x(2))
      qed
      ultimately show ?thesis using True None x(1) w k f
        by (intro exI [of _ "Suc k"]) (auto simp: nth_Cons' less_Suc_eq_0_disj split: option.splits)
    qed
  qed
qed


section \<open>Goroutines\<close>

definition thread_calls :: "('g, 'i, 'p) su_env \<Rightarrow> bool \<Rightarrow> 'g call list \<Rightarrow> bool \<Rightarrow> 'g ScaleUpInfo \<Rightarrow> thread \<Rightarrow> 'g call list" where
  "thread_calls U atomic calls has info th =
     (case th of Waiting \<Rightarrow> [] | TriedAtomic \<Rightarrow> [Call_AtomicIncreaseSize (su_Group info) (increase_of info)]
      | _ \<Rightarrow> if has then made_calls U atomic calls info else [])"

definition thread_ok :: "('g, 'i, 'p) su_env \<Rightarrow> bool \<Rightarrow> 'g call list \<Rightarrow> bool \<Rightarrow> 'g ScaleUpInfo \<Rightarrow> thread \<Rightarrow> bool" where
  "thread_ok U atomic calls has info th =
     (case th of Waiting \<Rightarrow> True
      | TriedAtomic \<Rightarrow> has \<and> atomic \<and> AtomicIncreaseSize U calls (su_Group info) (increase_of info) = Some ErrNotImplemented_value
      | Increased r \<Rightarrow> has \<and> r = own_result U atomic calls info
      | Failing e \<Rightarrow> has \<and> own_error U atomic calls info = Some e
      | Finished \<Rightarrow> True)"

fun has_registered :: "thread \<Rightarrow> bool" where
  "has_registered (Failing e) = True"
| "has_registered Finished = True"
| "has_registered _ = False"

text \<open>What the world says about the group of one thread, compared with the world at the start.\<close>

definition slot_ok :: "('g, 'i, 'p) su_env \<Rightarrow> time \<Rightarrow> bool \<Rightarrow> 'g world \<Rightarrow> bool \<Rightarrow> 'g ScaleUpInfo \<Rightarrow> thread \<Rightarrow> 'g world \<Rightarrow> bool" where
  "slot_ok U now atomic w has info th w' \<longleftrightarrow> (let (csr, calls) = w; (csr', calls') = w' in
     thread_ok U atomic calls has info th \<and>
     group_calls (su_Group info) calls' = group_calls (su_Group info) calls @ thread_calls U atomic calls has info th \<and>
     requested csr' (ident_of U (su_Group info)) = requested csr (ident_of U (su_Group info)) +
       (if has_registered th \<and> has \<and> registered U atomic calls info then increase_of info else 0) \<and>
     (has_registered th \<and> has \<and> own_result U atomic calls info \<noteq> None \<and> has_template (answers U []) (ident_of U (su_Group info)) \<longrightarrow>
       IsBackedOff (BackoffStatus (su_Group info) now (csr_backoff csr'))))"

text \<open>What the step of a thread leaves alone.\<close>

definition step_frame :: "('g, 'i, 'p) su_env \<Rightarrow> time \<Rightarrow> 'g ScaleUpInfo \<Rightarrow> bool \<Rightarrow> 'g world \<Rightarrow> 'g world \<Rightarrow> bool" where
  "step_frame U now info fails w w' \<longleftrightarrow> registry_ok U (fst w') \<and>
     (\<forall>g. g \<noteq> su_Group info \<longrightarrow> group_calls g (snd w') = group_calls g (snd w)) \<and>
     (\<forall>k. k \<noteq> ident_of U (su_Group info) \<longrightarrow> requested (fst w') k = requested (fst w) k) \<and>
     (\<forall>g. IsBackedOff (BackoffStatus g now (csr_backoff (fst w))) \<longrightarrow> IsBackedOff (BackoffStatus g now (csr_backoff (fst w')))) \<and>
     (\<forall>g t. ident_of U g \<noteq> ident_of U (su_Group info) \<or> \<not> fails \<longrightarrow>
        BackoffStatus g t (csr_backoff (fst w')) = BackoffStatus g t (csr_backoff (fst w)))"

lemma step_frame_calls:
  "registry_ok U csr \<Longrightarrow> step_frame U now info fails (csr, calls) (csr, calls)"
  "registry_ok U csr \<Longrightarrow> call_group c = su_Group info \<Longrightarrow> step_frame U now info fails (csr, calls) (csr, calls @ [c])"
  by (auto simp: step_frame_def group_calls_def)

lemma thread_step_spec:
  assumes "steady U" and "registry_ok U (fst w')" and "has = ghas nodeInfos (ident_of U (su_Group info))"
    and "slot_ok U now atomic w has info th w'" and "thread_step U nodeInfos now atomic info th w' = (th', w'', sent)"
  shows "slot_ok U now atomic w has info th' w'' \<and>
    step_frame U now info (has \<and> own_result U atomic (snd w) info \<noteq> None) w' w'' \<and>
    sent = (case th of Failing e \<Rightarrow> Some e | _ \<Rightarrow> None) \<and>
    (th' = Finished \<and> has \<and> own_error U atomic (snd w) info \<noteq> None \<longrightarrow> th = Finished \<or> (\<exists>e. th = Failing e))"
proof -
  obtain csr calls where w: "w = (csr, calls)" by force
  obtain csr' calls' where w': "w' = (csr', calls')" by force
  let ?g = "su_Group info" and ?n = "increase_of info"
  have ok: "registry_ok U csr'" using assms(2) w' by simp
  have id: "Id (provider U calls') = ident_of U" by (rule steadyD(5) [OF assms(1)])
  note slot = assms(4) [unfolded slot_ok_def w w' Let_def prod.case]
  note frame = step_frame_calls [OF ok]
  have result: "own_result U atomic calls info = (if atomic \<and> AtomicIncreaseSize U calls ?g ?n \<noteq> Some ErrNotImplemented_value
      then AtomicIncreaseSize U calls ?g ?n
      else IncreaseSize U (if atomic then calls @ [Call_AtomicIncreaseSize ?g ?n] else calls) ?g ?n)"
    by (simp add: own_result_def increaseSize_def Let_def)
  show ?thesis
  proof (cases th)
    case Waiting
    then have same: "group_calls ?g calls' = group_calls ?g calls" using slot by (simp add: thread_calls_def)
    note s = steadyD(1,2) [OF assms(1) same]
    show ?thesis
    proof (cases has)
      case False
      then have "th' = Finished" "w'' = w'" "sent = None"
        using assms(3,5) Waiting by (auto simp: thread_step_def w' id Let_def)
      then show ?thesis using slot False Waiting frame(1) w w'
        by (auto simp: slot_ok_def thread_ok_def thread_calls_def)
    next
      case True
      show ?thesis
      proof (cases atomic)
        case at: True
        define a where "a = AtomicIncreaseSize U calls ?g ?n"
        have "th' = (if a \<noteq> Some ErrNotImplemented_value then Increased a else TriedAtomic)" "sent = None"
            "w'' = (csr', calls' @ [Call_AtomicIncreaseSize ?g ?n])"
          using assms(3,5) Waiting True at s by (auto simp: thread_step_def w' id Let_def a_def)
        then show ?thesis using slot True at Waiting frame(2) same w w' result
          by (auto simp: slot_ok_def thread_ok_def thread_calls_def made_calls_def Let_def a_def group_calls_def)
      next
        case at: False
        have "th' = Increased (IncreaseSize U calls ?g ?n)" "sent = None" "w'' = (csr', calls' @ [Call_IncreaseSize ?g ?n])"
          using assms(3,5) Waiting True at s by (auto simp: thread_step_def w' id Let_def)
        then show ?thesis using slot True at Waiting frame(2) same w w' result
          by (auto simp: slot_ok_def thread_ok_def thread_calls_def made_calls_def Let_def group_calls_def)
      qed
    qed
  next
    case TriedAtomic
    then have same: "group_calls ?g calls' = group_calls ?g (calls @ [Call_AtomicIncreaseSize ?g ?n])" and at: "has" "atomic"
        "AtomicIncreaseSize U calls ?g ?n = Some ErrNotImplemented_value"
      using slot by (simp_all add: thread_calls_def thread_ok_def group_calls_def)
    have "th' = Increased (own_result U atomic calls info)" "sent = None" "w'' = (csr', calls' @ [Call_IncreaseSize ?g ?n])"
      using assms(5) TriedAtomic steadyD(1) [OF assms(1) same] at result by (auto simp: thread_step_def w' Let_def)
    then show ?thesis using slot TriedAtomic frame(2) same w w' at
      by (auto simp: slot_ok_def thread_ok_def thread_calls_def made_calls_def Let_def group_calls_def)
  next
    case (Increased r)
    then have has: has and r: "r = own_result U atomic calls info"
      and same: "group_calls ?g calls' = group_calls ?g (calls @ made_calls U atomic calls info)"
      using slot by (simp_all add: thread_calls_def thread_ok_def)
    obtain err csr2 calls2 where reg: "register_scale_up U info now r (csr', calls') = (err, csr2, calls2)" by (metis prod.exhaust)
    note spec = register_scale_up_spec [OF assms(1) ok same, of now err csr2 calls2]
    have spec: "err = own_error U atomic calls info" "calls2 = calls'" "registers U now atomic calls info csr' csr2"
      using spec reg r by auto
    have "th' = (case err of None \<Rightarrow> Finished | Some e \<Rightarrow> Failing e)" "sent = None" "w'' = (csr2, calls')"
      using assms(5) Increased reg spec(2) by (auto simp: thread_step_def w' Let_def split: option.splits)
    moreover have "step_frame U now info (has \<and> own_result U atomic calls info \<noteq> None) w' (csr2, calls')"
      using spec(3) has by (auto simp: registers_def step_frame_def w')
    ultimately show ?thesis using slot Increased has spec r w w'
      by (auto simp: slot_ok_def thread_ok_def thread_calls_def registers_def split: option.splits)
  next
    case (Failing e)
    then have "th' = Finished" "w'' = w'" "sent = Some e" using assms(5) by (auto simp: thread_step_def w' Let_def)
    then show ?thesis using slot Failing frame(1) w w' by (auto simp: slot_ok_def thread_ok_def thread_calls_def)
  next
    case Finished
    then have "th' = Finished" "w'' = w'" "sent = None" using assms(5) by (auto simp: thread_step_def w' Let_def)
    then show ?thesis using slot Finished frame(1) w w' by (auto simp: slot_ok_def)
  qed
qed


definition has_info :: "('g, 'i, 'p) su_env \<Rightarrow> (string, 'i) gmap \<Rightarrow> 'g ScaleUpInfo \<Rightarrow> bool" where
  "has_info U nodeInfos info \<longleftrightarrow> ghas nodeInfos (ident_of U (su_Group info))"

text \<open>The invariant of all interleavings.\<close>

definition par_inv :: "('g, 'i, 'p) su_env \<Rightarrow> (string, 'i) gmap \<Rightarrow> time \<Rightarrow> bool \<Rightarrow> 'g ScaleUpInfo list \<Rightarrow> 'g world \<Rightarrow> 'g par_state \<Rightarrow> bool" where
  "par_inv U nodeInfos now atomic infos w s \<longleftrightarrow>
     (let has = has_info U nodeInfos; w' = par_world s in
      length (threads s) = length infos \<and> registry_ok U (fst w') \<and>
      (\<forall>i < length infos. slot_ok U now atomic w (has (infos ! i)) (infos ! i) (threads s ! i) w') \<and>
      (\<forall>g. g \<notin> su_Group ` set infos \<longrightarrow> group_calls g (snd w') = group_calls g (snd w)) \<and>
      (\<forall>k. k \<notin> ident_of U ` su_Group ` set infos \<longrightarrow> requested (fst w') k = requested (fst w) k) \<and>
      (\<forall>g t. (\<forall>info\<in>set infos. has info \<and> ident_of U (su_Group info) = ident_of U g \<longrightarrow> own_result U atomic (snd w) info = None) \<longrightarrow>
        BackoffStatus g t (csr_backoff (fst w')) = BackoffStatus g t (csr_backoff (fst w))) \<and>
      (\<forall>g. IsBackedOff (BackoffStatus g now (csr_backoff (fst w))) \<longrightarrow> IsBackedOff (BackoffStatus g now (csr_backoff (fst w')))) \<and>
      (\<forall>e info. (e, info) \<in> set (errResults s) \<longleftrightarrow>
        (\<exists>i < length infos. infos ! i = info \<and> threads s ! i = Finished \<and> has info \<and> own_error U atomic (snd w) info = Some e)) \<and>
      distinct (map snd (errResults s)))"

lemma slot_ok_other:
  assumes "step_frame U now x fails w' w''" and "ident_of U (su_Group info) \<noteq> ident_of U (su_Group x)"
    and "slot_ok U now atomic w has info th w'"
  shows "slot_ok U now atomic w has info th w''"
proof -
  have "su_Group info \<noteq> su_Group x" using assms(2) by metis
  then show ?thesis using assms by (auto simp: slot_ok_def step_frame_def split_beta)
qed

lemma distinct_groups_nth:
  "distinct_groups U infos \<Longrightarrow> i < length infos \<Longrightarrow> j < length infos \<Longrightarrow> i \<noteq> j \<Longrightarrow>
    ident_of U (su_Group (infos ! i)) \<noteq> ident_of U (su_Group (infos ! j))"
  by (simp add: distinct_groups_def distinct_conv_nth)

lemma par_inv_step:
  fixes U :: "('g, 'i, 'p) su_env"
  assumes "steady U" and "distinct_groups U infos" and "par_inv U nodeInfos now atomic infos w s"
  shows "par_inv U nodeInfos now atomic infos w (par_step U nodeInfos now atomic infos i s)"
proof (cases "i < length infos")
  case False
  then show ?thesis using assms(3) by (simp add: par_step_def)
next
  case True
  define has where "has = has_info U nodeInfos"
  define th where "th = threads s ! i"
  obtain th' w'' sent where step: "thread_step U nodeInfos now atomic (infos ! i) th (par_world s) = (th', w'', sent)" by (metis prod.exhaust)
  let ?s = "par_step U nodeInfos now atomic infos i s"
  have s': "threads ?s = (threads s)[i := th']" "par_world ?s = w''"
      "errResults ?s = errResults s @ (case sent of None \<Rightarrow> [] | Some e \<Rightarrow> [(e, infos ! i)])"
    using True step by (simp_all add: par_step_def th_def)
  note inv = assms(3) [unfolded par_inv_def Let_def, folded has_def]
  have "slot_ok U now atomic w (has (infos ! i)) (infos ! i) th (par_world s)" and ok: "registry_ok U (fst (par_world s))"
    using inv True by (simp_all add: th_def)
  note slot = this(1)
  have hasi: "has (infos ! i) = ghas nodeInfos (ident_of U (su_Group (infos ! i)))" by (simp add: has_def has_info_def)
  note spec = thread_step_spec [OF assms(1) ok hasi slot step]
  have frame: "step_frame U now (infos ! i) (has (infos ! i) \<and> own_result U atomic (snd w) (infos ! i) \<noteq> None) (par_world s) w''"
    and sent: "sent = (case th of Failing e \<Rightarrow> Some e | _ \<Rightarrow> None)" using spec by blast+
  have slots: "slot_ok U now atomic w (has (infos ! j)) (infos ! j) (threads ?s ! j) w''" if "j < length infos" for j
    using that slot_ok_other [OF frame distinct_groups_nth [OF assms(2) that True]] spec inv True by (cases "j = i") (auto simp: s')
  have sent_error: "th = Failing e \<Longrightarrow> th' = Finished \<and> has (infos ! i) \<and> own_error U atomic (snd w) (infos ! i) = Some e" for e
    using slot step by (auto simp: slot_ok_def thread_ok_def thread_step_def split_beta)
  have "th = Finished \<Longrightarrow> th' = Finished" using step by (auto simp: thread_step_def split_beta)
  then have key: "threads ?s ! j = Finished \<and> has (infos ! j) \<and> own_error U atomic (snd w) (infos ! j) = Some e \<longleftrightarrow>
      threads s ! j = Finished \<and> has (infos ! j) \<and> own_error U atomic (snd w) (infos ! j) = Some e \<or> j = i \<and> th = Failing e"
    if "j < length infos" for j e
    using that spec sent_error inv by (cases "j = i") (auto simp: s' th_def)
  have sent_iff: "(e, info) \<in> set (case sent of None \<Rightarrow> [] | Some e \<Rightarrow> [(e, infos ! i)]) \<longleftrightarrow> info = infos ! i \<and> th = Failing e" for e info
    using sent by (auto split: thread.splits)
  have old: "(e, info) \<in> set (errResults s) \<longleftrightarrow> (\<exists>j < length infos. infos ! j = info \<and> threads s ! j = Finished \<and> has info \<and>
      own_error U atomic (snd w) info = Some e)" for e info using inv by blast
  have errors: "(e, info) \<in> set (errResults ?s) \<longleftrightarrow> (\<exists>j < length infos. infos ! j = info \<and> threads ?s ! j = Finished \<and> has info \<and>
      own_error U atomic (snd w) info = Some e)" for e info
    unfolding s'(3) set_append Un_iff old sent_iff using key True by blast
  have new: "infos ! i \<notin> snd ` set (errResults s)" if "th = Failing e" for e
  proof
    assume "infos ! i \<in> snd ` set (errResults s)"
    then obtain e' j where "j < length infos" "infos ! j = infos ! i" "threads s ! j = Finished" using old by auto
    then show False using distinct_groups_nth [OF assms(2) _ True, of j] that by (cases "j = i") (auto simp: th_def)
  qed
  have mem: "infos ! i \<in> set infos" using True by simp
  note f = frame [unfolded step_frame_def]
  have calls: "group_calls g (snd w'') = group_calls g (snd w)" if "g \<notin> su_Group ` set infos" for g
    using that f inv mem by (metis imageI)
  have req: "requested (fst w'') k = requested (fst w) k" if "k \<notin> ident_of U ` su_Group ` set infos" for k
  proof -
    have "k \<noteq> ident_of U (su_Group (infos ! i))" using that mem by blast
    then show ?thesis using that f inv by auto
  qed
  have status: "BackoffStatus g t (csr_backoff (fst w'')) = BackoffStatus g t (csr_backoff (fst w))"
    if "\<forall>info\<in>set infos. has info \<and> ident_of U (su_Group info) = ident_of U g \<longrightarrow> own_result U atomic (snd w) info = None" for g t
  proof -
    have "ident_of U g \<noteq> ident_of U (su_Group (infos ! i)) \<or> \<not> (has (infos ! i) \<and> own_result U atomic (snd w) (infos ! i) \<noteq> None)"
      using that mem by auto
    then show ?thesis using that f inv by metis
  qed
  show ?thesis unfolding par_inv_def Let_def has_def [symmetric] s'(2)
  proof (intro conjI)
    show "distinct (map snd (errResults ?s))" using inv new sent by (auto simp: s' split: thread.splits)
  qed (use inv f slots errors calls req status s'(1) in auto)
qed


lemma par_inv_run:
  assumes "steady U" and "distinct_groups U infos" and "par_inv U nodeInfos now atomic infos w s"
  shows "par_inv U nodeInfos now atomic infos w (par_run U nodeInfos now atomic infos schedule s)"
  using assms(3) unfolding par_run_def by (induction schedule arbitrary: s) (auto intro: par_inv_step [OF assms(1,2)])

lemma par_inv_start:
  assumes "registry_ok U (fst w)"
  shows "par_inv U nodeInfos now atomic infos w \<lparr>threads = replicate (length infos) Waiting, par_world = w, errResults = []\<rparr>"
  using assms by (auto simp: par_inv_def slot_ok_def thread_ok_def thread_calls_def split_beta)

lemma par_inv_finished:
  assumes "distinct_groups U infos" and "par_inv U nodeInfos now atomic infos w s" and "list_all (\<lambda>th. th = Finished) (threads s)"
  shows "carried_out U now atomic (filter (has_info U nodeInfos) infos) w (par_world s)"
    "distinct (map (\<lambda>r. su_Group (snd r)) (errResults s))"
    "su_Group ` snd ` set (errResults s) = su_Group ` {info \<in> set (filter (has_info U nodeInfos) infos). own_error U atomic (snd w) info \<noteq> None}"
proof -
  note inv = assms(2) [unfolded par_inv_def Let_def]
  have fin: "threads s ! i = Finished" if "i < length infos" for i using assms(3) inv that by (simp add: list_all_length)
  have err: "(e, info) \<in> set (errResults s) \<longleftrightarrow> info \<in> set infos \<and> has_info U nodeInfos info \<and> own_error U atomic (snd w) info = Some e" for e info
    using inv fin by (auto simp: in_set_conv_nth)
  then show "su_Group ` snd ` set (errResults s) =
      su_Group ` {info \<in> set (filter (has_info U nodeInfos) infos). own_error U atomic (snd w) info \<noteq> None}" by force
  have "inj_on su_Group (snd ` set (errResults s))"
  proof (rule inj_onI)
    fix x y assume "x \<in> snd ` set (errResults s)" "y \<in> snd ` set (errResults s)" "su_Group x = su_Group y"
    moreover have "inj_on (\<lambda>info. ident_of U (su_Group info)) (set infos)" using assms(1) by (simp add: distinct_groups_def distinct_map)
    ultimately show "x = y" using err unfolding inj_on_def by fastforce
  qed
  then show "distinct (map (\<lambda>r. su_Group (snd r)) (errResults s))"
    using inv distinct_map [of su_Group "map snd (errResults s)"] by (simp add: comp_def)
  have slot: "slot_ok U now atomic w (has_info U nodeInfos info) info Finished (par_world s)" if "info \<in> set infos" for info
    using that inv fin by (metis in_set_conv_nth)
  have idle: "group_calls g (snd (par_world s)) = group_calls g (snd w)" if "g \<notin> su_Group ` set (filter (has_info U nodeInfos) infos)" for g
  proof (cases "g \<in> su_Group ` set infos")
    case True
    then obtain info where i: "info \<in> set infos" "g = su_Group info" by blast
    then have "\<not> has_info U nodeInfos info" using that by auto
    with i show ?thesis using slot [of info] by (simp add: slot_ok_def thread_calls_def split_beta Let_def)
  qed (use inv in blast)
  have quiet: "requested (fst (par_world s)) k = requested (fst w) k" if "k \<notin> ident_of U ` su_Group ` set (filter (has_info U nodeInfos) infos)" for k
  proof (cases "k \<in> ident_of U ` su_Group ` set infos")
    case True
    then obtain info where i: "info \<in> set infos" "k = ident_of U (su_Group info)" by blast
    then have "\<not> has_info U nodeInfos info" using that by auto
    with i show ?thesis using slot [of info] by (simp add: slot_ok_def split_beta Let_def)
  qed (use inv in blast)
  have status: "BackoffStatus g t (csr_backoff (fst (par_world s))) = BackoffStatus g t (csr_backoff (fst w))"
    if "\<forall>info\<in>set (filter (has_info U nodeInfos) infos). ident_of U (su_Group info) = ident_of U g \<longrightarrow> own_result U atomic (snd w) info = None" for g t
    using inv that by simp
  show "carried_out U now atomic (filter (has_info U nodeInfos) infos) w (par_world s)"
    unfolding carried_out_def Let_def split_beta
    by (intro conjI) (use slot idle quiet status inv in \<open>auto simp: slot_ok_def thread_calls_def split_beta Let_def\<close>)
qed

lemma unique_loop_None:
  "unique_loop ident m infos = None \<longleftrightarrow> distinct (map (\<lambda>info. ident (su_Group info)) infos) \<and> (\<forall>info\<in>set infos. \<not> gget False m (ident (su_Group info)))"
  by (induction infos arbitrary: m) (auto simp: image_iff)

lemma checkUniqueNodeGroups_iff: "checkUniqueNodeGroups (ident_of U) infos = None \<longleftrightarrow> distinct_groups U infos"
  by (simp add: checkUniqueNodeGroups_def unique_loop_None distinct_groups_def)

section \<open>Progress\<close>

fun steps_left :: "thread \<Rightarrow> nat" where
  "steps_left Waiting = 4"
| "steps_left TriedAtomic = 3"
| "steps_left (Increased r) = 2"
| "steps_left (Failing e) = 1"
| "steps_left Finished = 0"

lemma thread_step_progress: "steps_left (fst (thread_step U nodeInfos now atomic info th w)) \<le> steps_left th - 1"
  by (cases th) (auto simp: thread_step_def Let_def split_beta split: option.splits prod.splits)

lemma par_step_progress:
  assumes "length (threads s) = length infos" and "j < length infos"
  shows "length (threads (par_step U nodeInfos now atomic infos i s)) = length infos \<and>
    steps_left (threads (par_step U nodeInfos now atomic infos i s) ! j) \<le> steps_left (threads s ! j) - (if i = j then 1 else 0)"
  using assms thread_step_progress [of U nodeInfos now atomic "infos ! i" "threads s ! i" "par_world s"]
  by (cases "i = j") (auto simp: par_step_def split_beta)

lemma par_run_length: "length (threads (par_run U nodeInfos now atomic infos schedule s)) = length (threads s)"
  unfolding par_run_def by (induction schedule arbitrary: s) (auto simp: par_step_def split_beta)

lemma par_run_progress:
  assumes "length (threads s) = length infos" and "j < length infos"
  shows "length (threads (par_run U nodeInfos now atomic infos schedule s)) = length infos \<and>
    steps_left (threads (par_run U nodeInfos now atomic infos schedule s) ! j) \<le> steps_left (threads s ! j) - count_list schedule j"
  using assms
proof (induction schedule arbitrary: s)
  case (Cons i schedule)
  let ?s = "par_step U nodeInfos now atomic infos i s"
  have run: "par_run U nodeInfos now atomic infos (i # schedule) s = par_run U nodeInfos now atomic infos schedule ?s"
    by (simp add: par_run_def)
  note p = par_step_progress [OF Cons.prems, of U nodeInfos now atomic i]
  then have "length (threads ?s) = length infos" by blast
  from Cons.IH [OF this Cons.prems(2)] show ?case using p unfolding run by (cases "i = j") auto
qed (simp add: par_run_def)


lemma executed_exactly_core:
  fixes U :: "('g, 'i, 'p) su_env"
  assumes "steady U" and "registry_ok U csr" and "distinct_groups U infos"
    and "ExecuteScaleUps U tie schedule nodeInfos now atomic infos (csr, calls) = Some ((err, failed), w')"
  shows "\<exists>k \<le> length infos. let executed = filter (has_info U nodeInfos) (take k infos) in
    carried_out U now atomic executed (csr, calls) w' \<and> distinct failed \<and>
    set failed = su_Group ` {info \<in> set executed. own_error U atomic calls info \<noteq> None} \<and> (err = None \<longleftrightarrow> failed = []) \<and>
    (ParallelScaleUp (options U) \<or> err = None \<longrightarrow> k = length infos) \<and>
    (\<not> ParallelScaleUp (options U) \<and> err \<noteq> None \<longrightarrow> failed = [su_Group (infos ! (k - 1))])"
proof (cases "ParallelScaleUp (options U)")
  case True
  define s where "s = par_run U nodeInfos now atomic infos schedule
    \<lparr>threads = replicate (length infos) Waiting, par_world = (csr, calls), errResults = []\<rparr>"
  have id: "Id (provider U calls) = ident_of U" by (rule steadyD(5) [OF assms(1)])
  have "checkUniqueNodeGroups (ident_of U) infos = None" using assms(3) checkUniqueNodeGroups_iff by blast
  then have fin: "list_all (\<lambda>th. th = Finished) (threads s)" and w': "w' = par_world s"
    and res: "(err, failed) = (if length (errResults s) > 0
      then (Combine (quote U) tie (map fst (errResults s)), map (\<lambda>r. su_Group (snd r)) (errResults s)) else (None, []))"
    using assms(4) True id by (auto simp: ExecuteScaleUps_def executeScaleUpsParallel_def s_def [symmetric] Let_def split: if_splits)
  have inv: "par_inv U nodeInfos now atomic infos (csr, calls) s"
    unfolding s_def by (rule par_inv_run [OF assms(1,3) par_inv_start]) (simp add: assms(2))
  note f = par_inv_finished [OF assms(3) inv fin]
  have "failed = map (\<lambda>r. su_Group (snd r)) (errResults s)" "err = None \<longleftrightarrow> errResults s = []"
    using res Combine_None_iff [of "quote U" tie "map fst (errResults s)"] by (auto split: if_splits)
  then show ?thesis using f True w'
    by (intro exI [of _ "length infos"]) (simp add: Let_def image_image)
next
  case False
  then have "executeScaleUpsSync U nodeInfos now atomic infos (csr, calls) = ((err, failed), w')"
    using assms(4) by (simp add: ExecuteScaleUps_def)
  from executeScaleUpsSync_spec [OF assms(1) _ assms(3) this, folded has_info_def] assms(2)
  obtain k where k: "k \<le> length infos" "carried_out U now atomic (filter (has_info U nodeInfos) (take k infos)) (csr, calls) w'"
    "failed = (case err of None \<Rightarrow> [] | Some e \<Rightarrow> [su_Group (infos ! (k - 1))])" "err = None \<longrightarrow> k = length infos"
    "err \<noteq> None \<longrightarrow> 0 < k \<and> has_info U nodeInfos (infos ! (k - 1)) \<and> own_error U atomic calls (infos ! (k - 1)) = err"
    "\<forall>i < k. err = None \<or> i \<noteq> k - 1 \<longrightarrow> has_info U nodeInfos (infos ! i) \<longrightarrow> own_error U atomic calls (infos ! i) = None" by auto
  have "{info \<in> set (filter (has_info U nodeInfos) (take k infos)). own_error U atomic calls info \<noteq> None} =
      (case err of None \<Rightarrow> {} | Some e \<Rightarrow> {infos ! (k - 1)})"
    using k(1,5,6) by (auto simp: in_set_conv_nth split: option.splits) (metis One_nat_def diff_Suc_less nth_take)+
  then show ?thesis using k False by (intro exI [of _ k]) (auto simp: Let_def split: option.splits)
qed

section \<open>Properties\<close>

text \<open>
  C12. Executing a plan does what the plan says and nothing else. In both modes and for every interleaving of
  the goroutines, an initial part of the plan is carried out (all of it in the parallel mode, or when no error
  is returned): each of its groups makes its own calls to the provider, its open request in the registry
  grows by exactly the planned increase when the call succeeded, its group is backed off when the call failed,
  and no other group, request or backoff changes. The groups reported as failed are those whose own calls
  failed, each once; in the sequential mode it is the last group that was tried.
\<close>

theorem scale_up_executed_exactly:
  fixes U :: "('g, 'i, 'p) su_env"
  assumes "steady U" and "registry_ok U csr" and "distinct_groups U infos"
    and "ExecuteScaleUps U tie schedule nodeInfos now atomic infos (csr, calls) = Some ((err, failed), w')"
  shows "\<exists>k \<le> length infos. let executed = filter (has_info U nodeInfos) (take k infos) in
    carried_out U now atomic executed (csr, calls) w' \<and> distinct failed \<and>
    set failed = su_Group ` {info \<in> set executed. own_error U atomic calls info \<noteq> None} \<and> (err = None \<longleftrightarrow> failed = []) \<and>
    (ParallelScaleUp (options U) \<or> err = None \<longrightarrow> k = length infos) \<and>
    (\<not> ParallelScaleUp (options U) \<and> err \<noteq> None \<longrightarrow> failed = [su_Group (infos ! (k - 1))])"
  by (rule executed_exactly_core [OF assms])


text \<open>
  Two groups: the provider refuses to resize the second. Both goroutines call the provider before either
  registers its result.
\<close>

definition demo_par_env :: "(nat, node, nat) su_env" where
  "demo_par_env = demo_su_env\<lparr>options := (options demo_su_env)\<lparr>ParallelScaleUp := True\<rparr>, Exist := (\<lambda>_ _. True),
     answers := (\<lambda>_. demo_services\<lparr>has_template := (\<lambda>_. True)\<rparr>),
     IncreaseSize := (\<lambda>_ g _. if g = 1 then Some (PlainError 0 ''quota'') else None)\<rparr>"

definition demo_par_csr :: "nat ClusterStateRegistry" where
  "demo_par_csr = NewNotifiedClusterStateRegistry \<lparr>MaxTotalUnreadyPercentage = 0, OkTotalUnreadyCount = 0\<rparr>
     (NewIdBasedExponentialBackoff (provider demo_par_env []) 1 2 3) []"

definition demo_par_infos :: "nat ScaleUpInfo list" where
  "demo_par_infos = [\<lparr>su_Group = 0, CurrentSize = 1, NewSize = 3, su_MaxSize = 10\<rparr>, \<lparr>su_Group = 1, CurrentSize = 1, NewSize = 2, su_MaxSize = 10\<rparr>]"

definition demo_par_run :: "((go_error option \<times> nat list) \<times> nat world) option" where
  "demo_par_run = ExecuteScaleUps demo_par_env (\<lambda>es. es) [1, 0, 0, 1, 1, 0, 1, 0] [(''a'', demo_quota_node), (''b'', demo_quota_node)] 5 False
     demo_par_infos (demo_par_csr, [])"

lemma demo_par_ok: "steady demo_par_env" "registry_ok demo_par_env demo_par_csr" "distinct_groups demo_par_env demo_par_infos"
proof -
  show "steady demo_par_env" by (simp add: steady_def demo_par_env_def demo_services_def demo_su_env_def)
  have "csr_inv (ident_of demo_par_env) demo_par_csr" unfolding demo_par_csr_def
    by (rule csr_inv_New(2)) (simp_all add: NewIdBasedExponentialBackoff_def NewExponentialBackoff_def backoff_inv_def backoff_config_ok_def)
  then show "registry_ok demo_par_env demo_par_csr"
    by (simp add: registry_ok_def notified_def) (simp add: demo_par_csr_def NewNotifiedClusterStateRegistry_def NewClusterStateRegistry_def)
  show "distinct_groups demo_par_env demo_par_infos"
    by (simp add: distinct_groups_def demo_par_infos_def demo_par_env_def demo_services_def demo_quota_env_def)
qed

lemma demo_par_result:
  "case demo_par_run of Some ((err, failed), csr, calls) \<Rightarrow> failed = [1] \<and> calls = [Call_IncreaseSize 1 1, Call_IncreaseSize 0 2] \<and>
     requested csr ''a'' = 2 \<and> requested csr ''b'' = 0 | None \<Rightarrow> False"
  by code_simp

theorem scale_up_executed_exactly_witness:
  "\<exists>err failed w'. demo_par_run = Some ((err, failed), w') \<and> failed = [1] \<and> (\<exists>k \<le> 2.
     carried_out demo_par_env 5 False (filter (has_info demo_par_env [(''a'', demo_quota_node), (''b'', demo_quota_node)]) (take k demo_par_infos))
       (demo_par_csr, []) w')"
proof -
  obtain err failed w' where run: "demo_par_run = Some ((err, failed), w')" "failed = [1]"
    using demo_par_result by (fastforce split: option.splits)
  have two: "length demo_par_infos = 2" by (simp add: demo_par_infos_def)
  from scale_up_executed_exactly [OF demo_par_ok run(1) [unfolded demo_par_run_def]]
  have "\<exists>k \<le> 2. carried_out demo_par_env 5 False (filter (has_info demo_par_env [(''a'', demo_quota_node), (''b'', demo_quota_node)]) (take k demo_par_infos))
       (demo_par_csr, []) w'" unfolding two Let_def by blast
  then show ?thesis using run by blast
qed


end
