(* ===== verification/Scale_Up_Props.thy ===== *)
theory Scale_Up_Props
  imports Scale_Up_Execution_Props
begin

text \<open>
  Planning and execution together: what a successful \<open>ScaleUp\<close> has done, and what
  \<open>ScaleUpToNodeGroupMinSize\<close> asks for.
\<close>

section \<open>What planning leaves of the registry\<close>

lemma core_Recalculate [simp]: "core (Recalculate E csr) = core csr"
  by (simp add: Recalculate_def core_def updateAcceptableRanges_def Let_def split_beta)

lemma CreateNodeGroup_core: "CreateNodeGroup U async best st = Some (Inr results, best', st') \<Longrightarrow> core (st_csr st') = core (st_csr st)"
  using CreateNodeGroup_frame [of U async best st results best' st'] by auto

lemma balance_plan_csr:
  assumes "balance_plan U args best n results st = Some (Inl plan, st')"
  shows "st_csr st' = st_csr st"
proof -
  obtain t where "st' = st\<lparr>st_tracker := t\<rparr>" using balance_plan_plan [OF assms] by blast
  then show ?thesis by simp
qed

lemma plan_option_cases:
  assumes "plan_option U args best st = Some (r, st')"
  shows "(\<exists>status e st1. plan_error U args status e st1 = Some (r, st')) \<or> (\<exists>st1. abortAllOrNothing U args st1 = Some (r, st')) \<or>
    (\<exists>t best' async. CreateNodeGroup U async best (st\<lparr>st_tracker := t\<rparr>) = Some (Inl (projr r), best', st') \<and> \<not> isl r) \<or>
    (\<exists>t st1 args' best' n results. balance_plan U args' best' n results st1 = Some (r, st') \<and> (st1 = st\<lparr>st_tracker := t\<rparr> \<or>
      (\<exists>async. CreateNodeGroup U async best (st\<lparr>st_tracker := t\<rparr>) = Some (Inr results, best', st1))))"
proof -
  obtain m e where m: "GetCappedNewNodeCount U (NodeCount best) (int (length (ctx_nodes args))) = (m, e)" by (rule prod.exhaust)
  obtain l t where l: "applyLimits U (st_calls st) m (Option_NodeGroup best) (st_infos st) (st_tracker st) = (l, t)" by (rule prod.exhaust)
  show ?thesis
  proof (cases "e = None \<and> \<not> isl l")
    case False
    then show ?thesis using assms m l by (cases e; cases l) (auto simp: plan_option_def Let_def)
  next
    case True
    then obtain n where n: "e = None" "l = Inr n" by (cases l) auto
    define st1 where "st1 = st\<lparr>st_tracker := t\<rparr>"
    consider (abort) "abortAllOrNothing U args st1 = Some (r, st')" | (same) "balance_plan U args best n [] st1 = Some (r, st')"
      | (create) res best' st2 where "CreateNodeGroup U (AsyncNodeGroupsEnabled (options U)) best st1 = Some (res, best', st2)"
        "(case res of Inl outcome \<Rightarrow> Some (Inr outcome, st2) | Inr results \<Rightarrow> balance_plan U (args\<lparr>ctx_nodeGroups :=
           appendCreatedNodeGroups (provider U (st_calls st2)) (ctx_nodeGroups args) (Id (provider U (st_calls st)) (Option_NodeGroup best)) results\<rparr>)
           best' n results st2) = Some (r, st')"
      using assms m l n by (auto simp: plan_option_def Let_def st1_def bind_eq_Some_conv split: if_split_asm)
    then show ?thesis
    proof cases
      case create
      then show ?thesis by (cases res) (auto simp: st1_def)
    next
      case same
      show ?thesis
        by (intro disjI2 exI, rule conjI, rule same, rule disjI1, rule st1_def)
    qed blast
  qed
qed

lemma plan_option_core:
  assumes "plan_option U args best st = Some (Inl plan, st')"
  shows "core (st_csr st') = core (st_csr st)"
  using plan_option_cases [OF assms] by (auto simp: no_plan dest!: CreateNodeGroup_core balance_plan_csr)

lemma prepareScaleUp_core:
  assumes "prepareScaleUp U args st = Some (Inl plan, st')"
  shows "core (st_csr st') = core (st_csr st)"
proof -
  obtain st1 best where "schedule_groups U (validNodeGroups args) (st\<lparr>st_schedulable := []\<rparr>) = Some st1"
    and "plan_option U args best st1 = Some (Inl plan, st')"
    using assms by (auto simp: prepareScaleUp_def bind_eq_Some_conv no_plan split: if_splits option.splits)
  then show ?thesis using schedule_groups_frame plan_option_core by fastforce
qed

text \<open>Only an executed plan is reported as a success.\<close>

lemma plan_error_unsuccessful: "plan_error U args s e st = Some (Inr (status, err), st') \<Longrightarrow> \<not> WasSuccessful status"
  by (auto simp: plan_error_def UpdateScaleUpError_def WasSuccessful_def bind_eq_Some_conv Let_def)

lemma no_options_unsuccessful: "no_options U args st = Some (Inr (status, err), st') \<Longrightarrow> \<not> WasSuccessful status"
  by (auto simp: no_options_def noOptionsAvailableStatus_def WasSuccessful_def bind_eq_Some_conv)

lemma abort_unsuccessful: "abortAllOrNothing U args st = Some (Inr (status, err), st') \<Longrightarrow> \<not> WasSuccessful status"
  unfolding abortAllOrNothing_def by (rule no_options_unsuccessful)

lemma balance_plan_unsuccessful:
  assumes "balance_plan U args best n results st = Some (Inr (status, err), st')"
  shows "\<not> WasSuccessful status"
proof -
  obtain res t where "balanceScaleUps U (st_calls st) (ctx_now args) (Option_NodeGroup best) n (st_infos st) (st_schedulable st)
       (st_csr st) (st_tracker st) = Some (res, t)"
    using assms by (auto simp: balance_plan_def bind_eq_Some_conv)
  then show ?thesis using assms
    by (cases res) (auto simp: balance_plan_def Let_def dest: plan_error_unsuccessful abort_unsuccessful split: if_split_asm)
qed

lemma CreateNodeGroup_unsuccessful: "CreateNodeGroup U async best st = Some (Inl (status, err), best', st') \<Longrightarrow> \<not> WasSuccessful status"
  by (auto simp: CreateNodeGroup_def processCreateNodeGroupResult_def UpdateScaleUpError_def WasSuccessful_def Let_def bind_eq_Some_conv
      split: sum.splits if_splits)

lemma plan_option_unsuccessful:
  assumes "plan_option U args best st = Some (Inr (status, err), st')"
  shows "\<not> WasSuccessful status"
  using plan_option_cases [OF assms]
  by (auto dest: plan_error_unsuccessful abort_unsuccessful balance_plan_unsuccessful CreateNodeGroup_unsuccessful)

lemma prepareScaleUp_unsuccessful: "prepareScaleUp U args st = Some (Inr (status, err), st') \<Longrightarrow> \<not> WasSuccessful status"
  by (auto simp: prepareScaleUp_def bind_eq_Some_conv dest: no_options_unsuccessful plan_option_unsuccessful split: if_splits option.splits)


section \<open>Choosing the groups\<close>

text \<open>The bounds within which quota arithmetic does not wrap around when whole groups are considered.\<close>

definition groups_in_bounds :: "('g, 'i, 'p) su_env \<Rightarrow> int \<Rightarrow> bool" where
  "groups_in_bounds U B \<longleftrightarrow> B < 2 ^ 63 \<and>
     (\<forall>calls g. (MaxSize (provider U calls) g - fst (TargetSize (provider U calls) g)) * B < 2 ^ 63)"

lemma filterValid_frame:
  assumes "in_plan_bounds U B" and "groups_in_bounds U B" and "tracker_ok B t"
    and "filterValidScaleUpNodeGroups U calls nodeInfos n now csr groups valid skipped t = (vs, ss, t')"
  shows "tracker_ok B t' \<and> quotaStatuses t' = quotaStatuses t"
  using assms(3,4)
proof (induction groups arbitrary: valid skipped t)
  case (Cons ng groups)
  let ?cp = "provider U calls"
  have env: "bounded_resources (quota_services U) B" "no_resource_errors (quota_services U)"
    using assms(1) by (simp_all add: in_plan_bounds_def)
  obtain size err where size: "TargetSize ?cp ng = (size, err)" by (rule prod.exhaust)
  define num where "num = (if zero_or_max U ng then MaxSize ?cp ng - size else 1)"
  have bound: "size < MaxSize ?cp ng \<Longrightarrow> 0 \<le> num \<and> num * B < 2 ^ 63"
  proof -
    assume "size < MaxSize ?cp ng"
    moreover have "(MaxSize ?cp ng - size) * B < 2 ^ 63" "B < 2 ^ 63"
      using assms(2) [unfolded groups_in_bounds_def, THEN conjunct2, rule_format, of calls ng] assms(2) size by (simp_all add: groups_in_bounds_def)
    ultimately show "0 \<le> num \<and> num * B < 2 ^ 63" by (simp add: num_def)
  qed
  let ?rest = "\<lambda>skipped. filterValidScaleUpNodeGroups U calls nodeInfos n now csr groups valid skipped t = (vs, ss, t')"
  consider (skip) reason where "?rest (gput (Id ?cp ng) reason skipped)"
    | (check) nodeInfo r t1 where "size < MaxSize ?cp ng" "IsNodeGroupResourceExceeded U calls ng nodeInfo num t = (r, t1)"
      "filterValidScaleUpNodeGroups U calls nodeInfos n now csr groups (if r = None then valid @ [ng] else valid)
         (case r of None \<Rightarrow> skipped | Some reason \<Rightarrow> gput (Id ?cp ng) reason skipped) t1 = (vs, ss, t')"
  proof (cases "IsNodeGroupReadyToScaleUp U calls ng now csr = None \<and> err = None \<and> size < MaxSize ?cp ng \<and>
      \<not> (zero_or_max U ng \<and> MaxNodesTotal (options U) \<noteq> 0 \<and> n + num > MaxNodesTotal (options U)) \<and> ghas nodeInfos (Id ?cp ng)")
    case True
    then obtain nodeInfo where info: "map_of nodeInfos (Id ?cp ng) = Some nodeInfo" by (auto simp: ghas_def)
    obtain r t1 where r: "IsNodeGroupResourceExceeded U calls ng nodeInfo num t = (r, t1)" by (rule prod.exhaust)
    have "filterValidScaleUpNodeGroups U calls nodeInfos n now csr groups (if r = None then valid @ [ng] else valid)
         (case r of None \<Rightarrow> skipped | Some reason \<Rightarrow> gput (Id ?cp ng) reason skipped) t1 = (vs, ss, t')"
      using True Cons.prems(2) size info r by (cases r; cases "zero_or_max U ng") (auto simp: Let_def num_def)
    then show ?thesis using True r check by blast
  next
    case False
    then have "\<exists>reason. ?rest (gput (Id ?cp ng) reason skipped)" using Cons.prems(2) size
      by (cases "IsNodeGroupReadyToScaleUp U calls ng now csr"; cases err; cases "map_of nodeInfos (Id ?cp ng)")
        (simp_all add: Let_def num_def ghas_def not_less split: if_split_asm, blast+)
    then show ?thesis using skip by blast
  qed
  then show ?case
  proof cases
    case skip
    then show ?thesis using Cons by blast
  next
    case check
    then have "tracker_ok B t1 \<and> quotaStatuses t1 = quotaStatuses t"
      using IsNodeGroupResourceExceeded_frame [OF env Cons.prems(1)] bound by blast
    then show ?thesis using Cons.IH check(3) by metis
  qed
qed simp

lemma plan_ok_tracker: "quotaStatuses t = quotaStatuses t' \<Longrightarrow> plan_ok U args t plan st = plan_ok U args t' plan st"
  by (simp add: plan_ok_def within_limits_def Let_def)

lemma carried_out_core: "core csr = core csr' \<Longrightarrow> carried_out U now atomic xs w (csr, calls) = carried_out U now atomic xs w (csr', calls)"
  using core_cong [of csr csr'] by (simp add: carried_out_def)

lemma registry_ok_core: "core csr = core csr' \<Longrightarrow> registry_ok U csr = registry_ok U csr'"
  using core_cong [of csr csr'] by (simp add: registry_ok_def)

text \<open>A plan executed without an error.\<close>

lemma executePlan_success:
  assumes "steady U" and "inj (ident_of U)" and "registry_ok U (st_csr st)" and "plan_ok U args t plan st"
    and "executePlan U tie schedule args plan st = Some ((status, err), st')" and "WasSuccessful status"
  shows "err = None \<and> ScaleUpInfos status = scaleUpInfos plan \<and>
    carried_out U (ctx_now args) (allOrNothing args) (scaleUpInfos plan) (st_csr st, st_calls st) (st_csr st', st_calls st') \<and>
    list_all (\<lambda>info. own_error U (allOrNothing args) (st_calls st) info = None) (scaleUpInfos plan)"
proof -
  let ?infos = "scaleUpInfos plan"
  obtain result failed csr calls where ex: "ExecuteScaleUps U tie schedule (st_infos st) (ctx_now args) (allOrNothing args) ?infos
      (st_csr st, st_calls st) = Some ((result, failed), csr, calls)"
    and fin: "finishScaleUp U args plan result failed (st\<lparr>st_csr := csr, st_calls := calls\<rparr>) = Some ((status, err), st')"
    using assms(5) by (auto simp: executePlan_def bind_eq_Some_conv)
  have "result = None" using fin assms(6)
    by (cases result) (auto simp: finishScaleUp_def bind_eq_Some_conv UpdateScaleUpError_def WasSuccessful_def Let_def)
  with fin have out: "err = None" "ScaleUpInfos status = ?infos" "st_calls st' = calls" "core (st_csr st') = core csr"
    by (auto simp: finishScaleUp_def bind_eq_Some_conv Let_def)
  have id: "Id (provider U (st_calls st)) = ident_of U" by (rule steadyD(5) [OF assms(1)])
  have plan: "distinct (map su_Group ?infos)" "\<forall>g\<in>su_Group ` set ?infos. ghas (st_infos st) (ident_of U g)"
    using assms(4) id by (simp_all add: plan_ok_def resizes_def Let_def)
  have d: "distinct_groups U ?infos"
    unfolding distinct_groups_def using plan(1) assms(2) distinct_map [of "ident_of U" "map su_Group ?infos"] inj_on_subset
    by (fastforce simp: comp_def)
  have has: "filter (has_info U (st_infos st)) ?infos = ?infos" using plan(2) by (simp add: has_info_def)
  obtain k where "let executed = filter (has_info U (st_infos st)) (take k ?infos) in
      carried_out U (ctx_now args) (allOrNothing args) executed (st_csr st, st_calls st) (csr, calls) \<and> distinct failed \<and>
      set failed = su_Group ` {info \<in> set executed. own_error U (allOrNothing args) (st_calls st) info \<noteq> None} \<and> (result = None \<longleftrightarrow> failed = []) \<and>
      (ParallelScaleUp (options U) \<or> result = None \<longrightarrow> k = length ?infos)"
    using executed_exactly_core [OF assms(1,3) d ex] unfolding Let_def by blast
  moreover from this have "take k ?infos = ?infos" using \<open>result = None\<close> by (simp add: Let_def)
  ultimately have "carried_out U (ctx_now args) (allOrNothing args) ?infos (st_csr st, st_calls st) (csr, calls)"
    "su_Group ` {info \<in> set ?infos. own_error U (allOrNothing args) (st_calls st) info \<noteq> None} = {}"
    using \<open>result = None\<close> unfolding Let_def by (simp_all only: has) auto
  then show ?thesis using out carried_out_core [OF out(4), of U] by (simp add: list_all_iff)
qed


section \<open>Properties\<close>


text \<open>
  One cluster node, five nodes wanted, room for two in the quota: the two groups get one node each, in parallel.
\<close>

definition demo_up_id :: "nat \<Rightarrow> string" where
  "demo_up_id g = replicate g CHR ''g''"

definition demo_up_env :: "(nat, node, nat) su_env" where
  "demo_up_env = demo_par_env\<lparr>IncreaseSize := (\<lambda>_ _ _. None), Exist := (\<lambda>_ _. False),
     answers := (\<lambda>_. demo_services\<lparr>cloudProvider := (qe_provider demo_quota_env)\<lparr>Id := demo_up_id\<rparr>\<rparr>)\<rparr>"

definition demo_up_csr :: "nat ClusterStateRegistry" where
  "demo_up_csr = NewNotifiedClusterStateRegistry \<lparr>MaxTotalUnreadyPercentage = 0, OkTotalUnreadyCount = 0\<rparr>
     (NewIdBasedExponentialBackoff (provider demo_up_env []) 1 2 3) []"

definition demo_up_infos :: "(string, node) gmap" where
  "demo_up_infos = [(demo_up_id 0, demo_quota_node), (demo_up_id 1, demo_quota_node)]"

definition demo_up_run :: "((nat, nat) outcome \<times> (nat, node, nat) su_state) option" where
  "demo_up_run = ScaleUp demo_up_env (\<lambda>es. es) [1, 0, 0, 1, 1, 0, 1, 0] (=) True [0] demo_store [demo_quota_node] demo_up_infos False (demo_up_csr, [])"

definition demo_up_tracker :: Tracker where
  "demo_up_tracker = demo_tracker\<lparr>nodeCache := [(demo_up_id 0, [(''cpu'', 4), (''memory'', 16), (''nodes'', 1), (''gpu'', 1)])]\<rparr>"

definition demo_up_start :: "(nat, node, nat) su_state" where
  "demo_up_start = \<lparr>st_egs = [\<lparr>Pods = [0], SchedulingErrors = [], SchedulableGroups = [], Schedulable = False\<rparr>], st_infos = demo_up_infos,
     st_schedulable = [], st_tracker = demo_up_tracker, st_csr = demo_up_csr, st_calls = []\<rparr>"

definition demo_up_args :: "(nat, nat) scaleUpCtx" where
  "demo_up_args = \<lparr>validNodeGroups = [0, 1], ctx_nodes = [demo_quota_node], unschedulablePods = [0], allOrNothing = False, ctx_now = 0,
     ctx_nodeGroups = [0, 1], skippedNodeGroups = []\<rparr>"

lemma demo_up_parts:
  "fst (BuildPodGroups (=) [0] demo_store) = st_egs demo_up_start" "\<not> isl (UpcomingNodes demo_up_env [] demo_up_infos demo_up_csr)"
  "calculateUsages (quotas_at demo_up_env []) [demo_quota_node] [demo_quota] [] =
     (Inr [(''q'', [(''cpu'', 4), (''memory'', 16), (''nodes'', 1), (''gpu'', 1)])], nodeCache demo_up_tracker)"
  by code_simp+

lemma demo_up_quotas: "NewMaxQuotasTracker (quotas_at demo_up_env []) (quota_provider demo_up_env) [demo_quota_node] = Inr demo_up_tracker"
proof -
  have "quota_provider demo_up_env = Inr [demo_quota]" by (simp add: demo_up_env_def demo_par_env_def demo_su_env_def)
  then show ?thesis
    by (simp add: NewMaxQuotasTracker_def newQuotasTracker_def demo_up_parts)
      (simp add: demo_up_tracker_def demo_tracker_def headroom_def demo_quota_def int64_def gget_def)
qed

lemma demo_up_filter:
  "case filterValidScaleUpNodeGroups demo_up_env [] demo_up_infos 1 0 demo_up_csr [0, 1] [] [] demo_up_tracker of (valid, skipped, t) \<Rightarrow>
     valid = [0, 1] \<and> skipped = [] \<and> nodeCache t = [(demo_up_id 0, [(''cpu'', 4), (''memory'', 16), (''nodes'', 1), (''gpu'', 1)]),
       (demo_up_id 1, [(''cpu'', 4), (''memory'', 16), (''nodes'', 1), (''gpu'', 1)])]"
  by code_simp

definition demo_up_planning :: "(nat, node, nat) su_state" where
  "demo_up_planning = demo_up_start\<lparr>st_tracker := demo_up_tracker\<lparr>nodeCache :=
     [(demo_up_id 0, [(''cpu'', 4), (''memory'', 16), (''nodes'', 1), (''gpu'', 1)]),
      (demo_up_id 1, [(''cpu'', 4), (''memory'', 16), (''nodes'', 1), (''gpu'', 1)])]\<rparr>\<rparr>"

abbreviation demo_up_execute :: "(nat, nat) scaleUpPlan \<Rightarrow> (nat, node, nat) su_state \<Rightarrow> ((nat, nat) outcome \<times> (nat, node, nat) su_state) option" where
  "demo_up_execute \<equiv> executePlan demo_up_env (\<lambda>es. es) [1, 0, 0, 1, 1, 0, 1, 0] demo_up_args"

lemma demo_up_planned:
  "map_option (\<lambda>(r, st). isl r) (prepareScaleUp demo_up_env demo_up_args demo_up_planning) = Some True"
  "map_option (\<lambda>((status, err), st). (Result status, st_calls st))
     (Option.bind (prepareScaleUp demo_up_env demo_up_args demo_up_planning) (\<lambda>(r, st). demo_up_execute (projl r) st)) =
   Some (ScaleUpSuccessful, [Call_IncreaseSize 1 1, Call_IncreaseSize 0 1])"
  by code_simp+

lemma demo_up_ok:
  "in_plan_bounds demo_up_env 16" "groups_in_bounds demo_up_env 16" "unique_ids (provider demo_up_env calls)" "inj (ident_of demo_up_env)"
  "steady demo_up_env" "registry_ok demo_up_env demo_up_csr" "tracker_ok 16 demo_up_tracker"
  "BestOption demo_up_env opts infos = Some best \<Longrightarrow> NodeCount best * 16 < 2 ^ 63"
proof -
  note env = demo_up_env_def demo_par_env_def demo_su_env_def demo_services_def demo_quota_env_def
  show "in_plan_bounds demo_up_env 16"
    using demo_env_ok(1) by (simp add: in_plan_bounds_def sort_ok_def demo_up_env_def demo_par_env_def)
  show "groups_in_bounds demo_up_env 16" by (simp add: groups_in_bounds_def env)
  have inj: "inj demo_up_id" by (rule injI) (metis demo_up_id_def length_replicate)
  show "unique_ids (provider demo_up_env calls)" by (simp add: unique_ids_def env demo_up_id_def)
  show "inj (ident_of demo_up_env)" using inj by (simp add: env)
  show "steady demo_up_env" by (simp add: steady_def env)
  have "csr_inv (ident_of demo_up_env) demo_up_csr" unfolding demo_up_csr_def
    by (rule csr_inv_New(2)) (simp_all add: NewIdBasedExponentialBackoff_def NewExponentialBackoff_def backoff_inv_def backoff_config_ok_def)
  then show "registry_ok demo_up_env demo_up_csr"
    by (simp add: registry_ok_def notified_def) (simp add: demo_up_csr_def NewNotifiedClusterStateRegistry_def NewClusterStateRegistry_def)
  show "tracker_ok 16 demo_up_tracker"
    using demo_env_ok(3) by (simp add: demo_up_tracker_def tracker_ok_def demo_su_state_def demo_tracker_def)
  show "BestOption demo_up_env opts infos = Some best \<Longrightarrow> NodeCount best * 16 < 2 ^ 63" by (auto simp: env split: if_splits)
qed

lemma demo_up_result:
  obtains status err st where "demo_up_run = Some ((status, err), st)" "WasSuccessful status"
    "st_calls st = [Call_IncreaseSize 1 1, Call_IncreaseSize 0 1]"
proof -
  obtain valid skipped t where f: "filterValidScaleUpNodeGroups demo_up_env [] demo_up_infos 1 0 demo_up_csr [0, 1] [] [] demo_up_tracker = (valid, skipped, t)"
    by (rule prod_cases3)
  then have p: "valid = [0, 1]" "skipped = []" and "nodeCache t = nodeCache (st_tracker demo_up_planning)"
    using demo_up_filter by (simp_all add: demo_up_planning_def)
  moreover have "quotaStatuses t = quotaStatuses demo_up_tracker" using filterValid_frame [OF demo_up_ok(1,2,7) f] by blast
  ultimately have t: "demo_up_start\<lparr>st_tracker := t\<rparr> = demo_up_planning" by (simp add: demo_up_planning_def)
  obtain plan st1 where prep: "prepareScaleUp demo_up_env demo_up_args demo_up_planning = Some (Inl plan, st1)"
    using demo_up_planned(1) by (auto simp: isl_def)
  then obtain status err st where run: "demo_up_execute plan st1 = Some ((status, err), st)"
    and res: "WasSuccessful status" "st_calls st = [Call_IncreaseSize 1 1, Call_IncreaseSize 0 1]"
    using demo_up_planned(2) by (auto simp: WasSuccessful_def)
  have planned: "scaleUp_planned demo_up_env (\<lambda>es. es) [1, 0, 0, 1, 1, 0, 1, 0] [0, 1] [0] [demo_quota_node] False demo_up_start = Some ((status, err), st)"
    using f p t prep run by (simp add: scaleUp_planned_def demo_up_start_def demo_up_args_def demo_up_env_def demo_par_env_def demo_su_env_def)
  obtain up where "UpcomingNodes demo_up_env [] demo_up_infos demo_up_csr = Inr up" using demo_up_parts(2) by (metis sum.collapse(2))
  moreover have "NodeGroupListProcessor demo_up_env = None" "NodeGroups (provider demo_up_env []) = [0, 1]"
    by (simp_all add: demo_up_env_def demo_par_env_def demo_su_env_def demo_services_def demo_quota_env_def)
  ultimately have "demo_up_run = Some ((status, err), st)"
    using planned by (simp add: demo_up_run_def ScaleUp_def demo_up_quotas demo_up_parts(1)) (simp add: demo_up_start_def)
  then show thesis using that res by blast
qed



section \<open>Groups below their minimal size\<close>

text \<open>
  \<open>ScaleUpToNodeGroupMinSize\<close> caps every group by the limits that were free before the call: it passes the size
  of the group itself to \<open>GetCappedNewNodeCount\<close> and does not consume quota. Two empty groups with a minimal
  size of two nodes each are both filled, although the cluster may have three nodes and the quota has room for two.
\<close>

definition demo_min_env :: "(nat, node, nat) su_env" where
  "demo_min_env = demo_par_env\<lparr>options := (options demo_par_env)\<lparr>MaxNodesTotal := 3\<rparr>,
     answers := (\<lambda>_. demo_services\<lparr>IsUpcoming := (\<lambda>_. False),
       cloudProvider := (qe_provider demo_quota_env)\<lparr>TargetSize := (\<lambda>_. (0, None)), MinSize := (\<lambda>_. 2)\<rparr>\<rparr>)\<rparr>"

theorem min_size_scale_up_exceeds_limits:
  "let infos = minSize_loop demo_min_env [] [(''a'', demo_quota_node), (''b'', demo_quota_node)] 0
         (Recalculate (answers demo_min_env []) demo_par_csr) [0, 1] demo_tracker;
       total = total_capacity infos
   in total = 4 \<and> total > MaxNodesTotal (options demo_min_env) \<and>
      total * gget 0 (gget [] (nodeCache demo_tracker) ''a'') ''cpu'' > gget 0 (limitsLeft (quotaStatuses demo_tracker ! 0)) ''cpu''"
  by code_simp

end
