(* ===== verification/Estimator.thy ===== *)
theory Estimator
  imports Pod_Groups Autoscaler_Errors Balancing "HOL-Library.Multiset"
begin

text \<open>
  Estimating how many new nodes a set of pending pods needs (src/pkg/estimator): first-fit binpacking on a forked
  snapshot, its limiter with the thresholds, and the order of the pod groups.

  The snapshot is a value of an abstract type \<open>'s\<close>; what the estimator calls of it (scheduling a pod on a node
  or on any acceptable node, adding a node made from the template) are fields of \<open>est_env\<close>, together with what
  the code reads of pods and templates. Fork and Revert leave the caller's snapshot as it was, so \<open>Estimate\<close> works
  on a copy and returns the estimate only. \<open>clock\<close> is the time of the successive calls to \<open>time.Now\<close>; the order in
  which \<open>sort.Slice\<close> puts groups with equal scores is \<open>tie\<close>. The capacity of a template is not zero. The optional
  analyser callback and the metrics are left out.
\<close>

section \<open>Services\<close>

record SchedulingError =
  is_internal :: bool
  FailingPredicateReasons :: "string list"

datatype est_error = Scheduling_failed SchedulingError | Adding_failed go_error

record ('p, 'i, 's) est_env =
  SchedulePod :: "'p \<Rightarrow> string \<Rightarrow> 's \<Rightarrow> SchedulingError option \<times> 's"
  SchedulePodOnAnyNodeMatching :: "'p \<Rightarrow> (string \<Rightarrow> bool) \<Rightarrow> 's \<Rightarrow> (string + SchedulingError) \<times> 's"
  AddNode :: "'i \<Rightarrow> string \<Rightarrow> 's \<Rightarrow> go_error + 's"
  TemplateName :: "'i \<Rightarrow> string"
  TopologySpreadConstraints :: "'p \<Rightarrow> string list option"
  AntiAffinityTerms :: "'p \<Rightarrow> (string \<times> bool) list"
  FirstContainerRequests :: "'p \<Rightarrow> (rat \<times> rat) option"
  PodRequests :: "'p \<Rightarrow> int \<times> int"
  Capacity :: "'i \<Rightarrow> rat \<times> rat"
  Allocatable :: "'i \<Rightarrow> int option \<times> int option"
  ErrReasonConstraintsNotMatch :: string
  clock :: "nat \<Rightarrow> time"
  tie :: "(rat \<times> 'p PodEquivalenceGroup) list \<Rightarrow> (rat \<times> 'p PodEquivalenceGroup) list"
  fastpathBinpackingEnabled :: bool

definition LabelHostname :: string where "LabelHostname = ''kubernetes.io/hostname''"

section \<open>The limiter\<close>

record 'g EstimationContext =
  SimilarGroups :: "'g list"
  ClusterMaxNodeLimit :: int
  CurrentNodeCount :: int

datatype threshold = staticThreshold int duration | sngCapacityThreshold | clusterCapacityThreshold

definition computeNodeGroupCapacity :: "'g cloud_provider \<Rightarrow> 'g \<Rightarrow> int" where
  "computeNodeGroupCapacity cp nodeGroup =
     (case TargetSize cp nodeGroup of
        (_, Some err) \<Rightarrow> 0
      | (targetSize, None) \<Rightarrow> (let groupCapacity = MaxSize cp nodeGroup - targetSize in if groupCapacity > 0 then groupCapacity else 0))"

definition sng_NodeLimit :: "'g cloud_provider \<Rightarrow> 'g \<Rightarrow> 'g EstimationContext option \<Rightarrow> int" where
  "sng_NodeLimit cp nodeGroup ctx =
     (case ctx of None \<Rightarrow> 0
      | Some c \<Rightarrow> (let total = foldl (\<lambda>n sng. n + computeNodeGroupCapacity cp sng) (computeNodeGroupCapacity cp nodeGroup) (SimilarGroups c)
                   in if total \<le> 0 then -1 else total))"

definition cluster_NodeLimit :: "'g EstimationContext option \<Rightarrow> int" where
  "cluster_NodeLimit ctx =
     (case ctx of None \<Rightarrow> 0
      | Some c \<Rightarrow>
          if ClusterMaxNodeLimit c = 0 then 0
          else if ClusterMaxNodeLimit c < 0 \<or> ClusterMaxNodeLimit c \<le> CurrentNodeCount c then -1
          else ClusterMaxNodeLimit c - CurrentNodeCount c)"

fun NodeLimit :: "'g cloud_provider \<Rightarrow> 'g \<Rightarrow> 'g EstimationContext option \<Rightarrow> threshold \<Rightarrow> int" where
  "NodeLimit cp nodeGroup ctx (staticThreshold maxNodes maxDuration) = maxNodes"
| "NodeLimit cp nodeGroup ctx sngCapacityThreshold = sng_NodeLimit cp nodeGroup ctx"
| "NodeLimit cp nodeGroup ctx clusterCapacityThreshold = cluster_NodeLimit ctx"

fun DurationLimit :: "threshold \<Rightarrow> duration" where
  "DurationLimit (staticThreshold maxNodes maxDuration) = maxDuration"
| "DurationLimit sngCapacityThreshold = 0"
| "DurationLimit clusterCapacityThreshold = 0"

record limiter =
  lim_maxDuration :: duration
  lim_maxNodes :: int
  lim_nodes :: int
  lim_start :: time
  lim_ticks :: nat

definition getMinLimit :: "int \<Rightarrow> int \<Rightarrow> int" where
  "getMinLimit baseLimit targetLimit =
     (if baseLimit < 0 \<or> targetLimit < 0 then -1
      else if (baseLimit = 0 \<or> baseLimit > targetLimit) \<and> targetLimit > 0 then targetLimit
      else baseLimit)"

definition StartEstimation :: "('p, 'i, 's) est_env \<Rightarrow> 'g cloud_provider \<Rightarrow> threshold list \<Rightarrow> 'g \<Rightarrow> 'g EstimationContext option \<Rightarrow> limiter" where
  "StartEstimation E cp thresholds nodeGroup ctx =
     foldl (\<lambda>l threshold. l\<lparr>lim_maxNodes := getMinLimit (lim_maxNodes l) (NodeLimit cp nodeGroup ctx threshold),
         lim_maxDuration := getMinLimit (lim_maxDuration l) (DurationLimit threshold)\<rparr>)
       \<lparr>lim_maxDuration = 0, lim_maxNodes = 0, lim_nodes = 0, lim_start = clock E 0, lim_ticks = 1\<rparr> thresholds"

definition PermissionToAddNode :: "('p, 'i, 's) est_env \<Rightarrow> limiter \<Rightarrow> bool \<times> limiter" where
  "PermissionToAddNode E l =
     (if lim_maxNodes l < 0 \<or> lim_maxNodes l > 0 \<and> lim_nodes l \<ge> lim_maxNodes l then (False, l)
      else (let timeDefined = lim_maxDuration l > 0 \<and> lim_start l \<noteq> zero_time;
                l' = (if \<not> lim_maxDuration l < 0 \<and> timeDefined then l\<lparr>lim_ticks := lim_ticks l + 1\<rparr> else l) in
        if lim_maxDuration l < 0 \<or> timeDefined \<and> clock E (lim_ticks l) > lim_start l + lim_maxDuration l then (False, l')
        else (True, l'\<lparr>lim_nodes := lim_nodes l + 1\<rparr>)))"

section \<open>The order of the groups\<close>

definition f64_add :: "rat \<Rightarrow> rat \<Rightarrow> rat" where
  "f64_add x y = f64_round (x + y)"

definition calculatePodScore :: "('p, 'i, 's) est_env \<Rightarrow> 'i \<Rightarrow> 'p PodEquivalenceGroup \<Rightarrow> rat \<times> 'p PodEquivalenceGroup" where
  "calculatePodScore E nodeTemplate podsEquivalentGroup =
     (case Exemplar podsEquivalentGroup of
        None \<Rightarrow> (0, podsEquivalentGroup)
      | Some samplePod \<Rightarrow>
          (let (podCPU, podMemory) = PodRequests E samplePod; (cpuAllocatable, memAllocatable) = Allocatable E nodeTemplate;
               part = (\<lambda>score request allocatable. case allocatable of None \<Rightarrow> score
                  | Some a \<Rightarrow> if a > 0 then f64_add score (f64_div (f64_of_int request) (f64_of_int a)) else score)
           in (part (part 0 podCPU cpuAllocatable) podMemory memAllocatable, podsEquivalentGroup)))"

definition Order :: "('p, 'i, 's) est_env \<Rightarrow> 'i \<Rightarrow> 'p PodEquivalenceGroup list \<Rightarrow> 'p PodEquivalenceGroup list" where
  "Order E nodeTemplate groups = map snd (sort_key (\<lambda>x. - fst x) (tie E (map (calculatePodScore E nodeTemplate) groups)))"

section \<open>The fast path\<close>

definition hasNonHostnamePodAntiAffinity :: "('p, 'i, 's) est_env \<Rightarrow> 'p \<Rightarrow> bool" where
  "hasNonHostnamePodAntiAffinity E pod = list_ex (\<lambda>(key, _). key \<noteq> LabelHostname) (AntiAffinityTerms E pod)"

definition shouldUseFastPath :: "('p, 'i, 's) est_env \<Rightarrow> 'p PodEquivalenceGroup \<Rightarrow> bool" where
  "shouldUseFastPath E peg =
     (case Exemplar peg of None \<Rightarrow> False
      | Some pod \<Rightarrow> \<not> (TopologySpreadConstraints E pod \<noteq> None \<or> hasNonHostnamePodAntiAffinity E pod))"

definition nodes_by :: "nat \<Rightarrow> rat \<Rightarrow> rat \<Rightarrow> int" where
  "nodes_by pods request capacity = \<lceil>f64_div (f64_mul (f64_of_int (int pods)) request) capacity\<rceil>"

definition simulations_saved :: "('p, 'i, 's) est_env \<Rightarrow> 'i \<Rightarrow> 'p \<Rightarrow> 'p PodEquivalenceGroup \<Rightarrow> int" where
  "simulations_saved E nodeTemplate exemplar peg =
     (let n = int (length peg);
          byAntiAffinity = (if list_ex (\<lambda>(key, matches). key = LabelHostname \<and> matches) (AntiAffinityTerms E exemplar) then n else 0);
          (byCpu, byMemory) = (case FirstContainerRequests E exemplar of None \<Rightarrow> (0, 0)
            | Some (cpu, memory) \<Rightarrow> (nodes_by (length peg) cpu (fst (Capacity E nodeTemplate)), nodes_by (length peg) memory (snd (Capacity E nodeTemplate))));
          numNodes = max (max byAntiAffinity byCpu) byMemory
      in if numNodes > 0 then n - n div numNodes else 0)"

fun best_peg :: "('p, 'i, 's) est_env \<Rightarrow> 'i \<Rightarrow> nat \<Rightarrow> 'p PodEquivalenceGroup list \<Rightarrow> int \<Rightarrow> nat option \<Rightarrow> nat option" where
  "best_peg E nodeTemplate i [] maxSaved best = best"
| "best_peg E nodeTemplate i (peg # pegs) maxSaved best =
     (case Exemplar peg of
        None \<Rightarrow> best_peg E nodeTemplate (i + 1) pegs maxSaved best
      | Some exemplar \<Rightarrow>
          (let saved = simulations_saved E nodeTemplate exemplar peg in
           if saved \<ge> maxSaved \<and> shouldUseFastPath E peg then best_peg E nodeTemplate (i + 1) pegs saved (Some i)
           else best_peg E nodeTemplate (i + 1) pegs maxSaved best))"

definition determineBestPEGToFastpath :: "('p, 'i, 's) est_env \<Rightarrow> 'i \<Rightarrow> 'p PodEquivalenceGroup list \<Rightarrow> nat option" where
  "determineBestPEGToFastpath E nodeTemplate pegs = best_peg E nodeTemplate 0 pegs 0 None"

section \<open>Binpacking\<close>

record ('p, 's) estimationState =
  scheduledPods :: "'p list"
  newNodeNameIndex :: int
  lastNodeName :: string
  newNodeNames :: "(string, bool) gmap"
  newNodesWithPods :: "(string, bool) gmap"
  snapshot :: 's
  est_limiter :: limiter

definition newEstimationState :: "'s \<Rightarrow> limiter \<Rightarrow> ('p, 's) estimationState" where
  "newEstimationState s l = \<lparr>scheduledPods = [], newNodeNameIndex = 0, lastNodeName = [], newNodeNames = [], newNodesWithPods = [],
     snapshot = s, est_limiter = l\<rparr>"

definition trackScheduledPod :: "'p \<Rightarrow> string \<Rightarrow> ('p, 's) estimationState \<Rightarrow> ('p, 's) estimationState" where
  "trackScheduledPod pod nodeName st =
     st\<lparr>newNodesWithPods := gput nodeName True (newNodesWithPods st), scheduledPods := scheduledPods st @ [pod]\<rparr>"

definition hasTopologyConstraintError :: "('p, 'i, 's) est_env \<Rightarrow> SchedulingError option \<Rightarrow> bool" where
  "hasTopologyConstraintError E err =
     (case err of None \<Rightarrow> False | Some e \<Rightarrow> ErrReasonConstraintsNotMatch E \<in> set (FailingPredicateReasons e))"

definition isPodUsingHostNameTopologyKey :: "('p, 'i, 's) est_env \<Rightarrow> 'p \<Rightarrow> bool" where
  "isPodUsingHostNameTopologyKey E pod =
     (case TopologySpreadConstraints E pod of None \<Rightarrow> False | Some keys \<Rightarrow> list_ex (\<lambda>key. key = LabelHostname) keys)"

definition addNewNodeToSnapshot :: "('p, 'i, 's) est_env \<Rightarrow> 'i \<Rightarrow> ('p, 's) estimationState \<Rightarrow> go_error option \<times> ('p, 's) estimationState" where
  "addNewNodeToSnapshot E template st =
     (let name = TemplateName E template @ ''-e-'' @ Sprint_int (newNodeNameIndex st) in
      case AddNode E template name (snapshot st) of
        Inl err \<Rightarrow> (Some err, st)
      | Inr s \<Rightarrow> (None, st\<lparr>snapshot := s, newNodeNameIndex := newNodeNameIndex st + 1, lastNodeName := name,
            newNodeNames := gput name True (newNodeNames st)\<rparr>))"

fun tryToScheduleOnExistingNodes :: "('p, 'i, 's) est_env \<Rightarrow> 'p list \<Rightarrow> ('p, 's) estimationState \<Rightarrow>
    (est_error + 'p list) \<times> ('p, 's) estimationState" where
  "tryToScheduleOnExistingNodes E [] st = (Inr [], st)"
| "tryToScheduleOnExistingNodes E (pod # pods) st =
     (case SchedulePodOnAnyNodeMatching E pod (\<lambda>name. gget False (newNodeNames st) name) (snapshot st) of
        (Inr err, s) \<Rightarrow> (if is_internal err then Inl (Scheduling_failed err) else Inr (pod # pods), st\<lparr>snapshot := s\<rparr>)
      | (Inl nodeName, s) \<Rightarrow> tryToScheduleOnExistingNodes E pods (trackScheduledPod pod nodeName (st\<lparr>snapshot := s\<rparr>)))"

text \<open>The attempt on the node added last, and on any other node when a topology constraint forbids it.\<close>

definition try_last_node :: "('p, 'i, 's) est_env \<Rightarrow> 'p \<Rightarrow> ('p, 's) estimationState \<Rightarrow> (est_error + bool) \<times> ('p, 's) estimationState" where
  "try_last_node E pod st =
     (if lastNodeName st = [] then (Inr False, st)
      else case SchedulePod E pod (lastNodeName st) (snapshot st) of
          (None, s) \<Rightarrow> (Inr True, trackScheduledPod pod (lastNodeName st) (st\<lparr>snapshot := s\<rparr>))
        | (Some err, s) \<Rightarrow>
            (let st = st\<lparr>snapshot := s\<rparr> in
             if is_internal err then (Inl (Scheduling_failed err), st)
             else if isPodUsingHostNameTopologyKey E pod \<and> hasTopologyConstraintError E (Some err) then
               (case SchedulePodOnAnyNodeMatching E pod (\<lambda>name. name \<noteq> lastNodeName st) (snapshot st) of
                  (Inr err, s) \<Rightarrow> (if is_internal err then Inl (Scheduling_failed err) else Inr False, st\<lparr>snapshot := s\<rparr>)
                | (Inl nodeName, s) \<Rightarrow>
                    if nodeName \<noteq> [] then (Inr True, trackScheduledPod pod nodeName (st\<lparr>snapshot := s\<rparr>)) else (Inr False, st\<lparr>snapshot := s\<rparr>))
             else (Inr False, st)))"

fun tryToScheduleOnNewNodes :: "('p, 'i, 's) est_env \<Rightarrow> 'i \<Rightarrow> 'p list \<Rightarrow> ('p, 's) estimationState \<Rightarrow>
    (est_error + bool) \<times> ('p, 's) estimationState" where
  "tryToScheduleOnNewNodes E nodeTemplate [] st = (Inr True, st)"
| "tryToScheduleOnNewNodes E nodeTemplate (pod # pods) st =
     (case try_last_node E pod st of
        (Inl err, st) \<Rightarrow> (Inl err, st)
      | (Inr found, st) \<Rightarrow>
          if found then tryToScheduleOnNewNodes E nodeTemplate pods st
          else if lastNodeName st \<noteq> [] \<and> \<not> gget False (newNodesWithPods st) (lastNodeName st) then (Inr True, st)
          else case PermissionToAddNode E (est_limiter st) of
              (False, l) \<Rightarrow> (Inr False, st\<lparr>est_limiter := l\<rparr>)
            | (True, l) \<Rightarrow>
                (case addNewNodeToSnapshot E nodeTemplate (st\<lparr>est_limiter := l\<rparr>) of
                   (Some err, st) \<Rightarrow> (Inl (Adding_failed err), st)
                 | (None, st) \<Rightarrow>
                     (case SchedulePod E pod (lastNodeName st) (snapshot st) of
                        (Some err, s) \<Rightarrow> (if is_internal err then Inl (Scheduling_failed err) else Inr True, st\<lparr>snapshot := s\<rparr>)
                      | (None, s) \<Rightarrow> tryToScheduleOnNewNodes E nodeTemplate pods (trackScheduledPod pod (lastNodeName st) (st\<lparr>snapshot := s\<rparr>)))))"

text \<open>The first node of the fast path: the pods that did not fit any more.\<close>

fun fill_node :: "('p, 'i, 's) est_env \<Rightarrow> 'p list \<Rightarrow> ('p, 's) estimationState \<Rightarrow> (est_error + 'p list) \<times> ('p, 's) estimationState" where
  "fill_node E [] st = (Inr [], st)"
| "fill_node E (pod # pods) st =
     (case SchedulePod E pod (lastNodeName st) (snapshot st) of
        (Some err, s) \<Rightarrow> (if is_internal err then Inl (Scheduling_failed err) else Inr (pod # pods), st\<lparr>snapshot := s\<rparr>)
      | (None, s) \<Rightarrow> fill_node E pods (trackScheduledPod pod (lastNodeName st) (st\<lparr>snapshot := s\<rparr>)))"

text \<open>The further nodes: \<open>k\<close> iterations from \<open>j\<close> on.\<close>

fun fake_nodes :: "('p, 'i, 's) est_env \<Rightarrow> nat \<Rightarrow> int \<Rightarrow> nat \<Rightarrow> 'p list \<Rightarrow> ('p, 's) estimationState \<Rightarrow> bool \<times> ('p, 's) estimationState" where
  "fake_nodes E 0 j podsPerNode pods st = (True, st)"
| "fake_nodes E (Suc k) j podsPerNode pods st =
     (case PermissionToAddNode E (est_limiter st) of
        (False, l) \<Rightarrow> (False, st\<lparr>est_limiter := l\<rparr>)
      | (True, l) \<Rightarrow>
          (let name = lastNodeName st @ ''-fake-'' @ Sprint_int j;
               st = fold (\<lambda>pod. trackScheduledPod pod name) (take podsPerNode pods) (st\<lparr>est_limiter := l\<rparr>)
           in fake_nodes E k (j + 1) podsPerNode (drop podsPerNode pods) st))"

definition tryFastPath :: "('p, 'i, 's) est_env \<Rightarrow> 'i \<Rightarrow> 'p list \<Rightarrow> ('p, 's) estimationState \<Rightarrow> (est_error + bool) \<times> ('p, 's) estimationState" where
  "tryFastPath E nodeTemplate pods st =
     (if length pods = 0 then (Inr True, st)
      else case PermissionToAddNode E (est_limiter st) of
          (False, l) \<Rightarrow> (Inr False, st\<lparr>est_limiter := l\<rparr>)
        | (True, l) \<Rightarrow>
            (case addNewNodeToSnapshot E nodeTemplate (st\<lparr>est_limiter := l\<rparr>) of
               (Some err, st) \<Rightarrow> (Inl (Adding_failed err), st)
             | (None, st) \<Rightarrow>
                 (case fill_node E pods st of
                    (Inl err, st) \<Rightarrow> (Inl err, st)
                  | (Inr rest, st) \<Rightarrow>
                      (let podsPerNode = length pods - length rest in
                       if podsPerNode = 0 then (Inr True, st)
                       else (let size = length pods div podsPerNode;
                                 scaleUpSize = (if podsPerNode * size < length pods then size + 1 else size);
                                 (ok, st) = fake_nodes E (scaleUpSize - 1) 1 podsPerNode rest st
                             in (Inr ok, st))))))"

fun estimate_loop :: "('p, 'i, 's) est_env \<Rightarrow> 'i \<Rightarrow> bool \<Rightarrow> 'p PodEquivalenceGroup list \<Rightarrow> bool \<Rightarrow> ('p, 's) estimationState \<Rightarrow>
    ('p, 's) estimationState option" where
  "estimate_loop E nodeTemplate useFastpath [] newNodesAvailable st = Some st"
| "estimate_loop E nodeTemplate useFastpath (peg # groups) newNodesAvailable st =
     (case tryToScheduleOnExistingNodes E peg st of
        (Inl err, st) \<Rightarrow> None
      | (Inr remainingPods, st) \<Rightarrow>
          if newNodesAvailable then
            (case (if groups = [] \<and> useFastpath then tryFastPath E nodeTemplate remainingPods st
                   else tryToScheduleOnNewNodes E nodeTemplate remainingPods st) of
               (Inl err, st) \<Rightarrow> None
             | (Inr available, st) \<Rightarrow> estimate_loop E nodeTemplate useFastpath groups available st)
          else estimate_loop E nodeTemplate useFastpath groups newNodesAvailable st)"

definition arrange_groups :: "('p, 'i, 's) est_env \<Rightarrow> 'i \<Rightarrow> 'p PodEquivalenceGroup list \<Rightarrow> 'p PodEquivalenceGroup list \<times> bool" where
  "arrange_groups E nodeTemplate groups =
     (let groups = Order E nodeTemplate groups in
      if fastpathBinpackingEnabled E then
        (case determineBestPEGToFastpath E nodeTemplate groups of
           None \<Rightarrow> (groups, False)
         | Some i \<Rightarrow> (take i groups @ drop (i + 1) groups @ [groups ! i], True))
      else (groups, False))"

definition Estimate_binpacking :: "('p, 'i, 's) est_env \<Rightarrow> 'g cloud_provider \<Rightarrow> threshold list \<Rightarrow> 'g EstimationContext option \<Rightarrow> 's \<Rightarrow>
    'p PodEquivalenceGroup list \<Rightarrow> 'i \<Rightarrow> 'g \<Rightarrow> int \<times> 'p list" where
  "Estimate_binpacking E cp thresholds ctx s groups nodeTemplate nodeGroup =
     (let l = StartEstimation E cp thresholds nodeGroup ctx; (groups, useFastpath) = arrange_groups E nodeTemplate groups in
      case estimate_loop E nodeTemplate useFastpath groups True (newEstimationState s l) of
        None \<Rightarrow> (0, [])
      | Some st \<Rightarrow> (int (length (newNodesWithPods st)), scheduledPods st))"

end
