(* ===== verification/Estimator_Props.thy ===== *)
theory Estimator_Props
  imports Estimator
begin

text \<open>
  What the binpacking estimator promises: the estimate keeps to every threshold of its limiter and never counts a
  node without a pod, and without thresholds every pod that fits on a fresh node is placed.
\<close>

section \<open>The limiter\<close>

definition limiter_ok :: "limiter \<Rightarrow> bool" where
  "limiter_ok l \<longleftrightarrow> 0 \<le> lim_nodes l \<and> (lim_maxNodes l < 0 \<longrightarrow> lim_nodes l = 0) \<and> (0 < lim_maxNodes l \<longrightarrow> lim_nodes l \<le> lim_maxNodes l)"

lemma permission_keeps_max:
  "PermissionToAddNode E l = (ok, l') \<Longrightarrow> lim_maxNodes l' = lim_maxNodes l"
  by (auto simp: PermissionToAddNode_def Let_def split: if_splits)

lemma permission_refused: "PermissionToAddNode E l = (False, l') \<Longrightarrow> lim_nodes l' = lim_nodes l"
  by (auto simp: PermissionToAddNode_def Let_def split: if_splits)

lemma permission_granted: "PermissionToAddNode E l = (True, l') \<Longrightarrow> lim_nodes l' = lim_nodes l + 1"
  by (auto simp: PermissionToAddNode_def Let_def split: if_splits)

lemma permission_limiter_ok: "PermissionToAddNode E l = (ok, l') \<Longrightarrow> limiter_ok l \<Longrightarrow> limiter_ok l'"
  by (auto simp: PermissionToAddNode_def limiter_ok_def Let_def split: if_splits)

lemma permission_unlimited:
  assumes "lim_maxNodes l = 0" "lim_maxDuration l = 0"
  shows "PermissionToAddNode E l = (True, l\<lparr>lim_nodes := lim_nodes l + 1\<rparr>)"
  using assms by (simp add: PermissionToAddNode_def Let_def)

text \<open>The minimum of the limits: a negative one forbids, zero is no limit, and a positive one bounds.\<close>

lemma getMinLimit_neg: "getMinLimit a b < 0 \<longleftrightarrow> a < 0 \<or> b < 0"
  by (auto simp: getMinLimit_def)

lemma getMinLimit_pos_right: "0 < b \<Longrightarrow> getMinLimit a b < 0 \<or> 0 < getMinLimit a b \<and> getMinLimit a b \<le> b"
  by (auto simp: getMinLimit_def)

lemma getMinLimit_pos_left: "0 < a \<Longrightarrow> getMinLimit a b < 0 \<or> 0 < getMinLimit a b \<and> getMinLimit a b \<le> a"
  by (auto simp: getMinLimit_def)

lemma foldl_getMinLimit_neg: "foldl getMinLimit a bs < 0 \<longleftrightarrow> a < 0 \<or> (\<exists>b \<in> set bs. b < 0)"
  by (induction bs arbitrary: a) (auto simp: getMinLimit_neg)

lemma foldl_getMinLimit_base: "0 < a \<Longrightarrow> foldl getMinLimit a bs < 0 \<or> 0 < foldl getMinLimit a bs \<and> foldl getMinLimit a bs \<le> a"
proof (induction bs arbitrary: a)
  case (Cons b bs)
  show ?case
    using getMinLimit_pos_left [OF Cons.prems, of b] Cons.IH [of "getMinLimit a b"] foldl_getMinLimit_neg [of "getMinLimit a b" bs]
    by auto
qed simp

lemma foldl_getMinLimit_pos:
  "b \<in> set bs \<Longrightarrow> 0 < b \<Longrightarrow> foldl getMinLimit a bs < 0 \<or> 0 < foldl getMinLimit a bs \<and> foldl getMinLimit a bs \<le> b"
proof (induction bs arbitrary: a)
  case (Cons c bs)
  show ?case
  proof (cases "b = c")
    case True
    then show ?thesis
      using getMinLimit_pos_right [OF Cons.prems(2), of a] foldl_getMinLimit_base [of "getMinLimit a b" bs]
        foldl_getMinLimit_neg [of "getMinLimit a b" bs] by auto
  next
    case False
    then show ?thesis using Cons by simp
  qed
qed simp

lemma start_limits_gen:
  "lim_maxNodes (foldl (\<lambda>l threshold. l\<lparr>lim_maxNodes := getMinLimit (lim_maxNodes l) (f threshold),
         lim_maxDuration := getMinLimit (lim_maxDuration l) (g threshold)\<rparr>) l ts) = foldl getMinLimit (lim_maxNodes l) (map f ts)
   \<and> lim_maxDuration (foldl (\<lambda>l threshold. l\<lparr>lim_maxNodes := getMinLimit (lim_maxNodes l) (f threshold),
         lim_maxDuration := getMinLimit (lim_maxDuration l) (g threshold)\<rparr>) l ts) = foldl getMinLimit (lim_maxDuration l) (map g ts)
   \<and> lim_nodes (foldl (\<lambda>l threshold. l\<lparr>lim_maxNodes := getMinLimit (lim_maxNodes l) (f threshold),
         lim_maxDuration := getMinLimit (lim_maxDuration l) (g threshold)\<rparr>) l ts) = lim_nodes l"
  by (induction ts arbitrary: l) auto

lemma start_limits [simp]:
  "lim_maxNodes (StartEstimation E cp ts ng ctx) = foldl getMinLimit 0 (map (NodeLimit cp ng ctx) ts)"
  "lim_maxDuration (StartEstimation E cp ts ng ctx) = foldl getMinLimit 0 (map DurationLimit ts)"
  "lim_nodes (StartEstimation E cp ts ng ctx) = 0"
  unfolding StartEstimation_def using start_limits_gen [where f = "NodeLimit cp ng ctx" and g = DurationLimit and ts = ts and l =
      "\<lparr>lim_maxDuration = 0, lim_maxNodes = 0, lim_nodes = 0, lim_start = clock E 0, lim_ticks = 1\<rparr>"] by simp_all

lemma foldl_getMinLimit_zero: "(\<And>b. b \<in> set bs \<Longrightarrow> b = 0) \<Longrightarrow> foldl getMinLimit 0 bs = 0"
  by (induction bs) (auto simp: getMinLimit_def)

section \<open>The order of the groups\<close>

lemma calculatePodScore_group [simp]: "snd (calculatePodScore E t g) = g"
  by (simp add: calculatePodScore_def split: option.split prod.split)

lemma mset_Order:
  assumes "\<And>xs. mset (tie E xs) = mset xs"
  shows "mset (Order E t groups) = mset groups"
proof -
  have "mset (map snd (tie E (map (calculatePodScore E t) groups))) = mset (map snd (map (calculatePodScore E t) groups))"
    by (simp only: mset_map assms)
  then show ?thesis by (simp add: Order_def comp_def)
qed

lemma best_peg_bound:
  "best_peg E t i pegs m best = Some k \<Longrightarrow> best = Some k \<or> i \<le> k \<and> k < i + length pegs"
  by (induction E t i pegs m best rule: best_peg.induct) (fastforce simp: Let_def split: option.splits if_splits)+

lemma mset_move_to_end: "k < length xs \<Longrightarrow> mset (take k xs @ drop (k + 1) xs @ [xs ! k]) = mset xs"
  using arg_cong [OF id_take_nth_drop [of k xs], of mset] by (simp del: append_take_drop_id)

lemma mset_arrange_groups:
  assumes "\<And>xs. mset (tie E xs) = mset xs"
  shows "mset (fst (arrange_groups E t groups)) = mset groups"
proof -
  have "k < length (Order E t groups)" if "determineBestPEGToFastpath E t (Order E t groups) = Some k" for k
    using that best_peg_bound [of E t 0 "Order E t groups" 0 None k] by (simp add: determineBestPEGToFastpath_def)
  then show ?thesis
    using mset_Order [OF assms] mset_move_to_end [of _ "Order E t groups"] unfolding arrange_groups_def
    by (simp add: Let_def split: option.split)
qed

lemma mset_concat_arranged:
  assumes "\<And>xs. mset (tie E xs) = mset xs"
  shows "mset (concat (fst (arrange_groups E t groups))) = mset (concat groups)"
  using mset_arrange_groups [OF assms, of t groups] by (metis mset_concat mset_map sum_mset_sum_list)

section \<open>The state of an estimation\<close>

definition any_node_acceptable :: "('p, 'i, 's) est_env \<Rightarrow> bool" where
  "any_node_acceptable E \<longleftrightarrow>
     (\<forall>pod ok s name s'. SchedulePodOnAnyNodeMatching E pod ok s = (Inl name, s') \<longrightarrow> ok name)"

text \<open>Only nodes the estimation added hold its pods, and the limiter granted each of them.\<close>

definition est_ok :: "('p, 's) estimationState \<Rightarrow> bool" where
  "est_ok st \<longleftrightarrow> gm_wf (newNodeNames st) \<and> gm_wf (newNodesWithPods st)
     \<and> fst ` set (newNodesWithPods st) \<subseteq> fst ` set (newNodeNames st)
     \<and> (lastNodeName st \<noteq> [] \<longrightarrow> lastNodeName st \<in> fst ` set (newNodeNames st))
     \<and> int (length (newNodeNames st)) \<le> lim_nodes (est_limiter st) \<and> limiter_ok (est_limiter st)
     \<and> length (newNodesWithPods st) \<le> length (scheduledPods st)"

text \<open>What holds at the end: the fast path also counts nodes it does not add.\<close>

definition est_counted :: "('p, 's) estimationState \<Rightarrow> bool" where
  "est_counted st \<longleftrightarrow> int (length (newNodesWithPods st)) \<le> lim_nodes (est_limiter st) \<and> limiter_ok (est_limiter st)
     \<and> length (newNodesWithPods st) \<le> length (scheduledPods st)"

lemma length_gput: "length (gput k v m) = (if k \<in> fst ` set m then length m else length m + 1)"
proof (induction m)
  case (Cons e m)
  then show ?case by (cases e) simp
qed simp

lemma wf_length_mono:
  assumes "gm_wf m" "fst ` set m \<subseteq> fst ` set n" shows "length m \<le> length n"
proof -
  have "length m = card (fst ` set m)" using assms(1) by (metis distinct_card gm_wf_def length_map list.set_map)
  also have "\<dots> \<le> card (fst ` set n)" using assms(2) by (intro card_mono) auto
  also have "\<dots> \<le> length n" by (metis card_length length_map list.set_map)
  finally show ?thesis .
qed

lemma est_ok_counted: "est_ok st \<Longrightarrow> est_counted st"
  using wf_length_mono [of "newNodesWithPods st" "newNodeNames st"] unfolding est_ok_def est_counted_def by linarith

lemma est_ok_snapshot [simp]: "est_ok (st\<lparr>snapshot := s\<rparr>) = est_ok st"
  by (simp add: est_ok_def)

lemma track_simps [simp]:
  "lastNodeName (trackScheduledPod pod name st) = lastNodeName st"
  "newNodeNames (trackScheduledPod pod name st) = newNodeNames st"
  "est_limiter (trackScheduledPod pod name st) = est_limiter st"
  "scheduledPods (trackScheduledPod pod name st) = scheduledPods st @ [pod]"
  "newNodesWithPods (trackScheduledPod pod name st) = gput name True (newNodesWithPods st)"
  by (simp_all add: trackScheduledPod_def)

lemma est_ok_track: "est_ok st \<Longrightarrow> name \<in> fst ` set (newNodeNames st) \<Longrightarrow> est_ok (trackScheduledPod pod name st)"
  by (simp add: est_ok_def length_gput)

lemma est_ok_last: "est_ok st \<Longrightarrow> lastNodeName st \<noteq> [] \<Longrightarrow> lastNodeName st \<in> fst ` set (newNodeNames st)"
  by (simp add: est_ok_def)

lemma gget_key: "gget False m k \<Longrightarrow> k \<in> fst ` set m"
  by (auto simp: gget_def split: option.splits dest!: map_of_SomeD intro: rev_image_eqI)

lemma est_ok_permission:
  assumes "est_ok st" "PermissionToAddNode E (est_limiter st) = (ok, l)"
  shows "est_ok (st\<lparr>est_limiter := l\<rparr>)"
  using assms permission_limiter_ok [OF assms(2)] permission_granted [of E "est_limiter st" l] permission_refused [of E "est_limiter st" l]
  by (cases ok) (auto simp: est_ok_def)

lemma est_ok_add:
  assumes "est_ok st" "PermissionToAddNode E (est_limiter st) = (True, l)"
    and "addNewNodeToSnapshot E t (st\<lparr>est_limiter := l\<rparr>) = (None, st')"
  shows "est_ok st'" "lastNodeName st' \<in> fst ` set (newNodeNames st')" "scheduledPods st' = scheduledPods st"
    "lim_maxNodes (est_limiter st') = lim_maxNodes (est_limiter st)"
proof -
  obtain s name where st': "st' = st\<lparr>est_limiter := l, snapshot := s, newNodeNameIndex := newNodeNameIndex st + 1, lastNodeName := name,
      newNodeNames := gput name True (newNodeNames st)\<rparr>"
    using assms(3) by (auto simp: addNewNodeToSnapshot_def Let_def split: sum.splits)
  show "est_ok st'"
    using assms(1) permission_limiter_ok [OF assms(2)] permission_granted [OF assms(2)]
    unfolding est_ok_def st' by (simp add: length_gput subset_insertI2)
qed (use assms(3) permission_keeps_max [OF assms(2)] in \<open>auto simp: addNewNodeToSnapshot_def Let_def split: sum.splits\<close>)

section \<open>Every step keeps to the limits\<close>

lemma existing_nodes:
  assumes "any_node_acceptable E"
  shows "est_ok st \<Longrightarrow> tryToScheduleOnExistingNodes E pods st = (Inr rest, st') \<Longrightarrow>
    est_ok st' \<and> scheduledPods st' @ rest = scheduledPods st @ pods \<and> lim_maxNodes (est_limiter st') = lim_maxNodes (est_limiter st)"
proof (induction pods arbitrary: st)
  case (Cons pod pods)
  show ?case
  proof (cases "SchedulePodOnAnyNodeMatching E pod (\<lambda>name. gget False (newNodeNames st) name) (snapshot st)")
    case (Pair r s)
    show ?thesis
    proof (cases r)
      case (Inl name)
      have "gget False (newNodeNames st) name" using assms Pair Inl unfolding any_node_acceptable_def by blast
      then have "est_ok (trackScheduledPod pod name (st\<lparr>snapshot := s\<rparr>))"
        using Cons.prems(1) by (intro est_ok_track) (auto dest: gget_key)
      from Cons.IH [OF this] show ?thesis using Cons.prems(2) Pair Inl by simp
    next
      case (Inr err)
      then show ?thesis using Cons.prems Pair by (auto split: if_splits)
    qed
  qed
qed simp

lemma existing_nodes_rest: "tryToScheduleOnExistingNodes E pods st = (Inr rest, st') \<Longrightarrow> set rest \<subseteq> set pods"
  by (induction E pods st rule: tryToScheduleOnExistingNodes.induct) (auto split: prod.splits sum.splits if_splits)

lemma last_node:
  assumes "\<not> isPodUsingHostNameTopologyKey E pod" "est_ok st" "try_last_node E pod st = (Inr found, st')"
  shows "est_ok st' \<and> scheduledPods st' = scheduledPods st @ (if found then [pod] else [])
    \<and> lim_maxNodes (est_limiter st') = lim_maxNodes (est_limiter st)"
  using assms unfolding try_last_node_def
  by (auto simp: Let_def intro!: est_ok_track est_ok_last split: if_splits prod.splits option.splits)

lemma new_nodes:
  "est_ok st \<Longrightarrow> \<forall>pod \<in> set pods. \<not> isPodUsingHostNameTopologyKey E pod \<Longrightarrow>
    tryToScheduleOnNewNodes E t pods st = (Inr ok, st') \<Longrightarrow>
    est_ok st' \<and> mset (scheduledPods st') \<subseteq># mset (scheduledPods st) + mset pods
    \<and> lim_maxNodes (est_limiter st') = lim_maxNodes (est_limiter st)"
proof (induction pods arbitrary: st)
  case (Cons pod pods)
  obtain r st1 where try1: "try_last_node E pod st = (r, st1)" by fastforce
  with Cons.prems(3) obtain found where r: "r = Inr found" by (cases r) auto
  note st1 = last_node [OF _ Cons.prems(1) try1 [unfolded r]]
  show ?case
  proof (cases found)
    case True
    with Cons.IH [of st1] Cons.prems st1 try1 r show ?thesis
      by simp
  next
    case False
    then have st1': "est_ok st1" "scheduledPods st1 = scheduledPods st" "lim_maxNodes (est_limiter st1) = lim_maxNodes (est_limiter st)"
      using st1 Cons.prems(2) by simp_all
    obtain granted l where perm: "PermissionToAddNode E (est_limiter st1) = (granted, l)" by fastforce
    note prem = Cons.prems(3) try1 r False perm
    show ?thesis
    proof (cases "lastNodeName st1 \<noteq> [] \<and> \<not> gget False (newNodesWithPods st1) (lastNodeName st1)")
      case True
      then show ?thesis using prem st1' by simp
    next
      case stop: False
      show ?thesis
      proof (cases granted)
        case False
        then show ?thesis using prem stop st1' est_ok_permission [OF st1'(1) perm] permission_keeps_max [OF perm] by auto
      next
        case True
        obtain e st2 where add: "addNewNodeToSnapshot E t (st1\<lparr>est_limiter := l\<rparr>) = (e, st2)" by fastforce
        have e: "e = None" using prem stop True add by (cases e) (auto split: if_splits)
        note st2 = est_ok_add [OF st1'(1) perm [simplified True] add [unfolded e]]
        show ?thesis
        proof (cases "SchedulePod E pod (lastNodeName st2) (snapshot st2)")
          case (Pair err s)
          have track: "est_ok (trackScheduledPod pod (lastNodeName st2) (st2\<lparr>snapshot := s\<rparr>))"
            using st2 by (simp add: est_ok_track)
          show ?thesis
            using prem stop True add e Pair st2 st1' Cons.IH [OF track] Cons.prems(2)
            by (cases err) (auto split: if_splits)
        qed
      qed
    qed
  qed
qed simp

lemma filled_node:
  "est_ok st \<Longrightarrow> lastNodeName st \<in> fst ` set (newNodeNames st) \<Longrightarrow> fill_node E pods st = (Inr rest, st') \<Longrightarrow>
    est_ok st' \<and> scheduledPods st' @ rest = scheduledPods st @ pods \<and> lim_maxNodes (est_limiter st') = lim_maxNodes (est_limiter st)"
proof (induction pods arbitrary: st)
  case (Cons pod pods)
  show ?case
  proof (cases "SchedulePod E pod (lastNodeName st) (snapshot st)")
    case (Pair err s)
    have "est_ok (trackScheduledPod pod (lastNodeName st) (st\<lparr>snapshot := s\<rparr>))"
      using Cons.prems by (simp add: est_ok_track)
    from Cons.IH [OF this] show ?thesis
      using Cons.prems Pair by (cases err) (auto split: if_splits)
  qed
qed simp

lemma track_all:
  "length (newNodesWithPods (fold (\<lambda>pod. trackScheduledPod pod name) pods st)) \<le> length (newNodesWithPods st) + (if pods = [] then 0 else 1)"
  "scheduledPods (fold (\<lambda>pod. trackScheduledPod pod name) pods st) = scheduledPods st @ pods"
  "est_limiter (fold (\<lambda>pod. trackScheduledPod pod name) pods st) = est_limiter st"
proof -
  have "length (newNodesWithPods (fold (\<lambda>pod. trackScheduledPod pod name) pods st)) =
      length (if pods = [] then newNodesWithPods st else gput name True (newNodesWithPods st))"
    by (induction pods arbitrary: st) (auto simp: length_gput)
  then show "length (newNodesWithPods (fold (\<lambda>pod. trackScheduledPod pod name) pods st)) \<le> length (newNodesWithPods st) + (if pods = [] then 0 else 1)"
    by (simp add: length_gput)
  show "scheduledPods (fold (\<lambda>pod. trackScheduledPod pod name) pods st) = scheduledPods st @ pods"
    by (induction pods arbitrary: st) auto
  show "est_limiter (fold (\<lambda>pod. trackScheduledPod pod name) pods st) = est_limiter st"
    by (induction pods arbitrary: st) auto
qed

lemma counted_fake_nodes:
  "est_counted st \<Longrightarrow> fake_nodes E k j podsPerNode pods st = (ok, st') \<Longrightarrow>
    est_counted st' \<and> mset (scheduledPods st') \<subseteq># mset (scheduledPods st) + mset pods
    \<and> lim_maxNodes (est_limiter st') = lim_maxNodes (est_limiter st)"
proof (induction k arbitrary: j pods st)
  case (Suc k)
  obtain granted l where perm: "PermissionToAddNode E (est_limiter st) = (granted, l)" by fastforce
  note l = permission_limiter_ok [OF perm] permission_keeps_max [OF perm]
  show ?case
  proof (cases granted)
    case False
    then show ?thesis using Suc.prems perm l permission_refused [of E "est_limiter st" l] by (auto simp: est_counted_def)
  next
    case True
    define st1 where "st1 = fold (\<lambda>pod. trackScheduledPod pod (lastNodeName st @ ''-fake-'' @ Sprint_int j)) (take podsPerNode pods) (st\<lparr>est_limiter := l\<rparr>)"
    have nodes: "lim_nodes l = lim_nodes (est_limiter st) + 1" using perm True permission_granted by simp
    have st1: "scheduledPods st1 = scheduledPods st @ take podsPerNode pods" "est_limiter st1 = l"
      by (simp_all add: st1_def track_all(2,3))
    have len: "length (newNodesWithPods st1) \<le> length (newNodesWithPods st) + (if take podsPerNode pods = [] then 0 else 1)"
      using track_all(1) [of _ "take podsPerNode pods" "st\<lparr>est_limiter := l\<rparr>"] by (simp add: st1_def)
    have nonempty: "take podsPerNode pods \<noteq> [] \<Longrightarrow> 1 \<le> length (take podsPerNode pods)" by (cases "take podsPerNode pods") auto
    have "est_counted st1"
      using Suc.prems(1) l(1) nodes st1 len nonempty unfolding est_counted_def by (auto split: if_splits)
    moreover have "fake_nodes E k (j + 1) podsPerNode (drop podsPerNode pods) st1 = (ok, st')"
      using Suc.prems(2) perm True by (simp add: Let_def st1_def)
    moreover have "mset (take podsPerNode pods) + mset (drop podsPerNode pods) = mset pods"
      by (metis append_take_drop_id mset_append)
    ultimately show ?thesis using Suc.IH st1 l(2) by (metis (no_types, lifting) mset_append union_assoc)
  qed
qed simp

lemma fast_path:
  assumes "est_ok st" "tryFastPath E t pods st = (Inr ok, st')"
  shows "est_counted st' \<and> mset (scheduledPods st') \<subseteq># mset (scheduledPods st) + mset pods
    \<and> lim_maxNodes (est_limiter st') = lim_maxNodes (est_limiter st)"
proof (cases "pods = []")
  case True
  then show ?thesis using assms est_ok_counted by (auto simp: tryFastPath_def)
next
  case nonempty: False
  obtain granted l where perm: "PermissionToAddNode E (est_limiter st) = (granted, l)" by fastforce
  show ?thesis
  proof (cases granted)
    case False
    then show ?thesis
      using assms nonempty perm est_ok_counted [OF est_ok_permission [OF assms(1) perm]] permission_keeps_max [OF perm]
      by (auto simp: tryFastPath_def)
  next
    case True
    obtain e st1 where add: "addNewNodeToSnapshot E t (st\<lparr>est_limiter := l\<rparr>) = (e, st1)" by fastforce
    have e: "e = None" using assms(2) nonempty perm True add by (cases e) (auto simp: tryFastPath_def)
    note st1 = est_ok_add [OF assms(1) perm [simplified True] add [unfolded e]]
    obtain r st2 where fill: "fill_node E pods st1 = (r, st2)" by fastforce
    obtain rest where r: "r = Inr rest"
      using assms(2) nonempty perm True add e fill by (cases r) (auto simp: tryFastPath_def)
    note st2 = filled_node [OF st1(1,2) fill [unfolded r]]
    have eq: "mset (scheduledPods st2) + mset rest = mset (scheduledPods st) + mset pods"
      using st2 st1(3) by (metis mset_append)
    then have sub: "mset (scheduledPods st2) \<subseteq># mset (scheduledPods st) + mset pods" by (metis mset_subset_eq_add_left)
    have rhs: "tryFastPath E t pods st =
      (let podsPerNode = length pods - length rest in
       if podsPerNode = 0 then (Inr True, st2)
       else (let size = length pods div podsPerNode;
                 scaleUpSize = (if podsPerNode * size < length pods then size + 1 else size);
                 (ok, st) = fake_nodes E (scaleUpSize - 1) 1 podsPerNode rest st2
             in (Inr ok, st)))"
      using nonempty perm True add e fill r by (simp add: tryFastPath_def)
    show ?thesis
    proof (cases "length pods - length rest = 0")
      case True
      then show ?thesis using assms(2) rhs st2 st1 sub est_ok_counted by auto
    next
      case False
      then obtain k where "fake_nodes E k 1 (length pods - length rest) rest st2 = (ok, st')"
        using assms(2) rhs by (auto simp: Let_def split: prod.splits)
      from counted_fake_nodes [OF _ this] show ?thesis using st2 st1 eq est_ok_counted by auto
    qed
  qed
qed

lemma estimate_loop_counted:
  assumes "any_node_acceptable E"
  shows "est_ok st \<Longrightarrow> \<forall>pod \<in> set (concat groups). \<not> isPodUsingHostNameTopologyKey E pod \<Longrightarrow>
    estimate_loop E t fast groups available st = Some st' \<Longrightarrow>
    est_counted st' \<and> mset (scheduledPods st') \<subseteq># mset (scheduledPods st) + mset (concat groups)
    \<and> lim_maxNodes (est_limiter st') = lim_maxNodes (est_limiter st)"
proof (induction groups arbitrary: st available)
  case Nil
  then show ?case using est_ok_counted by auto
next
  case (Cons peg groups)
  obtain r st1 where exist: "tryToScheduleOnExistingNodes E peg st = (r, st1)" by fastforce
  obtain rest where r: "r = Inr rest" using Cons.prems(3) exist by (cases r) auto
  note st1 = existing_nodes [OF assms Cons.prems(1) exist [unfolded r]]
  have all: "mset (scheduledPods st1) + mset rest = mset (scheduledPods st) + mset peg" using st1 by (metis mset_append)
  then have part: "mset (scheduledPods st1) \<subseteq># mset (scheduledPods st) + mset peg" by (metis mset_subset_eq_add_left)
  show ?case
  proof (cases available)
    case False
    have "estimate_loop E t fast groups False st1 = Some st'" using Cons.prems(3) exist r False by simp
    from Cons.IH [OF conjunct1 [OF st1] _ this] show ?thesis
      using Cons.prems(2) st1 part
      by (auto simp: subset_mset.add_increasing2 dest: subset_mset.add_right_mono intro: subset_mset.order_trans
          simp flip: union_assoc)
  next
    case True
    show ?thesis
    proof (cases "groups = [] \<and> fast")
      case last: True
      obtain ok where "tryFastPath E t rest st1 = (Inr ok, st')"
        using Cons.prems(3) exist r True last by (auto split: prod.splits sum.splits)
      from fast_path [OF conjunct1 [OF st1] this] show ?thesis using last st1 all by simp
    next
      case False
      obtain r2 st2 where new: "tryToScheduleOnNewNodes E t rest st1 = (r2, st2)" by fastforce
      obtain ok where r2: "r2 = Inr ok" using Cons.prems(3) exist r True False new by (cases r2) auto
      have "\<forall>pod \<in> set rest. \<not> isPodUsingHostNameTopologyKey E pod"
        using Cons.prems(2) existing_nodes_rest [OF exist [unfolded r]] by auto
      from new_nodes [OF conjunct1 [OF st1] this new [unfolded r2]]
      have st2: "est_ok st2" "mset (scheduledPods st2) \<subseteq># mset (scheduledPods st) + mset peg"
        "lim_maxNodes (est_limiter st2) = lim_maxNodes (est_limiter st)" using all st1 by simp_all
      have "estimate_loop E t fast groups ok st2 = Some st'" using Cons.prems(3) exist r True False new r2 by auto
      from Cons.IH [OF st2(1) _ this] show ?thesis
        using Cons.prems(2) st2
        by (auto simp: subset_mset.add_increasing2 dest: subset_mset.add_right_mono intro: subset_mset.order_trans
          simp flip: union_assoc)
    qed
  qed
qed


lemma est_ok_start: "est_ok (newEstimationState s (StartEstimation E cp ts ng ctx))"
  by (simp add: newEstimationState_def est_ok_def limiter_ok_def gm_wf_def)

lemma sng_limit_sum:
  "foldl (\<lambda>n sng. n + computeNodeGroupCapacity cp sng) c sngs = c + (\<Sum>g \<leftarrow> sngs. computeNodeGroupCapacity cp g)"
  by (induction sngs arbitrary: c) auto

lemma capacity_nonneg: "0 \<le> computeNodeGroupCapacity cp g"
  by (simp add: computeNodeGroupCapacity_def Let_def split: prod.split option.split)


section \<open>Placing every pod\<close>

text \<open>Services that do not fail: no internal error, nodes can be added, and a node just added takes any pod.\<close>

definition est_node_name :: "('p, 'i, 's) est_env \<Rightarrow> 'i \<Rightarrow> int \<Rightarrow> string" where
  "est_node_name E t i = TemplateName E t @ ''-e-'' @ Sprint_int i"

lemma est_node_name_inj: "0 \<le> i \<Longrightarrow> 0 \<le> j \<Longrightarrow> est_node_name E t i = est_node_name E t j \<Longrightarrow> i = j"
proof -
  assume "0 \<le> i" "0 \<le> j" "est_node_name E t i = est_node_name E t j"
  then have "print_nat i = print_nat j" by (simp add: est_node_name_def Sprint_int_def)
  then show "i = j" using parse_print_nat \<open>0 \<le> i\<close> \<open>0 \<le> j\<close> by (metis option.inject)
qed

definition fresh_node_fits :: "('p, 'i, 's) est_env \<Rightarrow> 'i \<Rightarrow> ('s \<Rightarrow> string set) \<Rightarrow> 'p set \<Rightarrow> bool" where
  "fresh_node_fits E t present P \<longleftrightarrow>
     (\<forall>pod name s e s'. SchedulePod E pod name s = (e, s') \<longrightarrow>
        present s' = present s \<and> (\<forall>err. e = Some err \<longrightarrow> \<not> is_internal err))
   \<and> (\<forall>pod ok s r s'. SchedulePodOnAnyNodeMatching E pod ok s = (r, s') \<longrightarrow>
        present s' = present s \<and> r \<noteq> Inl [] \<and> (\<forall>err. r = Inr err \<longrightarrow> \<not> is_internal err))
   \<and> (\<forall>name s. name \<notin> present s \<longrightarrow> (\<exists>s'. AddNode E t name s = Inr s' \<and> present s' = insert name (present s)
        \<and> (\<forall>pod \<in> P. \<exists>s''. SchedulePod E pod name s' = (None, s''))))"

lemma schedule_law:
  "fresh_node_fits E t present P \<Longrightarrow> SchedulePod E pod name s = (e, s') \<Longrightarrow>
    present s' = present s \<and> (\<forall>err. e = Some err \<longrightarrow> \<not> is_internal err)"
  unfolding fresh_node_fits_def by metis

lemma any_node_law:
  "fresh_node_fits E t present P \<Longrightarrow> SchedulePodOnAnyNodeMatching E pod ok s = (r, s') \<Longrightarrow>
    present s' = present s \<and> r \<noteq> Inl [] \<and> (\<forall>err. r = Inr err \<longrightarrow> \<not> is_internal err)"
  unfolding fresh_node_fits_def by metis

lemma add_node_law:
  "fresh_node_fits E t present P \<Longrightarrow> name \<notin> present s \<Longrightarrow> pod \<in> P \<Longrightarrow>
    \<exists>s1 s2. AddNode E t name s = Inr s1 \<and> present s1 = insert name (present s) \<and> SchedulePod E pod name s1 = (None, s2)"
  unfolding fresh_node_fits_def by meson

text \<open>
  No limits, the names to come are free, the node added last holds a pod, and so does some node as soon as a pod is
  scheduled.
\<close>

lemma gput_not_Nil [simp]: "gput k v m \<noteq> []"
  by (cases m) (auto split: if_splits)

definition est_open :: "('p, 'i, 's) est_env \<Rightarrow> 'i \<Rightarrow> ('s \<Rightarrow> string set) \<Rightarrow> ('p, 's) estimationState \<Rightarrow> bool" where
  "est_open E t present st \<longleftrightarrow> lim_maxNodes (est_limiter st) = 0 \<and> lim_maxDuration (est_limiter st) = 0
     \<and> 0 \<le> newNodeNameIndex st \<and> (\<forall>i \<ge> newNodeNameIndex st. est_node_name E t i \<notin> present (snapshot st))
     \<and> (lastNodeName st = [] \<or> gget False (newNodesWithPods st) (lastNodeName st))
     \<and> (scheduledPods st = [] \<longleftrightarrow> newNodesWithPods st = [])"

lemma est_open_snapshot [simp]:
  "present s = present (snapshot st) \<Longrightarrow> est_open E t present (st\<lparr>snapshot := s\<rparr>) = est_open E t present st"
  by (simp add: est_open_def)

lemma est_open_track [simp]: "est_open E t present st \<Longrightarrow> est_open E t present (trackScheduledPod pod name st)"
  by (simp add: est_open_def trackScheduledPod_def)

lemma existing_nodes_open:
  assumes "fresh_node_fits E t present P"
  shows "est_open E t present st \<Longrightarrow> \<exists>rest st'. tryToScheduleOnExistingNodes E pods st = (Inr rest, st') \<and> est_open E t present st'
    \<and> scheduledPods st' @ rest = scheduledPods st @ pods"
proof (induction pods arbitrary: st)
  case (Cons pod pods)
  show ?case
  proof (cases "SchedulePodOnAnyNodeMatching E pod (\<lambda>name. gget False (newNodeNames st) name) (snapshot st)")
    case (Pair r s)
    note law = any_node_law [OF assms Pair]
    show ?thesis
    proof (cases r)
      case (Inl name)
      from Cons.IH [OF est_open_track, of "st\<lparr>snapshot := s\<rparr>" pod name] show ?thesis using Cons.prems Pair Inl law by auto
    next
      case (Inr err)
      then show ?thesis using Cons.prems Pair law by auto
    qed
  qed
qed auto

text \<open>Adding a node and placing a pod on it.\<close>

lemma add_and_place:
  assumes "fresh_node_fits E t present P" "est_open E t present st" "pod \<in> P"
  obtains l st1 s where "PermissionToAddNode E (est_limiter st) = (True, l)"
    "addNewNodeToSnapshot E t (st\<lparr>est_limiter := l\<rparr>) = (None, st1)"
    "SchedulePod E pod (lastNodeName st1) (snapshot st1) = (None, s)"
    "est_open E t present (trackScheduledPod pod (lastNodeName st1) (st1\<lparr>snapshot := s\<rparr>))"
    "scheduledPods st1 = scheduledPods st"
proof -
  define name where "name = est_node_name E t (newNodeNameIndex st)"
  define l where "l = est_limiter st\<lparr>lim_nodes := lim_nodes (est_limiter st) + 1\<rparr>"
  have "name \<notin> present (snapshot st)" using assms(2) by (simp add: est_open_def name_def)
  then obtain s1 s2 where s: "AddNode E t name (snapshot st) = Inr s1" "SchedulePod E pod name s1 = (None, s2)"
      "present s1 = insert name (present (snapshot st))"
    using add_node_law [OF assms(1) _ assms(3)] by blast
  define st1 where "st1 = st\<lparr>est_limiter := l, snapshot := s1, newNodeNameIndex := newNodeNameIndex st + 1, lastNodeName := name,
      newNodeNames := gput name True (newNodeNames st)\<rparr>"
  have "PermissionToAddNode E (est_limiter st) = (True, l)"
    using assms(2) unfolding l_def by (intro permission_unlimited) (simp_all add: est_open_def)
  moreover have "addNewNodeToSnapshot E t (st\<lparr>est_limiter := l\<rparr>) = (None, st1)"
    using s(1) by (simp add: addNewNodeToSnapshot_def st1_def name_def est_node_name_def Let_def)
  moreover have free: "est_node_name E t i \<notin> present s2" if "newNodeNameIndex st + 1 \<le> i" for i
    using schedule_law [OF assms(1) s(2)] s(3) assms(2) that est_node_name_inj [of i "newNodeNameIndex st" E t]
    unfolding est_open_def name_def by auto
  have "est_open E t present (trackScheduledPod pod (lastNodeName st1) (st1\<lparr>snapshot := s2\<rparr>))"
    using assms(2) free by (simp add: est_open_def st1_def l_def trackScheduledPod_def)
  ultimately show thesis using that [of l st1 s2] s(2) by (simp add: st1_def)
qed

lemma last_node_open:
  assumes "fresh_node_fits E t present P" "est_open E t present st"
  shows "\<exists>found st'. try_last_node E pod st = (Inr found, st') \<and> est_open E t present st'
    \<and> scheduledPods st' = scheduledPods st @ (if found then [pod] else [])"
proof (cases "lastNodeName st = []")
  case True
  then show ?thesis using assms(2) by (auto simp: try_last_node_def)
next
  case False
  obtain e s where sched: "SchedulePod E pod (lastNodeName st) (snapshot st) = (e, s)" by fastforce
  obtain r s' where any: "SchedulePodOnAnyNodeMatching E pod (\<lambda>name. name \<noteq> lastNodeName st) s = (r, s')" by fastforce
  show ?thesis
  proof (cases e)
    case None
    then show ?thesis using False assms(2) sched schedule_law [OF assms(1) sched] by (auto simp: try_last_node_def)
  next
    case (Some err)
    then have err: "\<not> is_internal err" using schedule_law [OF assms(1) sched] by simp
    show ?thesis
    proof (cases r)
      case (Inl name)
      then have "name \<noteq> []" using any_node_law [OF assms(1) any] by simp
      then have "try_last_node E pod st = (if isPodUsingHostNameTopologyKey E pod \<and> hasTopologyConstraintError E (Some err)
          then (Inr True, trackScheduledPod pod name (st\<lparr>snapshot := s'\<rparr>)) else (Inr False, st\<lparr>snapshot := s\<rparr>))"
        using False sched any Some err Inl by (simp add: try_last_node_def Let_def)
      then show ?thesis using assms(2) schedule_law [OF assms(1) sched] any_node_law [OF assms(1) any] by auto
    next
      case (Inr err')
      then have "\<not> is_internal err'" using any_node_law [OF assms(1) any] by simp
      then have "try_last_node E pod st = (Inr False, st\<lparr>snapshot := if isPodUsingHostNameTopologyKey E pod \<and>
          hasTopologyConstraintError E (Some err) then s' else s\<rparr>)"
        using False sched any Some err Inr by (simp add: try_last_node_def Let_def)
      then show ?thesis using assms(2) schedule_law [OF assms(1) sched] any_node_law [OF assms(1) any] by auto
    qed
  qed
qed

lemma new_nodes_open:
  assumes "fresh_node_fits E t present P"
  shows "est_open E t present st \<Longrightarrow> set pods \<subseteq> P \<Longrightarrow> \<exists>st'. tryToScheduleOnNewNodes E t pods st = (Inr True, st') \<and> est_open E t present st'
    \<and> scheduledPods st' = scheduledPods st @ pods"
proof (induction pods arbitrary: st)
  case (Cons pod pods)
  obtain found st1 where st1: "try_last_node E pod st = (Inr found, st1)" "est_open E t present st1"
    "scheduledPods st1 = scheduledPods st @ (if found then [pod] else [])"
    using last_node_open [OF assms Cons.prems(1)] by blast
  show ?case
  proof (cases found)
    case True
    then show ?thesis using Cons.IH [OF st1(2)] Cons.prems(2) st1 by auto
  next
    case False
    obtain l st2 s where step: "PermissionToAddNode E (est_limiter st1) = (True, l)"
      "addNewNodeToSnapshot E t (st1\<lparr>est_limiter := l\<rparr>) = (None, st2)"
      "SchedulePod E pod (lastNodeName st2) (snapshot st2) = (None, s)"
      "est_open E t present (trackScheduledPod pod (lastNodeName st2) (st2\<lparr>snapshot := s\<rparr>))" "scheduledPods st2 = scheduledPods st1"
      using add_and_place [OF assms st1(2), of pod] Cons.prems(2) by (metis list.set_intros(1) subsetD)
    have "lastNodeName st1 = [] \<or> gget False (newNodesWithPods st1) (lastNodeName st1)" using st1(2) by (simp add: est_open_def)
    then show ?thesis using Cons.IH [OF step(4)] Cons.prems(2) step st1 False by auto
  qed
qed simp

lemma filled_node_open:
  assumes "fresh_node_fits E t present P"
  shows "est_open E t present st \<Longrightarrow> \<exists>rest st'. fill_node E pods st = (Inr rest, st') \<and> est_open E t present st'
    \<and> scheduledPods st' @ rest = scheduledPods st @ pods \<and> length rest \<le> length pods"
proof (induction pods arbitrary: st)
  case (Cons pod pods)
  obtain e s where sched: "SchedulePod E pod (lastNodeName st) (snapshot st) = (e, s)" by fastforce
  show ?case
  proof (cases e)
    case None
    from Cons.IH [OF est_open_track, of "st\<lparr>snapshot := s\<rparr>" pod "lastNodeName st"] obtain rest st' where
      "fill_node E pods (trackScheduledPod pod (lastNodeName st) (st\<lparr>snapshot := s\<rparr>)) = (Inr rest, st')" "est_open E t present st'"
      "scheduledPods st' @ rest = scheduledPods st @ pod # pods" "length rest \<le> length pods" using Cons.prems schedule_law [OF assms sched] by auto
    then show ?thesis using sched None by (intro exI [of _ rest] exI [of _ st']) simp
  next
    case (Some err)
    then show ?thesis using Cons.prems sched schedule_law [OF assms sched] by auto
  qed
qed auto

lemma est_open_track_all: "est_open E t present st \<Longrightarrow> est_open E t present (fold (\<lambda>pod. trackScheduledPod pod name) pods st)"
  by (induction pods arbitrary: st) auto

lemma fake_nodes_open:
  "est_open E t present st \<Longrightarrow> length pods \<le> k * podsPerNode \<Longrightarrow>
    \<exists>st'. fake_nodes E k j podsPerNode pods st = (True, st') \<and> est_open E t present st' \<and> scheduledPods st' = scheduledPods st @ pods"
proof (induction k arbitrary: j pods st)
  case (Suc k)
  let ?l = "est_limiter st\<lparr>lim_nodes := lim_nodes (est_limiter st) + 1\<rparr>"
  let ?st = "fold (\<lambda>pod. trackScheduledPod pod (lastNodeName st @ ''-fake-'' @ Sprint_int j)) (take podsPerNode pods) (st\<lparr>est_limiter := ?l\<rparr>)"
  have perm: "PermissionToAddNode E (est_limiter st) = (True, ?l)"
    using Suc.prems(1) by (intro permission_unlimited) (simp_all add: est_open_def)
  have "est_open E t present ?st" using Suc.prems(1) by (intro est_open_track_all) (simp add: est_open_def)
  moreover have "length (drop podsPerNode pods) \<le> k * podsPerNode" using Suc.prems(2) by simp
  ultimately obtain st' where "fake_nodes E k (j + 1) podsPerNode (drop podsPerNode pods) ?st = (True, st')" "est_open E t present st'"
    "scheduledPods st' = scheduledPods ?st @ drop podsPerNode pods" using Suc.IH by blast
  then show ?case using perm track_all(2) [of _ "take podsPerNode pods" "st\<lparr>est_limiter := ?l\<rparr>"] by (simp add: Let_def)
qed simp

lemma ceiling_covers:
  assumes "0 < d" "d \<le> (n::nat)"
  shows "n - d \<le> ((if d * (n div d) < n then n div d + 1 else n div d) - 1) * d"
proof -
  define q r where "q = n div d" and "r = n mod d"
  have "n = d * q + r" "r < d" "1 \<le> q" using assms by (simp_all add: q_def r_def div_greater_zero_iff Suc_leI)
  then show ?thesis unfolding q_def [symmetric] by (cases q) (auto simp: algebra_simps)
qed

lemma fast_path_open:
  assumes "fresh_node_fits E t present P" "est_open E t present st" "set pods \<subseteq> P"
  shows "\<exists>st'. tryFastPath E t pods st = (Inr True, st') \<and> est_open E t present st' \<and> scheduledPods st' = scheduledPods st @ pods"
proof (cases pods)
  case Nil
  then show ?thesis using assms(2) by (simp add: tryFastPath_def)
next
  case (Cons pod pods')
  obtain l st1 s where step: "PermissionToAddNode E (est_limiter st) = (True, l)"
    "addNewNodeToSnapshot E t (st\<lparr>est_limiter := l\<rparr>) = (None, st1)"
    "SchedulePod E pod (lastNodeName st1) (snapshot st1) = (None, s)"
    "est_open E t present (trackScheduledPod pod (lastNodeName st1) (st1\<lparr>snapshot := s\<rparr>))" "scheduledPods st1 = scheduledPods st"
    using add_and_place [OF assms(1,2), of pod] assms(3) Cons by (metis list.set_intros(1) subsetD)
  obtain rest st2 where "fill_node E pods' (trackScheduledPod pod (lastNodeName st1) (st1\<lparr>snapshot := s\<rparr>)) = (Inr rest, st2)"
    "est_open E t present st2" "scheduledPods st2 @ rest = scheduledPods st @ pods" "length rest \<le> length pods'"
    using filled_node_open [OF assms(1) step(4), of pods'] step(5) Cons by auto
  then have fill: "fill_node E pods st1 = (Inr rest, st2)" "est_open E t present st2" "scheduledPods st2 @ rest = scheduledPods st @ pods"
    "length rest < length pods" using step(3) Cons by auto
  let ?d = "length pods - length rest"
  let ?size = "if ?d * (length pods div ?d) < length pods then length pods div ?d + 1 else length pods div ?d"
  have "length rest \<le> (?size - 1) * ?d" using ceiling_covers [of ?d "length pods"] fill(4) by simp
  then obtain st3 where st3: "fake_nodes E (?size - 1) 1 ?d rest st2 = (True, st3)" "est_open E t present st3"
    "scheduledPods st3 = scheduledPods st2 @ rest" using fake_nodes_open [OF fill(2)] by blast
  have "pods \<noteq> []" using Cons by simp
  have "tryFastPath E t pods st = (let (ok, st) = fake_nodes E (?size - 1) 1 ?d rest st2 in (Inr ok, st))"
    using \<open>pods \<noteq> []\<close> step(1,2) fill(1,4) by (simp add: tryFastPath_def Let_def del: One_nat_def)
  then have "tryFastPath E t pods st = (Inr True, st3)" unfolding st3(1) by simp
  then show ?thesis using st3 fill(3) by simp
qed

lemma estimate_loop_open:
  assumes "fresh_node_fits E t present P"
  shows "est_open E t present st \<Longrightarrow> set (concat groups) \<subseteq> P \<Longrightarrow> \<exists>st'. estimate_loop E t fast groups True st = Some st' \<and> est_open E t present st'
    \<and> scheduledPods st' = scheduledPods st @ concat groups"
proof (induction groups arbitrary: st)
  case (Cons peg groups)
  obtain rest st1 where st1: "tryToScheduleOnExistingNodes E peg st = (Inr rest, st1)" "est_open E t present st1"
    "scheduledPods st1 @ rest = scheduledPods st @ peg" using existing_nodes_open [OF assms Cons.prems(1)] by blast
  have rest: "set rest \<subseteq> P" using existing_nodes_rest [OF st1(1)] Cons.prems(2) by auto
  obtain st2 where st2: "(if groups = [] \<and> fast then tryFastPath E t rest st1 else tryToScheduleOnNewNodes E t rest st1) = (Inr True, st2)"
    "est_open E t present st2" "scheduledPods st2 = scheduledPods st1 @ rest"
    using fast_path_open [OF assms st1(2) rest] new_nodes_open [OF assms st1(2) rest] by (cases "groups = [] \<and> fast") auto
  obtain st' where "estimate_loop E t fast groups True st2 = Some st'" "est_open E t present st'" "scheduledPods st' = scheduledPods st2 @ concat groups"
    using Cons.IH [OF st2(2)] Cons.prems(2) by auto
  then show ?case using st1 st2 by simp
qed simp

text \<open>
  C40. Nothing is left out: when no threshold limits the estimation, the services report no internal error, the names of
  the nodes to add are free and any given pod fits on a node just added, the estimate reports every given pod exactly
  once, whether it was packed one by one or by the fast path, and asks for at least one node unless there is no pod.
  (\<open>present\<close> stands for the names of the nodes in a snapshot.)
\<close>

theorem estimate_places_all_pods:
  assumes "fresh_node_fits E nodeTemplate present (set (concat groups))" "\<And>xs. mset (tie E xs) = mset xs"
    and "\<forall>i \<ge> 0. est_node_name E nodeTemplate i \<notin> present s"
    and "\<forall>threshold \<in> set thresholds. NodeLimit cp nodeGroup ctx threshold = 0 \<and> DurationLimit threshold = 0"
    and "Estimate_binpacking E cp thresholds ctx s groups nodeTemplate nodeGroup = (n, pods)"
  shows "mset pods = mset (concat groups) \<and> (0 < n \<longleftrightarrow> concat groups \<noteq> [])"
proof -
  let ?groups = "fst (arrange_groups E nodeTemplate groups)"
  have eq: "mset (concat ?groups) = mset (concat groups)" using mset_concat_arranged [OF assms(2)] .
  then have none: "concat ?groups = [] \<longleftrightarrow> concat groups = []" by (metis mset_zero_iff)
  have "est_open E nodeTemplate present (newEstimationState s (StartEstimation E cp thresholds nodeGroup ctx))"
    using assms(3,4) by (auto simp: est_open_def newEstimationState_def intro!: foldl_getMinLimit_zero)
  from estimate_loop_open [OF assms(1) this, of ?groups "snd (arrange_groups E nodeTemplate groups)"] mset_eq_setD [OF eq]
  obtain st where st: "estimate_loop E nodeTemplate (snd (arrange_groups E nodeTemplate groups)) ?groups True
      (newEstimationState s (StartEstimation E cp thresholds nodeGroup ctx)) = Some st"
      "est_open E nodeTemplate present st" "scheduledPods st = concat ?groups"
    by (auto simp: newEstimationState_def)
  have res: "n = int (length (newNodesWithPods st))" "pods = scheduledPods st"
    using assms(5) st(1) by (auto simp: Estimate_binpacking_def Let_def split: prod.splits)
  have "n = 0 \<longleftrightarrow> concat ?groups = []" using res st(2,3) by (simp add: est_open_def)
  then show ?thesis using res eq st(3) none by auto
qed

section \<open>Concrete estimations\<close>

text \<open>
  Pods are their request, nodes their free capacity; a template is the capacity of its nodes. A pod of request 5
  spreads over hostnames and the scheduler refuses it on the added nodes for that reason.
\<close>

definition demo_refused :: "string list \<Rightarrow> SchedulingError" where
  "demo_refused reasons = \<lparr>is_internal = False, FailingPredicateReasons = reasons\<rparr>"

definition demo_schedule :: "int \<Rightarrow> string \<Rightarrow> (string, int) gmap \<Rightarrow> SchedulingError option \<times> (string, int) gmap" where
  "demo_schedule pod name s =
     (case map_of s name of
        None \<Rightarrow> (Some (demo_refused []), s)
      | Some free \<Rightarrow> if pod \<le> free then (None, gput name (free - pod) s)
          else (Some (demo_refused (if pod = 5 then [''spread''] else [])), s))"

definition demo_schedule_any :: "int \<Rightarrow> (string \<Rightarrow> bool) \<Rightarrow> (string, int) gmap \<Rightarrow> (string + SchedulingError) \<times> (string, int) gmap" where
  "demo_schedule_any pod ok s =
     (case find (\<lambda>(name, free). ok name \<and> name \<noteq> [] \<and> pod \<le> free) s of
        None \<Rightarrow> (Inr (demo_refused []), s)
      | Some (name, free) \<Rightarrow> (Inl name, gput name (free - pod) s))"

definition demo_est_env :: "bool \<Rightarrow> (int, int, (string, int) gmap) est_env" where
  "demo_est_env fast = \<lparr>SchedulePod = demo_schedule, SchedulePodOnAnyNodeMatching = demo_schedule_any,
     AddNode = (\<lambda>t name s. if map_of s name \<noteq> None then Inl (PlainError 0 ''exists'') else Inr (gput name t s)),
     TemplateName = (\<lambda>_. ''t''), TopologySpreadConstraints = (\<lambda>pod. if pod = 5 then Some [LabelHostname] else None),
     AntiAffinityTerms = (\<lambda>_. []), FirstContainerRequests = (\<lambda>_. None), PodRequests = (\<lambda>pod. (pod, 0)),
     Capacity = (\<lambda>_. (1, 1)), Allocatable = (\<lambda>_. (None, None)), ErrReasonConstraintsNotMatch = ''spread'',
     clock = (\<lambda>_. 0), tie = (\<lambda>xs. xs), fastpathBinpackingEnabled = fast\<rparr>"

abbreviation demo_thresholds :: "threshold list" where
  "demo_thresholds \<equiv> [staticThreshold 1 0, sngCapacityThreshold, clusterCapacityThreshold]"

abbreviation demo_context :: "string EstimationContext option" where
  "demo_context \<equiv> Some \<lparr>SimilarGroups = [''c''], ClusterMaxNodeLimit = 12, CurrentNodeCount = 7\<rparr>"

lemma demo_any_acceptable: "any_node_acceptable (demo_est_env fast)"
  by (auto simp: any_node_acceptable_def demo_est_env_def demo_schedule_any_def find_Some_iff split: option.splits)

lemma demo_limited:
  "Estimate_binpacking (demo_est_env False) demo_balance_cp demo_thresholds demo_context [(''n0'', 5)] [[3, 3, 3], [2]] 6 ''b'' = (1, [3, 3])"
  by code_simp


lemma demo_unlimited:
  "Estimate_binpacking (demo_est_env True) demo_balance_cp [staticThreshold 0 0] demo_context [(''n0'', 5)] [[2], [3, 3, 3]] 6 ''b'' =
    (2, [2, 3, 3, 3])"
  by code_simp

lemma map_of_key: "map_of s n = Some x \<Longrightarrow> n \<in> fst ` set s"
  by (drule map_of_SomeD) (auto intro: rev_image_eqI)

lemma nth_key: "i < length s \<Longrightarrow> s ! i = (n, x) \<Longrightarrow> n \<in> fst ` set s"
  by (metis fst_conv image_eqI nth_mem)

lemma demo_fits: "fresh_node_fits (demo_est_env fast) 6 (\<lambda>s. fst ` set s) {2, 3}"
  unfolding fresh_node_fits_def
  by (auto simp: demo_est_env_def demo_schedule_def demo_schedule_any_def demo_refused_def find_Some_iff map_of_eq_None_iff
      split: option.splits if_splits dest: map_of_key nth_key)

theorem estimate_places_all_pods_witness:
  "Estimate_binpacking (demo_est_env True) demo_balance_cp [staticThreshold 0 0] demo_context [(''n0'', 5)] [[2], [3, 3, 3]] 6 ''b'' =
     (2, [2, 3, 3, 3]) \<and> mset [2, 3, 3, 3] = mset (concat [[2], [3, 3, 3 :: int]])"
  using estimate_places_all_pods [OF _ _ _ _ demo_unlimited, of "\<lambda>s. fst ` set s"] demo_fits [of True] demo_unlimited
  by (simp add: demo_est_env_def est_node_name_def)

text \<open>
  A pod spreading over hostnames that the last added node refuses goes to any other node of the snapshot, also to one
  of the cluster; that node is then counted as new: with one permitted node the estimate is two.
\<close>

theorem existing_node_counted_as_new:
  "Estimate_binpacking (demo_est_env False) demo_balance_cp demo_thresholds demo_context [(''n0'', 5)] [[6], [5]] 6 ''b'' = (2, [6, 5])"
  by code_simp

end
