(* ===== verification/Expander.thy ===== *)
theory Expander
  imports Scale_Up_Plan Estimator
begin

text \<open>
  Choosing among the options of a scale-up (src/pkg/expander): the filters least-nodes, most-pods, least-waste,
  priority and random, the chain that combines them, and the factory that builds a chain from a list of names.

  A filter maps a state (of the filters: the counters and events of the priority filter) and a list of options to the
  options it keeps. What the filters read of the world are fields of \<open>expander_env\<close>: requests of pods and capacities
  of template nodes in millicores and bytes, the priority config map with the external YAML and regular expression
  functions, and the position \<open>rand.Int31n\<close> draws. A score of least-waste is a \<open>float64\<close> with its special values.
  The price filter (it rests on \<open>math.Tanh\<close> and the provider's pricing model) and the gRPC filter are not modelled.
\<close>

section \<open>Environment\<close>

record ('i, 'p, 're) expander_env =
  group_requests :: "'p \<Rightarrow> int \<times> int"
  node_capacity :: "'i \<Rightarrow> int \<times> int"
  config_map :: "(string, string) gmap option"
  unmarshal :: "string \<Rightarrow> (int, string list) gmap option"
  compile :: "string \<Rightarrow> 're option"
  finds :: "'re \<Rightarrow> string \<Rightarrow> bool"
  draw :: "nat \<Rightarrow> nat"

record priority_state =
  okConfigUpdates :: nat
  badConfigUpdates :: nat
  config_events :: "string list"

type_synonym ('g, 'p) expander_filter_fn = "priority_state \<Rightarrow> ('g, 'p) Option list \<Rightarrow> ('g, 'p) Option list \<times> priority_state"

section \<open>The filters\<close>

definition MaxInt :: int where "MaxInt = 2 ^ 63 - 1"

fun leastnodes_scan :: "int \<Rightarrow> ('g, 'p) Option list \<Rightarrow> ('g, 'p) Option list \<Rightarrow> ('g, 'p) Option list" where
  "leastnodes_scan leastNodes leastOptions [] = leastOptions"
| "leastnodes_scan leastNodes leastOptions (opt # opts) =
     (if NodeCount opt = 0 then leastnodes_scan leastNodes leastOptions opts
      else if NodeCount opt = leastNodes then leastnodes_scan leastNodes (leastOptions @ [opt]) opts
      else if NodeCount opt < leastNodes then leastnodes_scan (NodeCount opt) [opt] opts
      else leastnodes_scan leastNodes leastOptions opts)"

definition leastnodes_BestOptions :: "('g, 'p) Option list \<Rightarrow> ('g, 'p) Option list" where
  "leastnodes_BestOptions expansionOptions = leastnodes_scan MaxInt [] expansionOptions"

fun mostpods_scan :: "nat \<Rightarrow> ('g, 'p) Option list \<Rightarrow> ('g, 'p) Option list \<Rightarrow> ('g, 'p) Option list" where
  "mostpods_scan maxPods maxOptions [] = maxOptions"
| "mostpods_scan maxPods maxOptions (opt # opts) =
     (if length (Option_Pods opt) = maxPods then mostpods_scan maxPods (maxOptions @ [opt]) opts
      else if length (Option_Pods opt) > maxPods then mostpods_scan (length (Option_Pods opt)) [opt] opts
      else mostpods_scan maxPods maxOptions opts)"

definition mostpods_BestOptions :: "('g, 'p) Option list \<Rightarrow> ('g, 'p) Option list" where
  "mostpods_BestOptions expansionOptions = mostpods_scan 0 [] expansionOptions"

text \<open>\<open>float64\<close> with its special values, as far as quotients and sums of integers need them.\<close>

datatype f64x = NaN | NInf | Fin rat | PInf

definition fx_div :: "rat \<Rightarrow> rat \<Rightarrow> f64x" where
  "fx_div a b = (if b \<noteq> 0 then Fin (f64_div a b) else if a = 0 then NaN else if a > 0 then PInf else NInf)"

fun fx_add :: "f64x \<Rightarrow> f64x \<Rightarrow> f64x" where
  "fx_add NaN y = NaN"
| "fx_add (Fin x) (Fin y) = Fin (f64_add x y)"
| "fx_add (Fin x) y = y"
| "fx_add PInf y = (if y = NaN \<or> y = NInf then NaN else PInf)"
| "fx_add NInf y = (if y = NaN \<or> y = PInf then NaN else NInf)"

definition fx_eq :: "f64x \<Rightarrow> f64x \<Rightarrow> bool" where
  "fx_eq x y \<longleftrightarrow> x \<noteq> NaN \<and> x = y"

fun fx_less :: "f64x \<Rightarrow> f64x \<Rightarrow> bool" where
  "fx_less (Fin x) (Fin y) = (x < y)"
| "fx_less NInf y = (y \<noteq> NInf \<and> y \<noteq> NaN)"
| "fx_less (Fin x) PInf = True"
| "fx_less _ _ = False"

definition resourcesForPods :: "('i, 'p, 're) expander_env \<Rightarrow> 'p list \<Rightarrow> int \<times> int" where
  "resourcesForPods X pods =
     foldl (\<lambda>(cpu, memory) pod. (cpu + fst (group_requests X pod), memory + snd (group_requests X pod))) (0, 0) pods"

definition wastedScore :: "('i, 'p, 're) expander_env \<Rightarrow> 'i \<Rightarrow> ('g, 'p) Option \<Rightarrow> f64x" where
  "wastedScore X node opt =
     (let (requestedCPU, requestedMemory) = resourcesForPods X (Option_Pods opt);
          (nodeCPU, nodeMemory) = node_capacity X node;
          availCPU = int64 (nodeCPU * NodeCount opt);
          availMemory = int64 (nodeMemory * NodeCount opt);
          wastedCPU = fx_div (f64_of_int (int64 (availCPU - requestedCPU))) (f64_of_int availCPU);
          wastedMemory = fx_div (f64_of_int (int64 (availMemory - requestedMemory))) (f64_of_int availMemory)
      in fx_add wastedCPU wastedMemory)"

fun leastwaste_scan :: "('i, 'p, 're) expander_env \<Rightarrow> 'g cloud_provider \<Rightarrow> (string, 'i) gmap \<Rightarrow> f64x \<Rightarrow> ('g, 'p) Option list \<Rightarrow>
    ('g, 'p) Option list \<Rightarrow> ('g, 'p) Option list" where
  "leastwaste_scan X cp nodeInfo leastWastedScore leastWastedOptions [] = leastWastedOptions"
| "leastwaste_scan X cp nodeInfo leastWastedScore leastWastedOptions (opt # opts) =
     (case map_of nodeInfo (Id cp (Option_NodeGroup opt)) of
        None \<Rightarrow> leastwaste_scan X cp nodeInfo leastWastedScore leastWastedOptions opts
      | Some node \<Rightarrow>
          (let score = wastedScore X node opt;
               leastOptions = (if fx_eq score leastWastedScore then leastWastedOptions @ [opt] else leastWastedOptions) in
           if leastOptions = [] \<or> fx_less score leastWastedScore then leastwaste_scan X cp nodeInfo score [opt] opts
           else leastwaste_scan X cp nodeInfo leastWastedScore leastOptions opts))"

definition leastwaste_BestOptions :: "('i, 'p, 're) expander_env \<Rightarrow> 'g cloud_provider \<Rightarrow> (string, 'i) gmap \<Rightarrow> ('g, 'p) Option list \<Rightarrow>
    ('g, 'p) Option list" where
  "leastwaste_BestOptions X cp nodeInfo expansionOptions = leastwaste_scan X cp nodeInfo (Fin 0) [] expansionOptions"

text \<open>The random filter and strategy; \<open>draw n\<close> is below \<open>n\<close>.\<close>

definition random_BestOption :: "('i, 'p, 're) expander_env \<Rightarrow> ('g, 'p) Option list \<Rightarrow> ('g, 'p) Option option" where
  "random_BestOption X expansionOptions =
     (if length expansionOptions \<le> 0 then None else Some (expansionOptions ! draw X (length expansionOptions)))"

definition random_BestOptions :: "('i, 'p, 're) expander_env \<Rightarrow> ('g, 'p) Option list \<Rightarrow> ('g, 'p) Option list" where
  "random_BestOptions X expansionOptions = (case random_BestOption X expansionOptions of None \<Rightarrow> [] | Some best \<Rightarrow> [best])"

section \<open>The priority filter\<close>

definition logConfigWarning :: "string \<Rightarrow> priority_state \<Rightarrow> priority_state" where
  "logConfigWarning reason p = p\<lparr>config_events := config_events p @ [reason], badConfigUpdates := badConfigUpdates p + 1\<rparr>"

fun compile_all :: "('i, 'p, 're) expander_env \<Rightarrow> string list \<Rightarrow> 're list option" where
  "compile_all X [] = Some []"
| "compile_all X (re # res) =
     (case compile X re of None \<Rightarrow> None | Some r \<Rightarrow> map_option ((#) r) (compile_all X res))"

fun parse_priorities :: "('i, 'p, 're) expander_env \<Rightarrow> (int, string list) gmap \<Rightarrow> (int, 're list) gmap option" where
  "parse_priorities X [] = Some []"
| "parse_priorities X ((prio, reList) # config) =
     (case compile_all X reList of None \<Rightarrow> None
      | Some res \<Rightarrow> map_option (\<lambda>m. if res = [] then m else (prio, res) # m) (parse_priorities X config))"

definition parsePrioritiesYAMLString :: "('i, 'p, 're) expander_env \<Rightarrow> string \<Rightarrow> priority_state \<Rightarrow> (int, 're list) gmap option \<times> priority_state" where
  "parsePrioritiesYAMLString X prioritiesYAML p =
     (if prioritiesYAML = [] then (None, p)
      else case Option.bind (unmarshal X prioritiesYAML) (parse_priorities X) of
          None \<Rightarrow> (None, p)
        | Some newPriorities \<Rightarrow> (Some newPriorities, p\<lparr>okConfigUpdates := okConfigUpdates p + 1\<rparr>))"

definition reloadConfigMap :: "('i, 'p, 're) expander_env \<Rightarrow> priority_state \<Rightarrow> (int, 're list) gmap option \<times> priority_state" where
  "reloadConfigMap X p =
     (case config_map X of
        None \<Rightarrow> (None, p)
      | Some cm \<Rightarrow>
          (case map_of cm ''priorities'' of
             None \<Rightarrow> (None, logConfigWarning ''PriorityConfigMapInvalid'' p)
           | Some prioString \<Rightarrow>
               (case parsePrioritiesYAMLString X prioString p of
                  (None, p) \<Rightarrow> (None, logConfigWarning ''PriorityConfigMapInvalid'' p)
                | (Some newPriorities, p) \<Rightarrow> (Some newPriorities, p))))"

definition groupIDMatchesList :: "('i, 'p, 're) expander_env \<Rightarrow> string \<Rightarrow> 're list \<Rightarrow> bool" where
  "groupIDMatchesList X i nameRegexpList = list_ex (\<lambda>re. finds X re i) nameRegexpList"

text \<open>The loop over the priorities for one option: whether it was found, the maximum so far and the best options.\<close>

fun match_priorities :: "('i, 'p, 're) expander_env \<Rightarrow> string \<Rightarrow> ('g, 'p) Option \<Rightarrow> (int, 're list) gmap \<Rightarrow>
    bool \<times> int \<times> ('g, 'p) Option list \<Rightarrow> bool \<times> int \<times> ('g, 'p) Option list" where
  "match_priorities X i opt [] st = st"
| "match_priorities X i opt ((prio, nameRegexpList) # prios) (found, maxPrio, best) =
     (if \<not> groupIDMatchesList X i nameRegexpList then match_priorities X i opt prios (found, maxPrio, best)
      else if prio < maxPrio then match_priorities X i opt prios (True, maxPrio, best)
      else if prio > maxPrio then match_priorities X i opt prios (True, prio, [opt])
      else match_priorities X i opt prios (True, maxPrio, best @ [opt]))"

fun priority_scan :: "('i, 'p, 're) expander_env \<Rightarrow> 'g cloud_provider \<Rightarrow> (int, 're list) gmap \<Rightarrow> ('g, 'p) Option list \<Rightarrow>
    int \<times> ('g, 'p) Option list \<Rightarrow> priority_state \<Rightarrow> ('g, 'p) Option list \<times> priority_state" where
  "priority_scan X cp prios [] (maxPrio, best) p = (best, p)"
| "priority_scan X cp prios (opt # opts) (maxPrio, best) p =
     (let (found, maxPrio, best) = match_priorities X (Id cp (Option_NodeGroup opt)) opt prios (False, maxPrio, best);
          p = (if found then p else logConfigWarning ''PriorityConfigMapNotMatchedGroup'' p)
      in priority_scan X cp prios opts (maxPrio, best) p)"

definition priority_BestOptions :: "('i, 'p, 're) expander_env \<Rightarrow> 'g cloud_provider \<Rightarrow> ('g, 'p) expander_filter_fn" where
  "priority_BestOptions X cp p expansionOptions =
     (if length expansionOptions \<le> 0 then ([], p)
      else case reloadConfigMap X p of
          (None, p) \<Rightarrow> (expansionOptions, p)
        | (Some prios, p) \<Rightarrow>
            (let (best, p) = priority_scan X cp prios expansionOptions (-1, []) p in
             if length best = 0 then (expansionOptions, logConfigWarning ''PriorityConfigMapNoGroupMatched'' p) else (best, p)))"

section \<open>The chain and the factory\<close>

fun chain_BestOption :: "('i, 'p, 're) expander_env \<Rightarrow> ('g, 'p) expander_filter_fn list \<Rightarrow> priority_state \<Rightarrow> ('g, 'p) Option list \<Rightarrow>
    ('g, 'p) Option option \<times> priority_state" where
  "chain_BestOption X [] p filteredOptions = (random_BestOption X filteredOptions, p)"
| "chain_BestOption X (filt # filts) p filteredOptions =
     (case filt p filteredOptions of
        (filteredOptions, p) \<Rightarrow>
          if length filteredOptions = 1 then (Some (filteredOptions ! 0), p) else chain_BestOption X filts p filteredOptions)"

text \<open>A registered filter, and whether it is also a strategy (only random is).\<close>

type_synonym ('g, 'p) filter_factory = "(string, ('g, 'p) expander_filter_fn \<times> bool) gmap"

definition RegisterDefaultExpanders :: "('i, 'p, 're) expander_env \<Rightarrow> 'g cloud_provider \<Rightarrow> (string, 'i) gmap \<Rightarrow> ('g, 'p) filter_factory" where
  "RegisterDefaultExpanders X cp nodeInfo =
     [(''random'', (\<lambda>p os. (random_BestOptions X os, p)), True),
      (''most-pods'', (\<lambda>p os. (mostpods_BestOptions os, p)), False),
      (''least-waste'', (\<lambda>p os. (leastwaste_BestOptions X cp nodeInfo os, p)), False),
      (''least-nodes'', (\<lambda>p os. (leastnodes_BestOptions os, p)), False),
      (''priority'', priority_BestOptions X cp, False)]"

fun build_filters :: "('g, 'p) filter_factory \<Rightarrow> string list \<Rightarrow> string \<Rightarrow> string list \<Rightarrow> bool \<Rightarrow> ('g, 'p) expander_filter_fn list \<Rightarrow>
    go_error + ('g, 'p) expander_filter_fn list" where
  "build_filters F [] prev seen strategySeen filters = Inr filters"
| "build_filters F (name # names) prev seen strategySeen filters =
     (if name \<in> set seen then Inl (NewAutoscalerError InternalError
          (''Expander '' @ name @ '' was specified multiple times, each expander must not be specified more than once''))
      else if strategySeen then Inl (NewAutoscalerError InternalError (''Expander '' @ name @ '' came after an expander '' @ prev @
          '' that will always return only one result, this is not allowed since '' @ name @ '' will never be used''))
      else case map_of F name of
          None \<Rightarrow> Inl (NewAutoscalerError InternalError (''Expander '' @ name @ '' not supported''))
        | Some (filt, is_strategy) \<Rightarrow> build_filters F names name (name # seen) is_strategy (filters @ [filt]))"

definition Build :: "('g, 'p) filter_factory \<Rightarrow> string list \<Rightarrow> go_error + ('g, 'p) expander_filter_fn list" where
  "Build F names = build_filters F names [] [] False []"

end
