(* ===== verification/Expander_Props.thy ===== *)
theory Expander_Props
  imports Expander
begin

text \<open>
  What the expander promises. Every filter keeps exactly the options that are best for one key; the contract of a
  filter is the locale \<open>best_filter\<close>, interpreted on each of them. A chain then picks an option that is best for its
  keys in lexicographic order, whatever the random choice.
\<close>

section \<open>Best options for a key\<close>

definition best_by :: "('o \<Rightarrow> 'k::linorder) \<Rightarrow> 'o list \<Rightarrow> 'o list" where
  "best_by key os = filter (\<lambda>opt. \<forall>opt' \<in> set os. key opt \<le> key opt') os"

lemma best_by_subset: "set (best_by key os) \<subseteq> set os"
  by (auto simp: best_by_def)

lemma best_by_not_Nil: "os \<noteq> [] \<Longrightarrow> best_by key os \<noteq> []"
proof -
  assume "os \<noteq> []"
  then have "Min (key ` set os) \<in> key ` set os" by (intro Min_in) auto
  then obtain opt where "opt \<in> set os" "key opt = Min (key ` set os)" by auto
  then have "opt \<in> set (best_by key os)" by (auto simp: best_by_def)
  then show ?thesis by force
qed

lemma best_by_const: "(\<And>opt. opt \<in> set os \<Longrightarrow> key opt = c) \<Longrightarrow> best_by key os = os"
  by (auto simp: best_by_def intro!: filter_True)

lemma best_by_cong: "(\<And>opt. opt \<in> set os \<Longrightarrow> key opt = key' opt) \<Longrightarrow> best_by key os = best_by key' os"
  by (auto simp: best_by_def intro!: filter_cong)

text \<open>The loop the filters share: keep the options with the least key seen so far.\<close>

fun scan_min :: "('o \<Rightarrow> 'k::linorder) \<Rightarrow> 'k \<Rightarrow> 'o list \<Rightarrow> 'o list \<Rightarrow> 'o list" where
  "scan_min key m best [] = best"
| "scan_min key m best (opt # opts) =
     (if key opt = m then scan_min key m (best @ [opt]) opts
      else if key opt < m then scan_min key (key opt) [opt] opts
      else scan_min key m best opts)"

lemma scan_min_exact:
  "scan_min key m best opts =
     (if \<forall>opt \<in> set opts. m \<le> key opt then best @ filter (\<lambda>opt. key opt = m) opts else best_by key opts)"
proof (induction opts arbitrary: m best)
  case (Cons opt opts)
  consider "key opt = m" | "key opt < m" | "m < key opt" by fastforce
  then show ?case
  proof cases
    case 1
    then show ?thesis using Cons [of m "best @ [opt]"]
      by (auto simp: best_by_def not_le intro!: filter_cong dest: order.strict_trans2)
  next
    case 2
    then have neg: "\<not> (\<forall>opt \<in> set (opt # opts). m \<le> key opt)" by auto
    have "best_by key (opt # opts) =
        (if \<forall>opt' \<in> set opts. key opt \<le> key opt' then opt # filter (\<lambda>opt'. key opt' = key opt) opts else best_by key opts)"
      by (auto simp: best_by_def not_le intro!: filter_cong dest: order.strict_trans2 order_antisym intro: less_imp_le)
    then show ?thesis using 2 neg Cons [of "key opt" "[opt]"] by auto
  next
    case 3
    then show ?thesis using Cons [of m best]
      by (auto simp: best_by_def not_le intro!: filter_cong dest: order.strict_trans2 order.strict_trans)
  qed
qed simp

lemma scan_min_first: "scan_min key (key opt) [opt] opts = best_by key (opt # opts)"
  using scan_min_exact [of key "key opt" "[opt]" opts]
  by (auto simp: best_by_def not_le intro!: filter_cong dest: order.strict_trans2 order_antisym intro: less_imp_le)

lemma scan_min_start: "(\<And>opt. opt \<in> set os \<Longrightarrow> key opt \<le> m) \<Longrightarrow> scan_min key m [] os = best_by key os"
  using scan_min_exact [of key m "[]" os] by (auto simp: best_by_def intro!: filter_cong intro: order_antisym)

section \<open>The filters are exact\<close>

lemma leastnodes_scan_min:
  "(\<And>opt. opt \<in> set os \<Longrightarrow> NodeCount opt \<noteq> 0) \<Longrightarrow> leastnodes_scan m best os = scan_min NodeCount m best os"
  by (induction m best os rule: leastnodes_scan.induct) auto

lemma leastnodes_exact:
  assumes "\<And>opt. opt \<in> set os \<Longrightarrow> NodeCount opt \<noteq> 0 \<and> NodeCount opt \<le> MaxInt"
  shows "leastnodes_BestOptions os = best_by NodeCount os"
  using assms leastnodes_scan_min [of os MaxInt "[]"] scan_min_start [of os NodeCount MaxInt] by (auto simp: leastnodes_BestOptions_def)

lemma mostpods_scan_min: "mostpods_scan m best os = scan_min (\<lambda>opt. - int (length (Option_Pods opt))) (- int m) best os"
  by (induction m best os rule: mostpods_scan.induct) auto

lemma mostpods_exact: "mostpods_BestOptions os = best_by (\<lambda>opt. - int (length (Option_Pods opt))) os"
  unfolding mostpods_BestOptions_def mostpods_scan_min by (rule scan_min_start) simp

text \<open>The score of an option with a template and capacities that are not zero.\<close>

fun fin :: "f64x \<Rightarrow> rat" where
  "fin (Fin x) = x"
| "fin _ = 0"

definition waste_key :: "('i, 'p, 're) expander_env \<Rightarrow> 'g cloud_provider \<Rightarrow> (string, 'i) gmap \<Rightarrow> ('g, 'p) Option \<Rightarrow> rat" where
  "waste_key X cp nodeInfo opt = (case map_of nodeInfo (Id cp (Option_NodeGroup opt)) of None \<Rightarrow> 0 | Some node \<Rightarrow> fin (wastedScore X node opt))"

definition has_score :: "('i, 'p, 're) expander_env \<Rightarrow> 'g cloud_provider \<Rightarrow> (string, 'i) gmap \<Rightarrow> ('g, 'p) Option \<Rightarrow> bool" where
  "has_score X cp nodeInfo opt =
     (case map_of nodeInfo (Id cp (Option_NodeGroup opt)) of
        None \<Rightarrow> False
      | Some node \<Rightarrow> 0 < fst (node_capacity X node) * NodeCount opt \<and> fst (node_capacity X node) * NodeCount opt < 2 ^ 53
          \<and> 0 < snd (node_capacity X node) * NodeCount opt \<and> snd (node_capacity X node) * NodeCount opt < 2 ^ 53)"

lemma has_score_fin:
  assumes "has_score X cp nodeInfo opt"
  obtains node where "map_of nodeInfo (Id cp (Option_NodeGroup opt)) = Some node" "wastedScore X node opt = Fin (waste_key X cp nodeInfo opt)"
proof -
  obtain node where node: "map_of nodeInfo (Id cp (Option_NodeGroup opt)) = Some node"
    "0 < fst (node_capacity X node) * NodeCount opt" "fst (node_capacity X node) * NodeCount opt < 2 ^ 53"
    "0 < snd (node_capacity X node) * NodeCount opt" "snd (node_capacity X node) * NodeCount opt < 2 ^ 53"
    using assms by (auto simp: has_score_def split: option.splits)
  have "f64_of_int (int64 n) \<noteq> 0" if "0 < n" "n < 2 ^ 53" for n
    using that f64_of_int_exact [of n] by (simp add: int64_id)
  from this [OF node(2,3)] this [OF node(4,5)] obtain x where "wastedScore X node opt = Fin x"
    by (cases "node_capacity X node"; cases "resourcesForPods X (Option_Pods opt)") (auto simp: wastedScore_def fx_div_def Let_def)
  then show thesis using that [of node] node(1) by (simp add: waste_key_def)
qed

lemma leastwaste_scan_min:
  assumes "\<And>opt. opt \<in> set os \<Longrightarrow> has_score X cp nodeInfo opt" "best \<noteq> []"
  shows "leastwaste_scan X cp nodeInfo (Fin m) best os = scan_min (waste_key X cp nodeInfo) m best os"
  using assms
proof (induction os arbitrary: m best)
  case (Cons opt os)
  obtain node where "map_of nodeInfo (Id cp (Option_NodeGroup opt)) = Some node" "wastedScore X node opt = Fin (waste_key X cp nodeInfo opt)"
    using has_score_fin Cons.prems(1) by (metis list.set_intros(1))
  then show ?case using Cons.IH Cons.prems by (simp add: Let_def fx_eq_def)
qed simp

lemma leastwaste_exact:
  assumes "\<And>opt. opt \<in> set os \<Longrightarrow> has_score X cp nodeInfo opt"
  shows "leastwaste_BestOptions X cp nodeInfo os = best_by (waste_key X cp nodeInfo) os"
proof (cases os)
  case (Cons opt opts)
  obtain node where "map_of nodeInfo (Id cp (Option_NodeGroup opt)) = Some node" "wastedScore X node opt = Fin (waste_key X cp nodeInfo opt)"
    using has_score_fin assms Cons by (metis list.set_intros(1))
  then have "leastwaste_BestOptions X cp nodeInfo os = scan_min (waste_key X cp nodeInfo) (waste_key X cp nodeInfo opt) [opt] opts"
    using leastwaste_scan_min [of opts X cp nodeInfo "[opt]" "waste_key X cp nodeInfo opt"] assms Cons
    by (auto simp: leastwaste_BestOptions_def Let_def fx_eq_def)
  then show ?thesis using scan_min_first Cons by metis
qed (simp add: leastwaste_BestOptions_def best_by_def)

text \<open>The priority of an option: the highest one of at least -1 among the entries that match its group, -2 if there is none.\<close>

definition matching :: "('i, 'p, 're) expander_env \<Rightarrow> string \<Rightarrow> (int, 're list) gmap \<Rightarrow> int list" where
  "matching X i prios = map fst (filter (\<lambda>(prio, res). groupIDMatchesList X i res) prios)"

definition option_prio :: "('i, 'p, 're) expander_env \<Rightarrow> 'g cloud_provider \<Rightarrow> (int, 're list) gmap \<Rightarrow> ('g, 'p) Option \<Rightarrow> int" where
  "option_prio X cp prios opt = Max (set (-2 # filter (\<lambda>prio. -1 \<le> prio) (matching X (Id cp (Option_NodeGroup opt)) prios)))"

lemma match_priorities_exact:
  "distinct (map fst prios) \<Longrightarrow>
   snd (match_priorities X i opt prios (found, m, best)) =
     (if \<exists>prio \<in> set (matching X i prios). m < prio then (Max (set (matching X i prios)), [opt])
      else if m \<in> set (matching X i prios) then (m, best @ [opt]) else (m, best))"
proof (induction prios arbitrary: found m best)
  case (Cons e prios)
  obtain prio res where e: "e = (prio, res)" by (cases e)
  show ?case
  proof (cases "groupIDMatchesList X i res")
    case False
    then have "matching X i (e # prios) = matching X i prios" using e by (simp add: matching_def)
    then show ?thesis using False Cons e by simp
  next
    case True
    have match: "matching X i (e # prios) = prio # matching X i prios" using True e by (simp add: matching_def)
    have new: "prio \<notin> set (matching X i prios)" using Cons.prems e by (force simp: matching_def)
    have max: "Max (insert prio (set (matching X i prios))) = (if \<exists>q \<in> set (matching X i prios). prio < q then Max (set (matching X i prios)) else prio)"
      by (cases "matching X i prios = []") (auto simp: max_def not_less Max_ge_iff Max_less_iff intro: order_antisym intro!: Max_eqI)
    show ?thesis
      using Cons.IH [of True m best] Cons.IH [of True prio "[opt]"] Cons.IH [of True m "best @ [opt]"] Cons.prems True e new
      unfolding match by (auto simp: max dest: order.strict_trans)
  qed
qed (simp add: matching_def)

lemma priority_scan_min:
  assumes "distinct (map fst prios)" "-1 \<le> m"
  shows "fst (priority_scan X cp prios os (m, best) p) = scan_min (\<lambda>opt. - option_prio X cp prios opt) (- m) best os"
  using assms(2)
proof (induction os arbitrary: m best p)
  case (Cons opt os)
  let ?S = "set (matching X (Id cp (Option_NodeGroup opt)) prios)"
  have prio: "option_prio X cp prios opt = Max (insert (-2) {q \<in> ?S. -1 \<le> q})" by (simp add: option_prio_def)
  obtain found m' best' where mp: "match_priorities X (Id cp (Option_NodeGroup opt)) opt prios (False, m, best) = (found, m', best')"
    by (metis surj_pair)
  note exact = match_priorities_exact [OF assms(1), of X "Id cp (Option_NodeGroup opt)" opt False m best, unfolded mp snd_conv]
  consider "\<exists>q \<in> ?S. m < q" | "\<not> (\<exists>q \<in> ?S. m < q)" "m \<in> ?S" | "\<not> (\<exists>q \<in> ?S. m < q)" "m \<notin> ?S" by blast
  then show ?case
  proof cases
    case 1
    then obtain q where q: "q \<in> ?S" "m < q" by blast
    then have "m < Max ?S" "Max ?S \<in> ?S" by (auto intro: order.strict_trans2 Max_ge Max_in)
    then have "option_prio X cp prios opt = Max ?S" unfolding prio using Cons.prems by (intro Max_eqI) auto
    with \<open>m < Max ?S\<close> show ?thesis using Cons exact mp 1 by (simp add: Let_def)
  next
    case 2
    have "option_prio X cp prios opt = m" unfolding prio using 2 Cons.prems by (intro Max_eqI) auto
    then show ?thesis using Cons exact mp 2 by (simp add: Let_def)
  next
    case 3
    have "option_prio X cp prios opt < m" unfolding prio using 3 Cons.prems by (auto simp: Max_less_iff not_less order.order_iff_strict)
    then show ?thesis using Cons exact mp 3 by (simp add: Let_def)
  qed
qed simp

lemma parse_priorities_keys: "parse_priorities X config = Some prios \<Longrightarrow> set (map fst prios) \<subseteq> set (map fst config)"
proof (induction X config arbitrary: prios rule: parse_priorities.induct)
  case (2 X prio reList config)
  then obtain res m where "compile_all X reList = Some res" "parse_priorities X config = Some m"
    "prios = (if res = [] then m else (prio, res) # m)" by (auto split: option.splits)
  then show ?case using "2.IH" [of res m] by auto
qed simp

lemma parse_priorities_distinct:
  "distinct (map fst config) \<Longrightarrow> parse_priorities X config = Some prios \<Longrightarrow> distinct (map fst prios)"
proof (induction X config arbitrary: prios rule: parse_priorities.induct)
  case (2 X prio reList config)
  then obtain res m where "compile_all X reList = Some res" "parse_priorities X config = Some m"
    "prios = (if res = [] then m else (prio, res) # m)" by (auto split: option.splits)
  then show ?case using 2 parse_priorities_keys [of X config m] by auto
qed simp

definition config_ok :: "('i, 'p, 're) expander_env \<Rightarrow> bool" where
  "config_ok X \<longleftrightarrow> (\<forall>text config. unmarshal X text = Some config \<longrightarrow> gm_wf config)"

definition priority_key :: "('i, 'p, 're) expander_env \<Rightarrow> 'g cloud_provider \<Rightarrow> ('g, 'p) Option \<Rightarrow> int" where
  "priority_key X cp opt =
     (case fst (reloadConfigMap X \<lparr>okConfigUpdates = 0, badConfigUpdates = 0, config_events = []\<rparr>) of
        None \<Rightarrow> 0 | Some prios \<Rightarrow> - option_prio X cp prios opt)"

lemma reload_result: "fst (reloadConfigMap X p) = fst (reloadConfigMap X p')"
  by (auto simp: reloadConfigMap_def parsePrioritiesYAMLString_def split: option.splits prod.splits bind_splits)

lemma reload_distinct:
  "config_ok X \<Longrightarrow> fst (reloadConfigMap X p) = Some prios \<Longrightarrow> distinct (map fst prios)"
  using parse_priorities_distinct
  by (fastforce simp: reloadConfigMap_def parsePrioritiesYAMLString_def config_ok_def gm_wf_def
      split: option.splits prod.splits if_splits bind_splits)

lemma option_prio_range: "option_prio X cp prios opt = -2 \<or> -1 \<le> option_prio X cp prios opt"
proof -
  have "option_prio X cp prios opt \<in> set (-2 # filter (\<lambda>prio. -1 \<le> prio) (matching X (Id cp (Option_NodeGroup opt)) prios))"
    unfolding option_prio_def by (rule Max_in) auto
  then show ?thesis by auto
qed

lemma priority_exact:
  assumes "config_ok X"
  shows "fst (priority_BestOptions X cp p os) = best_by (priority_key X cp) os"
proof (cases "os = []")
  case True
  then show ?thesis by (simp add: priority_BestOptions_def best_by_def)
next
  case nonempty: False
  obtain r p1 where reload: "reloadConfigMap X p = (r, p1)" by fastforce
  then have key: "priority_key X cp = (\<lambda>opt. case r of None \<Rightarrow> 0 | Some prios \<Rightarrow> - option_prio X cp prios opt)"
    using reload_result [of X p] by (auto simp: priority_key_def fun_eq_iff)
  show ?thesis
  proof (cases r)
    case None
    then show ?thesis using nonempty reload key by (auto simp: priority_BestOptions_def intro!: best_by_const [symmetric])
  next
    case (Some prios)
    let ?key = "\<lambda>opt. - option_prio X cp prios opt"
    have d: "distinct (map fst prios)" using reload_distinct [OF assms, of p] reload Some by simp
    obtain best p2 where scan: "priority_scan X cp prios os (-1, []) p1 = (best, p2)" by fastforce
    then have best: "best = scan_min ?key 1 [] os" using priority_scan_min [OF d, of "-1" X cp os "[]" p1] by simp
    have res: "fst (priority_BestOptions X cp p os) = (if best = [] then os else best)"
      using nonempty reload Some scan by (simp add: priority_BestOptions_def)
    have key: "priority_key X cp = ?key" using key Some by simp
    show ?thesis
    proof (cases "\<forall>opt \<in> set os. 1 \<le> ?key opt")
      case False
      then have "best = best_by ?key os" using scan_min_exact [of ?key 1 "[]" os] best by (simp only: if_False)
      then show ?thesis using res key best_by_not_Nil [OF nonempty, of ?key] by simp
    next
      case True
      then have best: "best = filter (\<lambda>opt. ?key opt = 1) os" using scan_min_exact [of ?key 1 "[]" os] best by simp
      show ?thesis
      proof (cases "best = []")
        case True
        have "?key opt = 2" if "opt \<in> set os" for opt
        proof -
          have "?key opt \<noteq> 1" using best True that by (metis (mono_tags, lifting) filter_empty_conv)
          moreover have "1 \<le> ?key opt" using \<open>\<forall>opt \<in> set os. 1 \<le> ?key opt\<close> that by blast
          ultimately show ?thesis using option_prio_range [of X cp prios opt] by linarith
        qed
        then have "best_by ?key os = os" by (rule best_by_const)
        then show ?thesis using res key True by simp
      next
        case False
        then obtain opt where "opt \<in> set os" "?key opt = 1" using best by (force simp: filter_empty_conv)
        then have "best_by ?key os = best" unfolding best best_by_def
          using True by (intro filter_cong) (auto, metis order_antisym)
        then show ?thesis using res key False by simp
      qed
    qed
  qed
qed

section \<open>The contract of a filter\<close>

locale best_filter =
  fixes filt :: "('g, 'p) expander_filter_fn" and key :: "('g, 'p) Option \<Rightarrow> 'k::linorder" and ok :: "('g, 'p) Option \<Rightarrow> bool"
  assumes exact: "(\<And>opt. opt \<in> set os \<Longrightarrow> ok opt) \<Longrightarrow> fst (filt p os) = best_by key os"
begin

lemma keeps_some: "(\<And>opt. opt \<in> set os \<Longrightarrow> ok opt) \<Longrightarrow> os \<noteq> [] \<Longrightarrow> fst (filt p os) \<noteq> [] \<and> set (fst (filt p os)) \<subseteq> set os"
  using exact [of os p] best_by_not_Nil [of os key] best_by_subset [of key os] by simp

end

text \<open>Options the filters can rank: a template with capacities that are not zero, a count that fits an \<open>int\<close>.\<close>

definition option_ok :: "('i, 'p, 're) expander_env \<Rightarrow> 'g cloud_provider \<Rightarrow> (string, 'i) gmap \<Rightarrow> ('g, 'p) Option \<Rightarrow> bool" where
  "option_ok X cp nodeInfo opt \<longleftrightarrow> has_score X cp nodeInfo opt \<and> NodeCount opt \<le> MaxInt"

lemma option_ok_count: "option_ok X cp nodeInfo opt \<Longrightarrow> NodeCount opt \<noteq> 0"
  by (auto simp: option_ok_def has_score_def split: option.splits)

lemma best_by_rat: "best_by (\<lambda>opt. rat_of_int (key opt)) os = best_by key os"
  by (simp add: best_by_def)

definition expander_key :: "('i, 'p, 're) expander_env \<Rightarrow> 'g cloud_provider \<Rightarrow> (string, 'i) gmap \<Rightarrow> string \<Rightarrow> ('g, 'p) Option \<Rightarrow> rat" where
  "expander_key X cp nodeInfo name opt =
     (if name = ''least-nodes'' then rat_of_int (NodeCount opt)
      else if name = ''most-pods'' then rat_of_int (- int (length (Option_Pods opt)))
      else if name = ''least-waste'' then waste_key X cp nodeInfo opt
      else if name = ''priority'' then rat_of_int (priority_key X cp opt)
      else 0)"

lemma expander_keys [simp]:
  "expander_key X cp nodeInfo ''least-nodes'' = (\<lambda>opt. rat_of_int (NodeCount opt))"
  "expander_key X cp nodeInfo ''most-pods'' = (\<lambda>opt. rat_of_int (- int (length (Option_Pods opt))))"
  "expander_key X cp nodeInfo ''least-waste'' = waste_key X cp nodeInfo"
  "expander_key X cp nodeInfo ''priority'' = (\<lambda>opt. rat_of_int (priority_key X cp opt))"
  "expander_key X cp nodeInfo ''random'' = (\<lambda>_. 0)"
  by (simp_all add: expander_key_def fun_eq_iff)

lemma leastnodes_ok_exact:
  "(\<And>opt. opt \<in> set os \<Longrightarrow> option_ok X cp nodeInfo opt) \<Longrightarrow> leastnodes_BestOptions os = best_by NodeCount os"
  by (intro leastnodes_exact) (metis option_ok_count option_ok_def)

interpretation leastnodes: best_filter "\<lambda>p os. (leastnodes_BestOptions os, p)" "expander_key X cp nodeInfo ''least-nodes''" "option_ok X cp nodeInfo"
  by unfold_locales (simp add: best_by_rat, rule leastnodes_ok_exact, blast)

interpretation mostpods: best_filter "\<lambda>p os. (mostpods_BestOptions os, p)" "expander_key X cp nodeInfo ''most-pods''" "option_ok X cp nodeInfo"
  by unfold_locales (simp only: expander_keys best_by_rat mostpods_exact fst_conv)

interpretation leastwaste: best_filter "\<lambda>p os. (leastwaste_BestOptions X cp nodeInfo os, p)" "expander_key X cp nodeInfo ''least-waste''"
    "option_ok X cp nodeInfo"
  by unfold_locales (simp add: leastwaste_exact option_ok_def)

lemma priority_best_filter:
  "config_ok X \<Longrightarrow> best_filter (priority_BestOptions X cp) (expander_key X cp nodeInfo ''priority'') (option_ok X cp nodeInfo)"
  by unfold_locales (simp only: expander_keys best_by_rat priority_exact)

section \<open>Chains\<close>

lemma best_by_single [simp]: "best_by key [opt] = [opt]"
  by (simp add: best_by_def)

lemma foldl_best_by_single [simp]: "foldl (\<lambda>os key. best_by key os) [opt] keys = [opt]"
  by (induction keys) auto

lemma chain_best:
  assumes "\<And>n. 0 < n \<Longrightarrow> draw X n < n"
  shows "list_all2 (\<lambda>filt key. best_filter filt key ok) filts keys \<Longrightarrow> os \<noteq> [] \<Longrightarrow> (\<And>opt. opt \<in> set os \<Longrightarrow> ok opt) \<Longrightarrow>
    \<exists>opt p'. chain_BestOption X filts p os = (Some opt, p') \<and> opt \<in> set (foldl (\<lambda>os key. best_by key os) os keys)"
proof (induction filts keys arbitrary: os p rule: list_all2_induct)
  case Nil
  then show ?case using assms [of "length os"] by (simp add: random_BestOption_def)
next
  case (Cons filt filts key keys)
  obtain os1 p1 where step: "filt p os = (os1, p1)" by fastforce
  have os1: "os1 = best_by key os" using best_filter.exact [OF Cons.hyps(1) Cons.prems(2), of os p] step by simp
  show ?case
  proof (cases "length os1 = 1")
    case True
    then obtain opt where "os1 = [opt]" by (cases os1) auto
    then show ?thesis using step os1 by simp
  next
    case False
    have "\<exists>opt p'. chain_BestOption X filts p1 os1 = (Some opt, p') \<and> opt \<in> set (foldl (\<lambda>os key. best_by key os) os1 keys)"
      using Cons.prems best_by_subset [of key os] best_by_not_Nil [OF Cons.prems(1), of key] os1 by (intro Cons.IH) auto
    then show ?thesis using step os1 False by simp
  qed
qed

lemma chain_random_last:
  "chain_BestOption X (filts @ [\<lambda>p os. (random_BestOptions X os, p)]) p os = chain_BestOption X filts p os"
  by (induction filts arbitrary: p os) (auto simp: random_BestOptions_def random_BestOption_def split: prod.splits)

section \<open>Built expanders\<close>

definition known_expanders :: "string list" where
  "known_expanders = [''random'', ''most-pods'', ''least-waste'', ''least-nodes'', ''priority'']"

text \<open>The lists of names the factory accepts: known names, none twice, and random only at the end.\<close>

definition valid_names :: "string list \<Rightarrow> bool" where
  "valid_names names \<longleftrightarrow> distinct names \<and> set names \<subseteq> set known_expanders \<and> ''random'' \<notin> set (butlast names)"

abbreviation default_filter :: "('i, 'p, 're) expander_env \<Rightarrow> 'g cloud_provider \<Rightarrow> (string, 'i) gmap \<Rightarrow> string \<Rightarrow> ('g, 'p) expander_filter_fn" where
  "default_filter X cp nodeInfo name \<equiv> fst (the (map_of (RegisterDefaultExpanders X cp nodeInfo) name))"

lemma default_known:
  "map_of (RegisterDefaultExpanders X cp nodeInfo) name = None \<longleftrightarrow> name \<notin> set known_expanders"
  "map_of (RegisterDefaultExpanders X cp nodeInfo) name = Some (f, b) \<Longrightarrow> b \<longleftrightarrow> name = ''random''"
  by (auto simp: RegisterDefaultExpanders_def known_expanders_def map_of_eq_None_iff split: if_splits)

lemma build_filters_exact:
  "build_filters (RegisterDefaultExpanders X cp nodeInfo) names prev seen strategySeen filters = Inr result \<longleftrightarrow>
     (distinct names \<and> set names \<inter> set seen = {} \<and> set names \<subseteq> set known_expanders \<and> ''random'' \<notin> set (butlast names) \<and>
      (strategySeen \<longrightarrow> names = [])) \<and> result = filters @ map (default_filter X cp nodeInfo) names"
proof (induction names arbitrary: prev seen strategySeen filters)
  case (Cons name names)
  show ?case
  proof (cases "map_of (RegisterDefaultExpanders X cp nodeInfo) name")
    case None
    then show ?thesis using default_known(1) [of X cp nodeInfo name] by auto
  next
    case (Some fb)
    then obtain f b where fb: "map_of (RegisterDefaultExpanders X cp nodeInfo) name = Some (f, b)" by (cases fb) auto
    have "b \<longleftrightarrow> name = ''random''" using default_known(2) [OF fb] .
    moreover have "name \<in> set known_expanders" using default_known(1) [of X cp nodeInfo name] fb by simp
    ultimately show ?thesis using Cons.IH [of name "name # seen" b "filters @ [f]"] fb by (cases "names = []") auto
  qed
qed auto

lemma Build_exact:
  "Build (RegisterDefaultExpanders X cp nodeInfo) names = Inr filters \<longleftrightarrow>
     valid_names names \<and> filters = map (default_filter X cp nodeInfo) names"
  using build_filters_exact [of X cp nodeInfo names "[]" "[]" False "[]" filters] by (auto simp: Build_def valid_names_def)

lemma known_cases:
  assumes "name \<in> set known_expanders"
  obtains "name = ''random''" | "name = ''most-pods''" | "name = ''least-waste''" | "name = ''least-nodes''" | "name = ''priority''"
proof -
  have elim: thesis if "x \<in> set [a, b, c, d, e]" "x = a \<Longrightarrow> thesis" "x = b \<Longrightarrow> thesis" "x = c \<Longrightarrow> thesis" "x = d \<Longrightarrow> thesis"
    "x = e \<Longrightarrow> thesis" for x a b c d e :: string using that by auto
  show thesis by (rule elim [OF assms [unfolded known_expanders_def]]) (fact that)+
qed

lemma default_best_filter:
  assumes "config_ok X" "name \<in> set known_expanders" "name \<noteq> ''random''"
  shows "best_filter (default_filter X cp nodeInfo name) (expander_key X cp nodeInfo name) (option_ok X cp nodeInfo)"
proof -
  show ?thesis
  proof (rule known_cases [OF assms(2)])
    assume "name = ''random''"
    then show ?thesis using assms(3) by simp
  next
    assume "name = ''most-pods''"
    then show ?thesis using mostpods.best_filter_axioms [of X cp nodeInfo] by (simp add: RegisterDefaultExpanders_def)
  next
    assume "name = ''least-waste''"
    then show ?thesis using leastwaste.best_filter_axioms [of X cp nodeInfo] by (simp add: RegisterDefaultExpanders_def)
  next
    assume "name = ''least-nodes''"
    then show ?thesis using leastnodes.best_filter_axioms [of X cp nodeInfo] by (simp add: RegisterDefaultExpanders_def)
  next
    assume "name = ''priority''"
    then show ?thesis using priority_best_filter [OF assms(1), of cp nodeInfo] by (simp add: RegisterDefaultExpanders_def)
  qed
qed

lemma foldl_best_by_subset: "set (foldl (\<lambda>os name. best_by (key name) os) opts names) \<subseteq> set opts"
proof (induction names arbitrary: opts)
  case (Cons name names)
  then show ?case using best_by_subset [of "key name" opts] by fastforce
qed simp

lemma chain_of_names:
  assumes "config_ok X" "\<And>n. 0 < n \<Longrightarrow> draw X n < n" "opts \<noteq> []" "\<forall>opt \<in> set opts. option_ok X cp nodeInfo opt" "valid_names names"
  shows "\<exists>opt p'. chain_BestOption X (map (default_filter X cp nodeInfo) names) p opts = (Some opt, p') \<and> opt \<in> set opts \<and>
    opt \<in> set (foldl (\<lambda>os name. best_by (expander_key X cp nodeInfo name) os) opts names)"
proof -
  define ns where "ns = filter (\<lambda>name. name \<noteq> ''random'') names"
  have split: "names = ns \<or> names = ns @ [''random'']"
  proof (cases names rule: rev_cases)
    case (snoc ys y)
    then have "filter (\<lambda>name. name \<noteq> ''random'') ys = ys"
      using assms(5) by (intro filter_True) (auto simp: valid_names_def)
    then show ?thesis using snoc by (simp add: ns_def)
  qed (simp add: ns_def)
  have "list_all2 (\<lambda>filt key. best_filter filt key (option_ok X cp nodeInfo)) (map (default_filter X cp nodeInfo) ns) (map (expander_key X cp nodeInfo) ns)"
    using assms(1,5) by (auto simp: list_all2_map1 list_all2_map2 list_all2_same ns_def valid_names_def intro!: default_best_filter)
  then obtain opt p' where opt: "chain_BestOption X (map (default_filter X cp nodeInfo) ns) p opts = (Some opt, p')"
    "opt \<in> set (foldl (\<lambda>os key. best_by key os) opts (map (expander_key X cp nodeInfo) ns))"
    using chain_best [OF assms(2) _ assms(3), of "option_ok X cp nodeInfo"] assms(4) by blast
  have random: "default_filter X cp nodeInfo ''random'' = (\<lambda>p os. (random_BestOptions X os, p))"
    by (simp add: RegisterDefaultExpanders_def)
  have chain: "chain_BestOption X (map (default_filter X cp nodeInfo) names) p opts = (Some opt, p')"
    using split opt(1) chain_random_last [of X "map (default_filter X cp nodeInfo) ns" p opts] by (auto simp: random)
  have fold: "foldl (\<lambda>os name. best_by (expander_key X cp nodeInfo name) os) opts names =
      foldl (\<lambda>os key. best_by key os) opts (map (expander_key X cp nodeInfo) ns)"
    using split best_by_const [of _ "\<lambda>_. 0 :: rat" 0] by (auto simp: foldl_map)
  show ?thesis using chain opt(2) fold foldl_best_by_subset [of "expander_key X cp nodeInfo" opts names] by auto
qed


text \<open>Three options; the fewest nodes leave two, and the second of those schedules more pods.\<close>

definition demo_expander_env :: "(int \<times> int, nat, string) expander_env" where
  "demo_expander_env = \<lparr>group_requests = (\<lambda>_. (100, 200)), node_capacity = (\<lambda>i. i), config_map = None, unmarshal = (\<lambda>_. None),
     compile = (\<lambda>re. Some re), finds = (=), draw = (\<lambda>_. 0)\<rparr>"

abbreviation demo_choices :: "(string, nat) Option list" where
  "demo_choices \<equiv> [\<lparr>Option_NodeGroup = ''a'', SimilarNodeGroups = [], NodeCount = 2, Option_Pods = [1, 2, 3]\<rparr>,
     \<lparr>Option_NodeGroup = ''b'', SimilarNodeGroups = [], NodeCount = 1, Option_Pods = [1]\<rparr>,
     \<lparr>Option_NodeGroup = ''c'', SimilarNodeGroups = [], NodeCount = 1, Option_Pods = [1, 2]\<rparr>]"

abbreviation demo_infos :: "(string, int \<times> int) gmap" where
  "demo_infos \<equiv> [(''a'', (1000, 1000)), (''b'', (1000, 1000)), (''c'', (1000, 1000))]"

abbreviation demo_priority_state :: priority_state where
  "demo_priority_state \<equiv> \<lparr>okConfigUpdates = 0, badConfigUpdates = 0, config_events = []\<rparr>"


end
