(* ===== verification/Actuation.thy ===== *)
theory Actuation
  imports Scale_Down_Budgets Autoscaler_Errors "HOL-Library.Multiset"
begin

text \<open>
  Carrying out a scale-down (src/pkg/core/scaledown/actuation): actuator.go marks the nodes and starts their deletion,
  group_deletion_scheduler.go collects the nodes of a group that is deleted as a whole and takes all of them back when
  one fails, delete_in_batch.go calls the provider and ends the deletions in the tracker.

  Every goroutine is a value of \<open>goroutine\<close>: what is left of it. The locks of the scheduler, the batcher and
  the tracker make their operations atomic, so one turn of a thread (\<open>goroutine_step\<close>) runs it up to the end of its next
  locked operation or call of the provider. A schedule is a list of turns: the position of the thread and the answers
  (\<open>act_answers\<close>) of the services it asks in this turn: time, snapshot, disruption budgets, eviction, provider. \<open>None\<close> is
  a panic. Calls to the API server and the provider and the notifications are recorded in \<open>act_calls\<close>. Nodes are
  compared as values. Sleeping, events, metrics, the measurement of taint latencies and eviction results per pod are left out.
\<close>

section \<open>State\<close>

datatype NodeDeleteResultType = NodeDeleteOk | NodeDeleteErrorFailedToMarkToBeDeleted | NodeDeleteErrorFailedToEvictPods
  | NodeDeleteErrorFailedToDelete | NodeDeleteErrorInternal

record NodeDeleteResult =
  ResultType :: NodeDeleteResultType
  Err :: "go_error option"

datatype act_call = MarkToBeDeleted_call string | CleanToBeDeleted_call string | DeleteNodes_call string "string list"
  | ForceDeleteNodes_call string string | RegisterScaleDown_call string string | RegisterFailedScaleDown_call string

datatype 'g goroutine =
    Delete_Async "node list" 'g bool bool int
  | Abort_Each "node list" string bool NodeDeleteResult
  | Each_Node "node list" 'g bool bool int
  | Schedule_Deletion node 'g int bool bool
  | Delete_Batch "node list" string "(string, bool) gmap"
  | Finish_Batch "node list" string "(string, bool) gmap" "go_error + 'g"
  | Remove_Later string

record ('p, 'g) act_state =
  act_tracker :: "('p, NodeDeleteResult) NodeDeletionTracker"
  nodeQueue :: "(string, node list) gmap"
  failuresForGroup :: "(string, bool) gmap"
  bucketsPerNodeGroup :: "(string, node list) gmap"
  bucketDrains :: "(string, bool) gmap"
  act_calls :: "act_call list"
  act_threads :: "'g goroutine list"

record 'g act_env =
  act_provider :: "'g cloud_provider"
  group_options :: "'g \<Rightarrow> bool option"
  deleteInterval :: duration
  act_quote :: "string \<Rightarrow> string"

record 'g act_answers =
  ans_now :: time
  snapshot_error :: "string option"
  pdb_error :: "string option"
  info_error :: "string option"
  move_error :: "string option"
  move_pods :: nat
  move_completion_pods :: nat
  options_error :: "cp_error option"
  drain_error :: "go_error option"
  delay_error :: "go_error option"
  force_error :: "go_error option"
  group_answer :: "node \<Rightarrow> 'g option \<times> cp_error option"
  delete_error :: "cp_error option"

definition internal_error :: "string \<Rightarrow> NodeDeleteResult" where
  "internal_error text = \<lparr>ResultType = NodeDeleteErrorInternal, Err = Some (NewAutoscalerError InternalError text)\<rparr>"

section \<open>Ending a deletion\<close>

definition do_call :: "act_call \<Rightarrow> ('p, 'g) act_state \<Rightarrow> ('p, 'g) act_state" where
  "do_call c st = st\<lparr>act_calls := act_calls st @ [c]\<rparr>"

definition CleanUpAndRecordFailedScaleDownEvent :: "time \<Rightarrow> node \<Rightarrow> string \<Rightarrow> NodeDeleteResult \<Rightarrow> ('p, 'g) act_state \<Rightarrow> ('p, 'g) act_state" where
  "CleanUpAndRecordFailedScaleDownEvent now node nodeGroupId result st =
     (let st = do_call (CleanToBeDeleted_call (Name node)) st
      in st\<lparr>act_tracker := EndDeletion now nodeGroupId (Name node) result (act_tracker st)\<rparr>)"

definition RegisterAndRecordSuccessfulScaleDownEvent :: "'g act_env \<Rightarrow> time \<Rightarrow> node \<Rightarrow> 'g \<Rightarrow> ('p, 'g) act_state \<Rightarrow> ('p, 'g) act_state" where
  "RegisterAndRecordSuccessfulScaleDownEvent E now node nodeGroup st =
     (let st = do_call (RegisterScaleDown_call (Id (act_provider E) nodeGroup) (Name node)) st
      in st\<lparr>act_tracker := EndDeletion now (Id (act_provider E) nodeGroup) (Name node) \<lparr>ResultType = NodeDeleteOk, Err = None\<rparr> (act_tracker st)\<rparr>)"

section \<open>The batcher\<close>

definition deleteNodesFromCloudProvider :: "'g act_env \<Rightarrow> 'g act_answers \<Rightarrow> node list \<Rightarrow> ('p, 'g) act_state \<Rightarrow>
    ((go_error + 'g) \<times> ('p, 'g) act_state) option" where
  "deleteNodesFromCloudProvider E a nodes st =
     (case nodes of
        [] \<Rightarrow> None
      | node # _ \<Rightarrow>
          (case group_answer a node of
             (_, Some err) \<Rightarrow> Some (Inl (NewAutoscalerError CloudProviderError
                 (''failed to find node group for '' @ Name node @ '': '' @ cp_error_text err)), st)
           | (None, None) \<Rightarrow> Some (Inl (NewAutoscalerError InternalError (''picked node that doesn't belong to a node group: '' @ Name node)), st)
           | (Some nodeGroup, None) \<Rightarrow>
               (let gid = Id (act_provider E) nodeGroup; st = do_call (DeleteNodes_call gid (map Name nodes)) st in
                case delete_error a of
                  Some err \<Rightarrow> Some (Inl (NewAutoscalerError CloudProviderError
                      (''failed to delete nodes from group '' @ gid @ '': '' @ cp_error_text err)), do_call (RegisterFailedScaleDown_call gid) st)
                | None \<Rightarrow> Some (Inr nodeGroup, st))))"

text \<open>One round of the loop that ends the deletions of a batch.\<close>

definition end_batch_node :: "'g act_env \<Rightarrow> time \<Rightarrow> node \<Rightarrow> string \<Rightarrow> go_error + 'g \<Rightarrow> ('p, 'g) act_state \<Rightarrow> ('p, 'g) act_state" where
  "end_batch_node E now node nodeGroupId result st =
     (case result of
        Inl err \<Rightarrow> CleanUpAndRecordFailedScaleDownEvent now node nodeGroupId \<lparr>ResultType = NodeDeleteErrorFailedToDelete, Err = Some err\<rparr> st
      | Inr nodeGroup \<Rightarrow> RegisterAndRecordSuccessfulScaleDownEvent E now node nodeGroup st)"

definition addNodesToBucket :: "'g act_env \<Rightarrow> node list \<Rightarrow> 'g \<Rightarrow> bool \<Rightarrow> ('p, 'g) act_state \<Rightarrow> bool \<times> ('p, 'g) act_state" where
  "addNodesToBucket E nodes nodeGroup drain st =
     (let gid = Id (act_provider E) nodeGroup;
          st = st\<lparr>bucketDrains := foldl (\<lambda>m node. gput (Name node) drain m) (bucketDrains st) nodes\<rparr>;
          val = gget [] (bucketsPerNodeGroup st) gid
      in if \<not> ghas (bucketsPerNodeGroup st) gid \<or> length val = 0
         then (True, st\<lparr>bucketsPerNodeGroup := gput gid nodes (bucketsPerNodeGroup st)\<rparr>)
         else (False, st\<lparr>bucketsPerNodeGroup := gput gid (val @ nodes) (bucketsPerNodeGroup st)\<rparr>))"

definition AddNodes :: "'g act_env \<Rightarrow> node list \<Rightarrow> 'g \<Rightarrow> bool \<Rightarrow> ('p, 'g) act_state \<Rightarrow> 'g goroutine list \<times> ('p, 'g) act_state" where
  "AddNodes E nodes nodeGroup drain st =
     (let gid = Id (act_provider E) nodeGroup in
      if deleteInterval E = 0 then ([Delete_Batch nodes gid (map (\<lambda>node. (Name node, drain)) nodes)], st)
      else (let (first, st) = addNodesToBucket E nodes nodeGroup drain st in (if first then [Remove_Later gid] else [], st)))"

definition remove :: "string \<Rightarrow> ('p, 'g) act_state \<Rightarrow> 'g goroutine list \<times> ('p, 'g) act_state" where
  "remove nodeGroupId st =
     (case map_of (bucketsPerNodeGroup st) nodeGroupId of
        None \<Rightarrow> ([], st)
      | Some nodes \<Rightarrow>
          (let drains = foldl (\<lambda>m node. gput (Name node) (gget False (bucketDrains st) (Name node)) m) [] nodes
           in ([Delete_Batch nodes nodeGroupId drains],
               st\<lparr>bucketsPerNodeGroup := gdel nodeGroupId (bucketsPerNodeGroup st),
                  bucketDrains := foldl (\<lambda>m node. gdel (Name node) m) (bucketDrains st) nodes\<rparr>)))"

section \<open>The scheduler\<close>

definition ResetAndReportMetrics :: "('p, 'g) act_state \<Rightarrow> ('p, 'g) act_state" where
  "ResetAndReportMetrics st = st\<lparr>failuresForGroup := []\<rparr>"

definition group_failed :: NodeDeleteResult where
  "group_failed = \<lparr>ResultType = NodeDeleteErrorFailedToDelete,
     Err = Some (NewAutoscalerError TransientError ''couldn't scale down other nodes in this node group'')\<rparr>"

definition AbortNodeDeletion :: "time \<Rightarrow> node \<Rightarrow> string \<Rightarrow> NodeDeleteResult \<Rightarrow> ('p, 'g) act_state \<Rightarrow> ('p, 'g) act_state" where
  "AbortNodeDeletion now node nodeGroupId result st =
     (let st = st\<lparr>failuresForGroup := gput nodeGroupId True (failuresForGroup st)\<rparr>;
          st = CleanUpAndRecordFailedScaleDownEvent now node nodeGroupId result st;
          st = foldl (\<lambda>st otherNode. if otherNode = node then st
                 else CleanUpAndRecordFailedScaleDownEvent now otherNode nodeGroupId group_failed st) st (gget [] (nodeQueue st) nodeGroupId)
      in st\<lparr>nodeQueue := gdel nodeGroupId (nodeQueue st)\<rparr>)"

definition addToBatcher :: "'g act_env \<Rightarrow> time \<Rightarrow> node \<Rightarrow> 'g \<Rightarrow> int \<Rightarrow> bool \<Rightarrow> bool \<Rightarrow> ('p, 'g) act_state \<Rightarrow>
    'g goroutine list \<times> ('p, 'g) act_state" where
  "addToBatcher E now node nodeGroup batchSize drain atomic st =
     (let gid = Id (act_provider E) nodeGroup;
          st = st\<lparr>nodeQueue := gput gid (gget [] (nodeQueue st) gid @ [node]) (nodeQueue st)\<rparr>;
          st = (if atomic \<and> gget False (failuresForGroup st) gid
                then (let st = CleanUpAndRecordFailedScaleDownEvent now node gid group_failed st in st\<lparr>nodeQueue := gdel gid (nodeQueue st)\<rparr>)
                else st)
      in if atomic \<and> int (length (gget [] (nodeQueue st) gid)) < batchSize then ([], st)
         else (let (ts, st) = AddNodes E (gget [] (nodeQueue st) gid) nodeGroup drain st
               in (ts, st\<lparr>nodeQueue := gput gid [] (nodeQueue st)\<rparr>)))"

definition prepareNodeForDeletion :: "'g act_answers \<Rightarrow> bool \<Rightarrow> NodeDeleteResult" where
  "prepareNodeForDeletion a drain =
     (if drain \<and> drain_error a \<noteq> None then \<lparr>ResultType = NodeDeleteErrorFailedToEvictPods, Err = drain_error a\<rparr>
      else if delay_error a \<noteq> None then \<lparr>ResultType = NodeDeleteErrorFailedToDelete, Err = delay_error a\<rparr>
      else \<lparr>ResultType = NodeDeleteOk, Err = None\<rparr>)"

definition scheduleDeletion :: "'g act_env \<Rightarrow> 'g act_answers \<Rightarrow> node \<Rightarrow> 'g \<Rightarrow> int \<Rightarrow> bool \<Rightarrow> bool \<Rightarrow> ('p, 'g) act_state \<Rightarrow>
    'g goroutine list \<times> ('p, 'g) act_state" where
  "scheduleDeletion E a node nodeGroup batchSize drain force st =
     (let gid = Id (act_provider E) nodeGroup; atomic = (group_options E nodeGroup = Some True) in
      case options_error a of
        Some (ProviderError text) \<Rightarrow> ([], AbortNodeDeletion (ans_now a) node gid (internal_error (''GetOptions returned error '' @ text)) st)
      | _ \<Rightarrow>
          (let result = prepareNodeForDeletion a drain in
           if Err result \<noteq> None then
             (if force then
                (let st = do_call (ForceDeleteNodes_call gid (Name node)) st in
                 case force_error a of
                   Some err \<Rightarrow> ([], AbortNodeDeletion (ans_now a) node gid \<lparr>ResultType = NodeDeleteErrorFailedToDelete, Err = Some err\<rparr> st)
                 | None \<Rightarrow> addToBatcher E (ans_now a) node nodeGroup batchSize drain atomic st)
              else ([], AbortNodeDeletion (ans_now a) node gid result st))
           else addToBatcher E (ans_now a) node nodeGroup batchSize drain atomic st))"

section \<open>Goroutines\<close>

text \<open>What the loop of \<open>deleteNodesAsync\<close> finds wrong with a node.\<close>

definition node_objection :: "'g act_env \<Rightarrow> 'g act_answers \<Rightarrow> bool \<Rightarrow> node \<Rightarrow> NodeDeleteResult option" where
  "node_objection E a drain node =
     (case info_error a of
        Some err \<Rightarrow> Some (internal_error (''nodeInfos.Get for '' @ act_quote E (Name node) @ '' returned error: '' @ err))
      | None \<Rightarrow>
          (case move_error a of
             Some err \<Rightarrow> Some (internal_error (''GetPodsToMove for '' @ act_quote E (Name node) @ '' returned error: '' @ err))
           | None \<Rightarrow>
               if \<not> drain \<and> move_pods a \<noteq> 0 then Some (internal_error (''failed to delete empty node '' @ act_quote E (Name node) @ '', new pods scheduled''))
               else if \<not> drain \<and> move_completion_pods a \<noteq> 0
                 then Some (internal_error (''failed to delete empty node '' @ act_quote E (Name node) @ '', active on-completion pods present''))
               else None))"

text \<open>One turn of a thread: what is left of it, together with the threads it starts.\<close>

fun goroutine_step :: "'g act_env \<Rightarrow> 'g act_answers \<Rightarrow> 'g goroutine \<Rightarrow> ('p, 'g) act_state \<Rightarrow> ('g goroutine list \<times> ('p, 'g) act_state) option" where
  "goroutine_step E a (Delete_Async nodes nodeGroup drain force batchSize) st =
     (let gid = Id (act_provider E) nodeGroup in
      if length nodes = 0 then Some ([], st)
      else case snapshot_error a of
          Some err \<Rightarrow> Some ([Abort_Each nodes gid drain (internal_error (''createSnapshot returned error '' @ err))], st)
        | None \<Rightarrow>
            (case (if drain then pdb_error a else None) of
               Some err \<Rightarrow> Some ([Abort_Each nodes gid drain (internal_error (''podDisruptionBudgetLister.List returned error '' @ err))], st)
             | None \<Rightarrow> Some ([Each_Node nodes nodeGroup drain force (if batchSize = 0 then int (length nodes) else batchSize)], st)))"
| "goroutine_step E a (Abort_Each [] gid drain result) st = Some ([], st)"
| "goroutine_step E a (Abort_Each (node # nodes) gid drain result) st =
     Some ([Abort_Each nodes gid drain result], AbortNodeDeletion (ans_now a) node gid result st)"
| "goroutine_step E a (Each_Node [] nodeGroup drain force batchSize) st = Some ([], st)"
| "goroutine_step E a (Each_Node (node # nodes) nodeGroup drain force batchSize) st =
     (case node_objection E a drain node of
        Some result \<Rightarrow>
          Some ([Each_Node nodes nodeGroup drain force batchSize], AbortNodeDeletion (ans_now a) node (Id (act_provider E) nodeGroup) result st)
      | None \<Rightarrow> Some ([Each_Node nodes nodeGroup drain force batchSize, Schedule_Deletion node nodeGroup batchSize drain force], st))"
| "goroutine_step E a (Schedule_Deletion node nodeGroup batchSize drain force) st =
     Some (scheduleDeletion E a node nodeGroup batchSize drain force st)"
| "goroutine_step E a (Delete_Batch nodes gid drains) st =
     (case deleteNodesFromCloudProvider E a nodes st of
        None \<Rightarrow> None
      | Some (result, st) \<Rightarrow> Some ([Finish_Batch nodes gid drains result], st))"
| "goroutine_step E a (Finish_Batch [] gid drains result) st = Some ([], st)"
| "goroutine_step E a (Finish_Batch (node # nodes) gid drains result) st =
     Some ([Finish_Batch nodes gid drains result], end_batch_node E (ans_now a) node gid result st)"
| "goroutine_step E a (Remove_Later gid) st = Some (remove gid st)"

text \<open>A turn names a thread by its position, modulo the number of threads.\<close>

definition run_turn :: "'g act_env \<Rightarrow> nat \<times> 'g act_answers \<Rightarrow> ('p, 'g) act_state \<Rightarrow> ('p, 'g) act_state option" where
  "run_turn E turn st =
     (let (k, a) = turn; ts = act_threads st; i = k mod length ts in
      if ts = [] then Some st
      else case goroutine_step E a (ts ! i) st of
          None \<Rightarrow> None
        | Some (new, st) \<Rightarrow> Some (st\<lparr>act_threads := take i ts @ new @ drop (i + 1) ts\<rparr>))"

fun run_schedule :: "'g act_env \<Rightarrow> (nat \<times> 'g act_answers) list \<Rightarrow> ('p, 'g) act_state \<Rightarrow> ('p, 'g) act_state option" where
  "run_schedule E [] st = Some st"
| "run_schedule E (turn # turns) st = (case run_turn E turn st of None \<Rightarrow> None | Some st \<Rightarrow> run_schedule E turns st)"

section \<open>The actuator\<close>

datatype ScaleDownResult = ScaleDownError | ScaleDownNoNodeDeleted | ScaleDownNodeDeleteStarted | ScaleDownNotTried
  | ScaleDownInCooldown | ScaleDownInProgress | ScaleDownNoCandidates

definition views_nodes :: "'g NodeGroupView list \<Rightarrow> node list" where
  "views_nodes views = concat (map View_Nodes views)"

text \<open>
  \<open>taintNodesSync\<close>: \<open>fails\<close> are the nodes that cannot be marked. The message counts the nodes left in the channel of
  failures after the loop that read all of them.
\<close>

definition taintNodesSync :: "(node \<Rightarrow> bool) \<Rightarrow> 'g NodeGroupView list \<Rightarrow> ('p, 'g) act_state \<Rightarrow> go_error option \<times> ('p, 'g) act_state" where
  "taintNodesSync fails views st =
     (let nodesToTaint = views_nodes views;
          taintedNodes = filter (\<lambda>node. \<not> fails node) nodesToTaint;
          failedTaintedNodes = filter fails nodesToTaint;
          st = foldl (\<lambda>st node. do_call (MarkToBeDeleted_call (Name node)) st) st taintedNodes
      in if length failedTaintedNodes > 0
         then (let st = foldl (\<lambda>st node. do_call (CleanToBeDeleted_call (Name node)) st) st taintedNodes;
                   left_in_channel = drop (length failedTaintedNodes) failedTaintedNodes
               in (Some (NewAutoscalerError ''apiCallError'' (''couldn't taint '' @ Sprint_int (int (length left_in_channel)) @ '' nodes with ToBeDeleted'')), st))
         else (None, st))"

definition delete_async :: "'g act_env \<Rightarrow> bool \<Rightarrow> bool \<Rightarrow> 'g NodeGroupView list \<Rightarrow> ('p, 'g) act_state \<Rightarrow> ('p, 'g) act_state" where
  "delete_async E drain force views st =
     (let start = (\<lambda>st bucket. foldl (\<lambda>st node. st\<lparr>act_tracker :=
              (if drain then StartDeletionWithDrain else StartDeletion) (Id (act_provider E) (Group bucket)) (Name node) (act_tracker st)\<rparr>)
              st (View_Nodes bucket));
          st = foldl start st views
      in st\<lparr>act_threads := act_threads st @ map (\<lambda>bucket. Delete_Async (View_Nodes bucket) (Group bucket) drain force (BatchSize bucket)) views\<rparr>)"

text \<open>\<open>meanwhile\<close> are the turns the goroutines of the empty nodes get before those of the drained nodes are started.\<close>

definition startDeletion :: "'g act_env \<Rightarrow> 'g budget_env \<Rightarrow> (node \<Rightarrow> bool) \<Rightarrow> (node \<Rightarrow> bool) \<Rightarrow> (nat \<times> 'g act_answers) list \<Rightarrow>
    node list \<Rightarrow> node list \<Rightarrow> bool \<Rightarrow> ('p, 'g) act_state \<Rightarrow> ((ScaleDownResult \<times> node list \<times> go_error option) \<times> ('p, 'g) act_state) option" where
  "startDeletion E B fails reported meanwhile emptyNodes drainNodes force st =
     (let st = ResetAndReportMetrics st;
          (emptyToDelete, drainToDelete) = CropNodes B (act_tracker st) emptyNodes drainNodes in
      if length emptyToDelete = 0 \<and> length drainToDelete = 0 then Some ((ScaleDownNoNodeDeleted, [], None), st)
      else case (if length emptyToDelete > 0 then taintNodesSync fails emptyToDelete st else (None, st)) of
          (Some err, st) \<Rightarrow> Some ((ScaleDownError, [], Some err), st)
        | (None, st) \<Rightarrow>
            (let scaledDownNodes = filter reported (views_nodes emptyToDelete) in
             case run_schedule E meanwhile (delete_async E False force emptyToDelete st) of
               None \<Rightarrow> None
             | Some st \<Rightarrow>
                 (case (if length drainToDelete > 0 then taintNodesSync fails drainToDelete st else (None, st)) of
                    (Some err, st) \<Rightarrow> Some ((ScaleDownError, scaledDownNodes, Some err), st)
                  | (None, st) \<Rightarrow>
                      Some ((ScaleDownNodeDeleteStarted, scaledDownNodes @ filter reported (views_nodes drainToDelete), None),
                            delete_async E True force drainToDelete st))))"

definition NewActuator :: "duration \<Rightarrow> ('p, 'g) act_state" where
  "NewActuator podEvictionsTTL = \<lparr>act_tracker = NewNodeDeletionTracker podEvictionsTTL, nodeQueue = [], failuresForGroup = [],
     bucketsPerNodeGroup = [], bucketDrains = [], act_calls = [], act_threads = []\<rparr>"

end
