(* ===== verification/Actuation_Props.thy ===== *)
theory Actuation_Props
  imports Actuation
begin

text \<open>
  What the actuator promises, for every interleaving of its goroutines: no deletion is lost or ended twice, the
  tracker counts exactly the deletions in progress, and (for complete groups) all deletions end, those of a group that
  is deleted as a whole all together or not at all.
\<close>

section \<open>Deletions in progress\<close>

text \<open>The nodes a goroutine is responsible for, and those of a map from groups to nodes, with their groups.\<close>

fun in_goroutine :: "'g act_env \<Rightarrow> 'g goroutine \<Rightarrow> (string \<times> node) list" where
  "in_goroutine E (Delete_Async nodes g _ _ _) = map (Pair (Id (act_provider E) g)) nodes"
| "in_goroutine E (Abort_Each nodes gid _ _) = map (Pair gid) nodes"
| "in_goroutine E (Each_Node nodes g _ _ _) = map (Pair (Id (act_provider E) g)) nodes"
| "in_goroutine E (Schedule_Deletion node g _ _ _) = [(Id (act_provider E) g, node)]"
| "in_goroutine E (Delete_Batch nodes gid _) = map (Pair gid) nodes"
| "in_goroutine E (Finish_Batch nodes gid _ _) = map (Pair gid) nodes"
| "in_goroutine E (Remove_Later gid) = []"

definition held :: "(string, node list) gmap \<Rightarrow> (string \<times> node) list" where
  "held m = concat (map (\<lambda>(gid, nodes). map (Pair gid) nodes) m)"

definition in_progress :: "'g act_env \<Rightarrow> 'g goroutine list \<Rightarrow> ('p, 'g) act_state \<Rightarrow> (string \<times> node) multiset" where
  "in_progress E L st = mset (concat (map (in_goroutine E) L)) + mset (held (nodeQueue st)) + mset (held (bucketsPerNodeGroup st))"

lemma held_simps [simp]: "held [] = []" "held ((gid, nodes) # m) = map (Pair gid) nodes @ held m"
  by (simp_all add: held_def)

lemma held_gput:
  "gm_wf m \<Longrightarrow> mset (held (gput k nodes m)) + mset (map (Pair k) (gget [] m k)) = mset (held m) + mset (map (Pair k) nodes)"
proof (induction m)
  case (Cons e m)
  then have "gm_wf m" by (cases e) (simp add: gm_wf_def)
  with Cons show ?case by (cases e) (auto simp: gget_def gm_wf_def dest: map_of_SomeD split: option.splits)
qed simp

lemma held_gdel: "gm_wf m \<Longrightarrow> mset (held (gdel k m)) + mset (map (Pair k) (gget [] m k)) = mset (held m)"
proof (induction m)
  case (Cons e m)
  then have "gm_wf m" by (cases e) (simp add: gm_wf_def)
  moreover have "map_of m (fst e) = None" using Cons.prems by (simp add: gm_wf_def map_of_eq_None_iff)
  ultimately show ?case using Cons.IH by (cases e) (auto simp: gget_def split: option.splits)
qed simp

lemma in_progress_goroutines:
  "in_progress E (L @ L') st = mset (concat (map (in_goroutine E) L)) + in_progress E L' st"
  "in_progress E (t # L) st = mset (in_goroutine E t) + in_progress E L st"
  by (simp_all add: in_progress_def)

lemma in_progress_mset: "mset L = mset L' \<Longrightarrow> in_progress E L st = in_progress E L' st"
  unfolding in_progress_def by (metis mset_concat mset_map sum_mset_sum_list)

section \<open>The tracker\<close>

definition of_group :: "string \<Rightarrow> (string \<times> node) multiset \<Rightarrow> nat" where
  "of_group gid M = size (filter_mset (\<lambda>p. fst p = gid) M)"

lemma of_group_simps [simp]:
  "of_group gid {#} = 0" "of_group gid (add_mset p M) = (if fst p = gid then Suc (of_group gid M) else of_group gid M)"
  "of_group gid (M + N) = of_group gid M + of_group gid N"
  by (simp_all add: of_group_def)

definition counts :: "('p, NodeDeleteResult) NodeDeletionTracker \<Rightarrow> (string \<times> node) multiset \<Rightarrow> bool" where
  "counts tr M \<longleftrightarrow> (\<forall>gid. gget 0 (deletionsPerNodeGroup tr) gid = int (of_group gid M)
     \<and> (ghas (deletionsPerNodeGroup tr) gid \<longleftrightarrow> 0 < of_group gid M))"

abbreviation ended :: "('p, NodeDeleteResult) NodeDeletionTracker \<Rightarrow> string list" where
  "ended tr \<equiv> map fst (ToSlice (deletionResults tr))"

lemma tracks_EndDeletion:
  assumes "counts tr (add_mset (gid, node) M)"
  shows "counts (EndDeletion now gid (Name node) result tr) M"
    "ended (EndDeletion now gid (Name node) result tr) = ended tr @ [Name node]"
proof -
  have "ghas (deletionsPerNodeGroup tr) gid" "gget 0 (deletionsPerNodeGroup tr) gid = int (of_group gid M) + 1"
    using assms by (auto simp: counts_def)
  moreover have "gget 0 (deletionsPerNodeGroup tr) i = int (of_group i M) \<and> (ghas (deletionsPerNodeGroup tr) i \<longleftrightarrow> 0 < of_group i M)"
    if "i \<noteq> gid" for i using assms that by (auto simp: counts_def dest: spec [of _ i])
  ultimately show "counts (EndDeletion now gid (Name node) result tr) M"
    unfolding counts_def EndDeletion_def by (auto simp: Let_def)
  show "ended (EndDeletion now gid (Name node) result tr) = ended tr @ [Name node]"
    by (auto simp: EndDeletion_def Let_def RegisterElement_def ToSlice_def)
qed

lemma tracks_StartDeletion:
  assumes "counts tr M"
  shows "counts (StartDeletion gid name tr) (add_mset (gid, node) M)" "counts (StartDeletionWithDrain gid name tr) (add_mset (gid, node) M)"
    "ended (StartDeletion gid name tr) = ended tr" "ended (StartDeletionWithDrain gid name tr) = ended tr"
  using assms by (auto simp: counts_def StartDeletion_def StartDeletionWithDrain_def)

section \<open>The invariant\<close>

text \<open>\<open>belongs\<close> is the group of a node, as the provider tells it.\<close>

fun goroutine_ok :: "'g act_env \<Rightarrow> 'g goroutine \<Rightarrow> bool" where
  "goroutine_ok E (Delete_Async _ _ _ _ batchSize) \<longleftrightarrow> 0 \<le> batchSize"
| "goroutine_ok E (Each_Node _ _ _ _ batchSize) \<longleftrightarrow> 1 \<le> batchSize"
| "goroutine_ok E (Schedule_Deletion _ _ batchSize _ _) \<longleftrightarrow> 1 \<le> batchSize"
| "goroutine_ok E (Delete_Batch nodes _ _) \<longleftrightarrow> nodes \<noteq> []"
| "goroutine_ok E (Finish_Batch _ gid _ result) \<longleftrightarrow> (\<forall>g. result = Inr g \<longrightarrow> Id (act_provider E) g = gid)"
| "goroutine_ok E _ \<longleftrightarrow> True"

definition queues_ok :: "'g goroutine list \<Rightarrow> ('p, 'g) act_state \<Rightarrow> bool" where
  "queues_ok L st \<longleftrightarrow> gm_wf (nodeQueue st) \<and> gm_wf (bucketsPerNodeGroup st)
     \<and> (\<forall>gid. gget False (failuresForGroup st) gid \<longrightarrow> gget [] (nodeQueue st) gid = [])
     \<and> (\<forall>gid. map_of (bucketsPerNodeGroup st) gid \<noteq> Some [])
     \<and> (\<forall>gid. ghas (bucketsPerNodeGroup st) gid \<longrightarrow> Remove_Later gid \<in> set L)"

definition members_ok :: "(node \<Rightarrow> string) \<Rightarrow> (string \<times> node) multiset \<Rightarrow> bool" where
  "members_ok belongs M \<longleftrightarrow> (\<forall>name. count (image_mset (\<lambda>p. Name (snd p)) M) name \<le> 1) \<and> (\<forall>p \<in># M. belongs (snd p) = fst p)"

definition act_inv :: "'g act_env \<Rightarrow> (node \<Rightarrow> string) \<Rightarrow> 'g goroutine list \<Rightarrow> ('p, 'g) act_state \<Rightarrow> bool" where
  "act_inv E belongs L st \<longleftrightarrow> queues_ok L st \<and> members_ok belongs (in_progress E L st) \<and> counts (act_tracker st) (in_progress E L st)
     \<and> (\<forall>t \<in> set L. goroutine_ok E t)"

definition names :: "(string \<times> node) multiset \<Rightarrow> string multiset" where
  "names M = image_mset (\<lambda>p. Name (snd p)) M"

lemma names_simps [simp]: "names {#} = {#}" "names (add_mset p M) = add_mset (Name (snd p)) (names M)" "names (M + N) = names M + names N"
  by (simp_all add: names_def)

lemma members_ok_mono: "members_ok belongs (M + N) \<Longrightarrow> members_ok belongs N"
  unfolding members_ok_def by (auto intro: add_leD2)

section \<open>Operations\<close>

lemma gput_gput [simp]: "gput k a (gput k b m) = gput k a m"
  by (induction m) auto

lemma gdel_gput [simp]: "gdel k (gput k a m) = gdel k m"
  by (induction m) auto

lemma do_call_fields [simp]:
  "nodeQueue (do_call c st) = nodeQueue st" "failuresForGroup (do_call c st) = failuresForGroup st"
  "bucketsPerNodeGroup (do_call c st) = bucketsPerNodeGroup st" "act_tracker (do_call c st) = act_tracker st"
  "act_threads (do_call c st) = act_threads st" "bucketDrains (do_call c st) = bucketDrains st" "act_calls (do_call c st) = act_calls st @ [c]"
  by (simp_all add: do_call_def)

lemma cleanup_fields [simp]:
  "nodeQueue (CleanUpAndRecordFailedScaleDownEvent now node gid r st) = nodeQueue st"
  "failuresForGroup (CleanUpAndRecordFailedScaleDownEvent now node gid r st) = failuresForGroup st"
  "bucketsPerNodeGroup (CleanUpAndRecordFailedScaleDownEvent now node gid r st) = bucketsPerNodeGroup st"
  "act_tracker (CleanUpAndRecordFailedScaleDownEvent now node gid r st) = EndDeletion now gid (Name node) r (act_tracker st)"
  "act_threads (CleanUpAndRecordFailedScaleDownEvent now node gid r st) = act_threads st"
  by (simp_all add: CleanUpAndRecordFailedScaleDownEvent_def)

lemma cleanup_all:
  fixes now gid node
  defines "f \<equiv> \<lambda>st otherNode. if otherNode = node then st else CleanUpAndRecordFailedScaleDownEvent now otherNode gid group_failed st"
  assumes "node \<notin> set q" "counts (act_tracker st) (mset (map (Pair gid) q) + M)"
  shows "counts (act_tracker (foldl f st q)) M \<and> ended (act_tracker (foldl f st q)) = ended (act_tracker st) @ map Name q
    \<and> nodeQueue (foldl f st q) = nodeQueue st \<and> failuresForGroup (foldl f st q) = failuresForGroup st
    \<and> bucketsPerNodeGroup (foldl f st q) = bucketsPerNodeGroup st \<and> act_threads (foldl f st q) = act_threads st"
  using assms(2,3)
proof (induction q arbitrary: st)
  case (Cons n q)
  have "counts (act_tracker st) (add_mset (gid, n) (mset (map (Pair gid) q) + M))" using Cons.prems(2) by simp
  note step = tracks_EndDeletion [OF this, of now group_failed]
  have fn: "f st n = CleanUpAndRecordFailedScaleDownEvent now n gid group_failed st" using Cons.prems(1) by (auto simp: f_def)
  show ?case using Cons.IH [of "f st n"] Cons.prems(1) step unfolding foldl.simps fn by simp
qed simp

lemma abort_effect:
  fixes now r
  assumes "counts (act_tracker st) (add_mset (gid, node) (mset (map (Pair gid) (gget [] (nodeQueue st) gid)) + M))"
    and "node \<notin> set (gget [] (nodeQueue st) gid)"
  defines "st' \<equiv> AbortNodeDeletion now node gid r st"
  shows "counts (act_tracker st') M" "ended (act_tracker st') = ended (act_tracker st) @ Name node # map Name (gget [] (nodeQueue st) gid)"
    "nodeQueue st' = gdel gid (nodeQueue st)" "failuresForGroup st' = gput gid True (failuresForGroup st)"
    "bucketsPerNodeGroup st' = bucketsPerNodeGroup st" "act_threads st' = act_threads st"
proof -
  define st1 where "st1 = CleanUpAndRecordFailedScaleDownEvent now node gid r (st\<lparr>failuresForGroup := gput gid True (failuresForGroup st)\<rparr>)"
  have st1: "counts (act_tracker st1) (mset (map (Pair gid) (gget [] (nodeQueue st) gid)) + M)"
    "ended (act_tracker st1) = ended (act_tracker st) @ [Name node]"
    using tracks_EndDeletion [OF assms(1), of now r] by (simp_all add: st1_def)
  note all = cleanup_all [OF assms(2) st1(1), of now]
  have "st' = (let st2 = foldl (\<lambda>st otherNode. if otherNode = node then st else CleanUpAndRecordFailedScaleDownEvent now otherNode gid group_failed st)
      st1 (gget [] (nodeQueue st) gid) in st2\<lparr>nodeQueue := gdel gid (nodeQueue st2)\<rparr>)"
    by (simp add: st'_def AbortNodeDeletion_def st1_def Let_def)
  then show "counts (act_tracker st') M" "ended (act_tracker st') = ended (act_tracker st) @ Name node # map Name (gget [] (nodeQueue st) gid)"
    "nodeQueue st' = gdel gid (nodeQueue st)" "failuresForGroup st' = gput gid True (failuresForGroup st)"
    "bucketsPerNodeGroup st' = bucketsPerNodeGroup st" "act_threads st' = act_threads st"
    using all st1(2) by (simp_all add: Let_def st1_def)
qed

text \<open>A turn hands nodes on or ends their deletions.\<close>

definition moves :: "'g act_env \<Rightarrow> 'g goroutine list \<Rightarrow> ('p, 'g) act_state \<Rightarrow> 'g goroutine list \<Rightarrow> ('p, 'g) act_state \<Rightarrow> bool" where
  "moves E L st L' st' \<longleftrightarrow> (\<exists>D. in_progress E L st = D + in_progress E L' st'
     \<and> mset (ended (act_tracker st')) = mset (ended (act_tracker st)) + names D)
     \<and> counts (act_tracker st') (in_progress E L' st') \<and> queues_ok L' st'"

lemma movesI:
  "in_progress E L st = D + in_progress E L' st' \<Longrightarrow> mset (ended (act_tracker st')) = mset (ended (act_tracker st)) + names D \<Longrightarrow>
   counts (act_tracker st') (in_progress E L' st') \<Longrightarrow> queues_ok L' st' \<Longrightarrow> moves E L st L' st'"
  unfolding moves_def by blast

lemma names_map_Pair [simp]: "names (image_mset (Pair gid) (mset ns)) = image_mset Name (mset ns)"
  by (simp add: names_def image_mset.compositionality comp_def)

lemma inv_not_queued:
  assumes "members_ok belongs (add_mset (gid, node) (in_progress E L st))" "gm_wf (nodeQueue st)"
  shows "node \<notin> set (gget [] (nodeQueue st) gid)"
proof
  assume "node \<in> set (gget [] (nodeQueue st) gid)"
  then have "(gid, node) \<in># mset (held (nodeQueue st))" using held_gdel [OF assms(2), of gid, symmetric] by simp
  then have "(gid, node) \<in># in_progress E L st" by (simp add: in_progress_def)
  then obtain A where "in_progress E L st = add_mset (gid, node) A" by (meson multi_member_split)
  then have "count (image_mset (\<lambda>p. Name (snd p)) (add_mset (gid, node) (in_progress E L st))) (Name node) \<ge> 2" by simp
  moreover have "count (image_mset (\<lambda>p. Name (snd p)) (add_mset (gid, node) (in_progress E L st))) (Name node) \<le> 1"
    using assms(1) unfolding members_ok_def by blast
  ultimately show False by linarith
qed

lemma abort_moves:
  fixes now r
  assumes "queues_ok L st" "members_ok belongs (add_mset (gid, node) (in_progress E L st))"
    "counts (act_tracker st) (add_mset (gid, node) (in_progress E L st))"
  defines "st' \<equiv> AbortNodeDeletion now node gid r st"
  shows "in_progress E L st = mset (map (Pair gid) (gget [] (nodeQueue st) gid)) + in_progress E L st'"
    "counts (act_tracker st') (in_progress E L st')" "queues_ok L st'"
    "mset (ended (act_tracker st')) = mset (ended (act_tracker st)) + names (add_mset (gid, node) (mset (map (Pair gid) (gget [] (nodeQueue st) gid))))"
proof -
  let ?q = "gget [] (nodeQueue st) gid"
  have wf: "gm_wf (nodeQueue st)" using assms(1) by (simp add: queues_ok_def)
  note notin = inv_not_queued [OF assms(2) wf]
  define M where "M = mset (concat (map (in_goroutine E) L)) + mset (held (gdel gid (nodeQueue st))) + mset (held (bucketsPerNodeGroup st))"
  have split: "in_progress E L st = mset (map (Pair gid) ?q) + M"
    using held_gdel [OF wf, of gid] by (simp add: in_progress_def M_def ac_simps)
  note eff = abort_effect [OF assms(3) [unfolded split] notin, of now r, folded st'_def]
  have M: "in_progress E L st' = M" using eff by (simp add: in_progress_def M_def)
  show "in_progress E L st = mset (map (Pair gid) ?q) + in_progress E L st'" "counts (act_tracker st') (in_progress E L st')"
    using split M eff(1) by simp_all
  show "mset (ended (act_tracker st')) = mset (ended (act_tracker st)) + names (add_mset (gid, node) (mset (map (Pair gid) ?q)))"
    using eff(2) by simp
  show "queues_ok L st'" using assms(1) eff by (auto simp: queues_ok_def)
qed

lemma queues_ok_more: "queues_ok L st \<Longrightarrow> set L \<subseteq> set L' \<Longrightarrow> queues_ok L' st"
  unfolding queues_ok_def by auto

lemma in_progress_call [simp]: "in_progress E L (do_call c st) = in_progress E L st"
  by (simp add: in_progress_def)

lemma queues_ok_call [simp]: "queues_ok L (do_call c st) = queues_ok L st"
  by (simp add: queues_ok_def)

lemma AddNodes_moves:
  assumes "AddNodes E nodes g drain st = (ts, st')" "nodes \<noteq> []" "queues_ok L st"
  shows "in_progress E (ts @ L) st' = mset (map (Pair (Id (act_provider E) g)) nodes) + in_progress E L st"
    "act_tracker st' = act_tracker st" "queues_ok (ts @ L) st'" "\<forall>t \<in> set ts. goroutine_ok E t" "nodeQueue st' = nodeQueue st"
    "failuresForGroup st' = failuresForGroup st"
proof -
  let ?gid = "Id (act_provider E) g"
  have wf: "gm_wf (bucketsPerNodeGroup st)" using assms(3) by (simp add: queues_ok_def)
  show "act_tracker st' = act_tracker st" "\<forall>t \<in> set ts. goroutine_ok E t" "nodeQueue st' = nodeQueue st" "failuresForGroup st' = failuresForGroup st"
    using assms(1,2) by (auto simp: AddNodes_def addNodesToBucket_def Let_def split: if_splits)
  show "in_progress E (ts @ L) st' = mset (map (Pair ?gid) nodes) + in_progress E L st"
    using assms(1) held_gput [OF wf, of ?gid nodes] held_gput [OF wf, of ?gid "gget [] (bucketsPerNodeGroup st) ?gid @ nodes"]
    by (auto simp: AddNodes_def addNodesToBucket_def Let_def in_progress_def ghas_def gget_def ac_simps split: if_splits)
  show "queues_ok (ts @ L) st'"
    using assms by (auto simp: AddNodes_def addNodesToBucket_def Let_def queues_ok_def ghas_def gget_def split: if_splits)
qed

lemma AddNodes_queue:
  "AddNodes E nodes g drain (st\<lparr>nodeQueue := x\<rparr>) = (fst (AddNodes E nodes g drain st), (snd (AddNodes E nodes g drain st))\<lparr>nodeQueue := x\<rparr>)"
  by (auto simp: AddNodes_def addNodesToBucket_def Let_def)

lemma addToBatcher_moves:
  assumes "addToBatcher E now node g batchSize drain atomic st = (ts, st')" "1 \<le> batchSize" "queues_ok L st"
    and "counts (act_tracker st) (add_mset (Id (act_provider E) g, node) (in_progress E L st))"
  shows "\<exists>D. add_mset (Id (act_provider E) g, node) (in_progress E L st) = D + in_progress E (ts @ L) st'
      \<and> mset (ended (act_tracker st')) = mset (ended (act_tracker st)) + names D"
    "counts (act_tracker st') (in_progress E (ts @ L) st')" "queues_ok (ts @ L) st'" "\<forall>t \<in> set ts. goroutine_ok E t"
proof -
  let ?gid = "Id (act_provider E) g"
  let ?q = "gget [] (nodeQueue st) ?gid"
  define st1 where "st1 = st\<lparr>nodeQueue := gput ?gid (?q @ [node]) (nodeQueue st)\<rparr>"
  have wf: "gm_wf (nodeQueue st)" using assms(3) by (simp add: queues_ok_def)
  have "(\<exists>D. add_mset (?gid, node) (in_progress E L st) = D + in_progress E (ts @ L) st'
      \<and> mset (ended (act_tracker st')) = mset (ended (act_tracker st)) + names D) \<and>
    counts (act_tracker st') (in_progress E (ts @ L) st') \<and> queues_ok (ts @ L) st' \<and> (\<forall>t \<in> set ts. goroutine_ok E t)"
  proof (cases "atomic \<and> gget False (failuresForGroup st) ?gid")
    case True
    then have q: "?q = []" using assms(3) by (simp add: queues_ok_def)
    define st2 where "st2 = CleanUpAndRecordFailedScaleDownEvent now node ?gid group_failed st1"
    have res: "ts = []" "st' = st2\<lparr>nodeQueue := gdel ?gid (nodeQueue st2)\<rparr>"
      using assms(1,2) True unfolding addToBatcher_def st1_def [symmetric] st2_def [symmetric] Let_def
      by (simp_all add: st1_def st2_def)
    have queue: "mset (held (gdel ?gid (nodeQueue st))) = mset (held (nodeQueue st))" using held_gdel [OF wf, of ?gid] q by simp
    note fin = tracks_EndDeletion [OF assms(4), of now group_failed]
    have prog: "in_progress E L st' = in_progress E L st" using queue by (simp add: in_progress_def res(2) st2_def st1_def)
    show ?thesis
      using fin assms(3) prog res(1)
      by (auto simp: res(2) st2_def st1_def queues_ok_def intro!: exI [of _ "{#(?gid, node)#}"])
  next
    case False
    show ?thesis
    proof (cases "atomic \<and> int (length (?q @ [node])) < batchSize")
      case True
      then have res: "ts = []" "st' = st1" using assms(1) False unfolding addToBatcher_def st1_def [symmetric] Let_def by (auto simp: st1_def)
      have "in_progress E L st' = add_mset (?gid, node) (in_progress E L st)"
        using held_gput [OF wf, of ?gid "?q @ [node]"] by (simp add: in_progress_def res(2) st1_def)
      then show ?thesis using assms(3,4) res True False by (auto simp: st1_def queues_ok_def)
    next
      case flush: False
      define st0 where "st0 = st\<lparr>nodeQueue := gput ?gid [] (nodeQueue st)\<rparr>"
      have add: "AddNodes E (?q @ [node]) g drain st0 = (ts, st')"
        using assms(1) False flush
        by (auto simp: addToBatcher_def st0_def Let_def AddNodes_queue split: prod.splits)
      have ok: "queues_ok L st0" using assms(3) by (auto simp: st0_def queues_ok_def)
      note add_moves = AddNodes_moves [OF add _ ok]
      have "in_progress E (ts @ L) st' = add_mset (?gid, node) (in_progress E L st)"
        using add_moves(1) held_gput [OF wf, of ?gid "[]"] by (simp add: in_progress_def st0_def ac_simps)
      then show ?thesis using add_moves(2-4) assms(4) by (simp add: st0_def)
    qed
  qed
  then show "\<exists>D. add_mset (?gid, node) (in_progress E L st) = D + in_progress E (ts @ L) st'
      \<and> mset (ended (act_tracker st')) = mset (ended (act_tracker st)) + names D"
    "counts (act_tracker st') (in_progress E (ts @ L) st')" "queues_ok (ts @ L) st'" "\<forall>t \<in> set ts. goroutine_ok E t" by blast+
qed

section \<open>One turn\<close>

definition consistent :: "'g act_env \<Rightarrow> (node \<Rightarrow> string) \<Rightarrow> 'g act_answers \<Rightarrow> bool" where
  "consistent E belongs a \<longleftrightarrow> (\<forall>node g. group_answer a node = (Some g, None) \<longrightarrow> Id (act_provider E) g = belongs node)"

lemma act_inv_moves:
  assumes "act_inv E belongs (t # L) st" "moves E (t # L) st (ts @ L) st'" "\<forall>t \<in> set ts. goroutine_ok E t"
  shows "act_inv E belongs (ts @ L) st' \<and> (\<exists>D. in_progress E (t # L) st = D + in_progress E (ts @ L) st' \<and>
    mset (ended (act_tracker st')) = mset (ended (act_tracker st)) + names D)"
proof -
  obtain D where D: "in_progress E (t # L) st = D + in_progress E (ts @ L) st'"
    "mset (ended (act_tracker st')) = mset (ended (act_tracker st)) + names D" using assms(2) unfolding moves_def by blast
  have "members_ok belongs (in_progress E (ts @ L) st')" using assms(1) D(1) members_ok_mono unfolding act_inv_def by metis
  then show ?thesis using assms D by (auto simp: act_inv_def moves_def)
qed

lemma queues_ok_drop: "queues_ok (t # L) st \<Longrightarrow> (\<And>gid. t \<noteq> Remove_Later gid) \<Longrightarrow> queues_ok (ts @ L) st"
  unfolding queues_ok_def by auto

lemma abort_step:
  assumes "act_inv E belongs (t # L) st" "in_progress E (t # L) st = add_mset (gid, node) (in_progress E (ts @ L) st)" "queues_ok (ts @ L) st"
  shows "moves E (t # L) st (ts @ L) (AbortNodeDeletion now node gid r st)"
proof -
  have inv: "members_ok belongs (add_mset (gid, node) (in_progress E (ts @ L) st))" "counts (act_tracker st) (add_mset (gid, node) (in_progress E (ts @ L) st))"
    using assms(1,2) unfolding act_inv_def by simp_all
  note ab = abort_moves [OF assms(3) inv, of now r]
  show ?thesis
    by (rule movesI [where D = "add_mset (gid, node) (mset (map (Pair gid) (gget [] (nodeQueue st) gid)))"])
      (use ab assms(2) in simp_all)
qed

lemma scheduleDeletion_cases:
  assumes "scheduleDeletion E a node g batchSize drain force st = (ts, st')"
  obtains c now st1 where "st1 = st \<or> st1 = do_call c st"
    "(\<exists>r. ts = [] \<and> st' = AbortNodeDeletion now node (Id (act_provider E) g) r st1) \<or>
     addToBatcher E now node g batchSize drain (group_options E g = Some True) st1 = (ts, st')"
  using assms by (fastforce simp: scheduleDeletion_def Let_def split: option.splits cp_error.splits if_splits)

lemma schedule_step:
  assumes inv: "act_inv E belongs (Schedule_Deletion node g batchSize drain force # L) st"
    and step: "scheduleDeletion E a node g batchSize drain force st = (ts, st')"
  shows "moves E (Schedule_Deletion node g batchSize drain force # L) st (ts @ L) st' \<and> (\<forall>t \<in> set ts. goroutine_ok E t)"
proof -
  let ?gid = "Id (act_provider E) g" and ?t = "Schedule_Deletion node g batchSize drain force"
  have prog: "in_progress E (?t # L) st' = add_mset (?gid, node) (in_progress E L st')" for st' :: "('b, 'a) act_state"
    by (simp add: in_progress_goroutines)
  have ok: "queues_ok L st" "1 \<le> batchSize" "counts (act_tracker st) (add_mset (?gid, node) (in_progress E L st))"
    using inv queues_ok_drop [of ?t L st "[]"] prog [of st] by (simp_all add: act_inv_def)
  have abort: "moves E (?t # L) st ([] @ L) (AbortNodeDeletion now node ?gid r st1)" if "st1 = st \<or> st1 = do_call c st" for now r c st1
  proof -
    have "act_inv E belongs (?t # L) st1" using inv that by (auto simp: act_inv_def)
    then have "moves E (?t # L) st1 ([] @ L) (AbortNodeDeletion now node ?gid r st1)" using that ok(1) by (intro abort_step) (auto simp: prog)
    then show ?thesis using that by (auto simp: moves_def)
  qed
  have add: "moves E (?t # L) st (ts @ L) st' \<and> (\<forall>t \<in> set ts. goroutine_ok E t)"
    if "addToBatcher E now node g batchSize drain atomic st1 = (ts, st')" "st1 = st \<or> st1 = do_call c st" for now atomic c st1
    using addToBatcher_moves [OF that(1) ok(2), of L] that(2) ok prog by (auto simp: moves_def)
  show ?thesis
  proof (rule scheduleDeletion_cases [OF step])
    fix c now st1
    assume st1: "st1 = st \<or> st1 = do_call c st"
      "(\<exists>r. ts = [] \<and> st' = AbortNodeDeletion now node ?gid r st1) \<or> addToBatcher E now node g batchSize drain (group_options E g = Some True) st1 = (ts, st')"
    from st1(2) show ?thesis
    proof
      assume "\<exists>r. ts = [] \<and> st' = AbortNodeDeletion now node ?gid r st1"
      then show ?thesis using abort [OF st1(1), of now] by auto
    next
      assume "addToBatcher E now node g batchSize drain (group_options E g = Some True) st1 = (ts, st')"
      then show ?thesis using add [OF _ st1(1)] by blast
    qed
  qed
qed

text \<open>Threads that only change into others with the same nodes.\<close>

lemma hand_over:
  assumes "act_inv E belongs (t # L) st" "\<And>gid. t \<noteq> Remove_Later gid" "mset (concat (map (in_goroutine E) ts)) = mset (in_goroutine E t)"
    "queues_ok L st \<Longrightarrow> queues_ok L st'" "nodeQueue st' = nodeQueue st" "bucketsPerNodeGroup st' = bucketsPerNodeGroup st"
    "failuresForGroup st' = failuresForGroup st" "act_tracker st' = act_tracker st"
  shows "moves E (t # L) st (ts @ L) st'"
proof -
  have "in_progress E (ts @ L) st' = in_progress E (t # L) st" using assms(3,5,6) by (simp add: in_progress_def)
  moreover have "queues_ok (ts @ L) st'"
    using assms(1,2,5-7) queues_ok_drop [of t L st ts] by (simp add: act_inv_def queues_ok_def)
  ultimately show ?thesis using assms(1,8) by (intro movesI [where D = "{#}"]) (auto simp: act_inv_def)
qed

lemma finish_step:
  assumes inv: "act_inv E belongs (Finish_Batch (node # nodes) gid drains result # L) st"
  shows "moves E (Finish_Batch (node # nodes) gid drains result # L) st ([Finish_Batch nodes gid drains result] @ L)
    (end_batch_node E now node gid result st)"
proof -
  let ?st' = "end_batch_node E now node gid result st" and ?L' = "[Finish_Batch nodes gid drains result] @ L"
  obtain r where st': "act_tracker ?st' = EndDeletion now gid (Name node) r (act_tracker st)" "nodeQueue ?st' = nodeQueue st"
    "bucketsPerNodeGroup ?st' = bucketsPerNodeGroup st" "failuresForGroup ?st' = failuresForGroup st"
    using inv by (cases result) (auto simp: end_batch_node_def RegisterAndRecordSuccessfulScaleDownEvent_def act_inv_def Let_def)
  have prog: "in_progress E (Finish_Batch (node # nodes) gid drains result # L) st = add_mset (gid, node) (in_progress E ?L' ?st')"
    using st' by (simp add: in_progress_def)
  have "counts (act_tracker st) (add_mset (gid, node) (in_progress E ?L' ?st'))" using inv prog by (simp add: act_inv_def)
  from tracks_EndDeletion [OF this, of now r] show ?thesis
    using prog st' inv by (intro movesI [where D = "{#(gid, node)#}"]) (auto simp: act_inv_def queues_ok_def)
qed

lemma remove_step:
  assumes inv: "act_inv E belongs (Remove_Later gid # L) st" and step: "remove gid st = (ts, st')"
  shows "moves E (Remove_Later gid # L) st (ts @ L) st' \<and> (\<forall>t \<in> set ts. goroutine_ok E t)"
proof -
  have wf: "gm_wf (bucketsPerNodeGroup st)" and q: "queues_ok (Remove_Later gid # L) st" using inv by (simp_all add: act_inv_def queues_ok_def)
  have tr: "act_tracker st' = act_tracker st" "nodeQueue st' = nodeQueue st" using step by (auto simp: remove_def Let_def split: option.splits)
  have prog: "in_progress E (Remove_Later gid # L) st = in_progress E (ts @ L) st'"
    using step held_gdel [OF wf, of gid] tr
    by (auto simp: remove_def Let_def in_progress_def gget_def ac_simps split: option.splits)
  have none: "map_of (bucketsPerNodeGroup st) gid = None \<Longrightarrow> \<not> ghas (bucketsPerNodeGroup st) gid" by (simp add: ghas_def)
  have "queues_ok (ts @ L) st'" using step q none by (auto simp: remove_def Let_def queues_ok_def split: option.splits if_splits)
  moreover have "\<forall>t \<in> set ts. goroutine_ok E t" using step q by (auto simp: remove_def Let_def queues_ok_def split: option.splits)
  ultimately show ?thesis using inv prog tr by (auto intro!: movesI [where D = "{#}"] simp: act_inv_def)
qed

lemma delete_from_provider:
  assumes "consistent E belongs a" "belongs node = gid"
  shows "\<exists>result st'. deleteNodesFromCloudProvider E a (node # nodes) st = Some (result, st') \<and>
    (\<forall>g. result = Inr g \<longrightarrow> Id (act_provider E) g = gid) \<and> nodeQueue st' = nodeQueue st \<and>
    bucketsPerNodeGroup st' = bucketsPerNodeGroup st \<and> failuresForGroup st' = failuresForGroup st \<and> act_tracker st' = act_tracker st"
proof (cases "group_answer a node")
  case (Pair g err)
  then show ?thesis using assms
    by (cases err; cases g; cases "delete_error a") (auto simp: deleteNodesFromCloudProvider_def consistent_def Let_def)
qed

lemma step_inv:
  assumes inv: "act_inv E belongs (t # L) st" and cons: "consistent E belongs a"
  shows "\<exists>ts st'. goroutine_step E a t st = Some (ts, st') \<and> moves E (t # L) st (ts @ L) st' \<and> (\<forall>t \<in> set ts. goroutine_ok E t)"
proof (cases t)
  case (Delete_Async nodes g drain force batchSize)
  have ok: "0 \<le> batchSize" using inv Delete_Async by (simp add: act_inv_def)
  obtain ts where ts: "goroutine_step E a t st = Some (ts, st)" "mset (concat (map (in_goroutine E) ts)) = mset (in_goroutine E t)" "\<forall>t \<in> set ts. goroutine_ok E t"
    using ok Delete_Async by (cases "nodes = []"; cases "snapshot_error a"; cases "if drain then pdb_error a else None") (auto simp: Let_def Suc_le_eq)
  then show ?thesis using hand_over [OF inv _ ts(2), of st] Delete_Async by auto
next
  case (Abort_Each nodes gid drain r)
  show ?thesis
  proof (cases nodes)
    case Nil
    then show ?thesis using hand_over [OF inv, of "[]" st] Abort_Each by simp
  next
    case (Cons node nodes')
    have "moves E (t # L) st ([Abort_Each nodes' gid drain r] @ L) (AbortNodeDeletion (ans_now a) node gid r st)"
      using inv Abort_Each Cons queues_ok_drop [of t L st "[Abort_Each nodes' gid drain r]"]
      by (intro abort_step [OF inv]) (auto simp: in_progress_goroutines act_inv_def)
    then show ?thesis using Abort_Each Cons by simp
  qed
next
  case (Each_Node nodes g drain force batchSize)
  show ?thesis
  proof (cases nodes)
    case Nil
    then show ?thesis using hand_over [OF inv, of "[]" st] Each_Node by simp
  next
    case (Cons node nodes')
    let ?gid = "Id (act_provider E) g"
    have ok: "1 \<le> batchSize" using inv Each_Node by (simp add: act_inv_def)
    show ?thesis
    proof (cases "node_objection E a drain node")
      case None
      have "moves E (t # L) st ([Each_Node nodes' g drain force batchSize, Schedule_Deletion node g batchSize drain force] @ L) st"
        using Each_Node Cons by (intro hand_over [OF inv]) auto
      then show ?thesis using None Each_Node Cons ok by simp
    next
      case (Some r)
      have "moves E (t # L) st ([Each_Node nodes' g drain force batchSize] @ L) (AbortNodeDeletion (ans_now a) node ?gid r st)"
        using inv Each_Node Cons queues_ok_drop [of t L st "[Each_Node nodes' g drain force batchSize]"]
        by (intro abort_step [OF inv]) (auto simp: in_progress_goroutines act_inv_def)
      then show ?thesis using Some Each_Node Cons ok by simp
    qed
  qed
next
  case (Schedule_Deletion node g batchSize drain force)
  obtain ts st' where step: "scheduleDeletion E a node g batchSize drain force st = (ts, st')" by fastforce
  show ?thesis using schedule_step [OF inv [unfolded Schedule_Deletion] step] Schedule_Deletion step by simp
next
  case (Delete_Batch nodes gid drains)
  then obtain node nodes' where nodes: "nodes = node # nodes'" using inv by (cases nodes) (auto simp: act_inv_def)
  have "belongs node = gid" using inv Delete_Batch nodes by (force simp: act_inv_def members_ok_def in_progress_goroutines)
  then obtain result st' where del: "deleteNodesFromCloudProvider E a nodes st = Some (result, st')" "\<forall>g. result = Inr g \<longrightarrow> Id (act_provider E) g = gid"
    "nodeQueue st' = nodeQueue st" "bucketsPerNodeGroup st' = bucketsPerNodeGroup st" "failuresForGroup st' = failuresForGroup st"
    "act_tracker st' = act_tracker st"
    using delete_from_provider [OF cons, of node gid nodes' st] nodes by auto
  show ?thesis using hand_over [OF inv, of "[Finish_Batch nodes gid drains result]" st'] del Delete_Batch by (auto simp: queues_ok_def)
next
  case (Finish_Batch nodes gid drains result)
  show ?thesis
  proof (cases nodes)
    case Nil
    then show ?thesis using hand_over [OF inv, of "[]" st] Finish_Batch by simp
  next
    case (Cons node nodes')
    then show ?thesis using finish_step [of E belongs node nodes' gid drains result L st "ans_now a"] inv Finish_Batch
      by (auto simp: act_inv_def)
  qed
next
  case (Remove_Later gid)
  obtain ts st' where step: "remove gid st = (ts, st')" by fastforce
  show ?thesis using remove_step [OF inv [unfolded Remove_Later] step] Remove_Later step by simp
qed

section \<open>Schedules\<close>

abbreviation remaining :: "'g act_env \<Rightarrow> ('p, 'g) act_state \<Rightarrow> (string \<times> node) multiset" where
  "remaining E st \<equiv> in_progress E (act_threads st) st"

definition ends_some :: "'g act_env \<Rightarrow> ('p, 'g) act_state \<Rightarrow> ('p, 'g) act_state \<Rightarrow> bool" where
  "ends_some E st st' \<longleftrightarrow> (\<exists>D. remaining E st = D + remaining E st' \<and> mset (ended (act_tracker st')) = mset (ended (act_tracker st)) + names D)"

lemma ends_some_refl: "ends_some E st st"
  by (auto simp: ends_some_def intro: exI [of _ "{#}"])

lemma ends_some_trans: "ends_some E st st1 \<Longrightarrow> ends_some E st1 st2 \<Longrightarrow> ends_some E st st2"
  unfolding ends_some_def by (metis (no_types, opaque_lifting) add.assoc names_simps(3))

lemma ends_some_names:
  "ends_some E st st' \<Longrightarrow> names (remaining E st') + mset (ended (act_tracker st')) = names (remaining E st) + mset (ended (act_tracker st))"
  unfolding ends_some_def by auto

lemma act_inv_mset:
  assumes "mset L = mset L'" shows "act_inv E belongs L st = act_inv E belongs L' st"
proof -
  have "set L = set L'" using assms by (rule mset_eq_setD)
  then show ?thesis using in_progress_mset [OF assms, of E st] by (simp add: act_inv_def queues_ok_def)
qed

lemma act_inv_threads [simp]: "act_inv E belongs L (st\<lparr>act_threads := X\<rparr>) = act_inv E belongs L st"
  by (simp add: act_inv_def queues_ok_def in_progress_def)

lemma in_progress_threads [simp]: "in_progress E L (st\<lparr>act_threads := X\<rparr>) = in_progress E L st"
  by (simp add: in_progress_def)

lemma run_turn_inv:
  assumes inv: "act_inv E belongs (act_threads st) st" and cons: "consistent E belongs (snd turn)"
  shows "\<exists>st'. run_turn E turn st = Some st' \<and> act_inv E belongs (act_threads st') st' \<and> ends_some E st st'"
proof (cases "act_threads st = []")
  case True
  then show ?thesis using inv ends_some_refl by (simp add: run_turn_def split: prod.split)
next
  case False
  obtain k a where turn: "turn = (k, a)" by (cases turn)
  define i where "i = k mod length (act_threads st)"
  define t where "t = act_threads st ! i"
  define L where "L = take i (act_threads st) @ drop (i + 1) (act_threads st)"
  have i: "i < length (act_threads st)" using False by (simp add: i_def)
  have perm: "mset (act_threads st) = mset (t # L)"
    using arg_cong [OF id_take_nth_drop [OF i], of mset] by (simp add: L_def t_def del: append_take_drop_id)
  have inv1: "act_inv E belongs (t # L) st" using inv act_inv_mset [OF perm, of E belongs st] by simp
  obtain ts st1 where step: "goroutine_step E a t st = Some (ts, st1)" "moves E (t # L) st (ts @ L) st1" "\<forall>t \<in> set ts. goroutine_ok E t"
    using step_inv [OF inv1, of a] cons turn by auto
  note res = act_inv_moves [OF inv1 step(2,3)]
  define st' where "st' = st1\<lparr>act_threads := take i (act_threads st) @ ts @ drop (i + 1) (act_threads st)\<rparr>"
  have run: "run_turn E turn st = Some st'" using False step(1) by (simp add: run_turn_def turn st'_def t_def i_def Let_def)
  have perm': "mset (act_threads st') = mset (ts @ L)" by (simp add: st'_def L_def)
  have "act_inv E belongs (act_threads st') st'" using res act_inv_mset [OF perm', of E belongs st'] by (simp add: st'_def)
  moreover have "remaining E st' = in_progress E (ts @ L) st1" using in_progress_mset [OF perm', of E st'] by (simp add: st'_def)
  moreover have "remaining E st = in_progress E (t # L) st" using in_progress_mset [OF perm] .
  ultimately show ?thesis using run res by (auto simp: st'_def ends_some_def)
qed

lemma run_schedule_inv:
  "act_inv E belongs (act_threads st) st \<Longrightarrow> \<forall>turn \<in> set turns. consistent E belongs (snd turn) \<Longrightarrow>
    \<exists>st'. run_schedule E turns st = Some st' \<and> act_inv E belongs (act_threads st') st' \<and> ends_some E st st'"
proof (induction turns arbitrary: st)
  case Nil
  then show ?case using ends_some_refl by simp
next
  case (Cons turn turns)
  obtain st1 where "run_turn E turn st = Some st1" "act_inv E belongs (act_threads st1) st1" "ends_some E st st1"
    using run_turn_inv [OF Cons.prems(1), of turn] Cons.prems(2) by auto
  then show ?case using Cons.IH [of st1] Cons.prems(2) ends_some_trans by fastforce
qed

section \<open>Starting deletions\<close>

definition view_pairs :: "'g act_env \<Rightarrow> 'g NodeGroupView list \<Rightarrow> (string \<times> node) list" where
  "view_pairs E views = concat (map (\<lambda>v. map (Pair (Id (act_provider E) (Group v))) (View_Nodes v)) views)"

text \<open>Nodes to delete that are not being deleted yet, in views of their groups.\<close>

definition fresh_views :: "'g act_env \<Rightarrow> (node \<Rightarrow> string) \<Rightarrow> 'g NodeGroupView list \<Rightarrow> (string \<times> node) multiset \<Rightarrow> bool" where
  "fresh_views E belongs views M \<longleftrightarrow> members_ok belongs (mset (view_pairs E views) + M) \<and> (\<forall>v \<in> set views. 0 \<le> BatchSize v)"

lemma start_nodes:
  fixes drain gid
  defines "f \<equiv> \<lambda>st node. st\<lparr>act_tracker := (if drain then StartDeletionWithDrain else StartDeletion) gid (Name node) (act_tracker st)\<rparr>"
  assumes "counts (act_tracker st) M"
  shows "counts (act_tracker (foldl f st nodes)) (mset (map (Pair gid) nodes) + M)" "ended (act_tracker (foldl f st nodes)) = ended (act_tracker st)"
    "\<exists>tr. foldl f st nodes = st\<lparr>act_tracker := tr\<rparr>"
proof -
  have "counts (act_tracker (foldl f st nodes)) (mset (map (Pair gid) nodes) + M) \<and> ended (act_tracker (foldl f st nodes)) = ended (act_tracker st)
    \<and> (\<exists>tr. foldl f st nodes = st\<lparr>act_tracker := tr\<rparr>)"
    using assms(2)
  proof (induction nodes arbitrary: st M)
    case Nil
    then show ?case by (auto intro: exI [of _ "act_tracker st"])
  next
    case (Cons node nodes)
    have "counts (act_tracker (f st node)) (add_mset (gid, node) M)" "ended (act_tracker (f st node)) = ended (act_tracker st)"
      using tracks_StartDeletion [OF Cons.prems, where gid = gid and name = "Name node"] by (auto simp: f_def)
    then show ?case using Cons.IH [of "f st node" "add_mset (gid, node) M"] by (auto simp: f_def)
  qed
  then show "counts (act_tracker (foldl f st nodes)) (mset (map (Pair gid) nodes) + M)" "ended (act_tracker (foldl f st nodes)) = ended (act_tracker st)"
    "\<exists>tr. foldl f st nodes = st\<lparr>act_tracker := tr\<rparr>" by blast+
qed

lemma start_views:
  fixes drain E
  defines "start \<equiv> \<lambda>st bucket. foldl (\<lambda>st node. st\<lparr>act_tracker :=
      (if drain then StartDeletionWithDrain else StartDeletion) (Id (act_provider E) (Group bucket)) (Name node) (act_tracker st)\<rparr>)
      st (View_Nodes bucket)"
  assumes "counts (act_tracker st) M"
  shows "counts (act_tracker (foldl start st views)) (mset (view_pairs E views) + M) \<and> ended (act_tracker (foldl start st views)) = ended (act_tracker st)
    \<and> (\<exists>tr. foldl start st views = st\<lparr>act_tracker := tr\<rparr>)"
  using assms(2)
proof (induction views arbitrary: st M)
  case Nil
  then show ?case by (auto simp: view_pairs_def intro: exI [of _ "act_tracker st"])
next
  case (Cons v views)
  note nodes = start_nodes [OF Cons.prems, where nodes = "View_Nodes v" and drain = drain and gid = "Id (act_provider E) (Group v)"]
  have t1: "counts (act_tracker (start st v)) (mset (map (Pair (Id (act_provider E) (Group v))) (View_Nodes v)) + M)"
    and "ended (act_tracker (start st v)) = ended (act_tracker st)" "\<exists>tr. start st v = st\<lparr>act_tracker := tr\<rparr>"
    using nodes by (simp_all add: start_def)
  then show ?case using Cons.IH [OF t1] by (auto simp: view_pairs_def ac_simps)
qed

lemma delete_async_inv:
  fixes drain force
  assumes inv: "act_inv E belongs (act_threads st) st" and fresh: "fresh_views E belongs views (remaining E st)"
  defines "st' \<equiv> delete_async E drain force views st"
  shows "act_inv E belongs (act_threads st') st'" "remaining E st' = mset (view_pairs E views) + remaining E st"
    "ended (act_tracker st') = ended (act_tracker st)"
proof -
  let ?new = "map (\<lambda>v. Delete_Async (View_Nodes v) (Group v) drain force (BatchSize v)) views"
  have "counts (act_tracker st) (remaining E st)" using inv by (simp add: act_inv_def)
  from start_views [OF this, where drain = drain and E = E and views = views] obtain tr where
    tr: "counts tr (mset (view_pairs E views) + remaining E st)" "ended tr = ended (act_tracker st)"
      "st' = st\<lparr>act_tracker := tr, act_threads := act_threads st @ ?new\<rparr>"
    by (auto simp: st'_def delete_async_def Let_def)
  have pairs: "concat (map (in_goroutine E) ?new) = view_pairs E views" by (simp add: view_pairs_def comp_def)
  have prog: "in_progress E (act_threads st @ ?new) st = mset (view_pairs E views) + remaining E st"
    using pairs in_progress_mset [of "act_threads st @ ?new" "?new @ act_threads st" E st] in_progress_goroutines(1) [of E ?new "act_threads st" st]
    by simp
  then show rem: "remaining E st' = mset (view_pairs E views) + remaining E st" by (simp add: tr(3) in_progress_def)
  show "ended (act_tracker st') = ended (act_tracker st)" using tr by simp
  have "queues_ok (act_threads st') st'" using inv queues_ok_more [of "act_threads st" st "act_threads st'"]
    by (auto simp: tr(3) act_inv_def queues_ok_def)
  then show "act_inv E belongs (act_threads st') st'"
    using inv fresh rem tr by (auto simp: act_inv_def fresh_views_def)
qed

lemma taint_fields [simp]:
  "act_tracker (snd (taintNodesSync fails views st)) = act_tracker st" "act_threads (snd (taintNodesSync fails views st)) = act_threads st"
  "nodeQueue (snd (taintNodesSync fails views st)) = nodeQueue st" "failuresForGroup (snd (taintNodesSync fails views st)) = failuresForGroup st"
  "bucketsPerNodeGroup (snd (taintNodesSync fails views st)) = bucketsPerNodeGroup st"
proof -
  have calls: "foldl (\<lambda>st node. do_call (c node) st) st nodes = st\<lparr>act_calls := act_calls st @ map c nodes\<rparr>" for c nodes and st :: "('a, 'b) act_state"
    by (induction nodes arbitrary: st) (auto simp: do_call_def)
  show "act_tracker (snd (taintNodesSync fails views st)) = act_tracker st" "act_threads (snd (taintNodesSync fails views st)) = act_threads st"
    "nodeQueue (snd (taintNodesSync fails views st)) = nodeQueue st" "failuresForGroup (snd (taintNodesSync fails views st)) = failuresForGroup st"
    "bucketsPerNodeGroup (snd (taintNodesSync fails views st)) = bucketsPerNodeGroup st"
    by (simp_all add: taintNodesSync_def Let_def calls)
qed

lemma taint_inv [simp]: "act_inv E belongs L (snd (taintNodesSync fails views st)) = act_inv E belongs L st"
  by (simp add: act_inv_def queues_ok_def in_progress_def)

lemma taint_remaining [simp]: "in_progress E L (snd (taintNodesSync fails views st)) = in_progress E L st"
  by (simp add: in_progress_def)

lemma reset_inv: "act_inv E belongs L st \<Longrightarrow> act_inv E belongs L (ResetAndReportMetrics st)"
  by (simp add: act_inv_def queues_ok_def in_progress_def ResetAndReportMetrics_def)

lemma members_names: "members_ok belongs M \<longleftrightarrow> (\<forall>name. count (names M) name \<le> 1) \<and> (\<forall>p \<in># M. belongs (snd p) = fst p)"
  by (simp add: members_ok_def names_def)

text \<open>The views whose deletions a call of \<open>startDeletion\<close> starts.\<close>

definition started_views :: "(node \<Rightarrow> bool) \<Rightarrow> 'g NodeGroupView list \<Rightarrow> 'g NodeGroupView list \<Rightarrow> 'g NodeGroupView list" where
  "started_views fails ev dv =
     (if list_ex fails (views_nodes ev) then [] else if list_ex fails (views_nodes dv) then ev else ev @ dv)"

lemma taint_result:
  "fst (taintNodesSync fails views st) = None \<longleftrightarrow> \<not> list_ex fails (views_nodes views)"
  by (auto simp: taintNodesSync_def Let_def filter_empty_conv list_ex_iff)

lemma view_pairs_append [simp]: "view_pairs E (vs @ ws) = view_pairs E vs @ view_pairs E ws" "view_pairs E [] = []"
  by (simp_all add: view_pairs_def)

definition tainted :: "(node \<Rightarrow> bool) \<Rightarrow> 'g NodeGroupView list \<Rightarrow> ('p, 'g) act_state \<Rightarrow> ('p, 'g) act_state" where
  "tainted fails views st = (if views = [] then st else snd (taintNodesSync fails views st))"

lemma taint_cases:
  "(if length views > 0 then taintNodesSync fails views st else (None, st)) =
     (if list_ex fails (views_nodes views) then (Some (the (fst (taintNodesSync fails views st))), tainted fails views st) else (None, tainted fails views st))"
  using taint_result [of fails views st]
  by (cases "taintNodesSync fails views st") (auto simp: tainted_def views_nodes_def)

lemma startDeletion_states:
  assumes crop: "CropNodes B (act_tracker st) emptyNodes drainNodes = (ev, dv)"
  defines "st0 \<equiv> ResetAndReportMetrics st"
  shows "map_option snd (startDeletion E B fails reported meanwhile emptyNodes drainNodes force st) =
    (if ev = [] \<and> dv = [] then Some st0
     else if list_ex fails (views_nodes ev) then Some (tainted fails ev st0)
     else case run_schedule E meanwhile (delete_async E False force ev (tainted fails ev st0)) of
         None \<Rightarrow> None
       | Some st2 \<Rightarrow> Some (if list_ex fails (views_nodes dv) then tainted fails dv st2 else delete_async E True force dv (tainted fails dv st2)))"
proof -
  have tr: "act_tracker st0 = act_tracker st" by (simp add: st0_def ResetAndReportMetrics_def)
  show ?thesis
    unfolding startDeletion_def st0_def [symmetric] Let_def tr crop prod.case taint_cases
    by (auto split: option.split)
qed

lemma tainted_fields [simp]:
  "act_tracker (tainted fails views st) = act_tracker st" "act_threads (tainted fails views st) = act_threads st"
  "act_inv E belongs L (tainted fails views st) = act_inv E belongs L st" "in_progress E L (tainted fails views st) = in_progress E L st"
  by (simp_all add: tainted_def)

lemma startDeletion_inv:
  assumes inv: "act_inv E belongs (act_threads st) st" and turns: "\<forall>turn \<in> set meanwhile. consistent E belongs (snd turn)"
    and crop: "CropNodes B (act_tracker st) emptyNodes drainNodes = (ev, dv)" and fresh: "fresh_views E belongs (ev @ dv) (remaining E st)"
  shows "\<exists>res st'. startDeletion E B fails reported meanwhile emptyNodes drainNodes force st = Some (res, st') \<and>
    act_inv E belongs (act_threads st') st' \<and>
    names (remaining E st') + mset (ended (act_tracker st')) =
      names (mset (view_pairs E (started_views fails ev dv))) + names (remaining E st) + mset (ended (act_tracker st))"
proof -
  define st0 where "st0 = ResetAndReportMetrics st"
  have st0: "act_inv E belongs (act_threads st0) st0" "act_tracker st0 = act_tracker st" "remaining E st0 = remaining E st"
    using reset_inv [OF inv] by (simp_all add: st0_def ResetAndReportMetrics_def in_progress_def)
  have bs: "\<forall>v \<in> set (ev @ dv). 0 \<le> BatchSize v" and mem: "members_ok belongs (mset (view_pairs E ev) + mset (view_pairs E dv) + remaining E st)"
    using fresh by (simp_all add: fresh_views_def)
  note states = startDeletion_states [OF crop, of E fails reported meanwhile force, folded st0_def]
  consider "ev = []" "dv = []" | "list_ex fails (views_nodes ev)" | "ev \<noteq> [] \<or> dv \<noteq> []" "\<not> list_ex fails (views_nodes ev)" by blast
  then show ?thesis
  proof cases
    case 1
    then have "started_views fails ev dv = []" by (simp add: started_views_def views_nodes_def)
    then show ?thesis using 1 states st0 by auto
  next
    case 2
    then have "started_views fails ev dv = []" "\<not> (ev = [] \<and> dv = [])" by (auto simp: started_views_def views_nodes_def)
    then show ?thesis using 2 states st0 by auto
  next
    case 3
    have inv1: "act_inv E belongs (act_threads (tainted fails ev st0)) (tainted fails ev st0)" using st0 by simp
    have "fresh_views E belongs ev (remaining E (tainted fails ev st0))"
      using mem bs st0 members_ok_mono [of belongs "mset (view_pairs E dv)" "mset (view_pairs E ev) + remaining E st"]
      by (simp add: fresh_views_def ac_simps)
    note async = delete_async_inv [OF inv1 this, of False force]
    obtain st2 where st2: "run_schedule E meanwhile (delete_async E False force ev (tainted fails ev st0)) = Some st2"
      "act_inv E belongs (act_threads st2) st2" "ends_some E (delete_async E False force ev (tainted fails ev st0)) st2"
      using run_schedule_inv [OF async(1) turns] by blast
    obtain D where D: "mset (view_pairs E ev) + remaining E st = D + remaining E st2"
      "mset (ended (act_tracker st2)) = mset (ended (act_tracker st)) + names D"
      using st2(3) async(2,3) st0 by (auto simp: ends_some_def)
    have "members_ok belongs (D + (mset (view_pairs E dv) + remaining E st2))" using mem D(1) by (simp add: ac_simps)
    then have "fresh_views E belongs dv (remaining E (tainted fails dv st2))"
      using members_ok_mono bs by (auto simp: fresh_views_def)
    note async2 = delete_async_inv [of E belongs "tainted fails dv st2" dv True force, OF _ this]
    have names: "names (mset (view_pairs E ev)) + names (remaining E st) = names D + names (remaining E st2)" using D(1) by (metis names_simps(3))
    have views: "started_views fails ev dv = (if list_ex fails (views_nodes dv) then ev else ev @ dv)" using 3 by (simp add: started_views_def)
    define st' where "st' = (if list_ex fails (views_nodes dv) then tainted fails dv st2 else delete_async E True force dv (tainted fails dv st2))"
    obtain res where run: "startDeletion E B fails reported meanwhile emptyNodes drainNodes force st = Some (res, st')"
      using states 3 st2(1) by (auto simp: st'_def)
    have rem: "remaining E st' = mset (view_pairs E (if list_ex fails (views_nodes dv) then [] else dv)) + remaining E st2"
      "ended (act_tracker st') = ended (act_tracker st2)" "act_inv E belongs (act_threads st') st'"
      using async2 st2(2) by (simp_all add: st'_def)
    have "names (remaining E st') + mset (ended (act_tracker st')) =
        names (mset (view_pairs E (started_views fails ev dv))) + names (remaining E st) + mset (ended (act_tracker st))"
      using rem(1,2) D(2) names unfolding views by (cases "list_ex fails (views_nodes dv)") (simp_all add: ac_simps)
    then show ?thesis using run rem(3) by blast
  qed
qed

section \<open>Reachable states\<close>

inductive act_reachable :: "'g act_env \<Rightarrow> (node \<Rightarrow> string) \<Rightarrow> ('p, 'g) act_state \<Rightarrow> bool" for E belongs where
  new: "act_reachable E belongs (NewActuator podEvictionsTTL)"
| start: "act_reachable E belongs st \<Longrightarrow> CropNodes B (act_tracker st) emptyNodes drainNodes = (ev, dv) \<Longrightarrow>
    fresh_views E belongs (ev @ dv) (remaining E st) \<Longrightarrow> \<forall>turn \<in> set meanwhile. consistent E belongs (snd turn) \<Longrightarrow>
    startDeletion E B fails reported meanwhile emptyNodes drainNodes force st = Some (res, st') \<Longrightarrow> act_reachable E belongs st'"
| turn: "act_reachable E belongs st \<Longrightarrow> consistent E belongs a \<Longrightarrow> run_turn E (k, a) st = Some st' \<Longrightarrow> act_reachable E belongs st'"
| clear: "act_reachable E belongs st \<Longrightarrow> act_reachable E belongs (st\<lparr>act_tracker := ClearResultsNotNewerThan t (act_tracker st)\<rparr>)"

lemma act_reachable_inv: "act_reachable E belongs st \<Longrightarrow> act_inv E belongs (act_threads st) st"
proof (induction rule: act_reachable.induct)
  case (new podEvictionsTTL)
  show ?case by (simp add: NewActuator_def act_inv_def queues_ok_def in_progress_def members_ok_def counts_def NewNodeDeletionTracker_def gm_wf_def ghas_def)
next
  case (start st B emptyNodes drainNodes ev dv meanwhile fails reported force res st')
  then show ?case using startDeletion_inv [OF start.IH start.hyps(4,2,3), of fails reported force] by auto
next
  case (turn st a k st')
  then show ?case using run_turn_inv [OF turn.IH, of "(k, a)"] by auto
next
  case (clear st t)
  then show ?case by (simp add: act_inv_def queues_ok_def in_progress_def counts_def ClearResultsNotNewerThan_def)
qed

section \<open>Every turn makes progress\<close>

fun work :: "'g goroutine \<Rightarrow> nat" where
  "work (Delete_Async nodes _ _ _ _) = 2 + 8 * length nodes"
| "work (Abort_Each nodes _ _ _) = 1 + length nodes"
| "work (Each_Node nodes _ _ _ _) = 1 + 8 * length nodes"
| "work (Schedule_Deletion _ _ _ _ _) = 7"
| "work (Delete_Batch nodes _ _) = 2 + length nodes"
| "work (Finish_Batch nodes _ _ _) = 1 + length nodes"
| "work (Remove_Later _) = 1"

definition stored :: "('p, 'g) act_state \<Rightarrow> nat" where
  "stored st = length (held (nodeQueue st)) + 3 * length (bucketsPerNodeGroup st) + length (held (bucketsPerNodeGroup st))"

lemma held_lengths:
  assumes "gm_wf m"
  shows "length (held (gput k nodes m)) + length (gget [] m k) = length (held m) + length nodes"
    "length (held (gdel k m)) + length (gget [] m k) = length (held m)"
  using arg_cong [OF held_gput [OF assms, of k nodes], of size] arg_cong [OF held_gdel [OF assms, of k], of size] by simp_all

lemma length_gput_has: "ghas m k \<Longrightarrow> length (gput k v m) = length m" "length (gput k v m) \<le> length m + 1"
  by (induction m) (auto simp: ghas_def)

lemma length_gdel_has: "ghas m k \<Longrightarrow> length (gdel k m) + 1 \<le> length m" "length (gdel k m) \<le> length m"
  by (induction m) (auto simp: ghas_def)

lemma AddNodes_work:
  assumes "AddNodes E nodes g drain st = (ts, st')" "gm_wf (bucketsPerNodeGroup st)"
  shows "sum_list (map work ts) + stored st' \<le> 4 + length nodes + stored st"
proof -
  let ?gid = "Id (act_provider E) g" and ?m = "bucketsPerNodeGroup st"
  note lens = held_lengths(1) [OF assms(2), of ?gid nodes] held_lengths(1) [OF assms(2), of ?gid "gget [] ?m ?gid @ nodes"]
    length_gput_has(2) [of ?gid nodes ?m] length_gput_has(1) [of ?m ?gid "gget [] ?m ?gid @ nodes"]
  show ?thesis using assms(1) lens
    by (auto simp: AddNodes_def addNodesToBucket_def Let_def stored_def split: if_splits)
qed

lemma cleanup_all_fields:
  fixes now gid node
  defines "f \<equiv> \<lambda>st otherNode. if otherNode = node then st else CleanUpAndRecordFailedScaleDownEvent now otherNode gid group_failed st"
  shows "nodeQueue (foldl f st q) = nodeQueue st \<and> bucketsPerNodeGroup (foldl f st q) = bucketsPerNodeGroup st
    \<and> failuresForGroup (foldl f st q) = failuresForGroup st"
  by (induction q arbitrary: st) (simp_all add: f_def)

lemma abort_fields [simp]:
  "nodeQueue (AbortNodeDeletion now node gid r st) = gdel gid (nodeQueue st)"
  "bucketsPerNodeGroup (AbortNodeDeletion now node gid r st) = bucketsPerNodeGroup st"
  "failuresForGroup (AbortNodeDeletion now node gid r st) = gput gid True (failuresForGroup st)"
  by (simp_all add: AbortNodeDeletion_def Let_def cleanup_all_fields)

lemma stored_gdel: "gm_wf (nodeQueue st) \<Longrightarrow> nodeQueue st' = gdel gid (nodeQueue st) \<Longrightarrow> bucketsPerNodeGroup st' = bucketsPerNodeGroup st \<Longrightarrow> stored st' \<le> stored st"
  using held_lengths(2) [of "nodeQueue st" gid] by (simp add: stored_def)

lemma addToBatcher_work:
  assumes "addToBatcher E now node g batchSize drain atomic st = (ts, st')" "queues_ok L st" "1 \<le> batchSize"
  shows "sum_list (map work ts) + stored st' \<le> 5 + stored st"
proof -
  let ?gid = "Id (act_provider E) g" and ?q = "gget [] (nodeQueue st) (Id (act_provider E) g)"
  have wf: "gm_wf (nodeQueue st)" "gm_wf (bucketsPerNodeGroup st)" using assms(2) by (simp_all add: queues_ok_def)
  show ?thesis
  proof (cases "atomic \<and> gget False (failuresForGroup st) ?gid")
    case True
    then have "ts = []" "nodeQueue st' = gdel ?gid (nodeQueue st)" "bucketsPerNodeGroup st' = bucketsPerNodeGroup st"
      using assms(1,3) by (auto simp: addToBatcher_def Let_def)
    then show ?thesis using stored_gdel [OF wf(1)] by fastforce
  next
    case fine: False
    show ?thesis
    proof (cases "atomic \<and> int (length (?q @ [node])) < batchSize")
      case True
      then have "ts = []" "nodeQueue st' = gput ?gid (?q @ [node]) (nodeQueue st)" "bucketsPerNodeGroup st' = bucketsPerNodeGroup st"
        using assms(1) fine by (auto simp: addToBatcher_def Let_def)
      then show ?thesis using held_lengths(1) [OF wf(1), of ?gid "?q @ [node]"] by (simp add: stored_def)
    next
      case False
      define st0 where "st0 = st\<lparr>nodeQueue := gput ?gid [] (nodeQueue st)\<rparr>"
      have add: "AddNodes E (?q @ [node]) g drain st0 = (ts, st')"
        using assms(1) fine False by (auto simp: addToBatcher_def st0_def Let_def AddNodes_queue split: prod.splits)
      have "stored st0 + length ?q = stored st" using held_lengths(1) [OF wf(1), of ?gid "[]"] by (simp add: stored_def st0_def)
      then show ?thesis using AddNodes_work [OF add] wf(2) by (simp add: st0_def)
    qed
  qed
qed

lemma step_work:
  assumes inv: "act_inv E belongs (t # L) st" and step: "goroutine_step E a t st = Some (ts, st')"
  shows "sum_list (map work ts) + stored st' < work t + stored st"
proof -
  have q: "queues_ok (t # L) st" and wf: "gm_wf (nodeQueue st)" "gm_wf (bucketsPerNodeGroup st)" and ok: "goroutine_ok E t"
    using inv by (auto simp: act_inv_def queues_ok_def)
  have call: "stored (do_call c st) = stored st" for c by (simp add: stored_def)
  have abort: "stored (AbortNodeDeletion now node gid r st) \<le> stored st" "stored (AbortNodeDeletion now node gid r (do_call c st)) \<le> stored st"
    for now node gid r c by (rule stored_gdel [OF wf(1), of _ gid]; simp)+
  show ?thesis
  proof (cases t)
    case (Schedule_Deletion node g batchSize drain force)
    have add: "sum_list (map work ts) + stored st' \<le> 5 + stored st"
      if "addToBatcher E now node g batchSize drain atomic st1 = (ts, st')" "st1 = st \<or> st1 = do_call c st" for now atomic st1 c
      using addToBatcher_work [OF that(1), of "t # L"] q ok that(2) Schedule_Deletion call by auto
    obtain c now st1 where st1: "st1 = st \<or> st1 = do_call c st"
      "(\<exists>r. ts = [] \<and> st' = AbortNodeDeletion now node (Id (act_provider E) g) r st1) \<or>
       addToBatcher E now node g batchSize drain (group_options E g = Some True) st1 = (ts, st')"
      by (rule scheduleDeletion_cases [of E a node g batchSize drain force st ts st']) (use step Schedule_Deletion in simp_all)
    show ?thesis using st1(2)
    proof
      assume "\<exists>r. ts = [] \<and> st' = AbortNodeDeletion now node (Id (act_provider E) g) r st1"
      then have "ts = []" "stored st' \<le> stored st" using abort st1(1) by auto
      then show ?thesis using Schedule_Deletion by simp
    next
      assume "addToBatcher E now node g batchSize drain (group_options E g = Some True) st1 = (ts, st')"
      from add [OF this st1(1)] show ?thesis using Schedule_Deletion by simp
    qed
  next
    case (Remove_Later gid)
    then show ?thesis
      using step held_lengths(2) [OF wf(2), of gid] length_gdel_has(1) [of "bucketsPerNodeGroup st" gid]
      by (auto simp: remove_def stored_def Let_def gget_def ghas_def split: option.splits)
  next
    case (Delete_Async nodes g drain force batchSize)
    then show ?thesis using step by (auto simp: Let_def split: if_splits option.splits)
  next
    case (Abort_Each nodes gid drain r)
    then show ?thesis using step abort by (cases nodes) (auto simp: less_Suc_eq_le)
  next
    case (Each_Node nodes g drain force batchSize)
    have "stored (AbortNodeDeletion now node gid r st) < 8 + stored st" for now node gid r
      using abort(1) [of now node gid r] by simp
    then show ?thesis using step Each_Node by (cases nodes) (auto split: option.splits)
  next
    case (Delete_Batch nodes gid drains)
    then show ?thesis using step
      by (auto simp: deleteNodesFromCloudProvider_def stored_def Let_def split: option.splits list.splits prod.splits)
  next
    case (Finish_Batch nodes gid drains result)
    then show ?thesis using step
      by (cases nodes; cases result) (auto simp: end_batch_node_def RegisterAndRecordSuccessfulScaleDownEvent_def stored_def Let_def)
  qed
qed

definition total_work :: "('p, 'g) act_state \<Rightarrow> nat" where
  "total_work st = sum_list (map work (act_threads st)) + stored st"

lemma turn_split:
  assumes "act_threads st \<noteq> []" "run_turn E (k, a) st = Some st'"
  obtains t L ts st1 where "mset (act_threads st) = mset (t # L)" "goroutine_step E a t st = Some (ts, st1)"
    "mset (act_threads st') = mset (ts @ L)" "st' = st1\<lparr>act_threads := act_threads st'\<rparr>"
proof -
  define i where "i = k mod length (act_threads st)"
  have i: "i < length (act_threads st)" using assms(1) by (simp add: i_def)
  obtain ts st1 where step: "goroutine_step E a (act_threads st ! i) st = Some (ts, st1)"
    "st' = st1\<lparr>act_threads := take i (act_threads st) @ ts @ drop (i + 1) (act_threads st)\<rparr>"
    using assms by (auto simp: run_turn_def Let_def i_def split: option.splits)
  show thesis
  proof (rule that)
    show "mset (act_threads st) = mset (act_threads st ! i # (take i (act_threads st) @ drop (i + 1) (act_threads st)))"
      using arg_cong [OF id_take_nth_drop [OF i], of mset] by (simp del: append_take_drop_id)
    show "mset (act_threads st') = mset (ts @ (take i (act_threads st) @ drop (i + 1) (act_threads st)))"
      "st' = st1\<lparr>act_threads := act_threads st'\<rparr>" using step(2) by simp_all
  qed (rule step(1))
qed

lemma run_turn_work:
  assumes "act_inv E belongs (act_threads st) st" "act_threads st \<noteq> []" "run_turn E (k, a) st = Some st'"
  shows "total_work st' < total_work st"
proof (rule turn_split [OF assms(2,3)])
  fix t L ts st1
  assume split: "mset (act_threads st) = mset (t # L)" "goroutine_step E a t st = Some (ts, st1)" "mset (act_threads st') = mset (ts @ L)"
    "st' = st1\<lparr>act_threads := act_threads st'\<rparr>"
  have sums: "mset X = mset Y \<Longrightarrow> sum_list (map work X) = sum_list (map work Y)" for X Y :: "'a goroutine list"
    by (metis mset_map sum_mset_sum_list)
  have "stored st' = stored st1" by (subst split(4)) (simp add: stored_def)
  moreover have "act_inv E belongs (t # L) st" using assms(1) act_inv_mset [OF split(1), of E belongs st] by simp
  ultimately show ?thesis
    using step_work [OF _ split(2), of belongs L] sums [OF split(1)] sums [OF split(3)] by (simp add: total_work_def)
qed

lemma work_pos: "0 < work t"
  by (cases t) auto

lemma run_schedule_finishes:
  "act_inv E belongs (act_threads st) st \<Longrightarrow> \<forall>turn \<in> set turns. consistent E belongs (snd turn) \<Longrightarrow>
    run_schedule E turns st = Some st' \<Longrightarrow> total_work st \<le> length turns \<Longrightarrow> act_threads st' = []"
proof (induction turns arbitrary: st)
  case Nil
  then show ?case using work_pos [of "hd (act_threads st)"] by (cases "act_threads st") (auto simp: total_work_def)
next
  case (Cons turn turns)
  obtain k a where turn: "turn = (k, a)" by (cases turn)
  obtain st1 where st1: "run_turn E turn st = Some st1" "act_inv E belongs (act_threads st1) st1" "ends_some E st st1"
    using run_turn_inv [OF Cons.prems(1), of turn] Cons.prems(2) by auto
  have run: "run_schedule E turns st1 = Some st'" using Cons.prems(3) st1(1) by simp
  show ?case
  proof (cases "act_threads st = []")
    case True
    have "run_turn E t st = Some st" for t using True by (simp add: run_turn_def split: prod.split)
    then have "run_schedule E ts st = Some st" for ts by (induction ts) auto
    then show ?thesis using Cons.prems(3) True by (metis option.inject)
  next
    case False
    then show ?thesis using Cons.IH [OF st1(2) _ run] Cons.prems run_turn_work [OF Cons.prems(1) False, of k a st1] st1(1) turn by simp
  qed
qed

end
