(* ===== verification/Actuation_Groups.thy ===== *)
theory Actuation_Groups
  imports Actuation_Props
begin

text \<open>
  Groups that are deleted as a whole. When a scale-down covers such a group completely, with batch sizes that say so,
  every deletion it starts ends, and the provider is asked to delete all nodes of the group at once or none.
\<close>

section \<open>Nodes on their way to the queue\<close>

fun before_queue :: "'g act_env \<Rightarrow> string \<Rightarrow> 'g goroutine \<Rightarrow> nat" where
  "before_queue E gid (Delete_Async nodes g _ _ _) = (if Id (act_provider E) g = gid then length nodes else 0)"
| "before_queue E gid (Abort_Each nodes gid' _ _) = (if gid' = gid then length nodes else 0)"
| "before_queue E gid (Each_Node nodes g _ _ _) = (if Id (act_provider E) g = gid then length nodes else 0)"
| "before_queue E gid (Schedule_Deletion _ g _ _ _) = (if Id (act_provider E) g = gid then 1 else 0)"
| "before_queue E gid _ = 0"

definition coming :: "'g act_env \<Rightarrow> string \<Rightarrow> 'g goroutine list \<Rightarrow> nat" where
  "coming E gid L = sum_list (map (before_queue E gid) L)"

lemma coming_simps [simp]: "coming E gid [] = 0" "coming E gid (t # L) = before_queue E gid t + coming E gid L"
  "coming E gid (L @ L') = coming E gid L + coming E gid L'"
  by (simp_all add: coming_def)

text \<open>Goroutines that know the size \<open>N\<close> of a group deleted as a whole, and batches that have it.\<close>

fun sized :: "'g act_env \<Rightarrow> (string \<Rightarrow> bool) \<Rightarrow> (string \<Rightarrow> nat) \<Rightarrow> 'g goroutine \<Rightarrow> bool" where
  "sized E whole N (Delete_Async nodes g _ _ batchSize) \<longleftrightarrow>
     (whole (Id (act_provider E) g) \<longrightarrow> (if batchSize = 0 then int (length nodes) else batchSize) = int (N (Id (act_provider E) g)))"
| "sized E whole N (Each_Node _ g _ _ batchSize) \<longleftrightarrow> (whole (Id (act_provider E) g) \<longrightarrow> batchSize = int (N (Id (act_provider E) g)))"
| "sized E whole N (Schedule_Deletion _ g batchSize _ _) \<longleftrightarrow> (whole (Id (act_provider E) g) \<longrightarrow> batchSize = int (N (Id (act_provider E) g)))"
| "sized E whole N (Delete_Batch nodes gid _) \<longleftrightarrow> (whole gid \<longrightarrow> length nodes = N gid)"
| "sized E whole N _ \<longleftrightarrow> True"

text \<open>One group: its queue, whether a node failed, its bucket, the nodes coming and those still to be started.\<close>

definition group_inv :: "bool \<Rightarrow> nat \<Rightarrow> node list \<Rightarrow> bool \<Rightarrow> node list option \<Rightarrow> nat \<Rightarrow> nat \<Rightarrow> bool" where
  "group_inv whole n q failed bucket w later \<longleftrightarrow> (\<not> whole \<longrightarrow> q = []) \<and> (whole \<longrightarrow>
     (\<not> failed \<longrightarrow> (q = [] \<and> w = 0 \<and> later = 0) \<or> (length q + w + later = n \<and> 0 < w + later)) \<and>
     (\<forall>nodes. bucket = Some nodes \<longrightarrow> length nodes = n \<and> w = 0 \<and> later = 0))"

abbreviation state_inv :: "'g act_env \<Rightarrow> (string \<Rightarrow> bool) \<Rightarrow> (string \<Rightarrow> nat) \<Rightarrow> (string \<Rightarrow> nat) \<Rightarrow> 'g goroutine list \<Rightarrow> ('p, 'g) act_state \<Rightarrow> string \<Rightarrow> bool" where
  "state_inv E whole N later L st gid \<equiv> group_inv (whole gid) (N gid) (gget [] (nodeQueue st) gid) (gget False (failuresForGroup st) gid)
     (map_of (bucketsPerNodeGroup st) gid) (coming E gid L) (later gid)"

definition whole_calls :: "(string \<Rightarrow> bool) \<Rightarrow> (string \<Rightarrow> nat) \<Rightarrow> act_call list \<Rightarrow> bool" where
  "whole_calls whole N cs \<longleftrightarrow> (\<forall>gid ns. DeleteNodes_call gid ns \<in> set cs \<longrightarrow> whole gid \<longrightarrow> length ns = N gid)"

definition groups_inv :: "'g act_env \<Rightarrow> (string \<Rightarrow> bool) \<Rightarrow> (string \<Rightarrow> nat) \<Rightarrow> (string \<Rightarrow> nat) \<Rightarrow> 'g goroutine list \<Rightarrow> ('p, 'g) act_state \<Rightarrow> bool" where
  "groups_inv E whole N later L st \<longleftrightarrow> (\<forall>gid. state_inv E whole N later L st gid) \<and> (\<forall>t \<in> set L. sized E whole N t)"

section \<open>Calls\<close>

definition new_calls :: "(string \<Rightarrow> bool) \<Rightarrow> (string \<Rightarrow> nat) \<Rightarrow> ('p, 'g) act_state \<Rightarrow> ('p, 'g) act_state \<Rightarrow> bool" where
  "new_calls whole N st st' \<longleftrightarrow> (\<exists>cs. act_calls st' = act_calls st @ cs \<and> whole_calls whole N cs)"

lemma whole_calls_simps [simp]: "whole_calls whole N []" "whole_calls whole N (cs @ ds) \<longleftrightarrow> whole_calls whole N cs \<and> whole_calls whole N ds"
  "whole_calls whole N (c # cs) \<longleftrightarrow> (\<forall>gid ns. c = DeleteNodes_call gid ns \<longrightarrow> whole gid \<longrightarrow> length ns = N gid) \<and> whole_calls whole N cs"
  by (auto simp: whole_calls_def)

lemma new_calls_refl: "act_calls st' = act_calls st \<Longrightarrow> new_calls whole N st st'"
  by (simp add: new_calls_def)

lemma new_calls_trans: "new_calls whole N st st1 \<Longrightarrow> new_calls whole N st1 st2 \<Longrightarrow> new_calls whole N st st2"
  unfolding new_calls_def by (metis append.assoc whole_calls_simps(2))

lemma new_calls_one: "act_calls st' = act_calls st @ [c] \<Longrightarrow> (\<And>gid ns. c \<noteq> DeleteNodes_call gid ns) \<Longrightarrow> new_calls whole N st st'"
  by (auto simp: new_calls_def)

lemma cleanup_calls: "new_calls whole N st (CleanUpAndRecordFailedScaleDownEvent now node gid r st)"
  by (rule new_calls_one) (auto simp: CleanUpAndRecordFailedScaleDownEvent_def)

lemma cleanup_all_calls:
  "new_calls whole N st (foldl (\<lambda>st otherNode. if otherNode = node then st
     else CleanUpAndRecordFailedScaleDownEvent now otherNode gid group_failed st) st q)" (is "new_calls whole N st (foldl ?f st q)")
proof (induction q arbitrary: st)
  case (Cons n q)
  have "new_calls whole N st (?f st n)" using cleanup_calls new_calls_refl [of st st] by auto
  then show ?case using Cons.IH [of "?f st n"] new_calls_trans by auto
qed (simp add: new_calls_refl)

lemma abort_calls: "new_calls whole N st (AbortNodeDeletion now node gid r st)"
proof -
  define st1 where "st1 = CleanUpAndRecordFailedScaleDownEvent now node gid r (st\<lparr>failuresForGroup := gput gid True (failuresForGroup st)\<rparr>)"
  define st2 where "st2 = foldl (\<lambda>st otherNode. if otherNode = node then st
     else CleanUpAndRecordFailedScaleDownEvent now otherNode gid group_failed st) st1 (gget [] (nodeQueue st1) gid)"
  have "new_calls whole N st st1"
    using cleanup_calls [of whole N "st\<lparr>failuresForGroup := gput gid True (failuresForGroup st)\<rparr>" now node gid r]
    by (simp add: st1_def new_calls_def)
  moreover have "new_calls whole N st1 st2" unfolding st2_def by (rule cleanup_all_calls)
  ultimately have "new_calls whole N st st2" by (rule new_calls_trans)
  moreover have "act_calls (AbortNodeDeletion now node gid r st) = act_calls st2"
    by (simp add: AbortNodeDeletion_def Let_def st2_def st1_def)
  ultimately show ?thesis by (simp add: new_calls_def)
qed

lemma AddNodes_calls: "AddNodes E nodes g drain st = (ts, st') \<Longrightarrow> act_calls st' = act_calls st"
  by (auto simp: AddNodes_def addNodesToBucket_def Let_def split: if_splits)

lemma addToBatcher_calls: "addToBatcher E now node g batchSize drain atomic st = (ts, st') \<Longrightarrow> new_calls whole N st st'"
  by (auto simp: addToBatcher_def Let_def CleanUpAndRecordFailedScaleDownEvent_def new_calls_def dest!: AddNodes_calls split: if_splits prod.splits)

section \<open>One turn\<close>

lemma group_inv_abort: "group_inv W n q failed bucket (Suc w) later \<Longrightarrow> group_inv W n [] True bucket w later"
  by (simp add: group_inv_def)

lemma group_inv_failed: "group_inv W n q True bucket (Suc w) later \<Longrightarrow> group_inv W n q True bucket w later"
  by (auto simp: group_inv_def)

lemma group_inv_wait:
  "group_inv True n q False bucket (Suc w) later \<Longrightarrow> length q + 1 < n \<Longrightarrow> group_inv True n (q @ [node]) False bucket w later"
  by (auto simp: group_inv_def)

lemma group_inv_flush:
  assumes "group_inv True n q False bucket (Suc w) later" "\<not> length q + 1 < n"
  shows "bucket = None \<and> w = 0 \<and> later = 0 \<and> length q + 1 = n"
  using assms by (cases bucket) (auto simp: group_inv_def)

lemma state_inv_abort:
  assumes "\<And>g. state_inv E whole N later (t # L) st g" "st1 = st \<or> st1 = do_call c st"
    "\<And>g. before_queue E g t = (if g = gid then 1 else 0) + coming E g ts"
  shows "state_inv E whole N later (ts @ L) (AbortNodeDeletion now node gid r st1) g"
proof (cases "g = gid")
  case True
  then show ?thesis using assms(1) [of gid] assms(2) assms(3) [of gid] by (auto intro!: group_inv_abort)
next
  case False
  then show ?thesis using assms(1) [of g] assms(2) assms(3) [of g] by (auto simp: add.assoc)
qed

lemma AddNodes_groups:
  assumes "AddNodes E nodes g drain st = (ts, st')"
  shows "coming E gid ts = 0" "nodeQueue st' = nodeQueue st" "failuresForGroup st' = failuresForGroup st"
    "gid \<noteq> Id (act_provider E) g \<Longrightarrow> map_of (bucketsPerNodeGroup st') gid = map_of (bucketsPerNodeGroup st) gid"
    "map_of (bucketsPerNodeGroup st) (Id (act_provider E) g) = None \<Longrightarrow>
      map_of (bucketsPerNodeGroup st') (Id (act_provider E) g) \<in> {None, Some nodes}"
    "whole (Id (act_provider E) g) \<longrightarrow> length nodes = N (Id (act_provider E) g) \<Longrightarrow> \<forall>t \<in> set ts. sized E whole N t"
  using assms by (auto simp: AddNodes_def addNodesToBucket_def Let_def ghas_def split: if_splits)

lemma state_inv_add:
  assumes add: "addToBatcher E now node g batchSize drain (whole (Id (act_provider E) g)) st1 = (ts, st')"
    and st1: "st1 = st \<or> st1 = do_call c st" and q: "queues_ok M st" and ok: "1 \<le> batchSize"
    and sz: "whole (Id (act_provider E) g) \<Longrightarrow> batchSize = int (N (Id (act_provider E) g))"
    and inv: "\<And>gid. state_inv E whole N later (t # L) st gid"
    and bq: "\<And>gid. before_queue E gid t = (if gid = Id (act_provider E) g then 1 else 0)"
  shows "state_inv E whole N later (ts @ L) st' gid \<and> (\<forall>t \<in> set ts. sized E whole N t)"
proof -
  let ?gid = "Id (act_provider E) g"
  let ?q = "gget [] (nodeQueue st) ?gid"
  have same: "nodeQueue st1 = nodeQueue st" "failuresForGroup st1 = failuresForGroup st" "bucketsPerNodeGroup st1 = bucketsPerNodeGroup st"
    using st1 by auto
  have here: "group_inv (whole ?gid) (N ?gid) ?q (gget False (failuresForGroup st) ?gid) (map_of (bucketsPerNodeGroup st) ?gid) (Suc (coming E ?gid L)) (later ?gid)"
    using inv [of ?gid] bq [of ?gid] by simp
  have other: "gid \<noteq> ?gid \<Longrightarrow> state_inv E whole N later L st gid" using inv [of gid] bq [of gid] by simp
  consider (failed) "whole ?gid" "gget False (failuresForGroup st) ?gid"
    | (wait) "whole ?gid" "\<not> gget False (failuresForGroup st) ?gid" "length ?q + 1 < N ?gid"
    | (flush) "whole ?gid \<longrightarrow> \<not> gget False (failuresForGroup st) ?gid \<and> \<not> length ?q + 1 < N ?gid" by blast
  then show ?thesis
  proof cases
    case failed
    then have "?q = []" using q by (simp add: queues_ok_def)
    moreover have "ts = []" "nodeQueue st' = gdel ?gid (nodeQueue st)" "bucketsPerNodeGroup st' = bucketsPerNodeGroup st"
      "failuresForGroup st' = failuresForGroup st"
      using add failed ok by (auto simp: addToBatcher_def Let_def same)
    ultimately show ?thesis using other here failed by (cases "gid = ?gid") (auto intro: group_inv_failed)
  next
    case wait
    then have "ts = []" "nodeQueue st' = gput ?gid (?q @ [node]) (nodeQueue st)" "bucketsPerNodeGroup st' = bucketsPerNodeGroup st"
      "failuresForGroup st' = failuresForGroup st"
      using add sz by (auto simp: addToBatcher_def Let_def same)
    then show ?thesis using other here wait group_inv_wait by (cases "gid = ?gid") auto
  next
    case flush
    define st0 where "st0 = st1\<lparr>nodeQueue := gput ?gid [] (nodeQueue st)\<rparr>"
    have "AddNodes E (?q @ [node]) g drain st0 = (ts, st')"
      using add flush sz by (auto simp: addToBatcher_def st0_def Let_def AddNodes_queue same split: prod.splits if_splits)
    note res = AddNodes_groups [OF this]
    have full: "whole ?gid \<Longrightarrow> map_of (bucketsPerNodeGroup st) ?gid = None \<and> coming E ?gid L = 0 \<and> later ?gid = 0 \<and> length ?q + 1 = N ?gid"
      using here flush group_inv_flush by fastforce
    have "map_of (bucketsPerNodeGroup st) ?gid = None \<Longrightarrow> map_of (bucketsPerNodeGroup st') ?gid \<in> {None, Some (?q @ [node])}"
      using res(5) by (simp add: st0_def same)
    then have "state_inv E whole N later (ts @ L) st' ?gid"
      using full res(1-3) by (cases "whole ?gid") (auto simp: group_inv_def st0_def same)
    moreover have "\<forall>t \<in> set ts. sized E whole N t" using full by (intro res(6)) auto
    ultimately show ?thesis using other res(1-4) by (cases "gid = ?gid") (auto simp: st0_def same)
  qed
qed


definition whole_groups :: "'g act_env \<Rightarrow> (string \<Rightarrow> bool) \<Rightarrow> bool" where
  "whole_groups E whole \<longleftrightarrow> (\<forall>g. whole (Id (act_provider E) g) = (group_options E g = Some True))"

lemma groups_inv_hand_over:
  assumes "groups_inv E whole N later (t # L) st" "\<forall>t' \<in> set ts. sized E whole N t'" "\<And>gid. coming E gid ts = before_queue E gid t"
    "nodeQueue st' = nodeQueue st" "bucketsPerNodeGroup st' = bucketsPerNodeGroup st" "failuresForGroup st' = failuresForGroup st"
  shows "groups_inv E whole N later (ts @ L) st'"
  using assms by (auto simp: groups_inv_def)

lemma groups_inv_abort:
  assumes "groups_inv E whole N later (t # L) st" "st1 = st \<or> st1 = do_call c st" "\<forall>t' \<in> set ts. sized E whole N t'"
    "\<And>g. before_queue E g t = (if g = gid then 1 else 0) + coming E g ts"
  shows "groups_inv E whole N later (ts @ L) (AbortNodeDeletion now node gid r st1)"
proof -
  have "state_inv E whole N later (ts @ L) (AbortNodeDeletion now node gid r st1) g" for g
    by (rule state_inv_abort [OF _ assms(2,4)]) (use assms(1) in \<open>simp add: groups_inv_def\<close>)
  then show ?thesis using assms(1,3) by (auto simp: groups_inv_def)
qed

lemma new_calls_call: "(\<And>gid ns. c \<noteq> DeleteNodes_call gid ns) \<Longrightarrow> new_calls whole N (do_call c st) st' \<Longrightarrow> new_calls whole N st st'"
  by (rule new_calls_trans [of whole N st "do_call c st"]) (auto simp: new_calls_def)

lemma scheduleDeletion_force_cases:
  assumes "scheduleDeletion E a node g batchSize drain force st = (ts, st')"
  obtains now st1 where "st1 = st \<or> st1 = do_call (ForceDeleteNodes_call (Id (act_provider E) g) (Name node)) st"
    "(\<exists>r. ts = [] \<and> st' = AbortNodeDeletion now node (Id (act_provider E) g) r st1) \<or>
     addToBatcher E now node g batchSize drain (group_options E g = Some True) st1 = (ts, st')"
  using assms by (fastforce simp: scheduleDeletion_def Let_def split: option.splits cp_error.splits if_splits)

lemma schedule_groups:
  assumes "act_inv E belongs (Schedule_Deletion node g batchSize drain force # L) st"
    and inv: "groups_inv E whole N later (Schedule_Deletion node g batchSize drain force # L) st" and "whole_groups E whole"
    and step: "scheduleDeletion E a node g batchSize drain force st = (ts, st')"
  shows "groups_inv E whole N later (ts @ L) st' \<and> new_calls whole N st st'"
proof -
  let ?t = "Schedule_Deletion node g batchSize drain force" and ?gid = "Id (act_provider E) g"
  have ok: "queues_ok (?t # L) st" "1 \<le> batchSize" using assms(1) by (simp_all add: act_inv_def)
  have whole: "(group_options E g = Some True) = whole ?gid" using assms(3) by (simp add: whole_groups_def)
  obtain now st1 where st1: "st1 = st \<or> st1 = do_call (ForceDeleteNodes_call ?gid (Name node)) st"
    "(\<exists>r. ts = [] \<and> st' = AbortNodeDeletion now node ?gid r st1) \<or> addToBatcher E now node g batchSize drain (whole ?gid) st1 = (ts, st')"
    by (rule scheduleDeletion_force_cases [OF step, unfolded whole])
  have calls: "new_calls whole N st1 st' \<Longrightarrow> new_calls whole N st st'" using st1(1) new_calls_call by blast
  from st1(2) show ?thesis
  proof
    assume "\<exists>r. ts = [] \<and> st' = AbortNodeDeletion now node ?gid r st1"
    then obtain r where r: "ts = []" "st' = AbortNodeDeletion now node ?gid r st1" by blast
    have "new_calls whole N st1 st'" unfolding r(2) by (rule abort_calls)
    moreover have "groups_inv E whole N later (ts @ L) st'" unfolding r by (rule groups_inv_abort [OF inv st1(1)]) auto
    ultimately show ?thesis using calls by blast
  next
    assume add: "addToBatcher E now node g batchSize drain (whole ?gid) st1 = (ts, st')"
    have "state_inv E whole N later (ts @ L) st' gid \<and> (\<forall>t \<in> set ts. sized E whole N t)" for gid
      by (rule state_inv_add [where whole = whole and N = N and t = ?t, OF add st1(1) ok]) (use inv in \<open>auto simp: groups_inv_def\<close>)
    then show ?thesis using inv calls addToBatcher_calls [OF add] by (auto simp: groups_inv_def)
  qed
qed

lemma remove_groups:
  assumes inv: "groups_inv E whole N later (Remove_Later gid # L) st" and step: "remove gid st = (ts, st')"
  shows "groups_inv E whole N later (ts @ L) st' \<and> new_calls whole N st st'"
proof (cases "map_of (bucketsPerNodeGroup st) gid")
  case None
  then show ?thesis using assms by (auto simp: remove_def groups_inv_def new_calls_refl)
next
  case (Some nodes)
  have "whole gid \<Longrightarrow> length nodes = N gid" using inv Some by (auto simp: groups_inv_def group_inv_def dest: spec [of _ gid])
  moreover have "state_inv E whole N later (ts @ L) st' g" for g
  proof -
    have "group_inv W n q f b w l \<Longrightarrow> group_inv W n q f None w l" for W n q f b w l by (simp add: group_inv_def)
    moreover have "state_inv E whole N later (Remove_Later gid # L) st g" using inv by (simp add: groups_inv_def)
    ultimately show ?thesis using step Some by (cases "g = gid") (auto simp: remove_def Let_def)
  qed
  ultimately show ?thesis using assms Some by (auto simp: remove_def Let_def groups_inv_def new_calls_refl)
qed

lemma delete_batch_groups:
  assumes "consistent E belongs a" "belongs node = gid" "whole gid \<longrightarrow> length (node # nodes) = N gid"
    and "deleteNodesFromCloudProvider E a (node # nodes) st = Some (result, st')"
  shows "new_calls whole N st st'"
proof (cases "group_answer a node")
  case (Pair g err)
  then show ?thesis using assms
    by (cases err; cases g; cases "delete_error a")
      (auto simp: deleteNodesFromCloudProvider_def consistent_def Let_def new_calls_def)
qed

lemma step_groups:
  assumes act: "act_inv E belongs (t # L) st" and cons: "consistent E belongs a" and whole: "whole_groups E whole"
    and inv: "groups_inv E whole N later (t # L) st" and step: "goroutine_step E a t st = Some (ts, st')"
  shows "groups_inv E whole N later (ts @ L) st' \<and> new_calls whole N st st'"
proof (cases t)
  case (Delete_Async nodes g drain force batchSize)
  then show ?thesis using step inv
    by (auto simp: Let_def new_calls_refl groups_inv_def split: if_splits option.splits)
next
  case (Abort_Each nodes gid drain r)
  show ?thesis
  proof (cases nodes)
    case (Cons node nodes')
    have "groups_inv E whole N later ([Abort_Each nodes' gid drain r] @ L) (AbortNodeDeletion (ans_now a) node gid r st)"
      using Abort_Each Cons by (intro groups_inv_abort [OF inv]) auto
    then show ?thesis using step Abort_Each Cons abort_calls by auto
  qed (use Abort_Each step groups_inv_hand_over [OF inv, of "[]" st] in \<open>auto simp: new_calls_refl\<close>)
next
  case (Each_Node nodes g drain force batchSize)
  have sz: "sized E whole N (Each_Node nodes g drain force batchSize)" using inv Each_Node by (simp add: groups_inv_def)
  show ?thesis
  proof (cases nodes)
    case (Cons node nodes')
    show ?thesis
    proof (cases "node_objection E a drain node")
      case (Some r)
      have "groups_inv E whole N later ([Each_Node nodes' g drain force batchSize] @ L) (AbortNodeDeletion (ans_now a) node (Id (act_provider E) g) r st)"
        using Each_Node Cons sz by (intro groups_inv_abort [OF inv]) auto
      then show ?thesis using step Each_Node Cons Some abort_calls by auto
    next
      case None
      then have "ts = [Each_Node nodes' g drain force batchSize, Schedule_Deletion node g batchSize drain force]" "st' = st"
        using step Each_Node Cons by simp_all
      then show ?thesis using groups_inv_hand_over [OF inv, of ts st'] sz Each_Node Cons by (auto simp: new_calls_refl)
    qed
  qed (use Each_Node step groups_inv_hand_over [OF inv, of "[]" st] in \<open>auto simp: new_calls_refl\<close>)
next
  case (Schedule_Deletion node g batchSize drain force)
  then show ?thesis using schedule_groups [OF act [unfolded Schedule_Deletion] inv [unfolded Schedule_Deletion] whole] step by simp
next
  case (Delete_Batch nodes gid drains)
  then obtain node nodes' where nodes: "nodes = node # nodes'" using act by (cases nodes) (auto simp: act_inv_def)
  have gid: "belongs node = gid" using act Delete_Batch nodes by (force simp: act_inv_def members_ok_def in_progress_goroutines)
  obtain result where del: "deleteNodesFromCloudProvider E a nodes st = Some (result, st')" "ts = [Finish_Batch nodes gid drains result]"
    using step Delete_Batch by (auto split: option.splits)
  have same: "nodeQueue st' = nodeQueue st" "bucketsPerNodeGroup st' = bucketsPerNodeGroup st" "failuresForGroup st' = failuresForGroup st"
    using delete_from_provider [OF cons gid, of nodes' st] del(1) nodes by auto
  have "whole gid \<longrightarrow> length (node # nodes') = N gid" using inv Delete_Batch nodes by (simp add: groups_inv_def)
  from delete_batch_groups [where whole = whole and N = N, OF cons gid this, of st] show ?thesis
    using groups_inv_hand_over [OF inv, of ts st'] del nodes same Delete_Batch by auto
next
  case (Finish_Batch nodes gid drains result)
  show ?thesis
  proof (cases nodes)
    case (Cons node nodes')
    then show ?thesis using Finish_Batch step inv
      by (cases result) (auto simp: end_batch_node_def groups_inv_def new_calls_def RegisterAndRecordSuccessfulScaleDownEvent_def
        CleanUpAndRecordFailedScaleDownEvent_def Let_def)
  qed (use Finish_Batch step inv in \<open>simp add: groups_inv_def new_calls_refl\<close>)
next
  case (Remove_Later gid)
  then show ?thesis using remove_groups [OF inv [unfolded Remove_Later]] step by simp
qed


section \<open>Schedules\<close>

lemma groups_inv_mset:
  assumes "mset L = mset L'" shows "groups_inv E whole N later L st = groups_inv E whole N later L' st"
proof -
  have "coming E gid L = coming E gid L'" for gid using assms unfolding coming_def by (metis mset_map sum_mset_sum_list)
  then show ?thesis using mset_eq_setD [OF assms] by (simp add: groups_inv_def)
qed

lemma groups_inv_threads [simp]: "groups_inv E whole N later L (st\<lparr>act_threads := X\<rparr>) = groups_inv E whole N later L st"
  by (simp add: groups_inv_def)

lemma run_turn_groups:
  assumes "act_inv E belongs (act_threads st) st" "consistent E belongs (snd turn)" "whole_groups E whole"
    "groups_inv E whole N later (act_threads st) st" "run_turn E turn st = Some st'"
  shows "groups_inv E whole N later (act_threads st') st' \<and> new_calls whole N st st'"
proof (cases "act_threads st = []")
  case True
  then show ?thesis using assms by (cases turn) (auto simp: run_turn_def new_calls_refl)
next
  case False
  obtain k a where turn: "turn = (k, a)" by (cases turn)
  show ?thesis
  proof (rule turn_split [OF False assms(5) [unfolded turn]])
    fix t L ts st1
    assume split: "mset (act_threads st) = mset (t # L)" "goroutine_step E a t st = Some (ts, st1)" "mset (act_threads st') = mset (ts @ L)"
      "st' = st1\<lparr>act_threads := act_threads st'\<rparr>"
    have "groups_inv E whole N later (ts @ L) st1 \<and> new_calls whole N st st1"
    proof (rule step_groups [OF _ _ assms(3) _ split(2)])
      show "act_inv E belongs (t # L) st" using assms(1) act_inv_mset [OF split(1), of E belongs st] by simp
      show "groups_inv E whole N later (t # L) st" using assms(4) groups_inv_mset [OF split(1), of E whole N later st] by simp
      show "consistent E belongs a" using assms(2) turn by simp
    qed
    moreover have "groups_inv E whole N later X st' = groups_inv E whole N later X st1" for X by (subst split(4)) simp
    moreover have "act_calls st' = act_calls st1" by (subst split(4)) simp
    ultimately show ?thesis using groups_inv_mset [OF split(3), of E whole N later st'] by (simp add: new_calls_def)
  qed
qed

lemma run_schedule_groups:
  "act_inv E belongs (act_threads st) st \<Longrightarrow> \<forall>turn \<in> set turns. consistent E belongs (snd turn) \<Longrightarrow> whole_groups E whole \<Longrightarrow>
    groups_inv E whole N later (act_threads st) st \<Longrightarrow> run_schedule E turns st = Some st' \<Longrightarrow>
    groups_inv E whole N later (act_threads st') st' \<and> new_calls whole N st st'"
proof (induction turns arbitrary: st)
  case Nil
  then show ?case by (auto simp: new_calls_refl)
next
  case (Cons turn turns)
  obtain st1 where st1: "run_turn E turn st = Some st1" "act_inv E belongs (act_threads st1) st1"
    using run_turn_inv [OF Cons.prems(1), of turn] Cons.prems(2) by auto
  note one = run_turn_groups [OF Cons.prems(1) _ Cons.prems(3,4) st1(1)]
  then show ?case using Cons.IH [OF st1(2) _ Cons.prems(3)] Cons.prems(2,5) st1(1) new_calls_trans by fastforce
qed

section \<open>A scale-down of complete groups\<close>

definition started_count :: "'g act_env \<Rightarrow> 'g NodeGroupView list \<Rightarrow> string \<Rightarrow> nat" where
  "started_count E views gid = length (filter (\<lambda>p. fst p = gid) (view_pairs E views))"

text \<open>The batch size of a view of a group deleted as a whole is the number of its nodes in all views.\<close>

definition complete_views :: "'g act_env \<Rightarrow> (string \<Rightarrow> bool) \<Rightarrow> (string \<Rightarrow> nat) \<Rightarrow> 'g NodeGroupView list \<Rightarrow> bool" where
  "complete_views E whole N views \<longleftrightarrow> (\<forall>v \<in> set views. whole (Id (act_provider E) (Group v)) \<longrightarrow>
     (if BatchSize v = 0 then int (length (View_Nodes v)) else BatchSize v) = int (N (Id (act_provider E) (Group v))))"

lemma coming_delete_async:
  "coming E gid (map (\<lambda>v. Delete_Async (View_Nodes v) (Group v) drain force (BatchSize v)) views) = started_count E views gid"
  by (induction views) (simp_all add: started_count_def view_pairs_def filter_map comp_def)

lemma delete_async_fields:
  fixes st :: "('p, 'g) act_state"
  shows "\<exists>tr. delete_async E drain force views st = st\<lparr>act_tracker := tr,
     act_threads := act_threads st @ map (\<lambda>v. Delete_Async (View_Nodes v) (Group v) drain force (BatchSize v)) views\<rparr>"
proof -
  have nodes: "\<exists>tr. foldl (\<lambda>st node. st\<lparr>act_tracker := f gid (Name node) (act_tracker st)\<rparr>) st ns = st\<lparr>act_tracker := tr\<rparr>"
    for f gid ns and st :: "('p, 'g) act_state"
  proof (induction ns arbitrary: st)
    case Nil
    show ?case by (auto intro: exI [of _ "act_tracker st"])
  next
    case (Cons n ns)
    show ?case using Cons.IH [of "st\<lparr>act_tracker := f gid (Name n) (act_tracker st)\<rparr>"] by auto
  qed
  have "\<exists>tr. foldl (\<lambda>st bucket. foldl (\<lambda>st node. st\<lparr>act_tracker :=
      (if drain then StartDeletionWithDrain else StartDeletion) (Id (act_provider E) (Group bucket)) (Name node) (act_tracker st)\<rparr>)
      st (View_Nodes bucket)) st views = st\<lparr>act_tracker := tr\<rparr>"
  proof (induction views arbitrary: st)
    case Nil
    show ?case by (auto intro: exI [of _ "act_tracker st"])
  next
    case (Cons v views)
    obtain tr where "foldl (\<lambda>st node. st\<lparr>act_tracker :=
      (if drain then StartDeletionWithDrain else StartDeletion) (Id (act_provider E) (Group v)) (Name node) (act_tracker st)\<rparr>)
      st (View_Nodes v) = st\<lparr>act_tracker := tr\<rparr>"
      using nodes [of "if drain then StartDeletionWithDrain else StartDeletion" "Id (act_provider E) (Group v)" st "View_Nodes v"] by blast
    then show ?case using Cons.IH [of "st\<lparr>act_tracker := tr\<rparr>"] by auto
  qed
  then show ?thesis by (auto simp: delete_async_def Let_def)
qed

lemma delete_async_groups:
  fixes drain force
  assumes "groups_inv E whole N (\<lambda>gid. started_count E views gid + later gid) (act_threads st) st" "complete_views E whole N views"
  defines "st' \<equiv> delete_async E drain force views st"
  shows "groups_inv E whole N later (act_threads st') st'" "act_calls st' = act_calls st"
proof -
  obtain tr where st': "st' = st\<lparr>act_tracker := tr,
     act_threads := act_threads st @ map (\<lambda>v. Delete_Async (View_Nodes v) (Group v) drain force (BatchSize v)) views\<rparr>"
    using delete_async_fields unfolding st'_def by blast
  have "group_inv W n q f b w (v + l) \<Longrightarrow> group_inv W n q f b (w + v) l" for W n q f b w v l
    by (simp add: group_inv_def add.assoc)
  then show "groups_inv E whole N later (act_threads st') st'"
    using assms(1,2) by (auto simp: groups_inv_def st' coming_delete_async complete_views_def)
  show "act_calls st' = act_calls st" by (simp add: st')
qed


lemma tainted_calls: "new_calls whole N st (tainted fails views st)"
proof -
  have calls: "foldl (\<lambda>st node. do_call (c node) st) st nodes = st\<lparr>act_calls := act_calls st @ map c nodes\<rparr>"
    for c nodes and st :: "('a, 'b) act_state"
    by (induction nodes arbitrary: st) (auto simp: do_call_def)
  have "whole_calls whole N (map (\<lambda>n. MarkToBeDeleted_call (Name n)) ns)" "whole_calls whole N (map (\<lambda>n. CleanToBeDeleted_call (Name n)) ns)"
    for ns by (auto simp: whole_calls_def)
  then show ?thesis by (auto simp: tainted_def taintNodesSync_def Let_def calls new_calls_def)
qed

lemma tainted_groups [simp]: "groups_inv E whole N later L (tainted fails views st) = groups_inv E whole N later L st"
  by (simp add: groups_inv_def tainted_def)

lemma started_count_append: "started_count E (vs @ ws) = (\<lambda>gid. started_count E vs gid + started_count E ws gid)"
  by (simp add: started_count_def fun_eq_iff)

text \<open>An idle actuator: no goroutine runs and no deletion is in progress.\<close>

definition idle :: "'g act_env \<Rightarrow> ('p, 'g) act_state \<Rightarrow> bool" where
  "idle E st \<longleftrightarrow> act_threads st = [] \<and> remaining E st = {#}"

lemma held_gget: "gm_wf m \<Longrightarrow> held m = [] \<Longrightarrow> gget [] m k = []"
  using held_gdel [of m k] by simp

lemma idle_groups:
  assumes "act_inv E belongs (act_threads st) st" "idle E st" "\<And>gid. whole gid \<Longrightarrow> later gid = N gid"
  shows "groups_inv E whole N later (act_threads st) (ResetAndReportMetrics st)"
proof -
  have "queues_ok [] st" "held (nodeQueue st) = []" using assms(1,2) by (auto simp: act_inv_def idle_def in_progress_def)
  then have "gget [] (nodeQueue st) gid = []" "map_of (bucketsPerNodeGroup st) gid = None" for gid
    using held_gget by (auto simp: queues_ok_def ghas_def)
  then show ?thesis using assms(2,3) by (auto simp: groups_inv_def group_inv_def ResetAndReportMetrics_def idle_def)
qed

lemma startDeletion_groups:
  assumes inv: "act_inv E belongs (act_threads st) st" and idle: "idle E st" and whole: "whole_groups E whole"
    and crop: "CropNodes B (act_tracker st) emptyNodes drainNodes = (ev, dv)" and fresh: "fresh_views E belongs (ev @ dv) (remaining E st)"
    and turns: "\<forall>turn \<in> set meanwhile. consistent E belongs (snd turn)" and taints: "\<not> list_ex fails (views_nodes (ev @ dv))"
    and all: "complete_views E whole (started_count E (ev @ dv)) (ev @ dv)"
    and run: "startDeletion E B fails reported meanwhile emptyNodes drainNodes force st = Some (res, st')"
  defines "N \<equiv> started_count E (ev @ dv)"
  shows "groups_inv E whole N (\<lambda>_. 0) (act_threads st') st' \<and> new_calls whole N st st'"
proof -
  define st0 where "st0 = ResetAndReportMetrics st"
  have st0: "act_inv E belongs (act_threads st0) st0" "act_threads st0 = act_threads st" "remaining E st0 = remaining E st" "act_calls st0 = act_calls st"
    using reset_inv [OF inv] by (simp_all add: st0_def ResetAndReportMetrics_def in_progress_def)
  have none: "\<not> list_ex fails (views_nodes ev)" "\<not> list_ex fails (views_nodes dv)" using taints by (simp_all add: views_nodes_def)
  have comp: "complete_views E whole N ev" "complete_views E whole N dv" using all by (auto simp: complete_views_def N_def)
  have g0: "groups_inv E whole N (\<lambda>gid. started_count E ev gid + (started_count E dv gid + 0)) (act_threads st0) st0"
    using idle_groups [OF inv idle, of whole N N] by (simp add: st0_def [symmetric] st0(2) N_def started_count_append)
  note states = startDeletion_states [OF crop, of E fails reported meanwhile force, folded st0_def]
  show ?thesis
  proof (cases "ev = [] \<and> dv = []")
    case True
    then have "st' = st0" using states run by simp
    then show ?thesis using g0 True st0 by (simp add: started_count_def view_pairs_def new_calls_refl)
  next
    case False
    let ?st1 = "tainted fails ev st0"
    have a1: "act_inv E belongs (act_threads ?st1) ?st1" using st0 by simp
    have "members_ok belongs (mset (view_pairs E dv) + (mset (view_pairs E ev) + remaining E st))"
      using fresh by (simp add: fresh_views_def ac_simps)
    then have fev: "fresh_views E belongs ev (remaining E ?st1)" using fresh st0 members_ok_mono by (auto simp: fresh_views_def)
    note async = delete_async_inv [OF a1 fev, of False force] delete_async_groups [of E whole N ev "\<lambda>gid. started_count E dv gid + 0" ?st1 False force]
    have g1: "groups_inv E whole N (\<lambda>gid. started_count E dv gid + 0) (act_threads (delete_async E False force ev ?st1)) (delete_async E False force ev ?st1)"
      using async(4) g0 comp by simp
    obtain st2 where st2: "run_schedule E meanwhile (delete_async E False force ev ?st1) = Some st2"
      using run_schedule_inv [OF async(1) turns] by blast
    note run2 = run_schedule_groups [OF async(1) turns whole g1 st2]
    have st': "st' = delete_async E True force dv (tainted fails dv st2)" using states run False none st2 by simp
    have g2: "groups_inv E whole N (\<lambda>gid. started_count E dv gid + 0) (act_threads (tainted fails dv st2)) (tainted fails dv st2)" using run2 by simp
    note async2 = delete_async_groups [OF g2 comp(2), of True force, folded st']
    have "new_calls whole N st ?st1" using tainted_calls [of whole N st0 fails ev] by (simp add: new_calls_def st0)
    moreover have "new_calls whole N ?st1 (delete_async E False force ev ?st1)" using async(5) g0 comp by (simp add: new_calls_refl)
    moreover have "new_calls whole N st2 (tainted fails dv st2)" by (rule tainted_calls)
    moreover have "new_calls whole N (tainted fails dv st2) st'" using async2(2) by (rule new_calls_refl)
    ultimately show ?thesis using run2 async2(1) new_calls_trans by metis
  qed
qed


lemma run_schedule_work:
  "act_inv E belongs (act_threads st) st \<Longrightarrow> \<forall>turn \<in> set turns. consistent E belongs (snd turn) \<Longrightarrow>
    run_schedule E turns st = Some st' \<Longrightarrow> total_work st' \<le> total_work st"
proof (induction turns arbitrary: st)
  case (Cons turn turns)
  obtain st1 where st1: "run_turn E turn st = Some st1" "act_inv E belongs (act_threads st1) st1"
    using run_turn_inv [OF Cons.prems(1), of turn] Cons.prems(2) by auto
  have "total_work st1 \<le> total_work st"
  proof (cases "act_threads st = []")
    case True
    then show ?thesis using st1(1) by (cases turn) (simp add: run_turn_def)
  next
    case False
    then show ?thesis using run_turn_work [OF Cons.prems(1) False, of "fst turn" "snd turn" st1] st1(1) by simp
  qed
  moreover have "total_work st' \<le> total_work st1" using Cons.IH [OF st1(2)] Cons.prems(2,3) st1(1) by simp
  ultimately show ?case by linarith
qed simp

definition views_work :: "'g NodeGroupView list \<Rightarrow> nat" where
  "views_work views = sum_list (map (\<lambda>v. 2 + 8 * length (View_Nodes v)) views)"

lemma delete_async_work: "total_work (delete_async E drain force views st) = total_work st + views_work views"
proof -
  obtain tr where "delete_async E drain force views st = st\<lparr>act_tracker := tr,
     act_threads := act_threads st @ map (\<lambda>v. Delete_Async (View_Nodes v) (Group v) drain force (BatchSize v)) views\<rparr>"
    using delete_async_fields by blast
  then show ?thesis by (simp add: total_work_def stored_def views_work_def comp_def)
qed

lemma no_buckets:
  assumes "queues_ok [] st" shows "bucketsPerNodeGroup st = []"
proof (cases "bucketsPerNodeGroup st")
  case (Cons e m)
  then have "ghas (bucketsPerNodeGroup st) (fst e)" by (simp add: ghas_def)
  then show ?thesis using assms unfolding queues_ok_def by auto
qed

lemma idle_work:
  assumes "act_inv E belongs (act_threads st) st" "idle E st"
  shows "total_work (ResetAndReportMetrics st) = 0"
proof -
  have "bucketsPerNodeGroup st = []" using assms no_buckets by (auto simp: act_inv_def idle_def)
  then show ?thesis using assms(2) by (auto simp: total_work_def stored_def ResetAndReportMetrics_def idle_def in_progress_def)
qed

lemma tainted_work [simp]: "total_work (tainted fails views st) = total_work st"
  by (simp add: total_work_def stored_def tainted_def)

lemma startDeletion_work:
  assumes inv: "act_inv E belongs (act_threads st) st" and idle: "idle E st"
    and crop: "CropNodes B (act_tracker st) emptyNodes drainNodes = (ev, dv)" and fresh: "fresh_views E belongs (ev @ dv) (remaining E st)"
    and turns: "\<forall>turn \<in> set meanwhile. consistent E belongs (snd turn)"
    and run: "startDeletion E B fails reported meanwhile emptyNodes drainNodes force st = Some (res, st')"
  shows "total_work st' \<le> views_work ev + views_work dv"
proof -
  define st0 where "st0 = ResetAndReportMetrics st"
  have w0: "total_work st0 = 0" using idle_work [OF inv idle] by (simp add: st0_def)
  have st0: "act_inv E belongs (act_threads st0) st0" "remaining E st0 = remaining E st"
    using reset_inv [OF inv] by (simp_all add: st0_def ResetAndReportMetrics_def in_progress_def)
  have "members_ok belongs (mset (view_pairs E dv) + (mset (view_pairs E ev) + remaining E st))"
    using fresh by (simp add: fresh_views_def ac_simps)
  then have fev: "fresh_views E belongs ev (remaining E (tainted fails ev st0))" using fresh st0 members_ok_mono by (auto simp: fresh_views_def)
  have a1: "act_inv E belongs (act_threads (tainted fails ev st0)) (tainted fails ev st0)" using st0 by simp
  note async = delete_async_inv [OF a1 fev, of False force]
  have "run_schedule E meanwhile (delete_async E False force ev (tainted fails ev st0)) = Some st2 \<Longrightarrow> total_work st2 \<le> views_work ev" for st2
    using run_schedule_work [OF async(1) turns] by (simp add: delete_async_work w0)
  then show ?thesis
    using startDeletion_states [OF crop, of E fails reported meanwhile force, folded st0_def] run w0
    by (force simp: delete_async_work split: if_splits option.splits)
qed

lemma queues_empty:
  assumes "act_inv E belongs [] st" "groups_inv E whole N (\<lambda>_. 0) [] st"
  shows "in_progress E [] st = {#}"
proof -
  have q: "queues_ok [] st" using assms(1) by (simp add: act_inv_def)
  have empty: "gget [] (nodeQueue st) gid = []" for gid
  proof (cases "gget False (failuresForGroup st) gid")
    case True
    then show ?thesis using q by (simp add: queues_ok_def)
  next
    case False
    then show ?thesis using assms(2) by (cases "whole gid") (auto simp: groups_inv_def group_inv_def)
  qed
  have "held m = []" if "gm_wf m" "\<And>gid. gget [] m gid = []" for m :: "(string, node list) gmap"
  proof -
    have "ns = []" if "(gid, ns) \<in> set m" for gid ns
      using map_of_is_SomeI [of m gid ns] \<open>gm_wf m\<close> that \<open>\<And>gid. gget [] m gid = []\<close> [of gid] by (simp add: gm_wf_def gget_def)
    then show ?thesis by (auto simp: held_def)
  qed
  moreover have "bucketsPerNodeGroup st = []" using q by (rule no_buckets)
  ultimately show ?thesis using empty q by (simp add: in_progress_def queues_ok_def)
qed




section \<open>No deletion is lost\<close>

text \<open>
  C5. No deletion is lost and none ends twice: in every state the actuator reaches, over any number of scale-downs and
  any interleaving of their goroutines, no goroutine panics, the tracker counts for every group exactly the deletions
  in progress (those some goroutine, queue or batch is responsible for), no node is being deleted twice, and every
  turn moves deletions from one place to another or ends them with one result each. Assumed: nodes handed to
  \<open>startDeletion\<close> are not being deleted already, and the provider assigns nodes to their groups consistently.
\<close>

theorem no_deletion_is_lost:
  assumes "act_reachable E belongs st" "consistent E belongs a"
  shows "\<exists>st'. run_turn E (k, a) st = Some st' \<and>
     names (remaining E st') + mset (ended (act_tracker st')) = names (remaining E st) + mset (ended (act_tracker st)) \<and>
     (\<forall>gid. DeletionsCount gid (act_tracker st') = int (of_group gid (remaining E st'))) \<and>
     (\<forall>name. count (names (remaining E st')) name \<le> 1)"
  using run_turn_inv [OF act_reachable_inv [OF assms(1)], of "(k, a)"] assms(2)
  by (auto simp: act_inv_def counts_def DeletionsCount_def members_names dest: ends_some_names)

section \<open>A group of two nodes\<close>

definition demo_act_env :: "string act_env" where
  "demo_act_env = \<lparr>act_provider = b_provider (demo_budget_env 5), group_options = (\<lambda>_. Some True), deleteInterval = 1, act_quote = (\<lambda>s. s)\<rparr>"

definition demo_answers :: "string act_answers" where
  "demo_answers = \<lparr>ans_now = 0, snapshot_error = None, pdb_error = None, info_error = None, move_error = None, move_pods = 0,
     move_completion_pods = 0, options_error = None, drain_error = None, delay_error = None, force_error = None,
     group_answer = (\<lambda>_. (Some ''tpu'', None)), delete_error = None\<rparr>"

definition demo_view :: "string \<Rightarrow> string NodeGroupView list" where
  "demo_view name = [\<lparr>Group = ''tpu'', View_Nodes = [budget_node name], BatchSize = 2\<rparr>]"

definition demo_actuator :: "(unit, string) act_state" where
  "demo_actuator = NewActuator 0"

lemma demo_crop:
  "CropNodes (demo_budget_env 5) (act_tracker demo_actuator) [budget_node ''a''] [budget_node ''b''] = (demo_view ''a'', demo_view ''b'')"
  by code_simp

lemma demo_pairs: "view_pairs demo_act_env (demo_view name) = [(''tpu'', budget_node name)]"
  by (simp add: view_pairs_def demo_view_def demo_act_env_def demo_budget_env_def)

lemma demo_consistent: "consistent demo_act_env (\<lambda>_. ''tpu'') demo_answers"
  by (simp add: consistent_def demo_answers_def demo_act_env_def demo_budget_env_def)

lemma demo_fresh: "fresh_views demo_act_env (\<lambda>_. ''tpu'') (demo_view ''a'' @ demo_view ''b'') (remaining demo_act_env demo_actuator)"
  by (simp add: fresh_views_def demo_pairs members_ok_def demo_actuator_def NewActuator_def in_progress_def budget_node_def)
    (simp add: demo_view_def)


theorem no_deletion_is_lost_witness:
  "\<exists>st st' :: (unit, string) act_state. act_reachable demo_act_env (\<lambda>_. ''tpu'') st \<and> act_threads st \<noteq> [] \<and> run_turn demo_act_env (0, demo_answers) st = Some st' \<and>
     names (remaining demo_act_env st') + mset (ended (act_tracker st')) = {#''a'', ''b''#} \<and>
     DeletionsCount ''tpu'' (act_tracker st') = int (of_group ''tpu'' (remaining demo_act_env st'))"
proof -
  have new: "act_reachable demo_act_env (\<lambda>_. ''tpu'') demo_actuator" unfolding demo_actuator_def by (rule act_reachable.new)
  obtain res st where st: "startDeletion demo_act_env (demo_budget_env 5) (\<lambda>_. False) (\<lambda>_. True) [] [budget_node ''a''] [budget_node ''b''] False demo_actuator
      = Some (res, st)" "names (remaining demo_act_env st) + mset (ended (act_tracker st)) =
      names (mset (view_pairs demo_act_env (demo_view ''a'' @ demo_view ''b''))) + names (remaining demo_act_env demo_actuator) + mset (ended (act_tracker demo_actuator))"
    using startDeletion_inv [OF act_reachable_inv [OF new] _ demo_crop demo_fresh, of "[]" "\<lambda>_. False" "\<lambda>_. True" False]
    by (auto simp: started_views_def list_ex_iff)
  have reach: "act_reachable demo_act_env (\<lambda>_. ''tpu'') st" by (rule act_reachable.start [OF new demo_crop demo_fresh _ st(1)]) simp
  have "map_option (\<lambda>(res, st). act_threads st = []) (startDeletion demo_act_env (demo_budget_env 5) (\<lambda>_. False) (\<lambda>_. True) []
      [budget_node ''a''] [budget_node ''b''] False demo_actuator) = Some False" by code_simp
  then have "act_threads st \<noteq> []" using st(1) by simp
  moreover have "names (remaining demo_act_env st) + mset (ended (act_tracker st)) = {#''a'', ''b''#}"
    using st(2) by (simp add: demo_pairs budget_node_def demo_actuator_def NewActuator_def NewNodeDeletionTracker_def in_progress_def ToSlice_def)
  ultimately show ?thesis using no_deletion_is_lost [OF reach demo_consistent, of 0] reach by auto
qed


section \<open>Deletions that wait forever\<close>

text \<open>
  Traces outside the conditions of the theorem above. First: a group of target size three with two registered
  nodes, one empty and one to drain. The batch size is the target size, since the comparison with the
  registered nodes leaves out the nodes to drain; so the queue waits for a third node although no goroutine is left.
\<close>

definition unregistered_env :: "string budget_env" where
  "unregistered_env = (demo_budget_env 5)\<lparr>b_provider := (b_provider (demo_budget_env 5))\<lparr>TargetSize := \<lambda>_. (3, None)\<rparr>\<rparr>"

theorem mixed_group_waits_forever:
  "(case startDeletion demo_act_env unregistered_env (\<lambda>_. False) (\<lambda>_. True) [] [budget_node ''a''] [budget_node ''b''] False demo_actuator of
      None \<Rightarrow> None | Some ((res, _), st) \<Rightarrow> map_option (\<lambda>st. (res, act_threads st, map Name (gget [] (nodeQueue st) ''tpu''), DeletionsCount ''tpu'' (act_tracker st)))
        (run_schedule demo_act_env (replicate 20 (0, demo_answers)) st)) =
   Some (ScaleDownNodeDeleteStarted, [], [''a'', ''b''], 2)"
  by code_simp

text \<open>
  Second: the empty node of a group is queued, then its node to drain cannot be marked. Nothing takes the empty node back. The
  error counts no node.
\<close>

theorem failed_taint_strands_empty_node:
  "map_option (\<lambda>((res, _, err), st). (res, err, act_threads st, map Name (gget [] (nodeQueue st) ''tpu'')))
     (startDeletion demo_act_env (demo_budget_env 5) (\<lambda>node. Name node = ''b'') (\<lambda>_. True) (replicate 10 (0, demo_answers))
        [budget_node ''a''] [budget_node ''b''] False demo_actuator) =
   Some (ScaleDownError, Some (NewAutoscalerError ''apiCallError'' ''couldn't taint 0 nodes with ToBeDeleted''), [], [''a''])"
  by code_simp

text \<open>
  Third: a node of the group fails, and before the goroutine of the other one comes to the queue, a call that deletes nothing
  forgets the failure.
\<close>

theorem reset_strands_node:
  "(case startDeletion demo_act_env (demo_budget_env 5) (\<lambda>_. False) (\<lambda>_. True) [] [budget_node ''a''] [budget_node ''b''] False demo_actuator of
      None \<Rightarrow> None | Some (_, st) \<Rightarrow>
        case run_schedule demo_act_env (replicate 2 (0, demo_answers\<lparr>info_error := Some ''gone''\<rparr>)) st of
          None \<Rightarrow> None | Some st \<Rightarrow>
            case startDeletion demo_act_env (demo_budget_env 5) (\<lambda>_. False) (\<lambda>_. True) [] [] [] False st of
              None \<Rightarrow> None | Some ((res, _), st) \<Rightarrow> map_option (\<lambda>st. (res, act_threads st, ended (act_tracker st), map Name (gget [] (nodeQueue st) ''tpu'')))
                (run_schedule demo_act_env (replicate 20 (0, demo_answers)) st)) =
   Some (ScaleDownNoNodeDeleted, [], [''a''], [''b''])"
  by code_simp

text \<open>Last: a node whose drain fails is deleted by force and then once more with its group.\<close>

theorem forced_node_deleted_twice:
  "(case startDeletion demo_act_env (demo_budget_env 5) (\<lambda>_. False) (\<lambda>_. True) [] [budget_node ''a''] [budget_node ''b''] True demo_actuator of
      None \<Rightarrow> None | Some (_, st) \<Rightarrow>
        map_option (\<lambda>st. filter (\<lambda>c. c = ForceDeleteNodes_call ''tpu'' ''b'' \<or> c = DeleteNodes_call ''tpu'' [''a'', ''b'']) (act_calls st))
          (run_schedule demo_act_env (replicate 20 (0, demo_answers\<lparr>drain_error := Some (NewAutoscalerError TransientError ''blocked'')\<rparr>)) st)) =
   Some [ForceDeleteNodes_call ''tpu'' ''b'', DeleteNodes_call ''tpu'' [''a'', ''b'']]"
  by code_simp

end
