(* ===== verification/Spec2Isabelle.thy ===== *)
theory Spec2Isabelle
  imports Patch_Sets Snapshot_Equivalence Cluster_Status Scale_Down_Budgets Quota_Tracker Unneeded_Nodes Group_Similarity Drainability Scale_Up_Props Estimator_Props Expander_Props Actuation_Groups
begin

text \<open>
  A verification library for the provider-agnostic core of the Kubernetes Cluster Autoscaler (src/pkg).

  \<^bold>\<open>The program.\<close> A control loop observes the cluster and the cloud provider and changes the sizes of node
  groups. The cluster state registry (clusterstate) turns what it sees into readiness counts, acceptable
  ranges, open scale-up and scale-down requests and backoffs. A scale-up (core/scaleup) groups the pending
  pods, asks an estimator and an expander what to grow, caps the choice by the maximal number of nodes, by the
  maximal group sizes and by resource quotas (resourcequotas), spreads the nodes over similar groups
  (processors/nodegroupset) and calls the provider, group by group or in parallel. A scale-down
  (core/scaledown) keeps track of unneeded nodes, checks which pods can be moved (simulator/drainability),
  disruption budgets, minimal sizes and parallelism budgets, and marks and deletes nodes. Both simulate on a
  snapshot of the cluster that can be forked, reverted and committed (simulator/clustersnapshot). All of them
  see the provider through an interface (cloudprovider).

  \<^bold>\<open>Conventions.\<close> Go maps are association lists with distinct keys (\<open>gmap\<close>, theory CA_Prelude), read through
  \<open>map_of\<close>; a range loop visits them in list order, and the properties hold for every order. A slice is a list,
  a pointer that may be nil an option, an error a value of an option or sum type, a panic \<open>None\<close>. Times are
  integers in nanoseconds; \<open>int\<close>, \<open>int64\<close> and \<open>int32\<close> values wrap around where the code computes with unbounded
  quantities (\<open>int64\<close>, \<open>int32\<close>), \<open>float64\<close> is rounded to 53 bits (theory Go_Values). The cloud provider,
  the API server, the scheduler predicates, the estimator and the expander are interfaces: they are fields of
  environment records, and what a theorem assumes of them is a named hypothesis (\<open>unique_ids\<close>, \<open>steady\<close>,
  \<open>bounded_resources\<close>, \<open>sort_ok\<close> and others). Locks make the operations of a component atomic; where the code runs
  goroutines over shared state, their interleavings are schedules. Logs, events and metrics are left out.

  \<^bold>\<open>Theories.\<close> The properties are theorems with a number (C1 to C40) in the text before them.
  \<^item> \<open>CA_Prelude\<close>: Go maps, machines with outputs, the locale \<open>forkable\<close> of components that can be forked.
  \<^item> \<open>Patch_Sets\<close> (simulator/common): layered patches with a cache; refinement of a stack of maps.
  \<^item> \<open>Snapshot_Api\<close>, \<open>Basic_Snapshot\<close>, \<open>Delta_Snapshot\<close>, \<open>Snapshot_Equivalence\<close> (simulator/clustersnapshot): the two
    snapshot stores and \<open>WithForkedSnapshot\<close>; both interpret \<open>forkable\<close>, the delta store with its three caches
    answers like the basic store for every history.
  \<^item> \<open>Go_Values\<close>, \<open>Cloud_Provider\<close>: values of the language, nodes, instances, the provider interface.
  \<^item> \<open>Backoff\<close> (utils/backoff): the locale \<open>backoff_contract\<close> and its implementation.
  \<^item> \<open>Node_Readiness\<close> (utils/kubernetes/ready.go), \<open>Taints_Util\<close> (utils/taints): readiness of nodes, and marks written
    against an API server whose answers are a script.
  \<^item> \<open>Cluster_State\<close>, \<open>Cluster_State_Props\<close>, \<open>Cluster_Status\<close> (clusterstate, observers/nodegroupchange): the
    registry, its instance cache, the notifier, and the published status. A step relation over all operations
    gives the reachable states.
  \<^item> \<open>Deletion_Tracker\<close>, \<open>Scale_Down_Budgets\<close>, \<open>Unneeded_Nodes\<close> (core/scaledown): deletions in progress, budgets,
    unneeded and unremovable nodes.
  \<^item> \<open>Quota_Tracker\<close> (resourcequotas, cloudprovider/resource_limiter.go): quotas, usage, and the resource limiter.
  \<^item> \<open>Balancing\<close>, \<open>Group_Similarity\<close> (processors/nodegroupset): spreading nodes over similar groups.
  \<^item> \<open>Drainability\<close> (simulator/drainability, simulator/drain.go, utils/drain, core/scaledown/pdb): rules that decide
    which pods can be moved, and disruption budgets.
  \<^item> \<open>Autoscaler_Errors\<close> (utils/errors), \<open>Pod_Groups\<close> (core/scaleup/equivalence): errors, and groups of equal pods.
  \<^item> \<open>Scale_Up_Plan\<close>, \<open>Scale_Up_Execution\<close>, \<open>Scale_Up_Execution_Props\<close>, \<open>Scale_Up_Props\<close> (core/scaleup/orchestrator):
    the plan of a scale-up with all its limits, its execution in both modes, and the two together.
  \<^item> \<open>Estimator\<close>, \<open>Estimator_Props\<close> (estimator): the binpacking estimator with its limiter, thresholds and fast path, over
    any snapshot, a parameter: it keeps the limits and, without limits, places all pods.
  \<^item> \<open>Expander\<close>, \<open>Expander_Props\<close> (expander): the factory and the chain of filters; the locale \<open>best_filter\<close> is interpreted
    for the filters by waste, nodes and pods, and the chain picks the lexicographically best options.
  \<^item> \<open>Actuation\<close>, \<open>Actuation_Props\<close>, \<open>Actuation_Groups\<close> (core/scaledown/actuation): marking nodes, the goroutines that delete
    them, the scheduler for groups deleted as a whole and the batcher. \<open>goroutine_step\<close> is one turn of a goroutine,
    \<open>run_schedule\<close> an interleaving, \<open>act_reachable\<close> the states over any number of scale-downs. No deletion is lost,
    and a scale-down of complete groups ends. The last section traces where deletions wait forever otherwise.

  The plan of a scale-up takes the answers of an estimator and an expander as parameters, as the code does
  through its interfaces; the two components have their own theories.

  \<^bold>\<open>Bounds and fuel.\<close> Quota arithmetic is on 64 bits: the theorems assume that a node has at most \<open>B\<close> units of a
  resource and that the number of nodes asked for times \<open>B\<close> is below $2^{63}$, which is the range in which the code
  does not wrap around. Balancing terminates by a measure (capacity left, then position). The retry loops on
  the API server run over the script of its answers and stop at the deadline. A goroutine of the executor
  makes at most four steps, so four turns each are enough for every schedule. Every turn of the actuator lowers
  \<open>total_work\<close>, so a schedule of \<open>views_work\<close> turns (two for each group and eight for each node) is long enough.

  \<^bold>\<open>Not modelled.\<close> The providers under cloudprovider (azure, gce, clusterapi, externalgrpc, kwok) and their router are
  clients of services behind the provider interface. metrics, config, context, builder, loop, debuggingsnapshot
  and main.go are input, output and wiring. core/static_autoscaler.go, the planner and eligibility
  of scale-down, the pod list processors, the predicate snapshot and the hinting simulator run the plugins
  of kube-scheduler, a third-party package; dynamicresources and csi keep books for them. Eviction is a loop of API calls, for the
  actuation an answer. capacitybuffer, provisioningrequest and resourcequotas/capacityquota are controllers over custom resources.
  The other processors are extension points with thin defaults, parameters where the modelled code calls them; of
  expander the filters by price and by gRPC ask services; of utils what the modelled code does not use is left out.
\<close>

end
